(* ===== verification/Prelude.thy ===== *)
theory Prelude
  imports Complex_Main "HOL-Library.AList"
begin

text \<open>
  Shared vocabulary of the development.

  \<^item> \<open>error\<close> and \<open>result\<close>: every \<open>throw\<close> of the TypeScript source is a value \<open>Inl e\<close>.
  \<^item> \<open>json\<close>: JSON values; an object is an association list in insertion order, which is the
    order \<open>Object.entries\<close> gives for keys that are not array indices.
  \<^item> JavaScript objects used as dictionaries (\<open>Record<string, T>\<close>) are association lists as well.
    \<open>AList.update\<close> overwrites in place or appends, as a property assignment does. A plain object
    also answers to the names of \<open>Object.prototype\<close>; code that tests \<open>record[key] !== undefined\<close>
    is modelled with \<open>js_has\<close>, which knows those names.
  \<^item> decimal rendering of numbers, array splicing and the string helpers the components share.

  JavaScript strings are modelled as \<open>string\<close>; one \<open>char\<close> stands for one code unit below 256.
\<close>

subsection \<open>Errors and results\<close>

datatype error =
    EntityNotFound string string     \<comment> \<open>ApplicationError, ErrorCode.ENTITY_NOT_FOUND: id, message\<close>
  | OperationInvalid string          \<comment> \<open>ApplicationError, ErrorCode.WORKFLOW_OPERATION_INVALID\<close>
  | TypeError string                 \<comment> \<open>a JavaScript TypeError: reading a property of undefined\<close>
  | StackOverflow                    \<comment> \<open>RangeError: Maximum call stack size exceeded\<close>
  | EngineGenericError string string \<comment> \<open>name, message\<close>
  | UserError string string          \<comment> \<open>ExecutionError of type USER: name, message\<close>
  | PlainError string                \<comment> \<open>throw new Error(message)\<close>

type_synonym 'a result = "error + 'a"

named_theorems result_simps \<open>rewrite rules for the result type\<close>

definition rbind :: "'a result \<Rightarrow> ('a \<Rightarrow> 'b result) \<Rightarrow> 'b result" where
  "rbind r k = (case r of Inl e \<Rightarrow> Inl e | Inr x \<Rightarrow> k x)"

lemma rbind_simps [simp, result_simps]:
  "rbind (Inl e) k = Inl e"
  "rbind (Inr x) k = k x"
  by (simp_all add: rbind_def)

lemma rbind_eq_Inr [result_simps]: "rbind r k = Inr y \<longleftrightarrow> (\<exists>x. r = Inr x \<and> k x = Inr y)"
  by (cases r) auto

lemma rbind_cong [fundef_cong]:
  "r = r' \<Longrightarrow> (\<And>x. r' = Inr x \<Longrightarrow> k x = k' x) \<Longrightarrow> rbind r k = rbind r' k'"
  by (cases r') auto

text \<open>An optional child: the call is made only when there is one.\<close>

definition rmap_option :: "('a \<Rightarrow> 'b result) \<Rightarrow> 'a option \<Rightarrow> 'b option result" where
  "rmap_option f x = (case x of None \<Rightarrow> Inr None | Some a \<Rightarrow> rbind (f a) (\<lambda>b. Inr (Some b)))"

lemma rmap_option_simps [simp]:
  "rmap_option f None = Inr None"
  "rmap_option f (Some a) = rbind (f a) (\<lambda>b. Inr (Some b))"
  by (simp_all add: rmap_option_def)

lemma rmap_option_cong [fundef_cong]:
  "x = y \<Longrightarrow> (\<And>a. y = Some a \<Longrightarrow> f a = g a) \<Longrightarrow> rmap_option f x = rmap_option g y"
  by (cases y) auto

lemma rmap_option_Inr_id: "(\<And>a. x = Some a \<Longrightarrow> f a = Inr a) \<Longrightarrow> rmap_option f x = Inr x"
  by (cases x) auto

text \<open>\<open>Array.prototype.map\<close> with a callback that may throw.\<close>

fun rmap_list :: "('a \<Rightarrow> 'b result) \<Rightarrow> 'a list \<Rightarrow> 'b list result" where
  "rmap_list f [] = Inr []"
| "rmap_list f (x # xs) = rbind (f x) (\<lambda>y. rbind (rmap_list f xs) (\<lambda>ys. Inr (y # ys)))"

lemma rmap_list_cong [fundef_cong]:
  "xs = ys \<Longrightarrow> (\<And>a. a \<in> set ys \<Longrightarrow> f a = g a) \<Longrightarrow> rmap_list f xs = rmap_list g ys"
  by (induction ys arbitrary: xs) auto

lemma rmap_list_Inr_id: "(\<And>a. a \<in> set xs \<Longrightarrow> f a = Inr a) \<Longrightarrow> rmap_list f xs = Inr xs"
  by (induction xs) auto

lemma rmap_list_Inr_map: "(\<And>a. a \<in> set xs \<Longrightarrow> f a = Inr (g a)) \<Longrightarrow> rmap_list f xs = Inr (map g xs)"
  by (induction xs) auto

lemma rmap_list_length: "rmap_list f xs = Inr ys \<Longrightarrow> length ys = length xs"
  by (induction xs arbitrary: ys) (auto simp: rbind_eq_Inr)

text \<open>A \<open>for\<close> loop whose body may throw: the first error stops it.\<close>

fun rfold :: "('s \<Rightarrow> 'a \<Rightarrow> 's result) \<Rightarrow> 's \<Rightarrow> 'a list \<Rightarrow> 's result" where
  "rfold f s [] = Inr s"
| "rfold f s (x # xs) = rbind (f s x) (\<lambda>s'. rfold f s' xs)"

lemma rfold_cong [fundef_cong]:
  "s = t \<Longrightarrow> xs = ys \<Longrightarrow> (\<And>u a. a \<in> set ys \<Longrightarrow> f u a = g u a) \<Longrightarrow> rfold f s xs = rfold g t ys"
proof (induction ys arbitrary: s t xs)
  case Nil
  then show ?case by simp
next
  case (Cons y ys)
  have "rfold f u ys = rfold g u ys" for u using Cons.IH [of u u ys] Cons.prems(3) by simp
  with Cons.prems show ?case by simp
qed

lemma rfold_append: "rfold f s (xs @ ys) = rbind (rfold f s xs) (\<lambda>t. rfold f t ys)"
proof (induction xs arbitrary: s)
  case Nil
  then show ?case by simp
next
  case (Cons x xs)
  then show ?case by (cases "f s x") simp_all
qed

lemma map_option_idI: "(\<And>a. x = Some a \<Longrightarrow> f a = a) \<Longrightarrow> map_option f x = x"
  by (cases x) auto

lemma map_map_option_idI: "(\<And>a. Some a \<in> set xs \<Longrightarrow> f a = a) \<Longrightarrow> map (map_option f) xs = xs"
  by (rule map_idI, rule map_option_idI) auto

subsection \<open>JSON values and JavaScript objects\<close>

datatype json =
    JNull
  | JBool bool
  | JNum rat
  | JStr string
  | JArr "json list"
  | JObj "(string \<times> json) list"

type_synonym json_obj = "(string \<times> json) list"
type_synonym 'a js_record = "(string \<times> 'a) list"

text \<open>The names a plain object inherits from \<open>Object.prototype\<close>.\<close>

definition object_prototype_keys :: "string list" where
  "object_prototype_keys =
     [''constructor'', ''__defineGetter__'', ''__defineSetter__'', ''hasOwnProperty'',
      ''__lookupGetter__'', ''__lookupSetter__'', ''isPrototypeOf'', ''propertyIsEnumerable'',
      ''toString'', ''valueOf'', ''__proto__'', ''toLocaleString'']"

text \<open>\<open>record[key] !== undefined\<close> on a plain object whose own values are never undefined.\<close>

definition js_has :: "'a js_record \<Rightarrow> string \<Rightarrow> bool" where
  "js_has r k \<longleftrightarrow> k \<in> set (map fst r) \<or> k \<in> set object_prototype_keys"

lemma js_has_own: "k \<notin> set object_prototype_keys \<Longrightarrow> js_has r k \<longleftrightarrow> k \<in> set (map fst r)"
  by (simp add: js_has_def)

lemma map_of_eq_None_keys: "map_of r k = None \<longleftrightarrow> k \<notin> set (map fst r)"
  by (simp add: map_of_eq_None_iff)

lemma keys_update: "set (map fst (AList.update k v r)) = insert k (set (map fst r))"
  by (simp add: dom_update)

lemma distinct_keys_update: "distinct (map fst r) \<Longrightarrow> distinct (map fst (AList.update k v r))"
  by (rule distinct_update)

lemma fst_update_new: "k \<notin> set (map fst r) \<Longrightarrow> AList.update k v r = r @ [(k, v)]"
  by (induction r) auto

lemma foldl_update_new:
  "distinct (map fst (acc @ es)) \<Longrightarrow> foldl (\<lambda>r (k, v). AList.update k v r) acc es = acc @ es"
proof (induction es arbitrary: acc)
  case (Cons e es)
  obtain k v where e: "e = (k, v)" by (cases e)
  then have "AList.update k v acc = acc @ [(k, v)]" using Cons.prems by (intro fst_update_new) auto
  with Cons.IH [of "acc @ [(k, v)]"] Cons.prems e show ?case by simp
qed simp

subsection \<open>Array helpers\<close>

text \<open>
  \<open>slice(0, i)\<close> and \<open>slice(i)\<close> with JavaScript's clamping: a negative index counts from the end,
  an index past the end is the length.
\<close>

definition slice_index :: "nat \<Rightarrow> int \<Rightarrow> nat" where
  "slice_index n i = (if i < 0 then nat (max 0 (int n + i)) else min n (nat i))"

lemma slice_index_le [simp]: "slice_index n i \<le> n"
  by (auto simp: slice_index_def)

lemma slice_index_nat [simp]: "i \<le> n \<Longrightarrow> slice_index n (int i) = i"
  by (simp add: slice_index_def)

text \<open>\<open>array.filter((_, index) => index !== i)\<close>.\<close>

definition remove_index :: "int \<Rightarrow> 'a list \<Rightarrow> 'a list" where
  "remove_index i xs = (if 0 \<le> i \<and> nat i < length xs then take (nat i) xs @ drop (Suc (nat i)) xs else xs)"

lemma length_remove_index:
  "length (remove_index i xs) = (if 0 \<le> i \<and> nat i < length xs then length xs - 1 else length xs)"
  by (auto simp: remove_index_def)

lemma remove_index_zip:
  "length xs = length ys \<Longrightarrow> zip (remove_index i xs) (remove_index i ys) = remove_index i (zip xs ys)"
  by (simp add: remove_index_def take_zip drop_zip)

text \<open>
  \<open>array[i] = v\<close>: in range it overwrites, past the end the array grows (the holes read back as
  \<open>null\<close> through JSON), a negative index sets a property that is not an element.
\<close>

definition array_assign :: "'a option list \<Rightarrow> int \<Rightarrow> 'a \<Rightarrow> 'a option list" where
  "array_assign xs i v =
     (if i < 0 then xs
      else if nat i < length xs then xs[nat i := Some v]
      else xs @ replicate (nat i - length xs) None @ [Some v])"

definition array_read :: "'a option list \<Rightarrow> int \<Rightarrow> 'a option" where
  "array_read xs i = (if 0 \<le> i \<and> nat i < length xs then xs ! nat i else None)"

subsection \<open>Decimal rendering\<close>

definition digit_char :: "nat \<Rightarrow> char" where
  "digit_char d = char_of (48 + d)"

fun show_nat :: "nat \<Rightarrow> string" where
  "show_nat n = (if n < 10 then [digit_char n] else show_nat (n div 10) @ [digit_char (n mod 10)])"

declare show_nat.simps [simp del]

lemma digit_char_inj: "d < 10 \<Longrightarrow> e < 10 \<Longrightarrow> digit_char d = digit_char e \<Longrightarrow> d = e"
  by (simp add: digit_char_def)

lemma show_nat_nonempty: "show_nat n \<noteq> []"
  by (subst show_nat.simps) simp

lemma show_nat_length_Suc: "10 \<le> n \<Longrightarrow> 1 < length (show_nat n)"
  using show_nat_nonempty [of "n div 10"] by (subst show_nat.simps) simp

lemma show_nat_inj: "show_nat m = show_nat n \<Longrightarrow> m = n"
proof (induction m arbitrary: n rule: show_nat.induct)
  case (1 m)
  show ?case
  proof (cases "m < 10")
    case True
    then have m: "show_nat m = [digit_char m]" by (simp add: show_nat.simps [of m])
    with "1.prems" have "\<not> 10 \<le> n" using show_nat_length_Suc [of n] by (auto simp del: length_0_conv dest: arg_cong [where f = length])
    with m "1.prems" have "digit_char m = digit_char n" by (simp add: show_nat.simps [of n])
    with True \<open>\<not> 10 \<le> n\<close> show ?thesis by (simp add: digit_char_inj)
  next
    case False
    then have "1 < length (show_nat m)" using show_nat_length_Suc [of m] by simp
    with "1.prems" have n: "\<not> n < 10" by (auto simp: show_nat.simps [of n])
    from False n "1.prems" have
      "show_nat (m div 10) = show_nat (n div 10)" and d: "digit_char (m mod 10) = digit_char (n mod 10)"
      by (simp_all add: show_nat.simps [of m] show_nat.simps [of n])
    with "1.IH" False have "m div 10 = n div 10" by simp
    moreover from d have "m mod 10 = n mod 10" by (simp add: digit_char_inj)
    ultimately show ?thesis by (metis div_mult_mod_eq)
  qed
qed

lemma inj_show_nat: "inj show_nat"
  by (rule injI) (rule show_nat_inj)

subsection \<open>Characters and prefixes\<close>

definition is_digit :: "char \<Rightarrow> bool" where
  "is_digit c \<longleftrightarrow> 48 \<le> (of_char c :: nat) \<and> (of_char c :: nat) \<le> 57"

definition is_upper :: "char \<Rightarrow> bool" where
  "is_upper c \<longleftrightarrow> 65 \<le> (of_char c :: nat) \<and> (of_char c :: nat) \<le> 90"

definition is_lower :: "char \<Rightarrow> bool" where
  "is_lower c \<longleftrightarrow> 97 \<le> (of_char c :: nat) \<and> (of_char c :: nat) \<le> 122"

definition to_lower :: "char \<Rightarrow> char" where
  "to_lower c = (if is_upper c then char_of ((of_char c :: nat) + 32) else c)"

definition to_upper :: "char \<Rightarrow> char" where
  "to_upper c = (if is_lower c then char_of ((of_char c :: nat) - 32) else c)"

fun starts_with :: "string \<Rightarrow> string \<Rightarrow> bool" where
  "starts_with s [] = True"
| "starts_with [] (p # ps) = False"
| "starts_with (c # cs) (p # ps) = (c = p \<and> starts_with cs ps)"

lemma starts_with_iff: "starts_with s p \<longleftrightarrow> (\<exists>t. s = p @ t)"
  by (induction s p rule: starts_with.induct) auto

lemma starts_with_append [simp]: "starts_with (p @ t) p"
  by (auto simp: starts_with_iff)

definition ends_with :: "string \<Rightarrow> string \<Rightarrow> bool" where
  "ends_with s p = starts_with (rev s) (rev p)"

text \<open>\<open>String.prototype.trim\<close> on the white space of the ASCII range.\<close>

definition is_space :: "char \<Rightarrow> bool" where
  "is_space c \<longleftrightarrow> (of_char c :: nat) \<in> {9, 10, 11, 12, 13, 32, 160}"

definition trim :: "string \<Rightarrow> string" where
  "trim s = rev (dropWhile is_space (rev (dropWhile is_space s)))"

lemma trim_length: "length (trim s) \<le> length s"
  unfolding trim_def by (metis length_dropWhile_le length_rev order_trans)

lemma is_digit_digit_char: "d < 10 \<Longrightarrow> is_digit (digit_char d)"
  by (simp add: is_digit_def digit_char_def)

lemma show_nat_digits: "\<forall>c \<in> set (show_nat n). is_digit c"
proof (induction n rule: show_nat.induct)
  case (1 n)
  then show ?case
    by (cases "n < 10") (simp_all add: show_nat.simps [of n] is_digit_digit_char)
qed

end
