(* ===== verification/JS_Number.thy ===== *)
theory JS_Number
  imports Prelude
begin

text \<open>
  The conversion \<open>Number(string)\<close> of the language: white space is trimmed, the empty string is 0, and
  the accepted forms are an optionally signed decimal with fraction and exponent, \<open>Infinity\<close> and the
  prefixed binary, octal and hexadecimal integers. Finite values are exact rationals: the rounding of
  values that need more than 53 bits is not modelled. A magnitude at or above \<open>2 ^ 1024\<close> is infinite.
\<close>

datatype js_num = NaN | Inf bool | Fin rat

definition digit_value :: "char \<Rightarrow> nat" where
  "digit_value c = of_char c - 48"

definition digits_value :: "string \<Rightarrow> nat" where
  "digits_value ds = foldl (\<lambda>a c. a * 10 + digit_value c) 0 ds"

definition finite_num :: "rat \<Rightarrow> js_num" where
  "finite_num v = (if v \<ge> 2 ^ 1024 then Inf True else if v \<le> - (2 ^ 1024) then Inf False else Fin v)"

text \<open>The exponent part: nothing, or \<open>e\<close> with an optional sign and at least one digit.\<close>

definition exponent_of :: "string \<Rightarrow> int option" where
  "exponent_of s = (case s of
       [] \<Rightarrow> Some 0
     | c # r \<Rightarrow>
         if c \<noteq> CHR ''e'' \<and> c \<noteq> CHR ''E'' then None
         else let (neg, ds) = (case r of
                   [] \<Rightarrow> (False, [])
                 | d # r' \<Rightarrow> if d = CHR ''-'' then (True, r') else if d = CHR ''+'' then (False, r') else (False, r))
              in if ds = [] \<or> \<not> list_all is_digit ds then None
                 else Some (if neg then - int (digits_value ds) else int (digits_value ds)))"

definition scale10 :: "rat \<Rightarrow> int \<Rightarrow> rat" where
  "scale10 m e = (if 0 \<le> e then m * 10 ^ nat e else m / 10 ^ nat (- e))"

definition unsigned_decimal :: "string \<Rightarrow> js_num" where
  "unsigned_decimal s =
     (if s = ''Infinity'' then Inf True
      else let i = takeWhile is_digit s; r = dropWhile is_digit s;
               f = (case r of c # r' \<Rightarrow> if c = CHR ''.'' then takeWhile is_digit r' else [] | [] \<Rightarrow> []);
               r2 = (case r of c # r' \<Rightarrow> if c = CHR ''.'' then dropWhile is_digit r' else r | [] \<Rightarrow> [])
           in if i = [] \<and> f = [] then NaN
              else case exponent_of r2 of
                  None \<Rightarrow> NaN
                | Some e \<Rightarrow> finite_num (scale10 (of_nat (digits_value i) + of_nat (digits_value f) / 10 ^ length f) e))"

definition js_negate :: "js_num \<Rightarrow> js_num" where
  "js_negate v = (case v of NaN \<Rightarrow> NaN | Inf p \<Rightarrow> Inf (\<not> p) | Fin q \<Rightarrow> Fin (- q))"

text \<open>The digits of a binary, octal or hexadecimal literal.\<close>

definition radix_digit :: "char \<Rightarrow> nat" where
  "radix_digit c =
     (if is_digit c then digit_value c
      else if is_lower c then of_char c - 87
      else if is_upper c then of_char c - 55
      else 36)"

definition radix_literal :: "nat \<Rightarrow> string \<Rightarrow> js_num" where
  "radix_literal b ds =
     (if ds = [] \<or> \<not> list_all (\<lambda>c. radix_digit c < b) ds then NaN
      else finite_num (of_nat (foldl (\<lambda>a c. a * b + radix_digit c) 0 ds)))"

definition js_number :: "string \<Rightarrow> js_num" where
  "js_number str =
     (let s = trim str in
      case s of
        [] \<Rightarrow> Fin 0
      | c # r \<Rightarrow>
          if c = CHR ''-'' then js_negate (unsigned_decimal r)
          else if c = CHR ''+'' then unsigned_decimal r
          else if c = CHR ''0'' \<and> r \<noteq> [] \<and> to_lower (hd r) = CHR ''x'' then radix_literal 16 (tl r)
          else if c = CHR ''0'' \<and> r \<noteq> [] \<and> to_lower (hd r) = CHR ''o'' then radix_literal 8 (tl r)
          else if c = CHR ''0'' \<and> r \<noteq> [] \<and> to_lower (hd r) = CHR ''b'' then radix_literal 2 (tl r)
          else unsigned_decimal s)"

text \<open>\<open>Number.isInteger(v)\<close>, with the integer.\<close>

definition js_integer :: "js_num \<Rightarrow> int option" where
  "js_integer v = (case v of Fin q \<Rightarrow> if of_int \<lfloor>q\<rfloor> = q then Some \<lfloor>q\<rfloor> else None | _ \<Rightarrow> None)"

subsection \<open>Rendering and reading back a number\<close>

lemma digit_value_digit_char: "d < 10 \<Longrightarrow> digit_value (digit_char d) = d"
  by (simp add: digit_value_def digit_char_def)

lemma digits_value_show_nat: "digits_value (show_nat n) = n"
proof (induction n rule: show_nat.induct)
  case (1 n)
  then show ?case
    by (cases "n < 10")
      (simp_all add: show_nat.simps [of n] digits_value_def digit_value_digit_char)
qed

lemma takeWhile_digits [simp]: "\<forall>c \<in> set s. is_digit c \<Longrightarrow> takeWhile is_digit s = s"
  by (simp add: takeWhile_eq_all_conv)

lemma dropWhile_digits [simp]: "\<forall>c \<in> set s. is_digit c \<Longrightarrow> dropWhile is_digit s = []"
  by (simp add: dropWhile_eq_Nil_conv)

lemma digit_not_space: "is_digit c \<Longrightarrow> \<not> is_space c"
  by (auto simp: is_digit_def is_space_def)

lemma digit_not_char:
  assumes "is_digit c"
  shows "c \<noteq> CHR ''-''" and "c \<noteq> CHR ''+''" and "c \<noteq> CHR ''I''"
    and "to_lower c \<noteq> CHR ''x''" and "to_lower c \<noteq> CHR ''o''" and "to_lower c \<noteq> CHR ''b''"
  using assms by (auto simp: is_digit_def to_lower_def is_upper_def)

lemma trim_digits: "\<forall>c \<in> set s. is_digit c \<Longrightarrow> trim s = s"
proof -
  assume d: "\<forall>c \<in> set s. is_digit c"
  have "dropWhile is_space t = t" if "set t = set s" for t
    using that d digit_not_space by (cases t) auto
  then show ?thesis by (simp add: trim_def)
qed

lemma unsigned_decimal_digits:
  assumes "s \<noteq> []" and "\<forall>c \<in> set s. is_digit c"
  shows "unsigned_decimal s = finite_num (of_nat (digits_value s))"
proof -
  have "s \<noteq> ''Infinity''" using assms digit_not_char(3) by force
  then show ?thesis using assms
    by (simp add: unsigned_decimal_def exponent_of_def scale10_def digits_value_def)
qed

lemma js_number_digits:
  assumes "s \<noteq> []" and d: "\<forall>c \<in> set s. is_digit c"
  shows "js_number s = finite_num (of_nat (digits_value s))"
proof -
  obtain c r where s: "s = c # r" using assms(1) by (cases s) auto
  then have c: "is_digit c" and r: "r \<noteq> [] \<Longrightarrow> is_digit (hd r)" using d by (auto simp: hd_in_set)
  have t: "trim (c # r) = c # r" using trim_digits [OF d] s by simp
  have "js_number s = unsigned_decimal s"
    using digit_not_char [OF c] digit_not_char [OF r] unfolding s js_number_def t by auto
  with unsigned_decimal_digits [OF assms] show ?thesis by simp
qed

lemma js_number_show_nat: "js_number (show_nat n) = finite_num (of_nat n)"
  using js_number_digits [OF show_nat_nonempty show_nat_digits] by (simp add: digits_value_show_nat)

lemma js_integer_of_nat: "js_integer (Fin (of_nat n)) = Some (int n)"
  by (simp add: js_integer_def)

end
