(* ===== verification/Error_Handling.thy ===== *)
theory Error_Handling
  imports JS_Number
begin

text \<open>
  Error strategies of a step: \<open>core/execution/src/lib/workflows/actions/error-handling.ts\<close> and the
  decision whether a failed call may be repeated, \<open>core/execution/src/lib/execution/retry-safety.ts\<close>,
  with the waiting time of \<open>reliability.ts\<close>. The enumerations and option shapes are the source's;
  the classification of raw error messages is not modelled. The parser of the blocked-until marker
  (a date inside a message, read by a helper outside these files) is the argument \<open>blockedUntil\<close>.
\<close>

subsection \<open>Strategies and rules\<close>

datatype ErrorStrategyMode = STOP | IGNORE | BRANCH | RETRY_THEN_STOP | RETRY_THEN_IGNORE | RETRY_THEN_BRANCH

datatype ErrorOutcome = OutcomeStop | OutcomeIgnore | OutcomeBranch

datatype ErrorCodeOperator = EQUALS_ANY | NOT_EQUALS_ANY | STARTS_WITH_ANY | NOT_STARTS_WITH_ANY

record ErrorStrategy =
  mode :: ErrorStrategyMode
  retryAttempts :: "nat option"
  retryIntervalSeconds :: "nat option"

record ErrorHandlingRule =
  ruleId :: string
  ruleName :: string
  ruleOperator :: ErrorCodeOperator
  ruleCodes :: "string list"
  ruleStrategy :: ErrorStrategy

record ErrorHandlingOptions =
  continueOnFailure :: "bool option"
  retryOnFailure :: "bool option"
  strategy :: "ErrorStrategy option"
  rules :: "ErrorHandlingRule list option"

record ErrorRetryPolicy =
  attempts :: nat
  intervalSeconds :: nat

record ResolvedErrorStrategy =
  resolvedMode :: ErrorStrategyMode
  outcome :: ErrorOutcome
  retry :: "ErrorRetryPolicy option"
  resolvedRuleId :: "string option"

definition DEFAULT_RETRY_ATTEMPTS :: nat where "DEFAULT_RETRY_ATTEMPTS = 3"
definition DEFAULT_RETRY_INTERVAL_SECONDS :: nat where "DEFAULT_RETRY_INTERVAL_SECONDS = 10"

fun outcomeOf :: "ErrorStrategyMode \<Rightarrow> ErrorOutcome" where
  "outcomeOf STOP = OutcomeStop"
| "outcomeOf RETRY_THEN_STOP = OutcomeStop"
| "outcomeOf IGNORE = OutcomeIgnore"
| "outcomeOf RETRY_THEN_IGNORE = OutcomeIgnore"
| "outcomeOf BRANCH = OutcomeBranch"
| "outcomeOf RETRY_THEN_BRANCH = OutcomeBranch"

definition isRetryMode :: "ErrorStrategyMode \<Rightarrow> bool" where
  "isRetryMode m \<longleftrightarrow> m = RETRY_THEN_STOP \<or> m = RETRY_THEN_IGNORE \<or> m = RETRY_THEN_BRANCH"

definition getD :: "'a option \<Rightarrow> 'a \<Rightarrow> 'a" where
  "getD x d = (case x of None \<Rightarrow> d | Some v \<Rightarrow> v)"

lemma getD_simps [simp]: "getD None d = d" "getD (Some v) d = v"
  by (simp_all add: getD_def)

definition retryPolicyOf :: "ErrorStrategy \<Rightarrow> ErrorRetryPolicy option" where
  "retryPolicyOf s =
     (if \<not> isRetryMode (mode s) then None
      else Some \<lparr>attempts = getD (retryAttempts s) DEFAULT_RETRY_ATTEMPTS,
                 intervalSeconds = getD (retryIntervalSeconds s) DEFAULT_RETRY_INTERVAL_SECONDS\<rparr>)"

fun RETRY_MODE_OF :: "ErrorOutcome \<Rightarrow> ErrorStrategyMode" where
  "RETRY_MODE_OF OutcomeStop = RETRY_THEN_STOP"
| "RETRY_MODE_OF OutcomeIgnore = RETRY_THEN_IGNORE"
| "RETRY_MODE_OF OutcomeBranch = RETRY_THEN_BRANCH"

fun PLAIN_MODE_OF :: "ErrorOutcome \<Rightarrow> ErrorStrategyMode" where
  "PLAIN_MODE_OF OutcomeStop = STOP"
| "PLAIN_MODE_OF OutcomeIgnore = IGNORE"
| "PLAIN_MODE_OF OutcomeBranch = BRANCH"

definition withRetry :: "ErrorStrategy \<Rightarrow> ErrorStrategy" where
  "withRetry s =
     \<lparr>mode = RETRY_MODE_OF (outcomeOf (mode s)),
      retryAttempts = Some (getD (retryAttempts s) DEFAULT_RETRY_ATTEMPTS),
      retryIntervalSeconds = Some (getD (retryIntervalSeconds s) DEFAULT_RETRY_INTERVAL_SECONDS)\<rparr>"

definition withoutRetry :: "ErrorStrategy \<Rightarrow> ErrorStrategy" where
  "withoutRetry s = \<lparr>mode = PLAIN_MODE_OF (outcomeOf (mode s)), retryAttempts = None, retryIntervalSeconds = None\<rparr>"

text \<open>\<open>HTTP_STATUS_CODE_PATTERN\<close>: a digit 1 to 5 and two more digits.\<close>

definition is_http_status_code :: "string \<Rightarrow> bool" where
  "is_http_status_code s \<longleftrightarrow> length s = 3 \<and> list_all is_digit s \<and> 1 \<le> digit_value (hd s) \<and> digit_value (hd s) \<le> 5"

definition upper :: "string \<Rightarrow> string" where
  "upper s = map to_upper s"

definition normalizeCode :: "string \<Rightarrow> string" where
  "normalizeCode code =
     (let trimmed = upper (trim code)
      in if is_http_status_code trimmed then ''HTTP_'' @ trimmed else trimmed)"

text \<open>The codes of the rule and of the failure that take part in the comparison.\<close>

definition rule_codes :: "ErrorHandlingRule \<Rightarrow> string list" where
  "rule_codes rule = filter (\<lambda>c. 0 < length c) (map normalizeCode (ruleCodes rule))"

definition actual_codes :: "string \<Rightarrow> string option \<Rightarrow> string list" where
  "actual_codes errorCode externalCode =
     filter (\<lambda>c. 0 < length c)
       (map (\<lambda>c. upper (trim c)) (errorCode # (case externalCode of None \<Rightarrow> [] | Some c \<Rightarrow> [c])))"

definition ruleMatches :: "ErrorHandlingRule \<Rightarrow> string \<Rightarrow> string option \<Rightarrow> bool" where
  "ruleMatches rule errorCode externalCode =
     (let codes = rule_codes rule; actuals = actual_codes errorCode externalCode
      in if codes = [] then False
         else case ruleOperator rule of
             EQUALS_ANY \<Rightarrow> list_ex (\<lambda>c. c \<in> set actuals) codes
           | NOT_EQUALS_ANY \<Rightarrow> list_all (\<lambda>c. c \<notin> set actuals) codes
           | STARTS_WITH_ANY \<Rightarrow> list_ex (\<lambda>c. list_ex (\<lambda>a. starts_with a c) actuals) codes
           | NOT_STARTS_WITH_ANY \<Rightarrow> list_all (\<lambda>c. list_all (\<lambda>a. \<not> starts_with a c) actuals) codes)"

definition resolveStrategy ::
  "ErrorHandlingOptions option \<Rightarrow> string \<Rightarrow> string option \<Rightarrow> ResolvedErrorStrategy option" where
  "resolveStrategy options errorCode externalCode =
     (case options of
        None \<Rightarrow> None
      | Some o' \<Rightarrow> (case strategy o' of
          None \<Rightarrow> None
        | Some dflt \<Rightarrow>
            let matched = List.find (\<lambda>r. ruleMatches r errorCode externalCode) (getD (rules o') []);
                s = (case matched of None \<Rightarrow> dflt | Some r \<Rightarrow> ruleStrategy r)
            in Some \<lparr>resolvedMode = mode s, outcome = outcomeOf (mode s), retry = retryPolicyOf s,
                     resolvedRuleId = map_option ruleId matched\<rparr>))"

definition usesBranches :: "ErrorHandlingOptions option \<Rightarrow> bool" where
  "usesBranches options =
     (case options of
        None \<Rightarrow> False
      | Some o' \<Rightarrow> (case strategy o' of
          None \<Rightarrow> getD (continueOnFailure o') False
        | Some s \<Rightarrow> list_ex (\<lambda>m. outcomeOf m = OutcomeBranch)
                      (mode s # map (\<lambda>r. mode (ruleStrategy r)) (getD (rules o') []))))"

definition effectiveStrategy :: "ErrorHandlingOptions option \<Rightarrow> ErrorStrategy \<Rightarrow> ErrorStrategy" where
  "effectiveStrategy options fallback =
     (case Option.bind options strategy of
        Some s \<Rightarrow> s
      | None \<Rightarrow>
          let continue = getD (Option.bind options continueOnFailure) False;
              again = getD (Option.bind options retryOnFailure) False;
              base = \<lparr>mode = (if continue then BRANCH else STOP), retryAttempts = None, retryIntervalSeconds = None\<rparr>
          in if \<not> continue \<and> \<not> again then fallback
             else if again then withRetry base else base)"

subsection \<open>Retry safety and rate-limit waiting\<close>

datatype Classification = READ | SEARCH | WRITE | DESTRUCTIVE
datatype RetryWriteSafety = IDEMPOTENT | LOOKUP_BEFORE_WRITE | UNSAFE
datatype RetryReason = ReadOnly | Idempotent | LookupBeforeWrite | NotApplied | UnsafeOutcomeUnknown | DedupeWindowPassed

record RetryDecision =
  allowed :: bool
  reason :: RetryReason

definition AUTHORIZATION_STATUSES :: "int list" where "AUTHORIZATION_STATUSES = [401, 403]"
definition TRANSIENT_STATUSES :: "int list" where "TRANSIENT_STATUSES = [429, 502, 503, 504, 529]"
definition NOT_APPLIED_STATUSES :: "int list" where
  "NOT_APPLIED_STATUSES = [400, 401, 403, 404, 409, 422, 429]"

definition httpStatusOf :: "string option \<Rightarrow> int option" where
  "httpStatusOf errorCode =
     (case errorCode of
        None \<Rightarrow> None
      | Some c \<Rightarrow>
          if \<not> starts_with c ''HTTP_'' then None
          else case js_integer (js_number (drop 5 c)) of
              None \<Rightarrow> None
            | Some status \<Rightarrow> if 100 \<le> status \<and> status \<le> 599 then Some status else None)"

definition status_in :: "string option \<Rightarrow> int list \<Rightarrow> bool" where
  "status_in errorCode xs = (case httpStatusOf errorCode of None \<Rightarrow> False | Some s \<Rightarrow> s \<in> set xs)"

definition isAuthorizationHttpStatus :: "string option \<Rightarrow> bool" where
  "isAuthorizationHttpStatus errorCode = status_in errorCode AUTHORIZATION_STATUSES"

definition isTransientHttpStatus :: "string option \<Rightarrow> bool" where
  "isTransientHttpStatus errorCode = status_in errorCode TRANSIENT_STATUSES"

definition isRejectedByTargetHttpStatus :: "string option \<Rightarrow> bool" where
  "isRejectedByTargetHttpStatus errorCode =
     (case httpStatusOf errorCode of
        None \<Rightarrow> False
      | Some s \<Rightarrow> 400 \<le> s \<and> s < 500 \<and> s \<notin> set TRANSIENT_STATUSES \<and> s \<notin> set AUTHORIZATION_STATUSES)"

text \<open>
  \<open>firstAttemptAt\<close> is \<open>None\<close> when the number is not finite. \<open>blockedUntil\<close> is the parsed marker of
  the message, in milliseconds.
\<close>

definition decide ::
  "Classification option \<Rightarrow> RetryWriteSafety option \<Rightarrow> string option \<Rightarrow> int option \<Rightarrow>
   int option \<Rightarrow> int \<Rightarrow> int option \<Rightarrow> RetryDecision" where
  "decide classification writeSafety errorCode blockedUntil firstAttemptAt now dedupeWindowSeconds =
     (if classification = Some READ \<or> classification = Some SEARCH
      then \<lparr>allowed = True, reason = ReadOnly\<rparr>
      else if writeSafety = Some IDEMPOTENT
      then (case dedupeWindowSeconds of
              None \<Rightarrow> \<lparr>allowed = True, reason = Idempotent\<rparr>
            | Some w \<Rightarrow>
                if (case firstAttemptAt of None \<Rightarrow> True | Some t \<Rightarrow> now - t \<ge> w * 1000)
                then \<lparr>allowed = False, reason = DedupeWindowPassed\<rparr>
                else \<lparr>allowed = True, reason = Idempotent\<rparr>)
      else if writeSafety = Some LOOKUP_BEFORE_WRITE
      then \<lparr>allowed = True, reason = LookupBeforeWrite\<rparr>
      else if blockedUntil \<noteq> None \<or> status_in errorCode NOT_APPLIED_STATUSES
      then \<lparr>allowed = True, reason = NotApplied\<rparr>
      else \<lparr>allowed = False, reason = UnsafeOutcomeUnknown\<rparr>)"

definition MIN_RATE_LIMIT_WAIT_MS :: int where "MIN_RATE_LIMIT_WAIT_MS = 1000"
definition RATE_LIMIT_MAX_WAIT_MS :: int where "RATE_LIMIT_MAX_WAIT_MS = 30000"

definition rateLimitWaitMs :: "int option \<Rightarrow> int \<Rightarrow> int option" where
  "rateLimitWaitMs blockedUntil now =
     (case blockedUntil of
        None \<Rightarrow> None
      | Some u \<Rightarrow> let waitMs = max (u - now) MIN_RATE_LIMIT_WAIT_MS
                  in if waitMs \<le> RATE_LIMIT_MAX_WAIT_MS then Some waitMs else None)"

subsection \<open>Lemmas\<close>

lemmas strategy_defs = retryPolicyOf_def withRetry_def withoutRetry_def isRetryMode_def

lemma outcome_RETRY_MODE_OF [simp]: "outcomeOf (RETRY_MODE_OF x) = x"
  by (cases x) simp_all

lemma outcome_PLAIN_MODE_OF [simp]: "outcomeOf (PLAIN_MODE_OF x) = x"
  by (cases x) simp_all

lemma isRetryMode_modes [simp]: "isRetryMode (RETRY_MODE_OF x)" "\<not> isRetryMode (PLAIN_MODE_OF x)"
  by (cases x; simp add: isRetryMode_def)+

lemma mode_cases: "m = (if isRetryMode m then RETRY_MODE_OF (outcomeOf m) else PLAIN_MODE_OF (outcomeOf m))"
  by (cases m) (simp_all add: isRetryMode_def)

lemma find_append_first:
  "List.find P xs = Some x \<Longrightarrow> \<exists>ys zs. xs = ys @ x # zs \<and> P x \<and> (\<forall>y \<in> set ys. \<not> P y)"
  unfolding find_Some_iff by (metis in_set_conv_nth id_take_nth_drop length_take min.absorb4 nth_take order_less_trans set_take_subset subset_eq)

lemma list_ex_conv: "list_ex P xs \<longleftrightarrow> (\<exists>x \<in> set xs. P x)"
  by (induction xs) auto

lemma list_all_conv: "list_all P xs \<longleftrightarrow> (\<forall>x \<in> set xs. P x)"
  by (induction xs) auto

lemma resolveStrategy_outcome_branch:
  assumes "resolveStrategy (Some o') ec xc = Some r" and "outcome r = OutcomeBranch"
  shows "usesBranches (Some o')"
proof -
  obtain dflt where s: "strategy o' = Some dflt"
    using assms(1) by (auto simp: resolveStrategy_def split: option.splits)
  show ?thesis
  proof (cases "List.find (\<lambda>r. ruleMatches r ec xc) (getD (rules o') [])")
    case None
    with assms s show ?thesis by (auto simp: resolveStrategy_def usesBranches_def Let_def)
  next
    case (Some x)
    then have "x \<in> set (getD (rules o') [])" by (auto simp: find_Some_iff)
    with assms s Some show ?thesis by (auto simp: resolveStrategy_def usesBranches_def list_ex_conv Let_def)
  qed
qed

end
