(* ===== verification/Workflow_Model.thy ===== *)
theory Workflow_Model
  imports Error_Handling
begin

text \<open>
  The data of a workflow: \<open>actions/action.ts\<close>, \<open>triggers/trigger.ts\<close>, \<open>sample-data/index.ts\<close>,
  \<open>note.ts\<close>, \<open>workflow-version.ts\<close> and \<open>execution-plan/workflow-graph.ts\<close> of \<open>core/execution\<close>.

  A \<open>step\<close> is the source's \<open>Step = WorkflowAction | WorkflowTrigger\<close>, one constructor per value of
  the \<open>type\<close> tag. The settings objects are records that extend each other the way the source spreads
  \<open>commonActionSettings\<close>. An optional property is an \<open>option\<close>. The two slots \<open>onSuccess\<close> and
  \<open>onFailure\<close> of \<open>continueOnFailureBranches\<close> stand directly in the constructor: an absent object and
  an empty one are read alike everywhere. \<open>Record<string, unknown>\<close> values are JSON objects.
\<close>

subsection \<open>Settings\<close>

record SampleDataSettings =
  sampleDataFileId :: "string option"
  sampleDataInputFileId :: "string option"
  lastTestDate :: "string option"

record common_settings =
  sampleData :: "SampleDataSettings option"
  customLogoUrl :: "string option"
  displayNumber :: "string option"
  pendingReview :: "bool option"
  sensitiveOutput :: "bool option"

record io_settings = common_settings +
  input :: json_obj

record eh_settings = io_settings +
  errorHandlingOptions :: "ErrorHandlingOptions option"

record SourceCode =
  packageJson :: string
  code :: string

record CodeActionSettings = eh_settings +
  sourceCode :: SourceCode

record ConnectorActionSettings = eh_settings +
  propertySettings :: json_obj
  connectorName :: string
  connectorVersion :: string
  actionName :: "string option"

record ComponentActionSettings = eh_settings +
  componentPropertySettings :: json_obj
  componentType :: string

record LoopOnItemsActionSettings = common_settings +
  items :: string

datatype RouterExecutionType = EXECUTE_ALL_MATCH | EXECUTE_FIRST_MATCH

datatype BranchOperator =
    TEXT_CONTAINS | TEXT_DOES_NOT_CONTAIN | TEXT_EXACTLY_MATCHES | TEXT_DOES_NOT_EXACTLY_MATCH
  | TEXT_STARTS_WITH | TEXT_DOES_NOT_START_WITH | TEXT_ENDS_WITH | TEXT_DOES_NOT_END_WITH
  | NUMBER_IS_GREATER_THAN | NUMBER_IS_LESS_THAN | NUMBER_IS_EQUAL_TO
  | BOOLEAN_IS_TRUE | BOOLEAN_IS_FALSE
  | DATE_IS_BEFORE | DATE_IS_EQUAL | DATE_IS_AFTER
  | LIST_CONTAINS | LIST_DOES_NOT_CONTAIN | LIST_IS_EMPTY | LIST_IS_NOT_EMPTY
  | EXISTS | DOES_NOT_EXIST

record BranchCondition =
  firstValue :: string
  secondValue :: "string option"
  caseSensitive :: "bool option"
  operator :: "BranchOperator option"

datatype RouterBranch =
    ConditionBranch (branchName: string) (conditions: "BranchCondition list list")
  | FallbackBranch (branchName: string)

record RouterActionSettings = common_settings +
  branches :: "RouterBranch list"
  executionType :: RouterExecutionType

record ParallelActionSettings = common_settings +
  parallelBranches :: "string list"

definition emptyCondition :: BranchCondition where
  "emptyCondition = \<lparr>firstValue = '''', secondValue = Some '''', caseSensitive = Some False,
                     operator = Some TEXT_CONTAINS\<rparr>"

record TriggerDedupeSettings =
  dedupeEnabled :: bool
  keyPath :: string
  windowSeconds :: nat

datatype ScheduleOverlapPolicy = OVERLAP_SKIP | OVERLAP_QUEUE | OVERLAP_PARALLEL

record TriggerConcurrencySettings =
  maxConcurrentRuns :: nat
  orderKeyPath :: "string option"

record ConnectorTriggerSettings = io_settings +
  dedupe :: "TriggerDedupeSettings option"
  concurrency :: "TriggerConcurrencySettings option"
  scheduleOverlap :: "ScheduleOverlapPolicy option"
  skipHolidays :: "bool option"
  triggerPropertySettings :: json_obj
  triggerConnectorName :: string
  triggerConnectorVersion :: string
  triggerName :: "string option"

subsection \<open>Steps\<close>

record BaseProps =
  sname :: string
  valid :: bool
  displayName :: string
  skip :: "bool option"
  lastUpdatedDate :: string

datatype step =
    Code BaseProps CodeActionSettings "step option" "step option" "step option"
  | Component BaseProps ComponentActionSettings "step option" "step option" "step option"
  | Connector BaseProps ConnectorActionSettings "step option" "step option" "step option"
  | Loop BaseProps LoopOnItemsActionSettings "step option" "step option"
  | Router BaseProps RouterActionSettings "step option list" "step option"
  | Parallel BaseProps ParallelActionSettings "step option list" "step option"
  | EmptyTrigger BaseProps json "step option"
  | ConnectorTrigger BaseProps ConnectorTriggerSettings "step option"

datatype step_type = CODE | COMPONENT | CONNECTOR | LOOP_ON_ITEMS | ROUTER | PARALLEL | EMPTY | CONNECTOR_TRIGGER

fun type_of :: "step \<Rightarrow> step_type" where
  "type_of (Code _ _ _ _ _) = CODE"
| "type_of (Component _ _ _ _ _) = COMPONENT"
| "type_of (Connector _ _ _ _ _) = CONNECTOR"
| "type_of (Loop _ _ _ _) = LOOP_ON_ITEMS"
| "type_of (Router _ _ _ _) = ROUTER"
| "type_of (Parallel _ _ _ _) = PARALLEL"
| "type_of (EmptyTrigger _ _ _) = EMPTY"
| "type_of (ConnectorTrigger _ _ _) = CONNECTOR_TRIGGER"

fun base_of :: "step \<Rightarrow> BaseProps" where
  "base_of (Code b _ _ _ _) = b"
| "base_of (Component b _ _ _ _) = b"
| "base_of (Connector b _ _ _ _) = b"
| "base_of (Loop b _ _ _) = b"
| "base_of (Router b _ _ _) = b"
| "base_of (Parallel b _ _ _) = b"
| "base_of (EmptyTrigger b _ _) = b"
| "base_of (ConnectorTrigger b _ _) = b"

abbreviation step_name :: "step \<Rightarrow> string" where
  "step_name s \<equiv> sname (base_of s)"

fun nextAction :: "step \<Rightarrow> step option" where
  "nextAction (Code _ _ _ _ n) = n"
| "nextAction (Component _ _ _ _ n) = n"
| "nextAction (Connector _ _ _ _ n) = n"
| "nextAction (Loop _ _ _ n) = n"
| "nextAction (Router _ _ _ n) = n"
| "nextAction (Parallel _ _ _ n) = n"
| "nextAction (EmptyTrigger _ _ n) = n"
| "nextAction (ConnectorTrigger _ _ n) = n"

text \<open>The object with \<open>nextAction\<close> or the base properties replaced.\<close>

fun set_next :: "step option \<Rightarrow> step \<Rightarrow> step" where
  "set_next n (Code b s x y _) = Code b s x y n"
| "set_next n (Component b s x y _) = Component b s x y n"
| "set_next n (Connector b s x y _) = Connector b s x y n"
| "set_next n (Loop b s f _) = Loop b s f n"
| "set_next n (Router b s cs _) = Router b s cs n"
| "set_next n (Parallel b s cs _) = Parallel b s cs n"
| "set_next n (EmptyTrigger b s _) = EmptyTrigger b s n"
| "set_next n (ConnectorTrigger b s _) = ConnectorTrigger b s n"

fun map_base :: "(BaseProps \<Rightarrow> BaseProps) \<Rightarrow> step \<Rightarrow> step" where
  "map_base g (Code b s x y n) = Code (g b) s x y n"
| "map_base g (Component b s x y n) = Component (g b) s x y n"
| "map_base g (Connector b s x y n) = Connector (g b) s x y n"
| "map_base g (Loop b s f n) = Loop (g b) s f n"
| "map_base g (Router b s cs n) = Router (g b) s cs n"
| "map_base g (Parallel b s cs n) = Parallel (g b) s cs n"
| "map_base g (EmptyTrigger b s n) = EmptyTrigger (g b) s n"
| "map_base g (ConnectorTrigger b s n) = ConnectorTrigger (g b) s n"

lemma set_next_simps [simp]:
  "nextAction (set_next n s) = n" "base_of (set_next n s) = base_of s" "type_of (set_next n s) = type_of s"
  by (cases s; simp)+

lemma map_base_simps [simp]:
  "nextAction (map_base g s) = nextAction s" "base_of (map_base g s) = g (base_of s)"
  "type_of (map_base g s) = type_of s"
  by (cases s; simp)+

lemma set_next_nextAction [simp]: "set_next (nextAction s) s = s"
  by (cases s) simp_all

subsection \<open>Versions, notes and join edges\<close>

datatype NoteColorVariant = ORANGE | RED | GREEN | BLUE | PURPLE | YELLOW

record Note =
  noteId :: string
  content :: string
  ownerId :: "string option"
  color :: NoteColorVariant
  position :: "rat \<times> rat"
  noteSize :: "rat \<times> rat"
  createdAt :: string
  updatedAt :: string

record WorkflowJoinEdge =
  edge_from :: string
  edge_to :: string

datatype WorkflowVersionState = LOCKED | DRAFT

record WorkflowVersion =
  versionId :: string
  created :: string
  updated :: string
  workflowId :: string
  versionDisplayName :: string
  trigger :: step
  updatedBy :: "string option"
  versionValid :: bool
  schemaVersion :: "string option"
  agentIds :: "string list"
  state :: WorkflowVersionState
  connectionIds :: "string list"
  backupFiles :: "string js_record option"
  versionNotes :: "Note list"
  graph :: "WorkflowJoinEdge list option"
  publishNote :: "string option"

end
