(* ===== verification/Structure_Util.thy ===== *)
theory Structure_Util
  imports Workflow_Model
begin

text \<open>
  \<open>core/execution/src/lib/workflows/util/workflow-structure-util.ts\<close>: traversal, lookup and naming.

  \<open>transferStep\<close> applies a function to a step, then to the children of the step the function
  returned. The function is free to add children, so the recursion need not end: the model takes the
  number of call frames that are left, and running out is the language's \<open>StackOverflow\<close>.

  A transfer function either changes the object it is given (\<open>Mutated\<close>) or returns another object
  (\<open>Replaced\<close>). The difference shows in one place: the head of a failure branch is written back only
  when \<open>isStepAction\<close> holds of the result, and \<open>isStepAction\<close> leaves out \<open>COMPONENT\<close>. A change made in
  place survives there, a replacement is lost; \<open>heldStep\<close> is what the old reference then shows.
\<close>

definition AI_CONNECTOR_NAME :: string where
  "AI_CONNECTOR_NAME = ''@fema-ipaas/connector-ai''"

definition isAction :: "step_type \<Rightarrow> bool" where
  "isAction t \<longleftrightarrow> t \<in> {CODE, COMPONENT, CONNECTOR, LOOP_ON_ITEMS, PARALLEL, ROUTER}"

definition isStepAction :: "step \<Rightarrow> bool" where
  "isStepAction s \<longleftrightarrow> type_of s = CODE \<or> type_of s = CONNECTOR \<or> type_of s = LOOP_ON_ITEMS
     \<or> type_of s = ROUTER \<or> type_of s = PARALLEL"

definition isTrigger :: "step_type \<Rightarrow> bool" where
  "isTrigger t \<longleftrightarrow> t \<in> {EMPTY, CONNECTOR_TRIGGER}"

subsection \<open>Traversal\<close>

definition opt_list :: "('a \<Rightarrow> 'b list) \<Rightarrow> 'a option \<Rightarrow> 'b list" where
  "opt_list f x = (case x of None \<Rightarrow> [] | Some a \<Rightarrow> f a)"

lemma opt_list_simps [simp]: "opt_list f None = []" "opt_list f (Some a) = f a"
  by (simp_all add: opt_list_def)

lemma opt_list_cong [fundef_cong]:
  "x = y \<Longrightarrow> (\<And>a. y = Some a \<Longrightarrow> f a = g a) \<Longrightarrow> opt_list f x = opt_list g y"
  by (cases y) auto

lemma size_Some_in_list [termination_simp]:
  "Some a \<in> set cs \<Longrightarrow> size a < size_list (size_option size) cs"
  by (induction cs) auto

text \<open>The child slots \<open>transferStep\<close> follows, in its order.\<close>

fun slots :: "step \<Rightarrow> step option list" where
  "slots (Code _ _ x y n) = [x, y, n]"
| "slots (Component _ _ _ _ n) = [n]"
| "slots (Connector _ _ x y n) = [x, y, n]"
| "slots (Loop _ _ f n) = [f, n]"
| "slots (Router _ _ cs n) = cs @ [n]"
| "slots (Parallel _ _ cs n) = cs @ [n]"
| "slots (EmptyTrigger _ _ n) = [n]"
| "slots (ConnectorTrigger _ _ n) = [n]"

text \<open>\<open>getAllSteps\<close>: the steps in the order in which \<open>transferStep\<close> visits them.\<close>

fun getAllSteps :: "step \<Rightarrow> step list" where
  "getAllSteps (Code b s x y n) =
     Code b s x y n # opt_list getAllSteps x @ opt_list getAllSteps y @ opt_list getAllSteps n"
| "getAllSteps (Component b s x y n) = Component b s x y n # opt_list getAllSteps n"
| "getAllSteps (Connector b s x y n) =
     Connector b s x y n # opt_list getAllSteps x @ opt_list getAllSteps y @ opt_list getAllSteps n"
| "getAllSteps (Loop b s f n) = Loop b s f n # opt_list getAllSteps f @ opt_list getAllSteps n"
| "getAllSteps (Router b s cs n) =
     Router b s cs n # concat (map (opt_list getAllSteps) cs) @ opt_list getAllSteps n"
| "getAllSteps (Parallel b s cs n) =
     Parallel b s cs n # concat (map (opt_list getAllSteps) cs) @ opt_list getAllSteps n"
| "getAllSteps (EmptyTrigger b s n) = EmptyTrigger b s n # opt_list getAllSteps n"
| "getAllSteps (ConnectorTrigger b s n) = ConnectorTrigger b s n # opt_list getAllSteps n"

datatype transfer = Mutated step | Replaced step

fun returned :: "transfer \<Rightarrow> step" where
  "returned (Mutated s) = s"
| "returned (Replaced s) = s"

type_synonym transferFunction = "step \<Rightarrow> transfer result"

text \<open>A failure-branch slot: the result is stored only when \<open>isStepAction\<close> accepts it.\<close>

definition transfer_branch ::
  "(step \<Rightarrow> step result) \<Rightarrow> (step \<Rightarrow> step result) \<Rightarrow> step option \<Rightarrow> step option result" where
  "transfer_branch rec held x = (case x of
       None \<Rightarrow> Inr None
     | Some a \<Rightarrow> rbind (rec a) (\<lambda>r. if isStepAction r then Inr (Some r)
                                     else rbind (held a) (\<lambda>h. Inr (Some h))))"

fun transfer_children :: "(step \<Rightarrow> step result) \<Rightarrow> (step \<Rightarrow> step result) \<Rightarrow> step \<Rightarrow> step result" where
  "transfer_children rec held (Code b s x y n) =
     rbind (transfer_branch rec held x) (\<lambda>x'. rbind (transfer_branch rec held y) (\<lambda>y'.
     rbind (rmap_option rec n) (\<lambda>n'. Inr (Code b s x' y' n'))))"
| "transfer_children rec held (Connector b s x y n) =
     rbind (transfer_branch rec held x) (\<lambda>x'. rbind (transfer_branch rec held y) (\<lambda>y'.
     rbind (rmap_option rec n) (\<lambda>n'. Inr (Connector b s x' y' n'))))"
| "transfer_children rec held (Component b s x y n) =
     rbind (rmap_option rec n) (\<lambda>n'. Inr (Component b s x y n'))"
| "transfer_children rec held (Loop b s f n) =
     rbind (rmap_option rec f) (\<lambda>f'. rbind (rmap_option rec n) (\<lambda>n'. Inr (Loop b s f' n')))"
| "transfer_children rec held (Router b s cs n) =
     rbind (rmap_list (rmap_option rec) cs) (\<lambda>cs'. rbind (rmap_option rec n) (\<lambda>n'. Inr (Router b s cs' n')))"
| "transfer_children rec held (Parallel b s cs n) =
     rbind (rmap_list (rmap_option rec) cs) (\<lambda>cs'. rbind (rmap_option rec n) (\<lambda>n'. Inr (Parallel b s cs' n')))"
| "transfer_children rec held (EmptyTrigger b s n) = rbind (rmap_option rec n) (\<lambda>n'. Inr (EmptyTrigger b s n'))"
| "transfer_children rec held (ConnectorTrigger b s n) =
     rbind (rmap_option rec n) (\<lambda>n'. Inr (ConnectorTrigger b s n'))"

text \<open>The old object after a replacement: its children are the old references.\<close>

fun held_children :: "(step \<Rightarrow> step result) \<Rightarrow> step \<Rightarrow> step result" where
  "held_children held (Code b s x y n) =
     rbind (rmap_option held x) (\<lambda>x'. rbind (rmap_option held y) (\<lambda>y'.
     rbind (rmap_option held n) (\<lambda>n'. Inr (Code b s x' y' n'))))"
| "held_children held (Connector b s x y n) =
     rbind (rmap_option held x) (\<lambda>x'. rbind (rmap_option held y) (\<lambda>y'.
     rbind (rmap_option held n) (\<lambda>n'. Inr (Connector b s x' y' n'))))"
| "held_children held (Component b s x y n) = rbind (rmap_option held n) (\<lambda>n'. Inr (Component b s x y n'))"
| "held_children held (Loop b s f n) =
     rbind (rmap_option held f) (\<lambda>f'. rbind (rmap_option held n) (\<lambda>n'. Inr (Loop b s f' n')))"
| "held_children held (Router b s cs n) =
     rbind (rmap_list (rmap_option held) cs) (\<lambda>cs'. rbind (rmap_option held n) (\<lambda>n'. Inr (Router b s cs' n')))"
| "held_children held (Parallel b s cs n) =
     rbind (rmap_list (rmap_option held) cs) (\<lambda>cs'. rbind (rmap_option held n) (\<lambda>n'. Inr (Parallel b s cs' n')))"
| "held_children held (EmptyTrigger b s n) = rbind (rmap_option held n) (\<lambda>n'. Inr (EmptyTrigger b s n'))"
| "held_children held (ConnectorTrigger b s n) = rbind (rmap_option held n) (\<lambda>n'. Inr (ConnectorTrigger b s n'))"

fun transferStep :: "nat \<Rightarrow> transferFunction \<Rightarrow> step \<Rightarrow> step result"
  and heldStep :: "nat \<Rightarrow> transferFunction \<Rightarrow> step \<Rightarrow> step result" where
  "transferStep 0 f s = Inl StackOverflow"
| "transferStep (Suc d) f s =
     rbind (f s) (\<lambda>t. transfer_children (transferStep d f) (heldStep d f) (returned t))"
| "heldStep 0 f s = Inl StackOverflow"
| "heldStep (Suc d) f s =
     rbind (f s) (\<lambda>t. case t of
         Mutated u \<Rightarrow> transfer_children (transferStep d f) (heldStep d f) u
       | Replaced u \<Rightarrow> held_children (heldStep d f) s)"

text \<open>The version is cloned first, so nothing outside it changes.\<close>

definition transferWorkflow :: "nat \<Rightarrow> transferFunction \<Rightarrow> WorkflowVersion \<Rightarrow> WorkflowVersion result" where
  "transferWorkflow d f wv = rbind (transferStep d f (trigger wv)) (\<lambda>t. Inr (wv\<lparr>trigger := t\<rparr>))"

subsection \<open>Lookup\<close>

definition getStep :: "string \<Rightarrow> step \<Rightarrow> step option" where
  "getStep name workflowRoot = List.find (\<lambda>s. step_name s = name) (getAllSteps workflowRoot)"

definition getStepOrThrow :: "string \<Rightarrow> step \<Rightarrow> step result" where
  "getStepOrThrow name workflowRoot =
     (case getStep name workflowRoot of None \<Rightarrow> Inl (EntityNotFound name ''Step not found'') | Some s \<Rightarrow> Inr s)"

definition getActionOrThrow :: "string \<Rightarrow> step \<Rightarrow> step result" where
  "getActionOrThrow name workflowRoot = rbind (getStepOrThrow name workflowRoot) (\<lambda>s.
     if \<not> isAction (type_of s) then Inl (EntityNotFound name ''Step is not an action'') else Inr s)"

definition getTriggerOrThrow :: "string \<Rightarrow> step \<Rightarrow> step result" where
  "getTriggerOrThrow name workflowRoot = rbind (getStepOrThrow name workflowRoot) (\<lambda>s.
     if \<not> isTrigger (type_of s) then Inl (EntityNotFound name ''Step is not a trigger'') else Inr s)"

fun sensitive_flag :: "step \<Rightarrow> bool" where
  "sensitive_flag (Code _ s _ _ _) = (sensitiveOutput s = Some True)"
| "sensitive_flag (Component _ s _ _ _) = (sensitiveOutput s = Some True)"
| "sensitive_flag (Connector _ s _ _ _) = (sensitiveOutput s = Some True)"
| "sensitive_flag (Loop _ s _ _) = (sensitiveOutput s = Some True)"
| "sensitive_flag (Router _ s _ _) = (sensitiveOutput s = Some True)"
| "sensitive_flag (Parallel _ s _ _) = (sensitiveOutput s = Some True)"
| "sensitive_flag (EmptyTrigger _ s _) =
     (case s of JObj o' \<Rightarrow> map_of o' ''sensitiveOutput'' = Some (JBool True) | _ \<Rightarrow> False)"
| "sensitive_flag (ConnectorTrigger _ s _) = (sensitiveOutput s = Some True)"

definition hasSensitiveOutput :: "step \<Rightarrow> bool" where
  "hasSensitiveOutput s = sensitive_flag s"

definition getSensitiveStepNames :: "step \<Rightarrow> string list" where
  "getSensitiveStepNames trig = map step_name (filter hasSensitiveOutput (getAllSteps trig))"

text \<open>\<open>findIndex\<close>: the first position, or -1.\<close>

fun findIndex :: "('a \<Rightarrow> bool) \<Rightarrow> 'a list \<Rightarrow> int" where
  "findIndex P [] = -1"
| "findIndex P (x # xs) = (if P x then 0 else let i = findIndex P xs in if i < 0 then -1 else i + 1)"

definition getStepNumber :: "step \<Rightarrow> string \<Rightarrow> int" where
  "getStepNumber trig stepName = findIndex (\<lambda>s. step_name s = stepName) (getAllSteps trig) + 1"

definition createBranch :: "string \<Rightarrow> BranchCondition list list option \<Rightarrow> RouterBranch" where
  "createBranch name conds = ConditionBranch name (getD conds [[emptyCondition]])"

definition getAllChildSteps :: "step \<Rightarrow> step list" where
  "getAllChildSteps action = getAllSteps (set_next None action)"

definition isChildOf :: "step \<Rightarrow> string \<Rightarrow> bool" where
  "isChildOf parent childStepName \<longleftrightarrow>
     list_ex (\<lambda>c. step_name c = childStepName \<and> step_name c \<noteq> step_name parent) (getAllChildSteps parent)"

fun nextChain :: "step option \<Rightarrow> step list" where
  "nextChain None = []"
| "nextChain (Some s) = s # (case s of
      Code _ _ _ _ n \<Rightarrow> nextChain n | Component _ _ _ _ n \<Rightarrow> nextChain n | Connector _ _ _ _ n \<Rightarrow> nextChain n
    | Loop _ _ _ n \<Rightarrow> nextChain n | Router _ _ _ n \<Rightarrow> nextChain n | Parallel _ _ _ n \<Rightarrow> nextChain n
    | EmptyTrigger _ _ n \<Rightarrow> nextChain n | ConnectorTrigger _ _ n \<Rightarrow> nextChain n)"

definition getAllNextActionsWithoutChildren :: "step \<Rightarrow> step list" where
  "getAllNextActionsWithoutChildren start = nextChain (nextAction start)"

subsection \<open>Paths and referenceable steps\<close>

datatype GuardKind = ROUTER_BRANCH | ON_SUCCESS | ON_FAILURE

record BranchGuard =
  guardStep :: string
  guardKind :: GuardKind
  guardBranch :: "string option"

fun branchHeadsOf :: "step \<Rightarrow> (step option \<times> BranchGuard option) list" where
  "branchHeadsOf (Router b s cs _) =
     map (\<lambda>(i, c). (c, Some \<lparr>guardStep = sname b, guardKind = ROUTER_BRANCH,
        guardBranch = (if i < length (branches s) then Some (branchName (branches s ! i)) else None)\<rparr>))
       (enumerate 0 cs)"
| "branchHeadsOf (Parallel _ _ cs _) = map (\<lambda>c. (c, None)) cs"
| "branchHeadsOf (Code b _ x y _) =
     [(x, Some \<lparr>guardStep = sname b, guardKind = ON_SUCCESS, guardBranch = None\<rparr>),
      (y, Some \<lparr>guardStep = sname b, guardKind = ON_FAILURE, guardBranch = None\<rparr>)]"
| "branchHeadsOf (Connector b _ x y _) =
     [(x, Some \<lparr>guardStep = sname b, guardKind = ON_SUCCESS, guardBranch = None\<rparr>),
      (y, Some \<lparr>guardStep = sname b, guardKind = ON_FAILURE, guardBranch = None\<rparr>)]"
| "branchHeadsOf (Component b _ x y _) =
     [(x, Some \<lparr>guardStep = sname b, guardKind = ON_SUCCESS, guardBranch = None\<rparr>),
      (y, Some \<lparr>guardStep = sname b, guardKind = ON_FAILURE, guardBranch = None\<rparr>)]"
| "branchHeadsOf _ = []"

lemma enumerate_snd_mem: "(i, c) \<in> set (enumerate k cs) \<Longrightarrow> c \<in> set cs"
  by (auto simp: in_set_enumerate_eq)

lemma branchHeadsOf_size [termination_simp]:
  "(Some a, g) \<in> set (branchHeadsOf s) \<Longrightarrow> size a < size s"
  by (cases s) (auto dest!: enumerate_snd_mem size_Some_in_list)

lemma nextAction_size [termination_simp]: "nextAction s = Some a \<Longrightarrow> size a < size s"
  by (cases s) auto

lemma size_pos: "0 < size (s :: step)"
  by (cases s) auto

function visibleChain :: "step option \<Rightarrow> BranchGuard list \<Rightarrow> (step \<times> BranchGuard list) list" where
  "visibleChain None onlyWhen = []"
| "visibleChain (Some head) onlyWhen =
     (head, onlyWhen)
     # concat (map (\<lambda>(h, g). visibleChain h (case g of None \<Rightarrow> onlyWhen | Some g' \<Rightarrow> onlyWhen @ [g'])) (branchHeadsOf head))
     @ visibleChain (nextAction head) onlyWhen"
  by pat_completeness auto
termination
proof (relation "measure (\<lambda>(x, _). size_option size x)", goal_cases)
  case 1
  show ?case by simp
next
  case (2 head onlyWhen p h g)
  then show ?case using size_pos [of head] by (cases h) (auto dest: branchHeadsOf_size)
next
  case (3 head onlyWhen)
  show ?case using size_pos [of head] by (cases "nextAction head") (auto dest: nextAction_size)
qed

definition getStepsVisibleAfterJoin :: "step \<Rightarrow> (step \<times> BranchGuard list) list" where
  "getStepsVisibleAfterJoin s =
     concat (map (\<lambda>(h, g). visibleChain h (case g of None \<Rightarrow> [] | Some g' \<Rightarrow> [g'])) (branchHeadsOf s))"

definition findPathToStep :: "step \<Rightarrow> string \<Rightarrow> (nat \<times> step) list" where
  "findPathToStep trig target =
     filter (\<lambda>(_, s). step_name s \<noteq> target)
       (filter (\<lambda>(_, s). list_ex (\<lambda>c. step_name c = target) (getAllSteps s)) (enumerate 0 (getAllSteps trig)))"

text \<open>A \<open>Map\<close> built from pairs answers with the last index of a name.\<close>

definition dfs_order :: "step \<Rightarrow> string \<Rightarrow> nat" where
  "dfs_order trig name =
     getD (map_of (rev (map (\<lambda>(i, s). (step_name s, i)) (enumerate 0 (getAllSteps trig)))) name) 0"

record ReferenceableStep =
  refStep :: step
  dfsIndex :: nat
  onlyWhenGuards :: "BranchGuard list"

definition findReferenceableSteps :: "step \<Rightarrow> string \<Rightarrow> ReferenceableStep list" where
  "findReferenceableSteps trig target =
     (let path = findPathToStep trig target;
          joined = concat (map (\<lambda>(_, s). getStepsVisibleAfterJoin s) (filter (\<lambda>(_, s). \<not> isChildOf s target) path))
      in sort_key dfsIndex
           (map (\<lambda>(i, s). \<lparr>refStep = s, dfsIndex = i, onlyWhenGuards = []\<rparr>) path
            @ map (\<lambda>(s, w). \<lparr>refStep = s, dfsIndex = dfs_order trig (step_name s), onlyWhenGuards = w\<rparr>) joined))"

subsection \<open>Unused names\<close>

definition numbered_name :: "nat \<Rightarrow> string" where
  "numbered_name i = ''step_'' @ show_nat i"

lemma numbered_name_inj: "numbered_name i = numbered_name j \<Longrightarrow> i = j"
  by (simp add: numbered_name_def show_nat_inj)

lemma finite_numbered: "finite {i. numbered_name i \<in> set names}"
  by (rule finite_vimageI [of "set names" numbered_name, unfolded vimage_def])
     (auto intro: injI numbered_name_inj)

function findUnusedIndex :: "string list \<Rightarrow> nat \<Rightarrow> nat" where
  "findUnusedIndex names i = (if numbered_name i \<in> set names then findUnusedIndex names (Suc i) else i)"
  by pat_completeness auto
termination
proof (relation "measure (\<lambda>(names, i). card {j. i \<le> j \<and> numbered_name j \<in> set names})", goal_cases)
  case 1
  show ?case by simp
next
  case (2 names i)
  have "{j. Suc i \<le> j \<and> numbered_name j \<in> set names} \<subset> {j. i \<le> j \<and> numbered_name j \<in> set names}"
  proof (rule psubsetI)
    show "{j. Suc i \<le> j \<and> numbered_name j \<in> set names} \<subseteq> {j. i \<le> j \<and> numbered_name j \<in> set names}" by auto
    have "i \<in> {j. i \<le> j \<and> numbered_name j \<in> set names}" using 2 by simp
    moreover have "i \<notin> {j. Suc i \<le> j \<and> numbered_name j \<in> set names}" by simp
    ultimately show "{j. Suc i \<le> j \<and> numbered_name j \<in> set names} \<noteq> {j. i \<le> j \<and> numbered_name j \<in> set names}"
      by blast
  qed
  moreover have "finite {j. i \<le> j \<and> numbered_name j \<in> set names}"
    by (rule finite_subset [OF _ finite_numbered [of names]]) auto
  ultimately show ?case by (simp add: psubset_card_mono)
qed

declare findUnusedIndex.simps [simp del]

definition findUnusedName :: "string list \<Rightarrow> string" where
  "findUnusedName names = numbered_name (findUnusedIndex names 1)"

fun findUnusedNames :: "string list \<Rightarrow> nat \<Rightarrow> string list" where
  "findUnusedNames names 0 = []"
| "findUnusedNames names (Suc n) = (let name = findUnusedName names in name # findUnusedNames (names @ [name]) n)"

subsection \<open>Connections and agents\<close>

text \<open>
  The ids of \<open>{{connections['a', 'b']}}\<close>: after an id, a quote starts either another
  \<open>', '\<close> separator or the closing \<open>']}}\<close>; the two exclude each other.
\<close>

function auth_ids :: "string \<Rightarrow> string list option" where
  "auth_ids s =
     (let i = takeWhile (\<lambda>c. c \<noteq> CHR 0x27) s; r = dropWhile (\<lambda>c. c \<noteq> CHR 0x27) s
      in if r = [] then None
         else if starts_with (tl r) '']}}'' then Some [i]
         else let q = dropWhile is_space (tl r)
              in if q = [] \<or> hd q \<noteq> CHR '','' then None
                 else let p = dropWhile is_space (tl q)
                      in if p = [] \<or> hd p \<noteq> CHR 0x27 then None
                         else map_option (\<lambda>is. i # is) (auth_ids (tl p)))"
  by pat_completeness auto
termination
proof (relation "measure length", goal_cases)
  case 1
  show ?case by simp
next
  case (2 s i r q p)
  have "length (tl p) \<le> length (tl q)" using 2 length_dropWhile_le [of is_space "tl q"] by (simp add: le_diff_conv)
  also have "\<dots> \<le> length (tl r)" using 2 length_dropWhile_le [of is_space "tl r"] by (simp add: le_diff_conv)
  also have "length (tl r) < length r" using 2 by (cases r) auto
  also have "length r \<le> length s" using 2 length_dropWhile_le [of "\<lambda>c. c \<noteq> CHR 0x27" s] by simp
  finally show ?case by simp
qed

declare auth_ids.simps [simp del]

definition auth_marker :: string where
  "auth_marker = ''{{connections['' @ [CHR 0x27]"

fun first_auth_match :: "string \<Rightarrow> string list option" where
  "first_auth_match [] = None"
| "first_auth_match (c # cs) =
     (if starts_with (c # cs) auth_marker
      then (case auth_ids (drop (length auth_marker) (c # cs)) of Some is \<Rightarrow> Some is | None \<Rightarrow> first_auth_match cs)
      else first_auth_match cs)"

definition extractConnectionIdsFromAuth :: "string \<Rightarrow> string list" where
  "extractConnectionIdsFromAuth auth =
     (case first_auth_match auth of
        None \<Rightarrow> []
      | Some is \<Rightarrow> if is = [[]] then [] else map trim is)"

fun js_truthy :: "json \<Rightarrow> bool" where
  "js_truthy JNull = False"
| "js_truthy (JBool b) = b"
| "js_truthy (JNum q) = (q \<noteq> 0)"
| "js_truthy (JStr s) = (s \<noteq> [])"
| "js_truthy (JArr _) = True"
| "js_truthy (JObj _) = True"

text \<open>\<open>step.settings?.input?.auth\<close>; loops, routers and parallels have no input.\<close>

fun settings_auth :: "step \<Rightarrow> json option" where
  "settings_auth (Code _ s _ _ _) = map_of (input s) ''auth''"
| "settings_auth (Component _ s _ _ _) = map_of (input s) ''auth''"
| "settings_auth (Connector _ s _ _ _) = map_of (input s) ''auth''"
| "settings_auth (ConnectorTrigger _ s _) = map_of (input s) ''auth''"
| "settings_auth (EmptyTrigger _ s _) = (case s of
      JObj o' \<Rightarrow> (case map_of o' ''input'' of Some (JObj i) \<Rightarrow> map_of i ''auth'' | _ \<Rightarrow> None)
    | _ \<Rightarrow> None)"
| "settings_auth _ = None"

definition step_connection_ids :: "step \<Rightarrow> string list result" where
  "step_connection_ids s =
     (case settings_auth s of
        None \<Rightarrow> Inr []
      | Some v \<Rightarrow> if \<not> js_truthy v then Inr []
                  else case v of JStr a \<Rightarrow> Inr (extractConnectionIdsFromAuth a)
                       | _ \<Rightarrow> Inl (TypeError ''auth.match is not a function''))"

definition js_unique :: "'a list \<Rightarrow> 'a list" where
  "js_unique xs = rev (remdups (rev xs))"

definition extractConnectionIds :: "WorkflowVersion \<Rightarrow> string list result" where
  "extractConnectionIds wv =
     rbind (step_connection_ids (trigger wv)) (\<lambda>t.
     rbind (rmap_list step_connection_ids (getAllSteps (trigger wv))) (\<lambda>ss.
     Inr (js_unique (t @ concat ss))))"

definition isAgentConnector :: "step \<Rightarrow> bool" where
  "isAgentConnector s = (case s of Connector _ c _ _ _ \<Rightarrow> connectorName c = AI_CONNECTOR_NAME | _ \<Rightarrow> False)"

definition extractAgentIds :: "WorkflowVersion \<Rightarrow> json list" where
  "extractAgentIds wv =
     filter (\<lambda>v. v \<noteq> JNull \<and> v \<noteq> JStr [])
       (map (\<lambda>s. case s of Connector _ c _ _ _ \<Rightarrow> if isAgentConnector s then getD (map_of (input c) ''agentId'') JNull else JNull
                 | _ \<Rightarrow> JNull)
         (getAllSteps (trigger wv)))"

end
