(* ===== verification/Structure_Lemmas.thy ===== *)
theory Structure_Lemmas
  imports Structure_Util "HOL-Library.Multiset"
begin

text \<open>
  The library of facts about traversal. A step is seen as a node with a list of child slots
  (\<open>slots\<close>, \<open>with_slots\<close>), which makes one induction rule and one rule per traversal function enough
  for all eight constructors. Two contracts for the functions handed to \<open>transferStep\<close> are locales:
  \<open>renaming_transfer\<close> (the children stay, the name is mapped) and \<open>local_transfer\<close> (nothing happens
  outside the steps that are hit); the operations interpret them.
\<close>

abbreviation step_names :: "step \<Rightarrow> string list" where
  "step_names s \<equiv> map step_name (getAllSteps s)"

subsection \<open>Steps as nodes with slots\<close>

fun with_slots :: "step \<Rightarrow> step option list \<Rightarrow> step" where
  "with_slots (Code b s _ _ _) vs = Code b s (vs ! 0) (vs ! 1) (vs ! 2)"
| "with_slots (Component b s x y _) vs = Component b s x y (vs ! 0)"
| "with_slots (Connector b s _ _ _) vs = Connector b s (vs ! 0) (vs ! 1) (vs ! 2)"
| "with_slots (Loop b s _ _) vs = Loop b s (vs ! 0) (vs ! 1)"
| "with_slots (Router b s _ _) vs = Router b s (butlast vs) (last vs)"
| "with_slots (Parallel b s _ _) vs = Parallel b s (butlast vs) (last vs)"
| "with_slots (EmptyTrigger b s _) vs = EmptyTrigger b s (vs ! 0)"
| "with_slots (ConnectorTrigger b s _) vs = ConnectorTrigger b s (vs ! 0)"

lemma slots_nonempty [simp]: "slots s \<noteq> []"
  by (cases s) simp_all

lemma last_slots [simp]: "last (slots s) = nextAction s"
  by (cases s) simp_all

lemma with_slots_simps [simp]:
  "base_of (with_slots s vs) = base_of s" "type_of (with_slots s vs) = type_of s"
  "isStepAction (with_slots s vs) = isStepAction s"
  by (cases s; simp add: isStepAction_def)+

lemma slots_with_slots: "length vs = length (slots s) \<Longrightarrow> slots (with_slots s vs) = vs"
  by (cases s; cases vs rule: rev_cases) (auto simp: less_Suc_eq length_Suc_conv nth_append Suc_length_conv)

lemma with_slots_slots [simp]: "with_slots s (slots s) = s"
  by (cases s) simp_all

lemma getAllSteps_slots: "getAllSteps s = s # concat (map (opt_list getAllSteps) (slots s))"
  by (cases s) simp_all

lemma step_names_slots:
  "step_names s = step_name s # concat (map (opt_list step_names) (slots s))"
proof -
  have "map step_name (opt_list getAllSteps x) = opt_list step_names x" for x by (cases x) simp_all
  then show ?thesis
    by (subst getAllSteps_slots) (simp add: map_concat o_def del: map_map, simp add: o_def)
qed

lemma slot_size: "Some a \<in> set (slots s) \<Longrightarrow> size a < size s"
  by (cases s) (auto dest: size_Some_in_list)

lemma step_slots_induct [case_names node]:
  assumes "\<And>s. (\<And>a. Some a \<in> set (slots s) \<Longrightarrow> P a) \<Longrightarrow> P s"
  shows "P s"
proof (induction s rule: measure_induct_rule [of size])
  case (less s)
  show ?case by (rule assms) (use less slot_size in blast)
qed

lemma self_in_getAllSteps [simp]: "s \<in> set (getAllSteps s)"
  by (subst getAllSteps_slots) simp

lemma slot_getAllSteps: "Some a \<in> set (slots s) \<Longrightarrow> set (getAllSteps a) \<subseteq> set (getAllSteps s)"
  by (subst (2) getAllSteps_slots) force

lemma getAllSteps_cases:
  "c \<in> set (getAllSteps s) \<longleftrightarrow> c = s \<or> (\<exists>a. Some a \<in> set (slots s) \<and> c \<in> set (getAllSteps a))"
proof
  assume "c \<in> set (getAllSteps s)"
  then have "c = s \<or> (\<exists>x \<in> set (slots s). c \<in> set (opt_list getAllSteps x))"
    by (subst (asm) getAllSteps_slots) auto
  then show "c = s \<or> (\<exists>a. Some a \<in> set (slots s) \<and> c \<in> set (getAllSteps a))"
    by (auto simp: opt_list_def split: option.splits)
next
  assume "c = s \<or> (\<exists>a. Some a \<in> set (slots s) \<and> c \<in> set (getAllSteps a))"
  then show "c \<in> set (getAllSteps s)" using slot_getAllSteps by auto
qed

lemma sum_list_slot_le: "Some a \<in> set xs \<Longrightarrow> length (getAllSteps a) \<le> length (concat (map (opt_list getAllSteps) xs))"
  by (induction xs) auto

lemma slot_length: "Some a \<in> set (slots s) \<Longrightarrow> length (getAllSteps a) < length (getAllSteps s)"
  by (subst (2) getAllSteps_slots) (use sum_list_slot_le in fastforce)

subsection \<open>What a traversal returns\<close>

lemma transfer_branch_rel:
  assumes "\<And>a. x = Some a \<Longrightarrow> \<exists>r. rec a = Inr r \<and> Q a r \<and> (isStepAction r \<or> (\<exists>h. held a = Inr h \<and> Q a h))"
  shows "\<exists>v. transfer_branch rec held x = Inr v \<and> rel_option Q x v"
proof (cases x)
  case None
  then show ?thesis by (simp add: transfer_branch_def)
next
  case (Some a)
  with assms obtain r where "rec a = Inr r" "Q a r" "isStepAction r \<or> (\<exists>h. held a = Inr h \<and> Q a h)" by blast
  with Some show ?thesis by (auto simp: transfer_branch_def)
qed

lemma rmap_option_rel:
  assumes "\<And>a. x = Some a \<Longrightarrow> \<exists>r. rec a = Inr r \<and> Q a r"
  shows "\<exists>v. rmap_option rec x = Inr v \<and> rel_option Q x v"
  using assms by (cases x) fastforce+

lemma rmap_list_rel:
  assumes "\<And>a. Some a \<in> set xs \<Longrightarrow> \<exists>r. rec a = Inr r \<and> Q a r"
  shows "\<exists>vs. rmap_list (rmap_option rec) xs = Inr vs \<and> list_all2 (rel_option Q) xs vs"
  using assms
proof (induction xs)
  case Nil
  then show ?case by simp
next
  case (Cons x xs)
  then obtain vs where "rmap_list (rmap_option rec) xs = Inr vs" "list_all2 (rel_option Q) xs vs" by auto
  moreover obtain v where "rmap_option rec x = Inr v" "rel_option Q x v"
    using rmap_option_rel [of x rec Q] Cons.prems by auto
  ultimately show ?case by simp
qed

lemma transfer_children_accepted:
  assumes "\<And>a. Some a \<in> set (slots s) \<Longrightarrow> \<exists>r. rec a = Inr r \<and> Q a r \<and> (isStepAction r \<or> (\<exists>h. held a = Inr h \<and> Q a h))"
  shows "\<exists>vs. transfer_children rec held s = Inr (with_slots s vs) \<and> list_all2 (rel_option Q) (slots s) vs"
proof -
  have rec: "\<And>a. Some a \<in> set (slots s) \<Longrightarrow> \<exists>r. rec a = Inr r \<and> Q a r" using assms by blast
  have next_slot: "Some a \<in> set (slots s)" if "nextAction s = Some a" for a
    using that by (cases s) auto
  obtain n' where n: "rmap_option rec (nextAction s) = Inr n'" "rel_option Q (nextAction s) n'"
    using rmap_option_rel [of "nextAction s" rec Q] next_slot rec by blast
  show ?thesis
  proof (cases s)
    case (Code b t x y n)
    then obtain x' y' where "transfer_branch rec held x = Inr x'" "rel_option Q x x'"
      "transfer_branch rec held y = Inr y'" "rel_option Q y y'"
      using transfer_branch_rel [of x rec Q held] transfer_branch_rel [of y rec Q held] assms by auto
    with Code n show ?thesis by (intro exI [of _ "[x', y', n']"]) simp
  next
    case (Connector b t x y n)
    then obtain x' y' where "transfer_branch rec held x = Inr x'" "rel_option Q x x'"
      "transfer_branch rec held y = Inr y'" "rel_option Q y y'"
      using transfer_branch_rel [of x rec Q held] transfer_branch_rel [of y rec Q held] assms by auto
    with Connector n show ?thesis by (intro exI [of _ "[x', y', n']"]) simp
  next
    case (Loop b t f n)
    then obtain f' where "rmap_option rec f = Inr f'" "rel_option Q f f'"
      using rmap_option_rel [of f rec Q] rec by auto
    with Loop n show ?thesis by (intro exI [of _ "[f', n']"]) simp
  next
    case (Router b t cs n)
    then obtain cs' where "rmap_list (rmap_option rec) cs = Inr cs'" "list_all2 (rel_option Q) cs cs'"
      using rmap_list_rel [of cs rec Q] rec by auto
    with Router n show ?thesis by (intro exI [of _ "cs' @ [n']"]) (simp add: list_all2_appendI)
  next
    case (Parallel b t cs n)
    then obtain cs' where "rmap_list (rmap_option rec) cs = Inr cs'" "list_all2 (rel_option Q) cs cs'"
      using rmap_list_rel [of cs rec Q] rec by auto
    with Parallel n show ?thesis by (intro exI [of _ "cs' @ [n']"]) (simp add: list_all2_appendI)
  qed (use n in \<open>auto intro!: exI [of _ "[n']"]\<close>)
qed

lemma transfer_children_rel:
  assumes "\<And>a. Some a \<in> set (slots s) \<Longrightarrow> (\<exists>r. rec a = Inr r \<and> Q a r) \<and> (\<exists>h. held a = Inr h \<and> Q a h)"
  shows "\<exists>vs. transfer_children rec held s = Inr (with_slots s vs) \<and> list_all2 (rel_option Q) (slots s) vs"
  by (rule transfer_children_accepted) (use assms in blast)

lemma rmap_list_ok: "\<forall>a \<in> set xs. \<exists>r. g a = Inr r \<Longrightarrow> \<exists>rs. rmap_list g xs = Inr rs"
  by (induction xs) auto

lemma rmap_list_error:
  assumes "\<And>a. a \<in> set xs \<Longrightarrow> g a = Inl err \<or> (\<exists>r. g a = Inr r)" and "\<exists>a \<in> set xs. g a = Inl err"
  shows "rmap_list g xs = Inl err"
  using assms
proof (induction xs)
  case Nil
  then show ?case by simp
next
  case (Cons x xs)
  show ?case
  proof (cases "g x = Inl err")
    case False
    then obtain r where "g x = Inr r" using Cons.prems(1) [of x] by auto
    with Cons False show ?thesis by auto
  qed simp
qed

text \<open>An error in one child, with no other error around, is the error of the node.\<close>

lemma transfer_children_error:
  assumes "\<And>a. Some a \<in> set (slots s) \<Longrightarrow>
             rec a = Inl err \<or> (\<exists>r. rec a = Inr r \<and> (isStepAction r \<or> (\<exists>h. held a = Inr h)))"
    and "\<exists>a. Some a \<in> set (slots s) \<and> rec a = Inl err"
  shows "transfer_children rec held s = Inl err"
proof -
  have opt: "rmap_option rec x = Inl err \<or> (\<exists>v. rmap_option rec x = Inr v)" if "x \<in> set (slots s)" for x
    using that assms(1) [of "the x"] by (cases "x = None") auto
  have branch: "transfer_branch rec held x = Inl err \<or> (\<exists>v. transfer_branch rec held x = Inr v)" if "x \<in> set (slots s)" for x
    using that assms(1) [of "the x"] by (cases "x = None") (auto simp: transfer_branch_def split: if_splits)
  have hit: "\<exists>x \<in> set (slots s). rmap_option rec x = Inl err \<and> transfer_branch rec held x = Inl err"
    using assms(2) by (force simp: transfer_branch_def)
  have lst: "rmap_list (rmap_option rec) cs = Inl err \<or>
      ((\<exists>vs. rmap_list (rmap_option rec) cs = Inr vs) \<and> (\<forall>x \<in> set cs. rmap_option rec x \<noteq> Inl err))"
    if "set cs \<subseteq> set (slots s)" for cs
    using that opt rmap_list_error [of cs "rmap_option rec" err] rmap_list_ok [of cs "rmap_option rec"] by (metis subsetD)
  show ?thesis
  proof (cases s)
    case (Code b t x y n)
    then have "transfer_branch rec held x = Inl err \<or> transfer_branch rec held y = Inl err \<or> rmap_option rec n = Inl err"
      using hit by auto
    then show ?thesis using Code branch [of x] branch [of y] by (elim disjE) auto
  next
    case (Connector b t x y n)
    then have "transfer_branch rec held x = Inl err \<or> transfer_branch rec held y = Inl err \<or> rmap_option rec n = Inl err"
      using hit by auto
    then show ?thesis using Connector branch [of x] branch [of y] by (elim disjE) auto
  next
    case (Loop b t f n)
    then show ?thesis using hit opt [of f] by auto
  next
    case (Router b t cs n)
    then have "set cs \<subseteq> set (slots s)" by auto
    from lst [OF this] show ?thesis using Router hit by auto
  next
    case (Parallel b t cs n)
    then have "set cs \<subseteq> set (slots s)" by auto
    from lst [OF this] show ?thesis using Parallel hit by auto
  qed (use hit in auto)
qed

lemma held_children_rel:
  assumes "\<And>a. Some a \<in> set (slots s) \<Longrightarrow> \<exists>h. held a = Inr h \<and> Q a h"
  shows "\<exists>vs. held_children held s = Inr (with_slots s vs) \<and> list_all2 (rel_option Q) (slots s) vs"
proof -
  have "held_children held s = transfer_children held held s"
  proof -
    have "transfer_branch held held x = rmap_option held x" if "x = None \<or> (\<exists>a r. x = Some a \<and> held a = Inr r)" for x
      using that by (auto simp: transfer_branch_def)
    moreover have "x = None \<or> (\<exists>a r. x = Some a \<and> held a = Inr r)" if "x \<in> set (slots s)" for x
      using that assms by (metis option.exhaust)
    ultimately show ?thesis by (cases s) simp_all
  qed
  with transfer_children_rel [of s held Q held] assms show ?thesis by auto
qed

lemma list_all2_concat_slots:
  "list_all2 (rel_option (\<lambda>a r. step_names r = map g (step_names a))) xs vs \<Longrightarrow>
   concat (map (opt_list step_names) vs) = map g (concat (map (opt_list step_names) xs))"
proof (induction rule: list_all2_induct)
  case Nil
  then show ?case by simp
next
  case (Cons x xs v vs)
  from Cons(1) have "opt_list step_names v = map g (opt_list step_names x)" by (cases x; cases v) auto
  with Cons show ?case by simp
qed

subsection \<open>Contracts of transfer functions\<close>

text \<open>The children of the returned step are those of the argument; the name is mapped by \<open>g\<close>.\<close>

locale renaming_transfer =
  fixes f :: transferFunction and g :: "string \<Rightarrow> string" and dom :: "step \<Rightarrow> bool"
  assumes runs: "dom s \<Longrightarrow> \<exists>t. f s = Inr t"
    and keeps_slots: "f s = Inr t \<Longrightarrow> slots (returned t) = slots s"
    and maps_name: "f s = Inr t \<Longrightarrow> step_name (returned t) = g (step_name s)"
    and replaced_name: "f s = Inr (Replaced u) \<Longrightarrow> g (step_name s) = step_name s"
begin

lemma names_of_node:
  assumes "list_all2 (rel_option (\<lambda>a r. step_names r = map g (step_names a))) (slots s) vs"
    and "slots u = slots s" and "step_name u = g (step_name s)"
  shows "step_names (with_slots u vs) = map g (step_names s)"
proof -
  have "length vs = length (slots u)" using assms list_all2_lengthD by metis
  then show ?thesis
    by (subst step_names_slots, subst (2) step_names_slots)
       (simp add: slots_with_slots assms(3) list_all2_concat_slots [OF assms(1)])
qed

lemma transfer_names:
  assumes "length (getAllSteps s) \<le> d" and "\<forall>c \<in> set (getAllSteps s). dom c"
  shows "(\<exists>r. transferStep d f s = Inr r \<and> step_names r = map g (step_names s)) \<and>
         (\<exists>h. heldStep d f s = Inr h \<and> step_names h = map g (step_names s))"
  using assms
proof (induction d arbitrary: s)
  case 0
  then show ?case by (subst (asm) getAllSteps_slots) simp
next
  case (Suc d)
  have IH: "(\<exists>r. transferStep d f a = Inr r \<and> step_names r = map g (step_names a)) \<and>
         (\<exists>h. heldStep d f a = Inr h \<and> step_names h = map g (step_names a))" if "Some a \<in> set (slots s)" for a
    using Suc.IH [of a] Suc.prems slot_length [OF that] slot_getAllSteps [OF that] by auto
  obtain t where t: "f s = Inr t" using runs [of s] Suc.prems by auto
  have sl: "slots (returned t) = slots s" and nm: "step_name (returned t) = g (step_name s)"
    using keeps_slots maps_name t by auto
  obtain vs where vs: "transfer_children (transferStep d f) (heldStep d f) (returned t) = Inr (with_slots (returned t) vs)"
    "list_all2 (rel_option (\<lambda>a r. step_names r = map g (step_names a))) (slots s) vs"
    using transfer_children_rel [of "returned t" "transferStep d f" "\<lambda>a r. step_names r = map g (step_names a)" "heldStep d f"]
      IH sl by auto
  obtain ws where ws: "held_children (heldStep d f) s = Inr (with_slots s ws)"
    "list_all2 (rel_option (\<lambda>a r. step_names r = map g (step_names a))) (slots s) ws"
    using held_children_rel [of s "heldStep d f" "\<lambda>a r. step_names r = map g (step_names a)"] IH by auto
  have r: "transferStep (Suc d) f s = Inr (with_slots (returned t) vs)" using t vs by simp
  moreover have "step_names (with_slots (returned t) vs) = map g (step_names s)"
    by (rule names_of_node [OF vs(2) sl nm])
  moreover have "\<exists>h. heldStep (Suc d) f s = Inr h \<and> step_names h = map g (step_names s)"
  proof (cases t)
    case (Mutated u)
    then show ?thesis using t vs names_of_node [OF vs(2) sl nm] by simp
  next
    case (Replaced u)
    then show ?thesis using t ws names_of_node [OF ws(2)] replaced_name by simp
  qed
  ultimately show ?case by blast
qed

end

text \<open>What a traversal that succeeds says about the slots.\<close>

lemma rmap_option_Inr: "rmap_option g x = Inr v \<Longrightarrow> rel_option (\<lambda>a r. g a = Inr r) x v"
  by (cases x) (auto simp: rbind_eq_Inr)

lemma rmap_list_Inr: "rmap_list (rmap_option g) xs = Inr vs \<Longrightarrow> list_all2 (rel_option (\<lambda>a r. g a = Inr r)) xs vs"
  by (induction xs arbitrary: vs) (auto simp: rbind_eq_Inr dest: rmap_option_Inr)

lemma transfer_branch_Inr:
  "transfer_branch rec held x = Inr v \<Longrightarrow> rel_option (\<lambda>a r. rec a = Inr r \<or> held a = Inr r) x v"
  by (cases x) (auto simp: transfer_branch_def rbind_eq_Inr split: if_splits)

lemma rel_option_disj: "rel_option (\<lambda>a r. rec a = Inr r) x v \<Longrightarrow> rel_option (\<lambda>a r. rec a = Inr r \<or> held a = Inr r) x v"
  by (cases x; cases v) auto

lemma list_rel_option_disj:
  "list_all2 (rel_option (\<lambda>a r. rec a = Inr r)) xs vs \<Longrightarrow> list_all2 (rel_option (\<lambda>a r. rec a = Inr r \<or> held a = Inr r)) xs vs"
  by (erule list_all2_mono) (rule rel_option_disj)

lemma transfer_children_Inr:
  assumes "transfer_children rec held s = Inr r"
  shows "\<exists>vs. r = with_slots s vs \<and> list_all2 (rel_option (\<lambda>a r. rec a = Inr r \<or> held a = Inr r)) (slots s) vs"
proof -
  obtain n' where n: "rmap_option rec (nextAction s) = Inr n'" using assms by (cases s) (auto simp: rbind_eq_Inr)
  note n' = rel_option_disj [OF rmap_option_Inr [OF n], of held]
  note dest = transfer_branch_Inr rmap_list_Inr [THEN list_rel_option_disj [where held = held]]
    rmap_option_Inr [THEN rel_option_disj [where held = held]]
  show ?thesis
  proof (cases s)
    case (Code b t x y m)
    with assms obtain x' y' where "r = Code b t x' y' n'" "transfer_branch rec held x = Inr x'" "transfer_branch rec held y = Inr y'"
      using n by (auto simp: rbind_eq_Inr)
    with Code n' show ?thesis by (intro exI [of _ "[x', y', n']"]) (auto dest: dest)
  next
    case (Connector b t x y m)
    with assms obtain x' y' where "r = Connector b t x' y' n'" "transfer_branch rec held x = Inr x'" "transfer_branch rec held y = Inr y'"
      using n by (auto simp: rbind_eq_Inr)
    with Connector n' show ?thesis by (intro exI [of _ "[x', y', n']"]) (auto dest: dest)
  next
    case (Loop b t f m)
    with assms obtain f' where "r = Loop b t f' n'" "rmap_option rec f = Inr f'" using n by (auto simp: rbind_eq_Inr)
    with Loop n' show ?thesis by (intro exI [of _ "[f', n']"]) (auto dest: dest)
  next
    case (Router b t cs m)
    with assms obtain cs' where "r = Router b t cs' n'" "rmap_list (rmap_option rec) cs = Inr cs'" using n by (auto simp: rbind_eq_Inr)
    with Router n' show ?thesis by (intro exI [of _ "cs' @ [n']"]) (auto intro: list_all2_appendI dest: dest)
  next
    case (Parallel b t cs m)
    with assms obtain cs' where "r = Parallel b t cs' n'" "rmap_list (rmap_option rec) cs = Inr cs'" using n by (auto simp: rbind_eq_Inr)
    with Parallel n' show ?thesis by (intro exI [of _ "cs' @ [n']"]) (auto intro: list_all2_appendI dest: dest)
  qed (use assms n n' in \<open>auto intro!: exI [of _ "[n']"]\<close>)
qed

lemma held_children_Inr:
  assumes "held_children held s = Inr r"
  shows "\<exists>vs. r = with_slots s vs \<and> list_all2 (rel_option (\<lambda>a r. held a = Inr r)) (slots s) vs"
proof -
  have "transfer_branch held held x = rmap_option held x" if "rmap_option held x = Inr v" for x v
    using that by (cases x) (auto simp: transfer_branch_def rbind_eq_Inr)
  then have "transfer_children held held s = Inr r" using assms by (cases s) (auto simp: rbind_eq_Inr)
  from transfer_children_Inr [OF this] show ?thesis by simp
qed

text \<open>
  A predicate on single nodes that neither the function nor new children can break holds of every node
  of the result.
\<close>

locale node_invariant =
  fixes f :: transferFunction and P :: "step \<Rightarrow> bool"
  assumes node_with_slots: "length vs = length (slots s) \<Longrightarrow> P (with_slots s vs) = P s"
    and keeps_nodes: "f s = Inr t \<Longrightarrow> \<forall>c \<in> set (getAllSteps s). P c \<Longrightarrow> \<forall>c \<in> set (getAllSteps (returned t)). P c"
begin

lemma nodes_of_node:
  assumes "list_all2 (rel_option (\<lambda>a r. \<forall>c \<in> set (getAllSteps r). P c)) (slots u) vs" and "P u"
  shows "\<forall>c \<in> set (getAllSteps (with_slots u vs)). P c"
proof
  fix c assume c: "c \<in> set (getAllSteps (with_slots u vs))"
  have len: "length vs = length (slots u)" using assms list_all2_lengthD by metis
  have "\<forall>c \<in> set (getAllSteps r). P c" if "Some r \<in> set vs" for r
  proof -
    from that obtain i where "i < length vs" "vs ! i = Some r" by (auto simp: in_set_conv_nth)
    with assms(1) have "rel_option (\<lambda>a r. \<forall>c \<in> set (getAllSteps r). P c) (slots u ! i) (Some r)"
      by (metis list_all2_nthD2)
    then show ?thesis by (auto simp: option_rel_Some2)
  qed
  with c len assms(2) show "P c"
    unfolding getAllSteps_cases [of c "with_slots u vs"] slots_with_slots [OF len] using node_with_slots by auto
qed

lemma slots_of_node:
  assumes "list_all2 (rel_option R) (slots s) vs" and "\<forall>c \<in> set (getAllSteps s). P c"
    and "\<And>a r. Some a \<in> set (slots s) \<Longrightarrow> R a r \<Longrightarrow> \<forall>c \<in> set (getAllSteps a). P c \<Longrightarrow> \<forall>c \<in> set (getAllSteps r). P c"
  shows "\<forall>c \<in> set (getAllSteps (with_slots s vs)). P c"
proof (rule nodes_of_node)
  have "rel_option (\<lambda>a r. \<forall>c \<in> set (getAllSteps r). P c) x v" if "x \<in> set (slots s)" "rel_option R x v" for x v
  proof -
    from that consider "x = None" "v = None" | a r where "x = Some a" "v = Some r" "R a r" by (auto elim: option.rel_cases)
    then show ?thesis
    proof cases
      case 2
      with that(1) assms(2) slot_getAllSteps [of a s] have "\<forall>c \<in> set (getAllSteps a). P c" by auto
      with 2 that(1) assms(3) show ?thesis by auto
    qed simp
  qed
  with assms(1) show "list_all2 (rel_option (\<lambda>a r. \<forall>c \<in> set (getAllSteps r). P c)) (slots s) vs"
    by (auto simp: list_all2_conv_all_nth)
  show "P s" using assms(2) by simp
qed

lemma transfer_nodes:
  "(transferStep d f s = Inr r \<longrightarrow> (\<forall>c \<in> set (getAllSteps s). P c) \<longrightarrow> (\<forall>c \<in> set (getAllSteps r). P c)) \<and>
   (heldStep d f s = Inr r \<longrightarrow> (\<forall>c \<in> set (getAllSteps s). P c) \<longrightarrow> (\<forall>c \<in> set (getAllSteps r). P c))"
proof (induction d arbitrary: s r)
  case 0
  then show ?case by simp
next
  case (Suc d)
  have children: "\<forall>c \<in> set (getAllSteps r). P c"
    if "transfer_children (transferStep d f) (heldStep d f) u = Inr r" "\<forall>c \<in> set (getAllSteps u). P c" for u r
    using transfer_children_Inr [OF that(1)] slots_of_node [OF _ that(2)] Suc.IH by blast
  have held: "\<forall>c \<in> set (getAllSteps r). P c"
    if "held_children (heldStep d f) s = Inr r" "\<forall>c \<in> set (getAllSteps s). P c" for r
    using held_children_Inr [OF that(1)] slots_of_node [OF _ that(2)] Suc.IH by blast
  show ?case
  proof (intro conjI impI)
    assume "transferStep (Suc d) f s = Inr r" and P: "\<forall>c \<in> set (getAllSteps s). P c"
    then obtain t where "f s = Inr t" "transfer_children (transferStep d f) (heldStep d f) (returned t) = Inr r"
      by (auto simp: rbind_eq_Inr)
    then show "\<forall>c \<in> set (getAllSteps r). P c" using children keeps_nodes P by blast
  next
    assume h: "heldStep (Suc d) f s = Inr r" and P: "\<forall>c \<in> set (getAllSteps s). P c"
    then obtain t where t: "f s = Inr t" by (auto simp: rbind_eq_Inr)
    then show "\<forall>c \<in> set (getAllSteps r). P c"
      using h held P children keeps_nodes [OF t P] by (cases t) auto
  qed
qed

end

text \<open>Nothing happens at a step that is not hit.\<close>

locale local_transfer =
  fixes f :: transferFunction and hit :: "step \<Rightarrow> bool"
  assumes not_hit: "\<not> hit s \<Longrightarrow> f s = Inr (Mutated s)"
begin

lemma transfer_no_hit:
  assumes "length (getAllSteps s) \<le> d" and "\<forall>c \<in> set (getAllSteps s). \<not> hit c"
  shows "transferStep d f s = Inr s \<and> heldStep d f s = Inr s"
  using assms
proof (induction d arbitrary: s)
  case 0
  then show ?case by (subst (asm) getAllSteps_slots) simp
next
  case (Suc d)
  have "transferStep d f a = Inr a \<and> heldStep d f a = Inr a" if "Some a \<in> set (slots s)" for a
    using Suc.IH [of a] Suc.prems slot_length [OF that] slot_getAllSteps [OF that] by auto
  then obtain vs where vs: "transfer_children (transferStep d f) (heldStep d f) s = Inr (with_slots s vs)"
    "list_all2 (rel_option (\<lambda>a r. r = a)) (slots s) vs"
    using transfer_children_rel [of s "transferStep d f" "\<lambda>a r. r = a" "heldStep d f"] by auto
  have "slots s = vs"
    using vs(2) by (induction rule: list_all2_induct) (auto simp: option.rel_sel option.expand)
  moreover have "f s = Inr (Mutated s)" using not_hit Suc.prems by auto
  ultimately show ?case using vs by auto
qed

end

subsection \<open>Lookup and unused names\<close>

lemma getStep_Some: "getStep n s = Some a \<Longrightarrow> a \<in> set (getAllSteps s) \<and> step_name a = n"
  by (auto simp: getStep_def find_Some_iff)

lemma getStep_None_iff: "getStep n s = None \<longleftrightarrow> n \<notin> set (step_names s)"
  by (auto simp: getStep_def find_None_iff)

lemma find_unique:
  "distinct (map h xs) \<Longrightarrow> a \<in> set xs \<Longrightarrow> List.find (\<lambda>x. h x = h a) xs = Some a"
  by (induction xs) (auto simp: rev_image_eqI)

lemma getStep_unique:
  assumes "distinct (step_names s)" and "a \<in> set (getAllSteps s)"
  shows "getStep (step_name a) s = Some a"
  using find_unique [OF assms] by (simp add: getStep_def)

lemma step_by_name:
  "distinct (step_names s) \<Longrightarrow> a \<in> set (getAllSteps s) \<Longrightarrow> b \<in> set (getAllSteps s) \<Longrightarrow> step_name a = step_name b \<Longrightarrow> a = b"
  unfolding distinct_map by (blast dest: inj_onD)

lemma findUnusedIndex_least:
  "numbered_name (findUnusedIndex names i) \<notin> set names \<and> i \<le> findUnusedIndex names i \<and>
   (\<forall>j. i \<le> j \<and> j < findUnusedIndex names i \<longrightarrow> numbered_name j \<in> set names)"
proof (induction names i rule: findUnusedIndex.induct)
  case (1 names i)
  show ?case
  proof (cases "numbered_name i \<in> set names")
    case True
    with 1 have IH: "numbered_name (findUnusedIndex names (Suc i)) \<notin> set names"
      "Suc i \<le> findUnusedIndex names (Suc i)"
      "\<And>j. Suc i \<le> j \<Longrightarrow> j < findUnusedIndex names (Suc i) \<Longrightarrow> numbered_name j \<in> set names" by auto
    have eq: "findUnusedIndex names i = findUnusedIndex names (Suc i)"
      using True by (subst findUnusedIndex.simps) simp
    show ?thesis unfolding eq using IH True by (auto simp: le_eq_less_or_eq [of i])
  next
    case False
    then show ?thesis by (auto simp: findUnusedIndex.simps [of names i])
  qed
qed

lemma findUnusedName_fresh: "findUnusedName names \<notin> set names"
  using findUnusedIndex_least by (simp add: findUnusedName_def)

lemma findUnusedNames_fresh:
  "length (findUnusedNames names n) = n \<and> distinct (findUnusedNames names n)
   \<and> set (findUnusedNames names n) \<inter> set names = {}"
proof (induction n arbitrary: names)
  case 0
  then show ?case by simp
next
  case (Suc n)
  from Suc [of "names @ [findUnusedName names]"] show ?case
    using findUnusedName_fresh [of names] by (auto simp: Let_def)
qed

lemma set_js_unique [simp]: "set (js_unique xs) = set xs"
  by (simp add: js_unique_def)

lemma distinct_js_unique [simp]: "distinct (js_unique xs)"
  by (simp add: js_unique_def)

end
