(* ===== verification/Step_Display_Number.thy ===== *)
theory Step_Display_Number
  imports Structure_Lemmas
begin

text \<open>
  \<open>core/execution/src/lib/workflows/util/step-display-number.ts\<close>: every step carries a readable number
  such as \<open>http-2\<close>, a prefix taken from the step's kind and a counter per prefix.

  The counters live in a plain object. Its lookup also finds \<open>constructor\<close> on \<open>Object.prototype\<close>, and
  \<open>Math.max\<close> of a function is \<open>NaN\<close>; the model keeps that case as \<open>None\<close>. It is the only
  prototype name a slug can be.
\<close>

definition AI_CONNECTOR :: string where "AI_CONNECTOR = ''@fema-ipaas/connector-ai''"
definition AGENT_ACTION :: string where "AGENT_ACTION = ''run_agent''"
definition CONNECTOR_PREFIX :: string where "CONNECTOR_PREFIX = ''connector-''"
definition TRIGGER_SUFFIX :: string where "TRIGGER_SUFFIX = ''-trigger''"

text \<open>\<open>replace(/[^a-z0-9]+/g, '-')\<close>: a run of other characters becomes one dash.\<close>

definition slug_char :: "char \<Rightarrow> bool" where
  "slug_char c \<longleftrightarrow> is_lower c \<or> is_digit c"

fun dash_runs :: "bool \<Rightarrow> string \<Rightarrow> string" where
  "dash_runs inRun [] = []"
| "dash_runs inRun (c # cs) =
     (if slug_char c then c # dash_runs False cs
      else if inRun then dash_runs True cs else CHR ''-'' # dash_runs True cs)"

definition strip_dashes :: "string \<Rightarrow> string" where
  "strip_dashes s = rev (dropWhile (\<lambda>c. c = CHR ''-'') (rev (dropWhile (\<lambda>c. c = CHR ''-'') s)))"

definition slug :: "string \<Rightarrow> string" where
  "slug value = strip_dashes (dash_runs False (map to_lower value))"

definition or_else :: "string \<Rightarrow> string \<Rightarrow> string" where
  "or_else s d = (if s = [] then d else s)"

text \<open>The part after the last slash.\<close>

definition without_scope :: "string \<Rightarrow> string" where
  "without_scope name = rev (takeWhile (\<lambda>c. c \<noteq> CHR ''/'') (rev name))"

definition connectorSlug :: "string \<Rightarrow> string" where
  "connectorSlug name =
     (let s = without_scope name;
          p = (if starts_with s CONNECTOR_PREFIX then drop (length CONNECTOR_PREFIX) s else s)
      in or_else (slug p) ''action'')"

definition triggerPrefix :: "string \<Rightarrow> string" where
  "triggerPrefix v = (if ends_with v TRIGGER_SUFFIX then v else v @ TRIGGER_SUFFIX)"

fun prefixOf :: "step \<Rightarrow> string" where
  "prefixOf (EmptyTrigger _ _ _) = ''trigger''"
| "prefixOf (ConnectorTrigger _ s _) = triggerPrefix (connectorSlug (triggerConnectorName s))"
| "prefixOf (Router _ _ _ _) = ''branch''"
| "prefixOf (Parallel _ _ _ _) = ''branch''"
| "prefixOf (Loop _ _ _ _) = ''loop''"
| "prefixOf (Code _ _ _ _ _) = ''script''"
| "prefixOf (Component _ s _ _ _) = or_else (slug (componentType s)) ''component''"
| "prefixOf (Connector _ s _ _ _) =
     (if connectorName s = AI_CONNECTOR \<and> actionName s = Some AGENT_ACTION then ''agent''
      else connectorSlug (connectorName s))"

definition numberOf :: "string option \<Rightarrow> string \<Rightarrow> nat" where
  "numberOf number prefix =
     (case number of
        None \<Rightarrow> 0
      | Some d \<Rightarrow>
          if \<not> starts_with d (prefix @ ''-'') then 0
          else case js_integer (js_number (drop (length prefix + 1) d)) of
              Some v \<Rightarrow> if 0 < v then nat v else 0
            | None \<Rightarrow> 0)"

fun readDisplayNumber :: "step \<Rightarrow> string option" where
  "readDisplayNumber (EmptyTrigger _ _ _) = None"
| "readDisplayNumber (ConnectorTrigger _ s _) = displayNumber s"
| "readDisplayNumber (Router _ s _ _) = displayNumber s"
| "readDisplayNumber (Parallel _ s _ _) = displayNumber s"
| "readDisplayNumber (Loop _ s _ _) = displayNumber s"
| "readDisplayNumber (Code _ s _ _ _) = displayNumber s"
| "readDisplayNumber (Component _ s _ _ _) = displayNumber s"
| "readDisplayNumber (Connector _ s _ _ _) = displayNumber s"

record numbered_step =
  ns_name :: string
  ns_prefix :: string
  ns_number :: "string option"

definition numbered :: "step \<Rightarrow> numbered_step" where
  "numbered s = \<lparr>ns_name = step_name s, ns_prefix = prefixOf s, ns_number = readDisplayNumber s\<rparr>"

text \<open>\<open>record[prefix] ?? 0\<close>; \<open>None\<close> is \<open>NaN\<close>.\<close>

type_synonym counters = "nat option js_record"

definition counter_of :: "counters \<Rightarrow> string \<Rightarrow> nat option" where
  "counter_of r p = (case map_of r p of Some v \<Rightarrow> v | None \<Rightarrow> if p = ''constructor'' then None else Some 0)"

definition bump_highest :: "counters \<Rightarrow> numbered_step \<Rightarrow> counters" where
  "bump_highest acc s =
     AList.update (ns_prefix s) (map_option (\<lambda>v. max v (numberOf (ns_number s) (ns_prefix s))) (counter_of acc (ns_prefix s))) acc"

record NumberingState =
  next_of :: counters
  seen :: "string list"
  numbers :: "string js_record"

definition show_counter :: "nat option \<Rightarrow> string" where
  "show_counter v = (case v of None \<Rightarrow> ''NaN'' | Some n \<Rightarrow> show_nat n)"

definition keeps_number :: "NumberingState \<Rightarrow> numbered_step \<Rightarrow> bool" where
  "keeps_number st s \<longleftrightarrow> numberOf (ns_number s) (ns_prefix s) > 0
     \<and> (case ns_number s of None \<Rightarrow> False | Some d \<Rightarrow> d \<notin> set (seen st))"

definition number_step :: "NumberingState \<Rightarrow> numbered_step \<Rightarrow> NumberingState" where
  "number_step st s =
     (if keeps_number st s
      then let d = the (ns_number s)
           in st\<lparr>seen := seen st @ [d], numbers := AList.update (ns_name s) d (numbers st)\<rparr>
      else let nextValue = map_option Suc (counter_of (next_of st) (ns_prefix s));
               assigned = ns_prefix s @ ''-'' @ show_counter nextValue
           in \<lparr>next_of = AList.update (ns_prefix s) nextValue (next_of st),
               seen = seen st @ [assigned],
               numbers = AList.update (ns_name s) assigned (numbers st)\<rparr>)"

definition number_steps :: "numbered_step list \<Rightarrow> NumberingState" where
  "number_steps ss = foldl number_step \<lparr>next_of = foldl bump_highest [] ss, seen = [], numbers = []\<rparr> ss"

definition computeNumbers :: "step \<Rightarrow> string js_record" where
  "computeNumbers trig = numbers (number_steps (map numbered (getAllSteps trig)))"

fun set_display_number :: "string \<Rightarrow> step \<Rightarrow> step" where
  "set_display_number d (ConnectorTrigger b s n) = ConnectorTrigger b (s\<lparr>displayNumber := Some d\<rparr>) n"
| "set_display_number d (Router b s cs n) = Router b (s\<lparr>displayNumber := Some d\<rparr>) cs n"
| "set_display_number d (Parallel b s cs n) = Parallel b (s\<lparr>displayNumber := Some d\<rparr>) cs n"
| "set_display_number d (Loop b s f n) = Loop b (s\<lparr>displayNumber := Some d\<rparr>) f n"
| "set_display_number d (Code b s x y n) = Code b (s\<lparr>displayNumber := Some d\<rparr>) x y n"
| "set_display_number d (Component b s x y n) = Component b (s\<lparr>displayNumber := Some d\<rparr>) x y n"
| "set_display_number d (Connector b s x y n) = Connector b (s\<lparr>displayNumber := Some d\<rparr>) x y n"
| "set_display_number d (EmptyTrigger b s n) = EmptyTrigger b s n"

definition assign_transfer :: "string js_record \<Rightarrow> transferFunction" where
  "assign_transfer nums s =
     (case map_of nums (step_name s) of
        None \<Rightarrow> Inr (Mutated s)
      | Some d \<Rightarrow>
          if readDisplayNumber s = Some d \<or> type_of s = EMPTY then Inr (Mutated s)
          else Inr (Mutated (set_display_number d s)))"

definition toTrigger :: "step \<Rightarrow> step option" where
  "toTrigger s = (if type_of s = CONNECTOR_TRIGGER \<or> type_of s = EMPTY then Some s else None)"

definition assign :: "nat \<Rightarrow> step \<Rightarrow> step result" where
  "assign d trig = rbind (transferStep d (assign_transfer (computeNumbers trig)) trig)
     (\<lambda>t. Inr (getD (toTrigger t) trig))"

subsection \<open>Numbers are distinct\<close>

definition canonical :: "numbered_step \<Rightarrow> bool" where
  "canonical s \<longleftrightarrow> (0 < numberOf (ns_number s) (ns_prefix s) \<longrightarrow>
     (\<exists>n. ns_number s = Some (ns_prefix s @ ''-'' @ show_nat n)))"

lemma dash_not_digit: "\<not> is_digit (CHR ''-'')"
  by (simp add: is_digit_def)

lemma last_dash_unique:
  assumes "p @ CHR ''-'' # ds = q @ CHR ''-'' # es" and "\<forall>c \<in> set ds. is_digit c" and "\<forall>c \<in> set es. is_digit c"
  shows "p = q \<and> ds = es"
proof -
  have "takeWhile is_digit (rev (r @ CHR ''-'' # fs)) = rev fs" if "\<forall>c \<in> set fs. is_digit c" for r fs
    using that dash_not_digit by (simp add: takeWhile_append)
  from this [OF assms(2), of p] this [OF assms(3), of q] have "ds = es"
    using arg_cong [OF assms(1), of "\<lambda>x. takeWhile is_digit (rev x)"] by simp
  with assms(1) show ?thesis by simp
qed

lemma numbered_string_inj:
  "p @ ''-'' @ show_nat m = q @ ''-'' @ show_nat n \<Longrightarrow> p = q \<and> m = n"
  using last_dash_unique [of p "show_nat m" q "show_nat n"] show_nat_digits show_nat_inj by auto

lemma numberOf_canonical_le: "numberOf (Some (p @ ''-'' @ show_nat n)) p \<le> n"
  by (auto simp: numberOf_def js_number_show_nat finite_num_def js_integer_def)

lemma numberOf_canonical_pos:
  "0 < numberOf (Some (p @ ''-'' @ show_nat n)) p \<Longrightarrow> numberOf (Some (p @ ''-'' @ show_nat n)) p = n"
  by (auto simp: numberOf_def js_number_show_nat finite_num_def js_integer_def split: if_splits)

definition counts :: "counters \<Rightarrow> string \<Rightarrow> nat" where
  "counts r p = getD (counter_of r p) 0"

definition no_nan :: "counters \<Rightarrow> bool" where
  "no_nan r \<longleftrightarrow> (\<forall>p. p \<noteq> ''constructor'' \<longrightarrow> counter_of r p \<noteq> None)"

lemma counter_of_update:
  "counter_of (AList.update p v r) q = (if q = p then v else counter_of r q)"
  by (auto simp: counter_of_def update_conv')

lemma bump_highest_invariant:
  assumes "no_nan r" and "ns_prefix s \<noteq> ''constructor''"
  shows "no_nan (bump_highest r s)" and "counts r p \<le> counts (bump_highest r s) p"
    and "numberOf (ns_number s) (ns_prefix s) \<le> counts (bump_highest r s) (ns_prefix s)"
  using assms by (auto simp: no_nan_def counts_def bump_highest_def counter_of_update)

lemma highest_bounds:
  assumes "no_nan r" and "\<forall>s \<in> set ss. ns_prefix s \<noteq> ''constructor''"
  shows "no_nan (foldl bump_highest r ss) \<and> (\<forall>p. counts r p \<le> counts (foldl bump_highest r ss) p)
     \<and> (\<forall>s \<in> set ss. numberOf (ns_number s) (ns_prefix s) \<le> counts (foldl bump_highest r ss) (ns_prefix s))"
  using assms
proof (induction ss arbitrary: r)
  case Nil
  then show ?case by simp
next
  case (Cons s ss)
  note b = bump_highest_invariant [OF Cons.prems(1), of s]
  have IH: "no_nan (foldl bump_highest (bump_highest r s) ss)"
    "\<And>p. counts (bump_highest r s) p \<le> counts (foldl bump_highest (bump_highest r s) ss) p"
    "\<forall>t \<in> set ss. numberOf (ns_number t) (ns_prefix t) \<le> counts (foldl bump_highest (bump_highest r s) ss) (ns_prefix t)"
    using Cons.IH [of "bump_highest r s"] Cons.prems b by auto
  with b Cons.prems show ?case by (auto intro: order_trans)
qed

text \<open>Every canonical string handed out so far is covered by its counter.\<close>

definition numbering_inv :: "NumberingState \<Rightarrow> bool" where
  "numbering_inv st \<longleftrightarrow> no_nan (next_of st) \<and> distinct (seen st)
     \<and> (\<forall>p n. p @ ''-'' @ show_nat n \<in> set (seen st) \<longrightarrow> n \<le> counts (next_of st) p)"

lemma number_step_inv:
  assumes inv: "numbering_inv st" and s: "ns_prefix s \<noteq> ''constructor''" "canonical s"
    and hi: "numberOf (ns_number s) (ns_prefix s) \<le> counts (next_of st) (ns_prefix s)"
  shows "numbering_inv (number_step st s)"
    and "counts (next_of st) p \<le> counts (next_of (number_step st s)) p"
    and "\<exists>d. seen (number_step st s) = seen st @ [d] \<and> numbers (number_step st s) = AList.update (ns_name s) d (numbers st)"
proof -
  obtain v where v: "counter_of (next_of st) (ns_prefix s) = Some v"
    using inv s by (auto simp: numbering_inv_def no_nan_def)
  show "counts (next_of st) p \<le> counts (next_of (number_step st s)) p"
    using v by (auto simp: number_step_def Let_def counts_def counter_of_update)
  show "\<exists>d. seen (number_step st s) = seen st @ [d] \<and> numbers (number_step st s) = AList.update (ns_name s) d (numbers st)"
    by (auto simp: number_step_def Let_def)
  show "numbering_inv (number_step st s)"
  proof (cases "keeps_number st s")
    case True
    then obtain d where d: "ns_number s = Some d" "d \<notin> set (seen st)" and pos: "0 < numberOf (Some d) (ns_prefix s)"
      by (auto simp: keeps_number_def split: option.splits)
    with s obtain n where n: "d = ns_prefix s @ ''-'' @ show_nat n" by (auto simp: canonical_def)
    with pos hi d have "n \<le> counts (next_of st) (ns_prefix s)" using numberOf_canonical_pos by metis
    with True d n inv show ?thesis
      by (auto simp: number_step_def numbering_inv_def Let_def dest!: numbered_string_inj [unfolded append_Cons append_Nil])
  next
    case False
    let ?a = "ns_prefix s @ ''-'' @ show_nat (Suc v)"
    have "Suc v \<le> counts (next_of st) (ns_prefix s)" if "?a \<in> set (seen st)"
      using that inv unfolding numbering_inv_def by blast
    then have "?a \<notin> set (seen st)" using v by (auto simp: counts_def)
    note fresh = this
    have st': "next_of (number_step st s) = AList.update (ns_prefix s) (Some (Suc v)) (next_of st)"
      "seen (number_step st s) = seen st @ [?a]"
      using False v by (simp_all add: number_step_def Let_def show_counter_def)
    have cnt: "counts (next_of (number_step st s)) q = (if q = ns_prefix s then Suc v else counts (next_of st) q)" for q
      by (simp add: st' counts_def counter_of_update)
    have "no_nan (next_of (number_step st s))"
      using inv by (simp add: st' numbering_inv_def no_nan_def counter_of_update)
    moreover have "distinct (seen (number_step st s))" using inv fresh by (simp add: st' numbering_inv_def)
    moreover have "n \<le> counts (next_of (number_step st s)) q"
      if q: "q @ ''-'' @ show_nat n \<in> set (seen (number_step st s))" for q n
    proof (cases "q @ ''-'' @ show_nat n = ?a")
      case True
      then show ?thesis using numbered_string_inj [OF True] by (simp add: cnt)
    next
      case False
      with q have "q @ ''-'' @ show_nat n \<in> set (seen st)" unfolding st' by auto
      with inv have "n \<le> counts (next_of st) q" unfolding numbering_inv_def by blast
      moreover have "counts (next_of st) (ns_prefix s) = v" using v by (simp add: counts_def)
      ultimately show ?thesis by (auto simp: cnt)
    qed
    ultimately show ?thesis unfolding numbering_inv_def by blast
  qed
qed

lemma number_steps_inv:
  assumes "numbering_inv st" and "\<forall>s \<in> set ss. ns_prefix s \<noteq> ''constructor'' \<and> canonical s"
    and "\<forall>s \<in> set ss. numberOf (ns_number s) (ns_prefix s) \<le> counts (next_of st) (ns_prefix s)"
    and "map snd (numbers st) = seen st" and "distinct (map fst (numbers st) @ map ns_name ss)"
  shows "numbering_inv (foldl number_step st ss) \<and> map snd (numbers (foldl number_step st ss)) = seen (foldl number_step st ss)
     \<and> map fst (numbers (foldl number_step st ss)) = map fst (numbers st) @ map ns_name ss"
  using assms
proof (induction ss arbitrary: st)
  case Nil
  then show ?case by simp
next
  case (Cons s ss)
  note st = number_step_inv [OF Cons.prems(1), of s]
  obtain d where d: "seen (number_step st s) = seen st @ [d]"
    "numbers (number_step st s) = AList.update (ns_name s) d (numbers st)" using st Cons.prems by auto
  moreover have "AList.update (ns_name s) d (numbers st) = numbers st @ [(ns_name s, d)]"
    using Cons.prems by (intro fst_update_new) auto
  ultimately show ?case
    using Cons.IH [of "number_step st s"] Cons.prems st by (auto intro: order_trans)
qed

lemma computeNumbers_props:
  assumes "distinct (step_names trig)"
    and "\<forall>s \<in> set (getAllSteps trig). prefixOf s \<noteq> ''constructor'' \<and> canonical (numbered s)"
  shows "distinct (map snd (computeNumbers trig))" and "map fst (computeNumbers trig) = step_names trig"
proof -
  let ?ss = "map numbered (getAllSteps trig)"
  let ?st = "\<lparr>next_of = foldl bump_highest [] ?ss, seen = [], numbers = []\<rparr>"
  have pre: "\<forall>s \<in> set ?ss. ns_prefix s \<noteq> ''constructor''" using assms by (auto simp: numbered_def)
  have nn: "no_nan []" by (simp add: no_nan_def counter_of_def)
  note h = highest_bounds [OF nn pre]
  have "numbering_inv (foldl number_step ?st ?ss) \<and> map snd (numbers (foldl number_step ?st ?ss)) = seen (foldl number_step ?st ?ss)
     \<and> map fst (numbers (foldl number_step ?st ?ss)) = map fst (numbers ?st) @ map ns_name ?ss"
    using h assms pre by (intro number_steps_inv) (auto simp: numbering_inv_def numbered_def o_def)
  then show "distinct (map snd (computeNumbers trig))" and "map fst (computeNumbers trig) = step_names trig"
    by (auto simp: computeNumbers_def number_steps_def numbering_inv_def numbered_def o_def)
qed

lemma set_display_number_simps [simp]:
  "base_of (set_display_number d s) = base_of s" "slots (set_display_number d s) = slots s"
  "type_of (set_display_number d s) = type_of s"
  by (cases s; simp)+

interpretation numbering: renaming_transfer "assign_transfer nums" "\<lambda>n. n" "\<lambda>_. True"
  by unfold_locales (auto simp: assign_transfer_def split: option.splits if_splits)

end
