(* ===== verification/Operation_Requests.thy ===== *)
theory Operation_Requests
  imports Step_Display_Number
begin

text \<open>
  The requests of \<open>core/execution/src/lib/workflows/operations/index.ts\<close> and the environment the
  operations read: the clock (\<open>dayjs().toISOString()\<close>, one reading per operation), the verdict of the
  schema library on a finished step (\<open>SingleActionSchema.safeParse(...).success\<close> and
  \<open>WorkflowTrigger.safeParse(...).success\<close>) and the call frames left.

  Branch indices are \<open>z.number()\<close> in the source; the model takes integers.
\<close>

record env =
  clock :: string
  safeParse :: "step \<Rightarrow> bool"
  stack :: nat

datatype ActionSettings =
    CodeS CodeActionSettings
  | ComponentS ComponentActionSettings
  | ConnectorS ConnectorActionSettings
  | LoopS LoopOnItemsActionSettings
  | RouterS RouterActionSettings
  | ParallelS ParallelActionSettings

text \<open>What \<open>createAction\<close> and \<open>_updateAction\<close> read of a request; \<open>valid\<close> may be missing.\<close>

record UpdateActionRequest =
  req_name :: string
  req_displayName :: string
  req_valid :: "bool option"
  req_skip :: "bool option"
  req_settings :: ActionSettings

datatype StepLocationRelativeToParent =
    AFTER | INSIDE_LOOP | INSIDE_BRANCH | INSIDE_ON_SUCCESS_BRANCH | INSIDE_ON_FAILURE_BRANCH

record AddActionRequest =
  parentStep :: string
  stepLocation :: "StepLocationRelativeToParent option"
  branchIndex :: "int option"
  action :: UpdateActionRequest

datatype TriggerSettings = EmptyS json | ConnectorTriggerS ConnectorTriggerSettings

record UpdateTriggerRequest =
  treq_name :: string
  treq_displayName :: string
  treq_valid :: "bool option"
  treq_settings :: TriggerSettings

record MoveActionRequest =
  moveName :: string
  newParentStep :: string
  moveLocation :: "StepLocationRelativeToParent option"
  moveBranchIndex :: "int option"

record AddBranchRequest =
  addBranchIndex :: int
  addBranchStep :: string
  addBranchConditions :: "BranchCondition list list option"
  addBranchName :: string

record MoveBranchRequest =
  sourceBranchIndex :: int
  targetBranchIndex :: int
  moveBranchStep :: string

record UpdateSampleDataInfoRequest =
  sdStepName :: string
  sdSettings :: "(string option \<times> string option) option"

text \<open>A note as a request: without its dates; \<open>ownerId\<close> may be missing, \<open>null\<close> or a string.\<close>

record NoteRequest =
  nr_id :: string
  nr_content :: string
  nr_ownerId :: "string option option"
  nr_color :: NoteColorVariant
  nr_position :: "rat \<times> rat"
  nr_size :: "rat \<times> rat"

record ImportWorkflowRequest =
  importDisplayName :: string
  importTrigger :: step
  importNotes :: "Note list option"

datatype WorkflowOperationRequest =
    MOVE_ACTION MoveActionRequest
  | CHANGE_STATUS
  | LOCK_AND_PUBLISH
  | USE_AS_DRAFT
  | LOCK_WORKFLOW
  | IMPORT_WORKFLOW ImportWorkflowRequest
  | CHANGE_NAME string
  | DELETE_ACTION "string list"
  | UPDATE_ACTION UpdateActionRequest
  | ADD_ACTION AddActionRequest
  | UPDATE_TRIGGER UpdateTriggerRequest
  | CHANGE_FOLDER
  | DUPLICATE_ACTION string "string option"
  | DELETE_BRANCH int string
  | ADD_BRANCH AddBranchRequest
  | DUPLICATE_BRANCH int string "string option"
  | SET_SKIP_ACTION "string list" bool
  | UPDATE_METADATA
  | SET_JOIN_EDGES "WorkflowJoinEdge list"
  | MOVE_BRANCH MoveBranchRequest
  | SAVE_SAMPLE_DATA
  | UPDATE_MINUTES_SAVED
  | UPDATE_OWNER
  | UPDATE_NOTE NoteRequest
  | DELETE_NOTE string
  | ADD_NOTE NoteRequest
  | UPDATE_SAMPLE_DATA_INFO UpdateSampleDataInfoRequest

text \<open>An action used as a request. A trigger is no request: the types keep it out of child positions.\<close>

fun as_request :: "step \<Rightarrow> UpdateActionRequest option" where
  "as_request (Code b s _ _ _) = Some \<lparr>req_name = sname b, req_displayName = displayName b,
     req_valid = Some (valid b), req_skip = skip b, req_settings = CodeS s\<rparr>"
| "as_request (Component b s _ _ _) = Some \<lparr>req_name = sname b, req_displayName = displayName b,
     req_valid = Some (valid b), req_skip = skip b, req_settings = ComponentS s\<rparr>"
| "as_request (Connector b s _ _ _) = Some \<lparr>req_name = sname b, req_displayName = displayName b,
     req_valid = Some (valid b), req_skip = skip b, req_settings = ConnectorS s\<rparr>"
| "as_request (Loop b s _ _) = Some \<lparr>req_name = sname b, req_displayName = displayName b,
     req_valid = Some (valid b), req_skip = skip b, req_settings = LoopS s\<rparr>"
| "as_request (Router b s _ _) = Some \<lparr>req_name = sname b, req_displayName = displayName b,
     req_valid = Some (valid b), req_skip = skip b, req_settings = RouterS s\<rparr>"
| "as_request (Parallel b s _ _) = Some \<lparr>req_name = sname b, req_displayName = displayName b,
     req_valid = Some (valid b), req_skip = skip b, req_settings = ParallelS s\<rparr>"
| "as_request (EmptyTrigger _ _ _) = None"
| "as_request (ConnectorTrigger _ _ _) = None"

fun as_trigger_request :: "step \<Rightarrow> UpdateTriggerRequest option" where
  "as_trigger_request (EmptyTrigger b s _) = Some \<lparr>treq_name = sname b, treq_displayName = displayName b,
     treq_valid = Some (valid b), treq_settings = EmptyS s\<rparr>"
| "as_trigger_request (ConnectorTrigger b s _) = Some \<lparr>treq_name = sname b, treq_displayName = displayName b,
     treq_valid = Some (valid b), treq_settings = ConnectorTriggerS s\<rparr>"
| "as_trigger_request _ = None"

subsection \<open>Connector versions\<close>

definition getExactVersion :: "string \<Rightarrow> string" where
  "getExactVersion v = (case v of [] \<Rightarrow> [] | c # cs \<Rightarrow> if c = CHR ''^'' \<or> c = CHR ''~'' then cs else v)"

fun used_connector :: "step \<Rightarrow> string option" where
  "used_connector (Connector _ s _ _ _) = Some (connectorName s)"
| "used_connector (ConnectorTrigger _ s _) = Some (triggerConnectorName s)"
| "used_connector _ = None"

definition getUsedConnectors :: "step \<Rightarrow> string list" where
  "getUsedConnectors trig = List.map_filter used_connector (getAllSteps trig)"

definition exact_request :: "UpdateActionRequest \<Rightarrow> UpdateActionRequest" where
  "exact_request r = (case req_settings r of
      ConnectorS s \<Rightarrow> r\<lparr>req_settings := ConnectorS (s\<lparr>connectorVersion := getExactVersion (connectorVersion s)\<rparr>)\<rparr>
    | _ \<Rightarrow> r)"

definition exact_trigger_request :: "UpdateTriggerRequest \<Rightarrow> UpdateTriggerRequest" where
  "exact_trigger_request r = (case treq_settings r of
      ConnectorTriggerS s \<Rightarrow>
        r\<lparr>treq_settings := ConnectorTriggerS (s\<lparr>triggerConnectorVersion := getExactVersion (triggerConnectorVersion s)\<rparr>)\<rparr>
    | _ \<Rightarrow> r)"

lemma exact_request_name [simp]: "req_name (exact_request r) = req_name r"
  by (simp add: exact_request_def split: ActionSettings.split)

end
