(* ===== verification/Tree_Operations.thy ===== *)
theory Tree_Operations
  imports Operation_Requests
begin

text \<open>
  The operations that change the step tree by one traversal: \<open>add-action.ts\<close>, \<open>delete-action.ts\<close>,
  \<open>update-action.ts\<close>, \<open>update-trigger.ts\<close>, \<open>add-branch.ts\<close>, \<open>delete-branch.ts\<close>, \<open>move-branch.ts\<close>,
  \<open>skip-action.ts\<close> and \<open>update-sample-data-info.ts\<close>. Each is a transfer function (what happens at one
  step) handed to \<open>transferWorkflow\<close>.
\<close>

subsection \<open>Adding an action\<close>

definition request_base :: "env \<Rightarrow> UpdateActionRequest \<Rightarrow> BaseProps" where
  "request_base e r = \<lparr>sname = req_name r, valid = False, displayName = req_displayName r,
     skip = req_skip r, lastUpdatedDate = clock e\<rparr>"

definition with_validity :: "env \<Rightarrow> bool option \<Rightarrow> step \<Rightarrow> step" where
  "with_validity e v s = map_base (\<lambda>b. b\<lparr>valid := getD v True \<and> safeParse e s\<rparr>) s"

definition createAction :: "env \<Rightarrow> UpdateActionRequest \<Rightarrow> step option \<Rightarrow> step" where
  "createAction e r n =
     with_validity e (req_valid r)
       (case req_settings r of
          RouterS s \<Rightarrow> Router (request_base e r) s (map (\<lambda>_. None) (branches s)) n
        | ParallelS s \<Rightarrow> Parallel (request_base e r) s (map (\<lambda>_. None) (parallelBranches s)) n
        | LoopS s \<Rightarrow> Loop (request_base e r) s None n
        | ConnectorS s \<Rightarrow> Connector (request_base e r) s None None n
        | ComponentS s \<Rightarrow> Component (request_base e r) s None None n
        | CodeS s \<Rightarrow> Code (request_base e r) s None None n)"

fun location_text :: "StepLocationRelativeToParent option \<Rightarrow> string" where
  "location_text None = ''undefined''"
| "location_text (Some AFTER) = ''AFTER''"
| "location_text (Some INSIDE_LOOP) = ''INSIDE_LOOP''"
| "location_text (Some INSIDE_BRANCH) = ''INSIDE_BRANCH''"
| "location_text (Some INSIDE_ON_SUCCESS_BRANCH) = ''INSIDE_ON_SUCCESS_BRANCH''"
| "location_text (Some INSIDE_ON_FAILURE_BRANCH) = ''INSIDE_ON_FAILURE_BRANCH''"

definition handleLoopOnItems ::
  "env \<Rightarrow> BaseProps \<Rightarrow> LoopOnItemsActionSettings \<Rightarrow> step option \<Rightarrow> step option \<Rightarrow> AddActionRequest \<Rightarrow> step result" where
  "handleLoopOnItems e b s f n r =
     (if stepLocation r = Some INSIDE_LOOP then Inr (Loop b s (Some (createAction e (action r) f)) n)
      else if stepLocation r = Some AFTER then Inr (Loop b s f (Some (createAction e (action r) n)))
      else Inl (OperationInvalid (''Loop step parent '' @ location_text (stepLocation r) @ '' not found'')))"

definition handleRouter ::
  "env \<Rightarrow> BaseProps \<Rightarrow> RouterActionSettings \<Rightarrow> step option list \<Rightarrow> step option \<Rightarrow> AddActionRequest \<Rightarrow> step result" where
  "handleRouter e b s cs n r =
     (if stepLocation r = Some INSIDE_BRANCH \<and> branchIndex r \<noteq> None
      then let i = the (branchIndex r)
           in Inr (Router b s (array_assign cs i (createAction e (action r) (array_read cs i))) n)
      else if stepLocation r = Some AFTER then Inr (Router b s cs (Some (createAction e (action r) n)))
      else Inl (OperationInvalid (''Router step parent '' @ location_text (stepLocation r) @ '' not found'')))"

definition handleParallel ::
  "env \<Rightarrow> BaseProps \<Rightarrow> ParallelActionSettings \<Rightarrow> step option list \<Rightarrow> step option \<Rightarrow> AddActionRequest \<Rightarrow> step result" where
  "handleParallel e b s cs n r =
     (if stepLocation r = Some INSIDE_BRANCH \<and> branchIndex r \<noteq> None
      then let i = the (branchIndex r)
           in Inr (Parallel b s (array_assign cs i (createAction e (action r) (array_read cs i))) n)
      else if stepLocation r = Some AFTER then Inr (Parallel b s cs (Some (createAction e (action r) n)))
      else Inl (OperationInvalid (''Parallel step parent '' @ location_text (stepLocation r) @ '' not found'')))"

fun type_text :: "step_type \<Rightarrow> string" where
  "type_text CODE = ''CODE''" | "type_text COMPONENT = ''COMPONENT''" | "type_text CONNECTOR = ''CONNECTOR''"
| "type_text LOOP_ON_ITEMS = ''LOOP_ON_ITEMS''" | "type_text ROUTER = ''ROUTER''" | "type_text PARALLEL = ''PARALLEL''"
| "type_text EMPTY = ''EMPTY''" | "type_text CONNECTOR_TRIGGER = ''CONNECTOR_TRIGGER''"

definition handleContinueOnFailureBranches :: "env \<Rightarrow> step \<Rightarrow> AddActionRequest \<Rightarrow> step result" where
  "handleContinueOnFailureBranches e p r =
     (let new = (\<lambda>old. Some (createAction e (action r) old)) in
      case p of
        Code b s x y n \<Rightarrow>
          Inr (if stepLocation r = Some INSIDE_ON_SUCCESS_BRANCH then Code b s (new x) y n
               else if stepLocation r = Some INSIDE_ON_FAILURE_BRANCH then Code b s x (new y) n
               else Code b s x y n)
      | Connector b s x y n \<Rightarrow>
          Inr (if stepLocation r = Some INSIDE_ON_SUCCESS_BRANCH then Connector b s (new x) y n
               else if stepLocation r = Some INSIDE_ON_FAILURE_BRANCH then Connector b s x (new y) n
               else Connector b s x y n)
      | _ \<Rightarrow> Inl (OperationInvalid
          (''Continue-on-failure branches are only available on Code and Connector actions, got '' @ type_text (type_of p))))"

definition add_transfer :: "env \<Rightarrow> AddActionRequest \<Rightarrow> transferFunction" where
  "add_transfer e r p =
     (if step_name p \<noteq> parentStep r then Inr (Mutated p)
      else if stepLocation r = Some INSIDE_ON_SUCCESS_BRANCH \<or> stepLocation r = Some INSIDE_ON_FAILURE_BRANCH
      then map_sum id Mutated (handleContinueOnFailureBranches e p r)
      else case p of
          Loop b s f n \<Rightarrow> map_sum id Mutated (handleLoopOnItems e b s f n r)
        | Router b s cs n \<Rightarrow> map_sum id Mutated (handleRouter e b s cs n r)
        | Parallel b s cs n \<Rightarrow> map_sum id Mutated (handleParallel e b s cs n r)
        | _ \<Rightarrow> Inr (Mutated (set_next (Some (createAction e (action r) (nextAction p))) p)))"

definition addAction :: "env \<Rightarrow> WorkflowVersion \<Rightarrow> AddActionRequest \<Rightarrow> WorkflowVersion result" where
  "addAction e wv r = transferWorkflow (stack e) (add_transfer e r) wv"

subsection \<open>Deleting actions\<close>

definition del_slot :: "string \<Rightarrow> step option \<Rightarrow> step option" where
  "del_slot name x = (case x of None \<Rightarrow> None | Some a \<Rightarrow> if step_name a = name then nextAction a else Some a)"

fun delete_child :: "string \<Rightarrow> step \<Rightarrow> step" where
  "delete_child name (Code b s x y n) = Code b s (del_slot name x) (del_slot name y) (del_slot name n)"
| "delete_child name (Connector b s x y n) = Connector b s (del_slot name x) (del_slot name y) (del_slot name n)"
| "delete_child name (Component b s x y n) = Component b s x y (del_slot name n)"
| "delete_child name (Loop b s f n) = Loop b s (del_slot name f) (del_slot name n)"
| "delete_child name (Router b s cs n) = Router b s (map (del_slot name) cs) (del_slot name n)"
| "delete_child name (Parallel b s cs n) = Parallel b s (map (del_slot name) cs) (del_slot name n)"
| "delete_child name (EmptyTrigger b s n) = EmptyTrigger b s (del_slot name n)"
| "delete_child name (ConnectorTrigger b s n) = ConnectorTrigger b s (del_slot name n)"

definition delete_transfer :: "string \<Rightarrow> transferFunction" where
  "delete_transfer name p = Inr (Mutated (delete_child name p))"

fun deleteAction :: "env \<Rightarrow> WorkflowVersion \<Rightarrow> string list \<Rightarrow> WorkflowVersion result" where
  "deleteAction e wv [] = Inr wv"
| "deleteAction e wv (name # names) =
     rbind (transferWorkflow (stack e) (delete_transfer name) wv) (\<lambda>wv'. deleteAction e wv' names)"

subsection \<open>Updating an action\<close>

text \<open>\<open>stepToUpdate.settings.displayNumber\<close>; the settings of an empty trigger are arbitrary JSON.\<close>

definition carried_number :: "step \<Rightarrow> string option result" where
  "carried_number s = (case s of
      EmptyTrigger _ j _ \<Rightarrow> (case j of
          JNull \<Rightarrow> Inl (TypeError ''Cannot read properties of null'')
        | JObj o' \<Rightarrow> (case map_of o' ''displayNumber'' of Some (JStr d) \<Rightarrow> Inr (Some d) | _ \<Rightarrow> Inr None)
        | _ \<Rightarrow> Inr None)
    | _ \<Rightarrow> Inr (readDisplayNumber s))"

fun failure_branches :: "step \<Rightarrow> step option \<times> step option" where
  "failure_branches (Code _ _ x y _) = (x, y)"
| "failure_branches (Connector _ _ x y _) = (x, y)"
| "failure_branches (Component _ _ x y _) = (x, y)"
| "failure_branches _ = (None, None)"

text \<open>The branches a Code or Connector request takes over, and those a Component request takes over.\<close>

definition kept_branches :: "step \<Rightarrow> step option \<times> step option" where
  "kept_branches s = (if type_of s = CODE \<or> type_of s = CONNECTOR then failure_branches s else (None, None))"

definition kept_component_branches :: "step \<Rightarrow> step option \<times> step option" where
  "kept_component_branches s = (if type_of s = COMPONENT then failure_branches s else (None, None))"

definition request_number :: "ActionSettings \<Rightarrow> string option" where
  "request_number a = (case a of CodeS s \<Rightarrow> displayNumber s | ComponentS s \<Rightarrow> displayNumber s
     | ConnectorS s \<Rightarrow> displayNumber s | LoopS s \<Rightarrow> displayNumber s | RouterS s \<Rightarrow> displayNumber s
     | ParallelS s \<Rightarrow> displayNumber s)"

definition updated_action :: "env \<Rightarrow> UpdateActionRequest \<Rightarrow> string option \<Rightarrow> step \<Rightarrow> step" where
  "updated_action e r num old =
     (let b = request_base e r; n = nextAction old in
      case req_settings r of
        CodeS s \<Rightarrow>
          (let (x, y) = kept_branches old;
               sd = (case old of Code _ t _ _ _ \<Rightarrow> sampleData t | _ \<Rightarrow> None)
           in Code b (s\<lparr>sampleData := sd, displayNumber := num\<rparr>) x y n)
      | ConnectorS s \<Rightarrow>
          (let (x, y) = kept_branches old;
               sd = (case old of Connector _ t _ _ _ \<Rightarrow> sampleData t | _ \<Rightarrow> None)
           in Connector b (s\<lparr>sampleData := sd, displayNumber := num\<rparr>) x y n)
      | ComponentS s \<Rightarrow>
          (let (x, y) = kept_component_branches old;
               sd = (case old of Component _ t _ _ _ \<Rightarrow> sampleData t | _ \<Rightarrow> None)
           in Component b (s\<lparr>sampleData := sd, displayNumber := num\<rparr>) x y n)
      | LoopS s \<Rightarrow>
          (let (sd, f) = (case old of Loop _ t f _ \<Rightarrow> (sampleData t, f) | _ \<Rightarrow> (None, None))
           in Loop b (s\<lparr>sampleData := sd, displayNumber := num\<rparr>) f n)
      | RouterS s \<Rightarrow>
          (let (sd, cs) = (case old of Router _ t cs _ \<Rightarrow> (sampleData t, cs) | _ \<Rightarrow> (None, [None, None]))
           in Router b (s\<lparr>sampleData := sd, displayNumber := num\<rparr>) cs n)
      | ParallelS s \<Rightarrow>
          (let (sd, cs) = (case old of Parallel _ t cs _ \<Rightarrow> (sampleData t, cs) | _ \<Rightarrow> (None, []))
           in Parallel b (s\<lparr>sampleData := sd, displayNumber := num\<rparr>)
                (map (\<lambda>i. array_read cs (int i)) [0..<length (parallelBranches s)]) n))"

definition update_transfer :: "env \<Rightarrow> UpdateActionRequest \<Rightarrow> transferFunction" where
  "update_transfer e r s =
     (if step_name s \<noteq> req_name r then Inr (Mutated s)
      else rbind (case request_number (req_settings r) of Some d \<Rightarrow> Inr (Some d) | None \<Rightarrow> carried_number s)
             (\<lambda>num. Inr (Replaced (with_validity e (req_valid r) (updated_action e r num s)))))"

definition updateAction :: "env \<Rightarrow> WorkflowVersion \<Rightarrow> UpdateActionRequest \<Rightarrow> WorkflowVersion result" where
  "updateAction e wv r = transferWorkflow (stack e) (update_transfer e r) wv"

subsection \<open>Updating the trigger\<close>

definition createTrigger ::
  "env \<Rightarrow> string \<Rightarrow> UpdateTriggerRequest \<Rightarrow> step option \<Rightarrow> SampleDataSettings option \<Rightarrow> string option \<Rightarrow> step" where
  "createTrigger e name r n sd num =
     (let b = \<lparr>sname = name, valid = False, displayName = treq_displayName r, skip = None, lastUpdatedDate = clock e\<rparr>
      in with_validity e (treq_valid r)
           (case treq_settings r of
              EmptyS j \<Rightarrow> EmptyTrigger b j n
            | ConnectorTriggerS s \<Rightarrow>
                ConnectorTrigger b (s\<lparr>sampleData := sd,
                  displayNumber := (case displayNumber s of Some d \<Rightarrow> Some d | None \<Rightarrow> num)\<rparr>) n))"

definition trigger_transfer :: "string \<Rightarrow> step \<Rightarrow> transferFunction" where
  "trigger_transfer name new p = Inr (if step_name p = name then Replaced new else Mutated p)"

definition updateTrigger :: "env \<Rightarrow> WorkflowVersion \<Rightarrow> UpdateTriggerRequest \<Rightarrow> WorkflowVersion result" where
  "updateTrigger e wv r =
     rbind (getStepOrThrow (treq_name r) (trigger wv)) (\<lambda>t.
       let (sd, num) = (case t of ConnectorTrigger _ s _ \<Rightarrow> (sampleData s, displayNumber s) | _ \<Rightarrow> (None, None))
       in transferWorkflow (stack e)
            (trigger_transfer (treq_name r) (createTrigger e (treq_name r) r (nextAction t) sd num)) wv)"

subsection \<open>Branches of routers and parallels\<close>

definition insertAt :: "'a list \<Rightarrow> int \<Rightarrow> 'a \<Rightarrow> 'a list" where
  "insertAt xs i v = take (slice_index (length xs) i) xs @ v # drop (slice_index (length xs) i) xs"

definition add_branch_transfer :: "AddBranchRequest \<Rightarrow> transferFunction" where
  "add_branch_transfer r p =
     (if step_name p \<noteq> addBranchStep r then Inr (Mutated p)
      else case p of
          Parallel b s cs n \<Rightarrow>
            Inr (Replaced (Parallel b
              (s\<lparr>parallelBranches := insertAt (parallelBranches s) (addBranchIndex r) (addBranchName r)\<rparr>)
              (insertAt cs (addBranchIndex r) None) n))
        | Router b s cs n \<Rightarrow>
            Inr (Replaced (Router b
              (s\<lparr>branches := insertAt (branches s) (addBranchIndex r) (createBranch (addBranchName r) (addBranchConditions r))\<rparr>)
              (insertAt cs (addBranchIndex r) None) n))
        | _ \<Rightarrow> Inr (Mutated p))"

definition addBranch :: "env \<Rightarrow> WorkflowVersion \<Rightarrow> AddBranchRequest \<Rightarrow> WorkflowVersion result" where
  "addBranch e wv r = transferWorkflow (stack e) (add_branch_transfer r) wv"

definition delete_branch_transfer :: "int \<Rightarrow> string \<Rightarrow> transferFunction" where
  "delete_branch_transfer i name p =
     (if step_name p \<noteq> name then Inr (Mutated p)
      else case p of
          Parallel b s cs n \<Rightarrow>
            Inr (Replaced (Parallel b (s\<lparr>parallelBranches := remove_index i (parallelBranches s)\<rparr>) (remove_index i cs) n))
        | Router b s cs n \<Rightarrow>
            Inr (Replaced (Router b (s\<lparr>branches := remove_index i (branches s)\<rparr>) (remove_index i cs) n))
        | _ \<Rightarrow> Inr (Mutated p))"

definition deleteBranch :: "env \<Rightarrow> WorkflowVersion \<Rightarrow> int \<Rightarrow> string \<Rightarrow> WorkflowVersion result" where
  "deleteBranch e wv i name = transferWorkflow (stack e) (delete_branch_transfer i name) wv"

definition isIndexWithinBounds :: "int \<Rightarrow> nat \<Rightarrow> bool" where
  "isIndexWithinBounds i n \<longleftrightarrow> 0 \<le> i \<and> i < int n"

text \<open>\<open>splice(s, 1)\<close> and then \<open>splice(t, 0, x)\<close>, where \<open>x\<close> was read at \<open>s\<close> before.\<close>

definition splice_move :: "int \<Rightarrow> int \<Rightarrow> 'a \<Rightarrow> 'a list \<Rightarrow> 'a list" where
  "splice_move src dst x xs = insertAt (remove_index src xs) dst x"

definition is_fallback :: "RouterBranch \<Rightarrow> bool" where
  "is_fallback br = (case br of FallbackBranch _ \<Rightarrow> True | _ \<Rightarrow> False)"

definition move_branch_transfer :: "MoveBranchRequest \<Rightarrow> transferFunction" where
  "move_branch_transfer r p = (case p of
      Router b s cs n \<Rightarrow>
        (let i = sourceBranchIndex r; j = targetBranchIndex r; bs = branches s in
         if sname b \<noteq> moveBranchStep r then Inr (Mutated p)
         else if \<not> isIndexWithinBounds i (length bs) \<or> \<not> isIndexWithinBounds j (length bs) \<or> i = j
         then Inr (Mutated p)
         else if is_fallback (bs ! nat i) \<or> is_fallback (bs ! nat j) then Inr (Mutated p)
         else Inr (Mutated (Router b (s\<lparr>branches := splice_move i j (bs ! nat i) bs\<rparr>)
                     (splice_move i j (array_read cs i) cs) n)))
    | _ \<Rightarrow> Inr (Mutated p))"

definition moveBranch :: "env \<Rightarrow> WorkflowVersion \<Rightarrow> MoveBranchRequest \<Rightarrow> WorkflowVersion result" where
  "moveBranch e wv r = transferWorkflow (stack e) (move_branch_transfer r) wv"

subsection \<open>Skipping and sample data\<close>

definition skip_transfer :: "string list \<Rightarrow> bool \<Rightarrow> transferFunction" where
  "skip_transfer names v s =
     Inr (if step_name s \<notin> set names then Mutated s else Replaced (map_base (\<lambda>b. b\<lparr>skip := Some v\<rparr>) s))"

definition skipAction :: "env \<Rightarrow> WorkflowVersion \<Rightarrow> string list \<Rightarrow> bool \<Rightarrow> WorkflowVersion result" where
  "skipAction e wv names v = transferWorkflow (stack e) (skip_transfer names v) wv"

text \<open>\<open>{ ...settings }\<close> for arbitrary JSON: an array or a string spreads its indices.\<close>

fun json_spread :: "json \<Rightarrow> json_obj" where
  "json_spread (JObj o') = o'"
| "json_spread (JArr xs) = map (\<lambda>(i, x). (show_nat i, x)) (enumerate 0 xs)"
| "json_spread (JStr s) = map (\<lambda>(i, c). (show_nat i, JStr [c])) (enumerate 0 s)"
| "json_spread _ = []"

definition sample_json :: "SampleDataSettings \<Rightarrow> json" where
  "sample_json d = JObj
     ((case sampleDataFileId d of Some v \<Rightarrow> [(''sampleDataFileId'', JStr v)] | None \<Rightarrow> [])
      @ (case sampleDataInputFileId d of Some v \<Rightarrow> [(''sampleDataInputFileId'', JStr v)] | None \<Rightarrow> [])
      @ (case lastTestDate d of Some v \<Rightarrow> [(''lastTestDate'', JStr v)] | None \<Rightarrow> []))"

fun set_sample_data :: "SampleDataSettings option \<Rightarrow> step \<Rightarrow> step" where
  "set_sample_data d (Code b s x y n) = Code b (s\<lparr>sampleData := d\<rparr>) x y n"
| "set_sample_data d (Component b s x y n) = Component b (s\<lparr>sampleData := d\<rparr>) x y n"
| "set_sample_data d (Connector b s x y n) = Connector b (s\<lparr>sampleData := d\<rparr>) x y n"
| "set_sample_data d (Loop b s f n) = Loop b (s\<lparr>sampleData := d\<rparr>) f n"
| "set_sample_data d (Router b s cs n) = Router b (s\<lparr>sampleData := d\<rparr>) cs n"
| "set_sample_data d (Parallel b s cs n) = Parallel b (s\<lparr>sampleData := d\<rparr>) cs n"
| "set_sample_data d (ConnectorTrigger b s n) = ConnectorTrigger b (s\<lparr>sampleData := d\<rparr>) n"
| "set_sample_data d (EmptyTrigger b j n) = EmptyTrigger b
     (JObj (case d of None \<Rightarrow> AList.delete ''sampleData'' (json_spread j)
            | Some v \<Rightarrow> AList.update ''sampleData'' (sample_json v) (json_spread j))) n"

definition sample_data_transfer :: "env \<Rightarrow> UpdateSampleDataInfoRequest \<Rightarrow> transferFunction" where
  "sample_data_transfer e r s =
     Inr (if step_name s \<noteq> sdStepName r then Mutated s
          else Replaced (set_sample_data (map_option (\<lambda>(f, i). \<lparr>sampleDataFileId = f, sampleDataInputFileId = i,
                            lastTestDate = Some (clock e)\<rparr>) (sdSettings r)) s))"

definition updateSampleDataInfo :: "env \<Rightarrow> WorkflowVersion \<Rightarrow> UpdateSampleDataInfoRequest \<Rightarrow> WorkflowVersion result" where
  "updateSampleDataInfo e wv r = transferWorkflow (stack e) (sample_data_transfer e r) wv"

end
