(* ===== verification/Action_Cloning.thy ===== *)
theory Action_Cloning
  imports Tree_Operations
begin

text \<open>
  \<open>operations/add-action-util.ts\<close>: fresh names for copied steps and the renaming of the references to
  them inside the settings of the copies, with \<open>applyFunctionToValuesSync\<close> of
  \<open>core/utils/src/lib/object-utils.ts\<close>.

  The two regular expressions of \<open>remapStepReferences\<close> are written out as scanners. The name table is
  a plain object, so a lookup also answers to the names of \<open>Object.prototype\<close>; the text such a
  function turns into when it is spliced into a string is \<open>prototype_text\<close>.
\<close>

subsection \<open>Fresh names\<close>

fun assign_fresh_names :: "string list \<Rightarrow> string list \<Rightarrow> string js_record \<Rightarrow> string js_record" where
  "assign_fresh_names existing [] m = m"
| "assign_fresh_names existing (old # olds) m =
     (let new = findUnusedName existing in assign_fresh_names (existing @ [new]) olds (AList.update old new m))"

definition mapToNewNames :: "WorkflowVersion \<Rightarrow> step list \<Rightarrow> string js_record" where
  "mapToNewNames wv clonedActions =
     assign_fresh_names (step_names (trigger wv)) (concat (map step_names clonedActions)) []"

subsection \<open>References inside templates\<close>

definition is_word :: "char \<Rightarrow> bool" where
  "is_word c \<longleftrightarrow> is_digit c \<or> is_upper c \<or> is_lower c \<or> c = CHR ''_''"

text \<open>\<open>.\<close> does not match a line terminator.\<close>

definition is_newline :: "char \<Rightarrow> bool" where
  "is_newline c \<longleftrightarrow> (of_char c :: nat) \<in> {10, 13}"

definition prototype_text :: "string \<Rightarrow> string" where
  "prototype_text k =
     (if k = ''__proto__'' then ''[object Object]''
      else if k = ''constructor'' then ''function Object() { [native code] }''
      else ''function '' @ k @ ''() { [native code] }'')"

text \<open>\<open>oldNameToNewName[identifier] ?? identifier\<close> as text.\<close>

definition new_identifier :: "string js_record \<Rightarrow> string \<Rightarrow> string" where
  "new_identifier m k = (case map_of m k of
      Some v \<Rightarrow> v
    | None \<Rightarrow> if k \<in> set object_prototype_keys then prototype_text k else k)"

text \<open>\<open>/\b[a-zA-Z_][a-zA-Z0-9_]*\b/g\<close>: the maximal runs of word characters that do not start with a digit.\<close>

function rename_identifiers :: "string js_record \<Rightarrow> string \<Rightarrow> string" where
  "rename_identifiers m [] = []"
| "rename_identifiers m (c # cs) =
     (if \<not> is_word c then c # rename_identifiers m cs
      else let w = takeWhile is_word (c # cs)
           in (if is_digit c then w else new_identifier m w) @ rename_identifiers m (dropWhile is_word cs))"
  by pat_completeness auto
termination
  by (relation "measure (\<lambda>(_, s). length s)") (auto simp: le_imp_less_Suc length_dropWhile_le)

text \<open>\<open>(.*?)}}\<close> from here: the text before the first \<open>}}\<close> on this line, and what follows.\<close>

fun token_body :: "string \<Rightarrow> (string \<times> string) option" where
  "token_body [] = None"
| "token_body (c # cs) =
     (if starts_with (c # cs) ''}}'' then Some ([], tl cs)
      else if is_newline c then None
      else map_option (\<lambda>(b, r). (c # b, r)) (token_body cs))"

lemma token_body_split: "token_body s = Some (b, r) \<Longrightarrow> s = b @ ''}}'' @ r"
proof (induction s arbitrary: b)
  case Nil
  then show ?case by simp
next
  case (Cons c cs)
  then show ?case
    by (cases "starts_with (c # cs) ''}}''") (auto simp: starts_with_iff split: if_splits)
qed

function remap_text :: "string js_record \<Rightarrow> string \<Rightarrow> string" where
  "remap_text m [] = []"
| "remap_text m (c # cs) =
     (case (if starts_with (c # cs) ''{{'' then token_body (tl cs) else None) of
        Some (b, r) \<Rightarrow> ''{{'' @ rename_identifiers m b @ ''}}'' @ remap_text m r
      | None \<Rightarrow> c # remap_text m cs)"
  by pat_completeness auto
termination
proof (relation "measure (\<lambda>(_, s). length s)", goal_cases)
  case (3 m c cs x b r)
  then have "token_body (tl cs) = Some (b, r)" by (simp split: if_splits)
  from token_body_split [OF this] have "length r < length (tl cs)" by simp
  then show ?case by simp
qed simp_all

definition remapStepReferences :: "string js_record \<Rightarrow> string \<Rightarrow> string" where
  "remapStepReferences m text = remap_text m text"

subsection \<open>Settings of a copy\<close>

fun applyFunctionToValuesSync :: "(string \<Rightarrow> string) \<Rightarrow> json \<Rightarrow> json" where
  "applyFunctionToValuesSync f (JStr s) = JStr (f s)"
| "applyFunctionToValuesSync f (JArr xs) = JArr (map (applyFunctionToValuesSync f) xs)"
| "applyFunctionToValuesSync f (JObj o') = JObj (map (\<lambda>(k, v). (k, applyFunctionToValuesSync f v)) o')"
| "applyFunctionToValuesSync f v = v"

definition apply_to_object :: "(string \<Rightarrow> string) \<Rightarrow> json_obj \<Rightarrow> json_obj" where
  "apply_to_object f o' = map (\<lambda>(k, v). (k, applyFunctionToValuesSync f v)) o'"

definition clone_common :: "(string \<Rightarrow> string) \<Rightarrow> 'a common_settings_scheme \<Rightarrow> 'a common_settings_scheme" where
  "clone_common f s = s\<lparr>
     sampleData := map_option (\<lambda>_. \<lparr>sampleDataFileId = None, sampleDataInputFileId = None, lastTestDate = None\<rparr>) (sampleData s),
     customLogoUrl := map_option f (customLogoUrl s),
     displayNumber := None\<rparr>"

definition clone_rule :: "(string \<Rightarrow> string) \<Rightarrow> ErrorHandlingRule \<Rightarrow> ErrorHandlingRule" where
  "clone_rule f r = r\<lparr>ruleId := f (ruleId r), ruleName := f (ruleName r), ruleCodes := map f (ruleCodes r)\<rparr>"

definition clone_eh :: "(string \<Rightarrow> string) \<Rightarrow> 'a eh_settings_scheme \<Rightarrow> 'a eh_settings_scheme" where
  "clone_eh f s = (clone_common f s)\<lparr>input := apply_to_object f (input s),
     errorHandlingOptions := map_option (\<lambda>o'. o'\<lparr>rules := map_option (map (clone_rule f)) (rules o')\<rparr>) (errorHandlingOptions s)\<rparr>"

definition clone_condition :: "(string \<Rightarrow> string) \<Rightarrow> BranchCondition \<Rightarrow> BranchCondition" where
  "clone_condition f c = c\<lparr>firstValue := f (firstValue c), secondValue := map_option f (secondValue c)\<rparr>"

fun clone_branch :: "(string \<Rightarrow> string) \<Rightarrow> RouterBranch \<Rightarrow> RouterBranch" where
  "clone_branch f (ConditionBranch n cs) = ConditionBranch (f n) (map (map (clone_condition f)) cs)"
| "clone_branch f (FallbackBranch n) = FallbackBranch (f n)"

text \<open>
  The settings after the remapping. The source code of a Code step is kept; enumeration values hold no
  template. The argument of \<open>clone\<close> is an action: a trigger is no \<open>WorkflowAction\<close>.
\<close>

fun clone_settings :: "(string \<Rightarrow> string) \<Rightarrow> step \<Rightarrow> step" where
  "clone_settings f (Code b s x y n) = Code b (clone_eh f s) x y n"
| "clone_settings f (Component b s x y n) = Component b ((clone_eh f s)\<lparr>
     componentPropertySettings := apply_to_object f (componentPropertySettings s),
     componentType := f (componentType s)\<rparr>) x y n"
| "clone_settings f (Connector b s x y n) = Connector b ((clone_eh f s)\<lparr>
     propertySettings := apply_to_object f (propertySettings s), connectorName := f (connectorName s),
     connectorVersion := f (connectorVersion s), actionName := map_option f (actionName s)\<rparr>) x y n"
| "clone_settings f (Loop b s x n) = Loop b ((clone_common f s)\<lparr>items := f (items s)\<rparr>) x n"
| "clone_settings f (Router b s cs n) = Router b ((clone_common f s)\<lparr>branches := map (clone_branch f) (branches s)\<rparr>) cs n"
| "clone_settings f (Parallel b s cs n) =
     Parallel b ((clone_common f s)\<lparr>parallelBranches := map f (parallelBranches s)\<rparr>) cs n"
| "clone_settings f (EmptyTrigger b s n) = EmptyTrigger b s n"
| "clone_settings f (ConnectorTrigger b s n) = ConnectorTrigger b s n"

definition DEFAULT_COPY_SUFFIX :: string where
  "DEFAULT_COPY_SUFFIX = ''Copy''"

text \<open>Every name of the copied tree is a key of the table, so the empty default is never read.\<close>

definition clone :: "env \<Rightarrow> string js_record \<Rightarrow> string option \<Rightarrow> step \<Rightarrow> step" where
  "clone e m copySuffix s =
     clone_settings (remapStepReferences m)
       (map_base (\<lambda>b. b\<lparr>displayName := displayName b @ '' '' @ getD copySuffix DEFAULT_COPY_SUFFIX,
                        sname := getD (map_of m (sname b)) [], lastUpdatedDate := clock e\<rparr>) s)"

definition clone_transfer :: "env \<Rightarrow> string js_record \<Rightarrow> string option \<Rightarrow> transferFunction" where
  "clone_transfer e m copySuffix s = Inr (Mutated (clone e m copySuffix s))"

definition clone_tree :: "env \<Rightarrow> string js_record \<Rightarrow> string option \<Rightarrow> step \<Rightarrow> step result" where
  "clone_tree e m copySuffix s = transferStep (stack e) (clone_transfer e m copySuffix) s"

subsection \<open>The name table is fresh and injective\<close>

lemma assign_fresh_names_zip:
  assumes "distinct olds" and "set olds \<inter> set (map fst m) = {}"
  shows "assign_fresh_names existing olds m = m @ zip olds (findUnusedNames existing (length olds))"
  using assms
proof (induction existing olds m rule: assign_fresh_names.induct)
  case (1 existing m)
  then show ?case by simp
next
  case (2 existing old olds m)
  then show ?case by (simp add: Let_def fst_update_new)
qed

lemma mapToNewNames_zip:
  assumes "distinct (concat (map step_names cs))"
  shows "mapToNewNames wv cs = zip (concat (map step_names cs))
           (findUnusedNames (step_names (trigger wv)) (length (concat (map step_names cs))))"
  unfolding mapToNewNames_def by (subst assign_fresh_names_zip) (use assms in auto)

lemma map_new_names:
  assumes "distinct olds" and "length news = length olds"
  shows "map (\<lambda>n. getD (map_of (zip olds news) n) []) olds = news"
  using assms by (intro nth_equalityI) (simp_all add: map_of_zip_nth)

lemma clone_settings_simps [simp]:
  "base_of (clone_settings f s) = base_of s" "slots (clone_settings f s) = slots s"
  "type_of (clone_settings f s) = type_of s"
  by (cases s; simp)+

lemma slots_map_base [simp]: "slots (map_base g s) = slots s"
  by (cases s) simp_all

interpretation cloning: renaming_transfer "clone_transfer e m sfx" "\<lambda>n. getD (map_of m n) []" "\<lambda>_. True"
  by unfold_locales (auto simp: clone_transfer_def clone_def)

lemma clone_tree_names:
  assumes "length (getAllSteps s) \<le> stack e" and "distinct (step_names s)"
  shows "\<exists>r. clone_tree e (mapToNewNames wv [s]) sfx s = Inr r
           \<and> step_names r = findUnusedNames (step_names (trigger wv)) (length (step_names s))"
proof -
  let ?m = "mapToNewNames wv [s]"
  have m: "?m = zip (step_names s) (findUnusedNames (step_names (trigger wv)) (length (step_names s)))"
    using mapToNewNames_zip [of "[s]" wv] assms by simp
  obtain r where r: "clone_tree e ?m sfx s = Inr r" "step_names r = map (\<lambda>n. getD (map_of ?m n) []) (step_names s)"
    using cloning.transfer_names [of s "stack e" e ?m sfx] assms by (auto simp: clone_tree_def)
  have "map (\<lambda>n. getD (map_of ?m n) []) (step_names s) = findUnusedNames (step_names (trigger wv)) (length (step_names s))"
    unfolding m using findUnusedNames_fresh assms(2) by (intro map_new_names) auto
  with r show ?thesis by auto
qed

subsection \<open>References that name no copied step stay\<close>

lemma rename_identifiers_words:
  "rename_identifiers m (w @ s) = (if w = [] then rename_identifiers m s
     else (if is_digit (hd w) then w else new_identifier m w) @ rename_identifiers m s)"
  if "list_all is_word w" "s = [] \<or> \<not> is_word (hd s)"
proof (cases w)
  case Nil
  then show ?thesis by simp
next
  case (Cons c cs)
  have "takeWhile is_word (w @ s) = w" "dropWhile is_word (cs @ s) = s"
    using that Cons by (cases s; auto simp: list_all_iff takeWhile_append dropWhile_append)+
  with that Cons show ?thesis by (simp add: Let_def)
qed

lemma token_body_plain:
  "list_all (\<lambda>c. c \<noteq> CHR ''}'' \<and> \<not> is_newline c) b \<Longrightarrow> token_body (b @ ''}}'' @ r) = Some (b, r)"
  by (induction b) auto

lemma remap_text_token:
  assumes "list_all (\<lambda>c. c \<noteq> CHR ''}'' \<and> \<not> is_newline c) b"
  shows "remap_text m (''{{'' @ b @ ''}}'' @ r) = ''{{'' @ rename_identifiers m b @ ''}}'' @ remap_text m r"
  using token_body_plain [OF assms, of r] by simp

lemma word_not_brace: "is_word c \<Longrightarrow> c \<noteq> CHR ''}'' \<and> \<not> is_newline c"
  by (auto simp: is_word_def is_digit_def is_upper_def is_lower_def is_newline_def)

fun has_open :: "string \<Rightarrow> bool" where
  "has_open [] = False"
| "has_open (c # cs) = (starts_with (c # cs) ''{{'' \<or> has_open cs)"

lemma remap_text_no_token: "\<not> has_open s \<Longrightarrow> remap_text m s = s"
  by (induction s) auto

end
