(* ===== verification/Operations.thy ===== *)
theory Operations
  imports Action_Cloning
begin

text \<open>
  \<open>workflowOperations\<close> of \<open>core/execution/src/lib/workflows/operations\<close>: notes, join edges, the
  operations that expand into other operations (import, duplicate, move, copy and paste) and \<open>apply\<close>,
  which dispatches a request, renumbers the steps and recomputes the validity of the version.

  \<open>apply\<close> calls itself for the expanded requests. These are never composite themselves, which is the
  measure of its termination proof.
\<close>

subsection \<open>Notes\<close>

definition updateNote :: "env \<Rightarrow> WorkflowVersion \<Rightarrow> NoteRequest \<Rightarrow> WorkflowVersion" where
  "updateNote e wv r = wv\<lparr>versionNotes := map (\<lambda>n.
     if noteId n = nr_id r
     then \<lparr>noteId = nr_id r, content = nr_content r, ownerId = getD (nr_ownerId r) (ownerId n), color = nr_color r,
           position = nr_position r, noteSize = nr_size r, createdAt = createdAt n, updatedAt = clock e\<rparr>
     else n) (versionNotes wv)\<rparr>"

definition deleteNote :: "WorkflowVersion \<Rightarrow> string \<Rightarrow> WorkflowVersion" where
  "deleteNote wv i = wv\<lparr>versionNotes := filter (\<lambda>n. noteId n \<noteq> i) (versionNotes wv)\<rparr>"

definition addNote :: "env \<Rightarrow> WorkflowVersion \<Rightarrow> NoteRequest \<Rightarrow> WorkflowVersion" where
  "addNote e wv r = wv\<lparr>versionNotes := versionNotes wv @
     [\<lparr>noteId = nr_id r, content = nr_content r, ownerId = getD (nr_ownerId r) None, color = nr_color r,
       position = nr_position r, noteSize = nr_size r, createdAt = clock e, updatedAt = clock e\<rparr>]\<rparr>"

definition note_as_request :: "Note \<Rightarrow> NoteRequest" where
  "note_as_request n = \<lparr>nr_id = noteId n, nr_content = content n, nr_ownerId = Some (ownerId n),
     nr_color = color n, nr_position = position n, nr_size = noteSize n\<rparr>"

subsection \<open>Join edges\<close>

definition setJoinEdges :: "WorkflowVersion \<Rightarrow> WorkflowJoinEdge list \<Rightarrow> WorkflowVersion" where
  "setJoinEdges wv es =
     (let stepNames = set (step_names (trigger wv));
          joinEdges = filter (\<lambda>e. edge_from e \<noteq> edge_to e \<and> edge_from e \<in> stepNames \<and> edge_to e \<in> stepNames) es
      in wv\<lparr>graph := (if joinEdges = [] then None else Some joinEdges)\<rparr>)"

subsection \<open>Import\<close>

fun removeAnySubsequentAction :: "step \<Rightarrow> step" where
  "removeAnySubsequentAction (Router b s cs n) = Router b s (map (map_option removeAnySubsequentAction) cs) None"
| "removeAnySubsequentAction (Loop b s f n) = Loop b s None None"
| "removeAnySubsequentAction (Connector b s x y n) = Connector b s None None None"
| "removeAnySubsequentAction (Code b s x y n) = Code b s None None None"
| "removeAnySubsequentAction s = set_next None s"

text \<open>
  One \<open>ADD_ACTION\<close> for a child. The request schema reads the name, the display name, the flags and the
  settings of the action.
\<close>

definition add_operation ::
  "string \<Rightarrow> StepLocationRelativeToParent \<Rightarrow> int option \<Rightarrow> step \<Rightarrow> WorkflowOperationRequest list" where
  "add_operation parent loc i child = (case as_request (removeAnySubsequentAction child) of
      None \<Rightarrow> []
    | Some r \<Rightarrow> [ADD_ACTION \<lparr>parentStep = parent, stepLocation = Some loc, branchIndex = i, action = r\<rparr>])"

lemma enumerate_size [termination_simp]:
  "(i, Some a) \<in> set (enumerate k cs) \<Longrightarrow> size a < size_list (size_option size) cs"
  by (drule enumerate_snd_mem) (rule size_Some_in_list)

fun getImportOperationsForSteps :: "step \<Rightarrow> WorkflowOperationRequest list" where
  "getImportOperationsForSteps (Code b s x y n) =
     opt_list (add_operation (sname b) AFTER None) n
     @ opt_list (\<lambda>c. add_operation (sname b) INSIDE_ON_SUCCESS_BRANCH None c @ getImportOperationsForSteps c) x
     @ opt_list (\<lambda>c. add_operation (sname b) INSIDE_ON_FAILURE_BRANCH None c @ getImportOperationsForSteps c) y
     @ opt_list getImportOperationsForSteps n"
| "getImportOperationsForSteps (Connector b s x y n) =
     opt_list (add_operation (sname b) AFTER None) n
     @ opt_list (\<lambda>c. add_operation (sname b) INSIDE_ON_SUCCESS_BRANCH None c @ getImportOperationsForSteps c) x
     @ opt_list (\<lambda>c. add_operation (sname b) INSIDE_ON_FAILURE_BRANCH None c @ getImportOperationsForSteps c) y
     @ opt_list getImportOperationsForSteps n"
| "getImportOperationsForSteps (Loop b s f n) =
     opt_list (add_operation (sname b) AFTER None) n
     @ opt_list (\<lambda>c. add_operation (sname b) INSIDE_LOOP None c @ getImportOperationsForSteps c) f
     @ opt_list getImportOperationsForSteps n"
| "getImportOperationsForSteps (Router b s cs n) =
     opt_list (add_operation (sname b) AFTER None) n
     @ concat (map (\<lambda>(i, x). opt_list (\<lambda>c. add_operation (sname b) INSIDE_BRANCH (Some (int i)) c
                                @ getImportOperationsForSteps c) x) (enumerate 0 cs))
     @ opt_list getImportOperationsForSteps n"
| "getImportOperationsForSteps (Parallel b s cs n) =
     opt_list (add_operation (sname b) AFTER None) n
     @ concat (map (\<lambda>(i, x). opt_list (\<lambda>c. add_operation (sname b) INSIDE_BRANCH (Some (int i)) c
                                @ getImportOperationsForSteps c) x) (enumerate 0 cs))
     @ opt_list getImportOperationsForSteps n"
| "getImportOperationsForSteps (Component b s x y n) =
     opt_list (add_operation (sname b) AFTER None) n @ opt_list getImportOperationsForSteps n"
| "getImportOperationsForSteps (EmptyTrigger b s n) =
     opt_list (add_operation (sname b) AFTER None) n @ opt_list getImportOperationsForSteps n"
| "getImportOperationsForSteps (ConnectorTrigger b s n) =
     opt_list (add_operation (sname b) AFTER None) n @ opt_list getImportOperationsForSteps n"

definition getImportOperationsForNotes :: "WorkflowVersion \<Rightarrow> ImportWorkflowRequest \<Rightarrow> WorkflowOperationRequest list" where
  "getImportOperationsForNotes wv r =
     map (\<lambda>n. DELETE_NOTE (noteId n)) (versionNotes wv)
     @ map (\<lambda>n. ADD_NOTE (note_as_request n)) (getD (importNotes r) [])"

definition update_trigger_operation :: "step \<Rightarrow> WorkflowOperationRequest list" where
  "update_trigger_operation t = (case as_trigger_request t of None \<Rightarrow> [] | Some r \<Rightarrow> [UPDATE_TRIGGER r])"

definition importWorkflow :: "WorkflowVersion \<Rightarrow> ImportWorkflowRequest \<Rightarrow> WorkflowOperationRequest list" where
  "importWorkflow wv r =
     CHANGE_NAME (importDisplayName r)
     # map (\<lambda>a. DELETE_ACTION [step_name a]) (getAllNextActionsWithoutChildren (trigger wv))
     @ update_trigger_operation (importTrigger r)
     @ getImportOperationsForSteps (importTrigger r)
     @ getImportOperationsForNotes wv r"

subsection \<open>Duplicating, moving, copying and pasting\<close>

text \<open>The request for a step that is handed over whole; \<open>createAction\<close> reads no child of it.\<close>

definition add_whole ::
  "string \<Rightarrow> StepLocationRelativeToParent option \<Rightarrow> int option \<Rightarrow> step \<Rightarrow> WorkflowOperationRequest list" where
  "add_whole parent loc i s = (case as_request s of
      None \<Rightarrow> []
    | Some r \<Rightarrow> [ADD_ACTION \<lparr>parentStep = parent, stepLocation = loc, branchIndex = i, action = r\<rparr>])"

definition duplicateStep ::
  "env \<Rightarrow> string \<Rightarrow> WorkflowVersion \<Rightarrow> string option \<Rightarrow> WorkflowOperationRequest list result" where
  "duplicateStep e stepName wv copySuffix =
     rbind (getActionOrThrow stepName (trigger wv)) (\<lambda>clonedAction.
     let single = set_next None clonedAction
     in rbind (clone_tree e (mapToNewNames wv [single]) copySuffix single) (\<lambda>clonedSubflow.
        Inr (add_whole stepName (Some AFTER) None clonedSubflow @ getImportOperationsForSteps clonedSubflow)))"

text \<open>
  The branches the source reads through \<open>clonedRouter.settings.branches\<close>: a parallel has branches with
  a name and no type, any other action has none.
\<close>

definition branch_request :: "step \<Rightarrow> int \<Rightarrow> (string \<times> BranchCondition list list option) result" where
  "branch_request s i = (case s of
      Router _ t _ _ \<Rightarrow>
        if isIndexWithinBounds i (length (branches t))
        then Inr (case branches t ! nat i of ConditionBranch n cs \<Rightarrow> (n, Some cs) | FallbackBranch n \<Rightarrow> (n, None))
        else Inl (TypeError ''Cannot read properties of undefined (reading branchName)'')
    | Parallel _ t _ _ \<Rightarrow>
        if isIndexWithinBounds i (length (parallelBranches t)) then Inr (parallelBranches t ! nat i, None)
        else Inl (TypeError ''Cannot read properties of undefined (reading branchName)'')
    | _ \<Rightarrow> Inl (TypeError ''Cannot read properties of undefined''))"

fun children_of :: "step \<Rightarrow> step option list" where
  "children_of (Router _ _ cs _) = cs"
| "children_of (Parallel _ _ cs _) = cs"
| "children_of _ = []"

definition duplicateBranch ::
  "env \<Rightarrow> string \<Rightarrow> int \<Rightarrow> WorkflowVersion \<Rightarrow> string option \<Rightarrow> WorkflowOperationRequest list result" where
  "duplicateBranch e routerName childIndex wv copySuffix =
     rbind (getActionOrThrow routerName (trigger wv)) (\<lambda>router.
     rbind (branch_request router childIndex) (\<lambda>(name, conds).
     let add = ADD_BRANCH \<lparr>addBranchIndex = childIndex + 1, addBranchStep = routerName, addBranchConditions = conds,
                 addBranchName = name @ '' '' @ getD copySuffix DEFAULT_COPY_SUFFIX\<rparr>
     in case array_read (children_of router) childIndex of
          None \<Rightarrow> Inr [add]
        | Some child \<Rightarrow>
            rbind (clone_tree e (mapToNewNames wv [child]) copySuffix child) (\<lambda>clonedSubflow.
            Inr (add # add_whole routerName (Some INSIDE_BRANCH) (Some (childIndex + 1)) clonedSubflow
                 @ getImportOperationsForSteps clonedSubflow))))"

definition moveAction :: "WorkflowVersion \<Rightarrow> MoveActionRequest \<Rightarrow> WorkflowOperationRequest list result" where
  "moveAction wv r =
     rbind (getActionOrThrow (moveName r) (trigger wv)) (\<lambda>sourceStep.
     rbind (getStepOrThrow (newParentStep r) (trigger wv)) (\<lambda>_.
     let single = set_next None sourceStep
     in Inr (DELETE_ACTION [moveName r]
             # add_whole (newParentStep r) (moveLocation r) (moveBranchIndex r) single
             @ getImportOperationsForSteps single)))"

text \<open>
  The comparator of the final \<open>sort\<close> looks the clones up by reference in the list of originals, finds
  none (-1 each) and so leaves the order as it is.
\<close>

definition getActionsForCopy :: "string list \<Rightarrow> WorkflowVersion \<Rightarrow> step list result" where
  "getActionsForCopy selected wv =
     rbind (rmap_list (\<lambda>n. getStepOrThrow n (trigger wv)) selected) (\<lambda>steps.
     let actionsToCopy = filter (\<lambda>s. isAction (type_of s)) steps
     in Inr (map (set_next None)
          (filter (\<lambda>s. \<not> list_ex (\<lambda>p. isChildOf p (step_name s)) (filter (\<lambda>p. step_name p \<noteq> step_name s) actionsToCopy))
             actionsToCopy)))"

record PasteLocation =
  parentStepName :: string
  pasteLocation :: StepLocationRelativeToParent
  pasteBranchIndex :: int

definition paste_first :: "PasteLocation \<Rightarrow> step \<Rightarrow> WorkflowOperationRequest list" where
  "paste_first p a = add_whole (parentStepName p) (Some (pasteLocation p))
     (if pasteLocation p = INSIDE_BRANCH then Some (pasteBranchIndex p) else None) a"

fun paste_rest :: "string \<Rightarrow> step list \<Rightarrow> WorkflowOperationRequest list" where
  "paste_rest prev [] = []"
| "paste_rest prev (a # as) =
     add_whole prev (Some AFTER) None a @ getImportOperationsForSteps a @ paste_rest (step_name a) as"

definition getOperationsForPaste ::
  "env \<Rightarrow> step list \<Rightarrow> WorkflowVersion \<Rightarrow> PasteLocation \<Rightarrow> string option \<Rightarrow> WorkflowOperationRequest list result" where
  "getOperationsForPaste e actions wv p copySuffix =
     rbind (rmap_list (clone_tree e (mapToNewNames wv actions) copySuffix) actions) (\<lambda>cloned.
     Inr (case cloned of [] \<Rightarrow> []
          | a # as \<Rightarrow> paste_first p a @ getImportOperationsForSteps a @ paste_rest (step_name a) as))"

subsection \<open>Dispatch\<close>

fun composite :: "WorkflowOperationRequest \<Rightarrow> bool" where
  "composite (MOVE_ACTION _) = True"
| "composite (DUPLICATE_BRANCH _ _ _) = True"
| "composite (DUPLICATE_ACTION _ _) = True"
| "composite (IMPORT_WORKFLOW _) = True"
| "composite _ = False"

lemma add_operation_simple: "op \<in> set (add_operation p l i c) \<Longrightarrow> \<not> composite op"
  by (auto simp: add_operation_def split: option.splits)

lemma add_whole_simple: "op \<in> set (add_whole p l i c) \<Longrightarrow> \<not> composite op"
  by (auto simp: add_whole_def split: option.splits)

lemma import_steps_simple: "op \<in> set (getImportOperationsForSteps s) \<Longrightarrow> \<not> composite op"
  by (induction s rule: getImportOperationsForSteps.induct)
     (fastforce simp: opt_list_def dest!: add_operation_simple split: option.splits)+

fun step_tree_operation :: "WorkflowOperationRequest \<Rightarrow> bool" where
  "step_tree_operation (ADD_ACTION _) = True"
| "step_tree_operation (UPDATE_ACTION _) = True"
| "step_tree_operation (UPDATE_TRIGGER _) = True"
| "step_tree_operation (DUPLICATE_ACTION _ _) = True"
| "step_tree_operation (DUPLICATE_BRANCH _ _ _) = True"
| "step_tree_operation (IMPORT_WORKFLOW _) = True"
| "step_tree_operation _ = False"

definition renumber :: "env \<Rightarrow> WorkflowOperationRequest \<Rightarrow> WorkflowVersion \<Rightarrow> WorkflowVersion result" where
  "renumber e op wv =
     (if step_tree_operation op then rbind (assign (stack e) (trigger wv)) (\<lambda>t. Inr (wv\<lparr>trigger := t\<rparr>)) else Inr wv)"

definition step_ready :: "step \<Rightarrow> bool" where
  "step_ready s \<longleftrightarrow> valid (base_of s) \<or>
     (type_of s \<noteq> EMPTY \<and> type_of s \<noteq> CONNECTOR_TRIGGER \<and> skip (base_of s) = Some True)"

definition revalidate :: "WorkflowVersion \<Rightarrow> WorkflowVersion" where
  "revalidate wv = wv\<lparr>versionValid := list_all step_ready (getAllSteps (trigger wv))\<rparr>"

definition finish_operation :: "env \<Rightarrow> WorkflowOperationRequest \<Rightarrow> WorkflowVersion \<Rightarrow> WorkflowVersion result" where
  "finish_operation e op wv = rbind (renumber e op wv) (\<lambda>wv'. Inr (revalidate wv'))"

text \<open>The branches of the \<open>switch\<close> that call no further operation.\<close>

fun apply_simple :: "env \<Rightarrow> WorkflowVersion \<Rightarrow> WorkflowOperationRequest \<Rightarrow> WorkflowVersion result" where
  "apply_simple e wv (CHANGE_NAME n) = Inr (wv\<lparr>versionDisplayName := n\<rparr>)"
| "apply_simple e wv LOCK_WORKFLOW = Inr (wv\<lparr>state := LOCKED\<rparr>)"
| "apply_simple e wv (ADD_ACTION r) = addAction e wv (r\<lparr>action := exact_request (action r)\<rparr>)"
| "apply_simple e wv (DELETE_ACTION names) = deleteAction e wv names"
| "apply_simple e wv (UPDATE_TRIGGER r) = updateTrigger e wv (exact_trigger_request r)"
| "apply_simple e wv (ADD_BRANCH r) = addBranch e wv r"
| "apply_simple e wv (DELETE_BRANCH i name) = deleteBranch e wv i name"
| "apply_simple e wv (UPDATE_ACTION r) = updateAction e wv (exact_request r)"
| "apply_simple e wv (SET_SKIP_ACTION names v) = skipAction e wv names v"
| "apply_simple e wv (MOVE_BRANCH r) = moveBranch e wv r"
| "apply_simple e wv (UPDATE_NOTE r) = Inr (updateNote e wv r)"
| "apply_simple e wv (DELETE_NOTE i) = Inr (deleteNote wv i)"
| "apply_simple e wv (ADD_NOTE r) = Inr (addNote e wv r)"
| "apply_simple e wv (UPDATE_SAMPLE_DATA_INFO r) = updateSampleDataInfo e wv r"
| "apply_simple e wv (SET_JOIN_EDGES es) = Inr (setJoinEdges wv es)"
| "apply_simple e wv _ = Inr wv"

text \<open>The sequence of requests a composite request stands for.\<close>

fun expand :: "env \<Rightarrow> WorkflowVersion \<Rightarrow> WorkflowOperationRequest \<Rightarrow> WorkflowOperationRequest list result" where
  "expand e wv (MOVE_ACTION r) = moveAction wv r"
| "expand e wv (DUPLICATE_BRANCH i name sfx) = duplicateBranch e name i wv sfx"
| "expand e wv (DUPLICATE_ACTION name sfx) = duplicateStep e name wv sfx"
| "expand e wv (IMPORT_WORKFLOW r) = Inr (importWorkflow wv r)"
| "expand e wv _ = Inr []"

lemma import_simple: "op \<in> set (importWorkflow wv r) \<Longrightarrow> \<not> composite op"
  by (auto simp: importWorkflow_def getImportOperationsForNotes_def update_trigger_operation_def
           dest: import_steps_simple split: option.splits)

lemma expand_simple: "expand e wv c = Inr ops \<Longrightarrow> op \<in> set ops \<Longrightarrow> \<not> composite op"
proof (cases c)
  case (DUPLICATE_BRANCH i n sfx)
  assume "expand e wv c = Inr ops" "op \<in> set ops"
  with DUPLICATE_BRANCH show ?thesis
    by (auto simp: duplicateBranch_def rbind_eq_Inr Let_def split: option.splits
        dest!: import_steps_simple add_whole_simple)
qed (auto simp: moveAction_def duplicateStep_def rbind_eq_Inr Let_def
      dest: import_simple import_steps_simple add_whole_simple)

function applyOperation :: "env \<Rightarrow> WorkflowVersion \<Rightarrow> WorkflowOperationRequest \<Rightarrow> WorkflowVersion result" where
  "applyOperation e wv op =
     rbind (if composite op then rbind (expand e wv op) (\<lambda>ops. rfold (\<lambda>v o'. applyOperation e v o') wv ops)
            else apply_simple e wv op)
       (finish_operation e op)"
  by pat_completeness auto
termination
  by (relation "measure (\<lambda>(_, _, op). if composite op then 1 else 0)") (auto dest: expand_simple)

declare applyOperation.simps [simp del]

lemma applyOperation_simple:
  "\<not> composite op \<Longrightarrow> applyOperation e wv op = rbind (apply_simple e wv op) (finish_operation e op)"
  by (simp add: applyOperation.simps)

lemma applyOperation_composite:
  "composite op \<Longrightarrow> applyOperation e wv op =
     rbind (rbind (expand e wv op) (rfold (applyOperation e) wv)) (finish_operation e op)"
  by (subst applyOperation.simps) simp

end
