(* ===== verification/Local_Update.thy ===== *)
theory Local_Update
  imports Structure_Lemmas
begin

text \<open>
  The abstract specification of an operation that changes one step: \<open>subst_step site u s\<close> is the tree
  \<open>s\<close> with the step named \<open>site\<close> replaced by \<open>u\<close>. The locale \<open>site_transfer\<close> is the contract of a
  transfer function that acts at one name; its refinement lemma says that \<open>transferStep\<close> computes
  \<open>subst_step\<close>. The facts about \<open>subst_step\<close> then serve every such operation.
\<close>

function subst_step :: "string \<Rightarrow> step \<Rightarrow> step \<Rightarrow> step" where
  "subst_step site u s =
     (if step_name s = site then u else with_slots s (map (map_option (subst_step site u)) (slots s)))"
  by pat_completeness auto
termination
  by (relation "measure (\<lambda>(_, _, s). size s)") (auto dest: slot_size)

declare subst_step.simps [simp del]

lemma subst_step_hit [simp]: "step_name s = site \<Longrightarrow> subst_step site u s = u"
  by (simp add: subst_step.simps)

lemma subst_step_node:
  assumes "step_name s \<noteq> site"
  shows "subst_step site u s = with_slots s (map (map_option (subst_step site u)) (slots s))"
    and "slots (subst_step site u s) = map (map_option (subst_step site u)) (slots s)"
    and "base_of (subst_step site u s) = base_of s" and "type_of (subst_step site u s) = type_of s"
  using assms by (simp_all add: subst_step.simps [of site u s] slots_with_slots)

lemma step_names_child: "n \<in> set (step_names s) \<longleftrightarrow> n = step_name s \<or> (\<exists>a. Some a \<in> set (slots s) \<and> n \<in> set (step_names a))"
proof -
  have "n \<in> set (step_names s) \<longleftrightarrow> (\<exists>c \<in> set (getAllSteps s). step_name c = n)" for s by auto
  then show ?thesis using getAllSteps_cases [of _ s] by metis
qed

lemma subst_step_absent: "site \<notin> set (step_names s) \<Longrightarrow> subst_step site u s = s"
proof (induction s rule: step_slots_induct)
  case (node s)
  have name: "step_name s \<noteq> site" and absent: "\<And>a. Some a \<in> set (slots s) \<Longrightarrow> site \<notin> set (step_names a)"
    using node.prems step_names_child [of site s] by blast+
  have "map (map_option (subst_step site u)) (slots s) = slots s"
    by (rule map_map_option_idI) (use node.IH absent in blast)
  with name show ?case by (simp add: subst_step_node(1))
qed

subsection \<open>Names after a substitution\<close>

lemma mset_names_slots:
  "mset (step_names s) = add_mset (step_name s) (\<Sum>x \<leftarrow> slots s. mset (opt_list step_names x))"
proof -
  have "mset (concat (map f xs)) = (\<Sum>x \<leftarrow> xs. mset (f x))" for f :: "step option \<Rightarrow> string list" and xs
    by (induction xs) simp_all
  then show ?thesis by (subst step_names_slots) simp
qed

lemma distinct_slots:
  assumes "distinct (step_names s)"
  shows "distinct (concat (map (opt_list step_names) (slots s)))"
    and "\<And>a. Some a \<in> set (slots s) \<Longrightarrow> distinct (step_names a)"
    and "step_name s \<notin> set (concat (map (opt_list step_names) (slots s)))"
proof -
  from assms have all: "step_name s \<notin> set (concat (map (opt_list step_names) (slots s)))
      \<and> distinct (concat (map (opt_list step_names) (slots s)))"
    by (subst (asm) step_names_slots) simp
  then show d: "distinct (concat (map (opt_list step_names) (slots s)))" by blast
  from all show "step_name s \<notin> set (concat (map (opt_list step_names) (slots s)))" by blast
  show "distinct (step_names a)" if "Some a \<in> set (slots s)" for a
  proof -
    from that obtain us vs where "slots s = us @ Some a # vs" by (meson split_list)
    with d show ?thesis by simp
  qed
qed

lemma distinct_concat_disjoint:
  "distinct (concat (map f xs)) \<Longrightarrow> x \<in> set xs \<Longrightarrow> y \<in> set xs \<Longrightarrow> x \<noteq> y \<Longrightarrow> set (f x) \<inter> set (f y) = {}"
  by (induction xs) auto

lemma distinct_slots_disjoint:
  assumes "distinct (step_names s)" and "Some a \<in> set (slots s)" and "Some b \<in> set (slots s)" and "a \<noteq> b"
  shows "set (step_names a) \<inter> set (step_names b) = {}"
  using distinct_concat_disjoint [OF distinct_slots(1) [OF assms(1)] assms(2,3)] assms(4) by simp

lemma getAllSteps_trans: "p \<in> set (getAllSteps s) \<Longrightarrow> set (getAllSteps p) \<subseteq> set (getAllSteps s)
   \<and> length (getAllSteps p) \<le> length (getAllSteps s) \<and> (distinct (step_names s) \<longrightarrow> distinct (step_names p))"
proof (induction s rule: step_slots_induct)
  case (node s)
  consider "p = s" | a where "Some a \<in> set (slots s)" "p \<in> set (getAllSteps a)"
    using node.prems getAllSteps_cases [of p s] by auto
  then show ?case
  proof cases
    case 2
    with node.IH [of a] slot_length [of a s] slot_getAllSteps [of a s] distinct_slots(2) [of s a] show ?thesis by auto
  qed simp
qed

lemma getAllSteps_sub: "p \<in> set (getAllSteps s) \<Longrightarrow> set (getAllSteps p) \<subseteq> set (getAllSteps s)"
  and getAllSteps_sub_length: "p \<in> set (getAllSteps s) \<Longrightarrow> length (getAllSteps p) \<le> length (getAllSteps s)"
  and getAllSteps_sub_distinct: "distinct (step_names s) \<Longrightarrow> p \<in> set (getAllSteps s) \<Longrightarrow> distinct (step_names p)"
  using getAllSteps_trans by blast+

lemma subst_slots_mset:
  assumes "distinct (concat (map (opt_list step_names) xs))" and "Some c \<in> set xs" and "site \<in> set (step_names c)"
    and "mset (step_names (subst_step site u c)) + P = mset (step_names c) + U"
  shows "(\<Sum>x \<leftarrow> map (map_option (subst_step site u)) xs. mset (opt_list step_names x)) + P
       = (\<Sum>x \<leftarrow> xs. mset (opt_list step_names x)) + U"
  using assms
proof (induction xs)
  case Nil
  then show ?case by simp
next
  case (Cons x xs)
  show ?case
  proof (cases "x = Some c")
    case True
    have "site \<notin> set (step_names a)" if "Some a \<in> set xs" for a
      using Cons.prems True that by force
    then have "map (map_option (subst_step site u)) xs = xs" by (intro map_map_option_idI subst_step_absent)
    with True Cons.prems show ?thesis by (simp add: ac_simps)
  next
    case False
    have "site \<in> set (concat (map (opt_list step_names) xs))" using Cons.prems False by force
    then have "site \<notin> set (step_names a)" if "x = Some a" for a
      using Cons.prems(1) that by auto
    then have "map_option (subst_step site u) x = x" by (intro map_option_idI subst_step_absent)
    moreover have "(\<Sum>x \<leftarrow> map (map_option (subst_step site u)) xs. mset (opt_list step_names x)) + P
       = (\<Sum>x \<leftarrow> xs. mset (opt_list step_names x)) + U"
      using Cons False by simp
    ultimately show ?thesis by (simp add: add.assoc)
  qed
qed

lemma subst_step_names:
  assumes "distinct (step_names s)" and "p \<in> set (getAllSteps s)" and "step_name p = site"
  shows "mset (step_names (subst_step site u s)) + mset (step_names p) = mset (step_names s) + mset (step_names u)"
  using assms
proof (induction s rule: step_slots_induct)
  case (node s)
  show ?case
  proof (cases "step_name s = site")
    case True
    then have "s = p" using node.prems getStep_unique [of s s] getStep_unique [of s p] by simp
    with True show ?thesis by (simp add: ac_simps)
  next
    case False
    then obtain c where c: "Some c \<in> set (slots s)" "p \<in> set (getAllSteps c)"
      using node.prems(2,3) getAllSteps_cases [of p s] by auto
    have "mset (step_names (subst_step site u c)) + mset (step_names p) = mset (step_names c) + mset (step_names u)"
      by (rule node.IH [OF c(1) distinct_slots(2) [OF node.prems(1) c(1)] c(2) node.prems(3)])
    moreover have "site \<in> set (step_names c)" using c node.prems by auto
    ultimately have "(\<Sum>x \<leftarrow> slots (subst_step site u s). mset (opt_list step_names x)) + mset (step_names p)
       = (\<Sum>x \<leftarrow> slots s. mset (opt_list step_names x)) + mset (step_names u)"
      unfolding subst_step_node(2) [OF False]
      using subst_slots_mset [OF distinct_slots(1) [OF node.prems(1)] c(1)] by blast
    then show ?thesis
      unfolding mset_names_slots [of s] mset_names_slots [of "subst_step site u s"] subst_step_node(3) [OF False]
      by simp
  qed
qed

lemma subst_step_getAllSteps:
  assumes "c \<in> set (getAllSteps (subst_step site u s))"
  shows "c \<in> set (getAllSteps u) \<or> (\<exists>c' \<in> set (getAllSteps s). step_name c' \<noteq> site \<and> (\<exists>vs. length vs = length (slots c') \<and> c = with_slots c' vs))"
  using assms
proof (induction s rule: step_slots_induct)
  case (node s)
  show ?case
  proof (cases "step_name s = site")
    case True
    with node.prems show ?thesis by simp
  next
    case False
    consider "c = subst_step site u s" | a where "Some a \<in> set (slots s)" "c \<in> set (getAllSteps (subst_step site u a))"
    proof -
      have "c = subst_step site u s \<or> (\<exists>b. Some b \<in> set (map (map_option (subst_step site u)) (slots s)) \<and> c \<in> set (getAllSteps b))"
        using node.prems unfolding getAllSteps_cases [of c "subst_step site u s"] subst_step_node(2) [OF False] .
      moreover have "\<exists>a. Some a \<in> set (slots s) \<and> b = subst_step site u a"
        if "Some b \<in> set (map (map_option (subst_step site u)) (slots s))" for b
        using that by (auto simp: image_iff) (metis map_option_eq_Some)
      ultimately show ?thesis using that by blast
    qed
    then show ?thesis
    proof cases
      case 1
      with False show ?thesis
        by (intro disjI2 bexI [of _ s]) (auto simp: subst_step_node intro!: exI [of _ "map (map_option (subst_step site u)) (slots s)"])
    next
      case 2
      with node.IH slot_getAllSteps show ?thesis by blast
    qed
  qed
qed

lemma subst_step_mem: "site \<in> set (step_names s) \<Longrightarrow> u \<in> set (getAllSteps (subst_step site u s))"
proof (induction s rule: step_slots_induct)
  case (node s)
  show ?case
  proof (cases "step_name s = site")
    case True
    then show ?thesis by simp
  next
    case False
    then obtain a where a: "Some a \<in> set (slots s)" "site \<in> set (step_names a)"
      using node.prems step_names_child [of site s] by blast
    then have "Some (subst_step site u a) \<in> set (slots (subst_step site u s))"
      unfolding subst_step_node(2) [OF False] by force
    then show ?thesis using node.IH [OF a] slot_getAllSteps by blast
  qed
qed

lemma getStep_subst:
  assumes "distinct (step_names (subst_step site u s))" and "site \<in> set (step_names s)" and "step_name u = site"
  shows "getStep site (subst_step site u s) = Some u"
  using getStep_unique [OF assms(1) subst_step_mem [OF assms(2)]] assms(3) by simp

text \<open>A node predicate that new children cannot break survives, when it holds of the new subtree.\<close>

lemma subst_step_nodes:
  assumes "\<And>c vs. length vs = length (slots c) \<Longrightarrow> P (with_slots c vs) = P c"
    and "\<forall>c \<in> set (getAllSteps s). P c" and "\<forall>c \<in> set (getAllSteps u). P c"
  shows "\<forall>c \<in> set (getAllSteps (subst_step site u s)). P c"
  using subst_step_getAllSteps [of _ site u s] assms by blast

lemma distinct_exchange:
  assumes "mset R + mset P = mset S + mset U" and "distinct S" and "distinct P" and "distinct U"
    and "set P \<subseteq> set S" and "set U \<inter> set S \<subseteq> set P"
  shows "distinct R"
proof -
  have "set (filter (\<lambda>x. x \<in> set P) S) = set P" using assms(5) by auto
  then have "mset (filter (\<lambda>x. x \<in> set P) S) = mset P"
    using assms(2,3) set_eq_iff_mset_eq_distinct distinct_filter by blast
  moreover have "mset S = mset (filter (\<lambda>x. x \<in> set P) S) + mset (filter (\<lambda>x. x \<notin> set P) S)"
    unfolding mset_filter by (rule multiset_partition)
  ultimately have "mset R + mset P = mset (filter (\<lambda>x. x \<notin> set P) S @ U) + mset P"
    using assms(1) by (metis add.assoc add.commute mset_append)
  then have "mset R = mset (filter (\<lambda>x. x \<notin> set P) S @ U)" by (rule add_right_imp_eq)
  moreover have "distinct (filter (\<lambda>x. x \<notin> set P) S @ U)" using assms by auto
  ultimately show ?thesis using mset_eq_imp_distinct_iff by blast
qed

lemma subst_step_distinct:
  assumes "distinct (step_names s)" and "p \<in> set (getAllSteps s)" and "step_name p = site"
    and "distinct (step_names u)" and "set (step_names u) \<inter> set (step_names s) \<subseteq> set (step_names p)"
  shows "distinct (step_names (subst_step site u s))"
proof (rule distinct_exchange [OF subst_step_names [OF assms(1,2,3)] assms(1) _ assms(4) _ assms(5)])
  show "distinct (step_names p)" by (rule getAllSteps_sub_distinct [OF assms(1,2)])
  show "set (step_names p) \<subseteq> set (step_names s)" using getAllSteps_sub [OF assms(2)] by auto
qed

subsection \<open>Transfer functions that act at one name\<close>

lemma rel_option_eq_map: "list_all2 (rel_option (\<lambda>a r. r = g a)) xs vs \<Longrightarrow> vs = map (map_option g) xs"
proof (induction rule: list_all2_induct)
  case Nil
  then show ?case by simp
next
  case (Cons x xs v vs)
  then show ?case by (cases x; cases v) auto
qed

locale site_transfer =
  fixes f :: transferFunction and site :: string
  assumes elsewhere: "step_name s \<noteq> site \<Longrightarrow> f s = Inr (Mutated s)"

sublocale site_transfer \<subseteq> local_transfer f "\<lambda>s. step_name s = site"
  by unfold_locales (rule elsewhere)

context site_transfer
begin

lemma transfer_absent:
  assumes "length (getAllSteps s) \<le> d" and "site \<notin> set (step_names s)"
  shows "transferStep d f s = Inr s" and "heldStep d f s = Inr s"
  using transfer_no_hit [of s d] assms by auto

lemma transfer_at_site:
  assumes "length (getAllSteps (returned t)) \<le> Suc d" and "f s = Inr t"
    and "\<forall>a. Some a \<in> set (slots (returned t)) \<longrightarrow> site \<notin> set (step_names a)"
  shows "transferStep (Suc d) f s = Inr (returned t)"
proof -
  have "transferStep d f a = Inr a \<and> heldStep d f a = Inr a" if "Some a \<in> set (slots (returned t))" for a
    using transfer_absent [of a d] assms that slot_length [OF that] by auto
  then obtain vs where vs: "transfer_children (transferStep d f) (heldStep d f) (returned t) = Inr (with_slots (returned t) vs)"
    "list_all2 (rel_option (\<lambda>a r. r = id a)) (slots (returned t)) vs"
    using transfer_children_rel [of "returned t" "transferStep d f" "\<lambda>a r. r = id a" "heldStep d f"] by auto
  with assms(2) rel_option_eq_map [OF vs(2)] show ?thesis by (simp add: map_map_option_idI)
qed

lemma transfer_site:
  assumes "length (getAllSteps s) + length (getAllSteps (returned t)) \<le> d" and "distinct (step_names s)"
    and "p \<in> set (getAllSteps s)" and "step_name p = site" and "f p = Inr t"
    and "\<forall>a. Some a \<in> set (slots (returned t)) \<longrightarrow> site \<notin> set (step_names a)"
    and "(\<exists>v. t = Mutated v) \<or> isStepAction (returned t)"
  shows "transferStep d f s = Inr (subst_step site (returned t) s) \<and>
         ((\<exists>v. t = Mutated v) \<or> step_name s \<noteq> site \<longrightarrow> heldStep d f s = Inr (subst_step site (returned t) s))"
  using assms
proof (induction d arbitrary: s)
  case 0
  then show ?case by (subst (asm) getAllSteps_slots) simp
next
  case (Suc d)
  let ?g = "subst_step site (returned t)"
  show ?case
  proof (cases "step_name s = site")
    case True
    then have "s = p" using Suc.prems getStep_unique [of s s] getStep_unique [of s p] by simp
    then have "transferStep (Suc d) f s = Inr (returned t)" using Suc.prems by (intro transfer_at_site) auto
    moreover have "heldStep (Suc d) f s = transferStep (Suc d) f s" if "\<exists>v. t = Mutated v"
      using that Suc.prems \<open>s = p\<close> by auto
    ultimately show ?thesis using True by auto
  next
    case False
    have child: "\<exists>r. transferStep d f a = Inr r \<and> r = ?g a \<and> (isStepAction r \<or> (\<exists>h. heldStep d f a = Inr h \<and> h = ?g a))"
      if a: "Some a \<in> set (slots s)" for a
    proof (cases "site \<in> set (step_names a)")
      case True
      then obtain q where q: "q \<in> set (getAllSteps a)" "step_name q = site" by auto
      then have "q = p"
        using Suc.prems slot_getAllSteps [OF a] getStep_unique [of s q] getStep_unique [of s p] by auto
      then have "transferStep d f a = Inr (?g a) \<and>
         ((\<exists>v. t = Mutated v) \<or> step_name a \<noteq> site \<longrightarrow> heldStep d f a = Inr (?g a))"
        using Suc.IH [of a] Suc.prems q slot_length [OF a] distinct_slots(2) [OF Suc.prems(2) a] by simp
      then show ?thesis using Suc.prems(7) by (cases "step_name a = site") auto
    next
      case False
      then show ?thesis
        using transfer_absent [of a d] Suc.prems(1) slot_length [OF a] subst_step_absent [OF False] by auto
    qed
    obtain vs where vs: "transfer_children (transferStep d f) (heldStep d f) s = Inr (with_slots s vs)"
      "list_all2 (rel_option (\<lambda>a r. r = ?g a)) (slots s) vs"
      using transfer_children_accepted [of s "transferStep d f" "\<lambda>a r. r = ?g a" "heldStep d f"] child by blast
    then have "transfer_children (transferStep d f) (heldStep d f) s = Inr (?g s)"
      using rel_option_eq_map [OF vs(2)] False by (simp add: subst_step_node(1))
    then show ?thesis using elsewhere [OF False] by simp
  qed
qed

lemma transfer_site_error:
  assumes "length (getAllSteps s) \<le> d" and "distinct (step_names s)"
    and "p \<in> set (getAllSteps s)" and "step_name p = site" and "f p = Inl err"
  shows "transferStep d f s = Inl err"
  using assms
proof (induction d arbitrary: s)
  case 0
  then show ?case by (subst (asm) getAllSteps_slots) simp
next
  case (Suc d)
  show ?case
  proof (cases "step_name s = site")
    case True
    then have "s = p" using Suc.prems getStep_unique [of s s] getStep_unique [of s p] by simp
    with Suc.prems show ?thesis by simp
  next
    case False
    then obtain c where c: "Some c \<in> set (slots s)" "p \<in> set (getAllSteps c)"
      using Suc.prems(3,4) getAllSteps_cases [of p s] by auto
    have err: "transferStep d f c = Inl err"
      using Suc.IH [of c] Suc.prems c slot_length [OF c(1)] distinct_slots(2) [OF Suc.prems(2) c(1)] by simp
    have "transferStep d f a = Inl err \<or> (\<exists>r. transferStep d f a = Inr r \<and> (isStepAction r \<or> (\<exists>h. heldStep d f a = Inr h)))"
      if a: "Some a \<in> set (slots s)" for a
    proof (cases "p \<in> set (getAllSteps a)")
      case True
      then show ?thesis
        using Suc.IH [of a] Suc.prems a slot_length [OF a] distinct_slots(2) [OF Suc.prems(2) a] by simp
    next
      case False
      have "q = p" if "q \<in> set (getAllSteps a)" "step_name q = site" for q
        using that Suc.prems slot_getAllSteps [OF a] getStep_unique [of s q] getStep_unique [of s p] by auto
      with False have "site \<notin> set (step_names a)" by auto
      then show ?thesis using transfer_absent [of a d] Suc.prems(1) slot_length [OF a] by auto
    qed
    then have "transfer_children (transferStep d f) (heldStep d f) s = Inl err"
      using transfer_children_error [of s "transferStep d f" err "heldStep d f"] c err by blast
    then show ?thesis using elsewhere [OF False] by simp
  qed
qed

end

end
