(* ===== verification/Tree_Correctness.thy ===== *)
theory Tree_Correctness
  imports Operations Local_Update
begin

text \<open>
  What the tree operations promise. Adding an action puts exactly one step into the tree, deleting one
  takes exactly its subtree out, the branch operations keep the branches of a router in step with its
  children, and the operations that only touch settings keep every name. The interpretations of
  \<open>site_transfer\<close>, \<open>renaming_transfer\<close> and \<open>node_transfer\<close> on the transfer functions of the operations
  discharge the contracts.
\<close>

subsection \<open>Adding an action\<close>

interpretation adding: site_transfer "add_transfer e r" "parentStep r"
  by unfold_locales (simp add: add_transfer_def)

text \<open>The locations a parent accepts. An index past the end grows the list of children.\<close>

fun accepts_location :: "step \<Rightarrow> StepLocationRelativeToParent option \<Rightarrow> int option \<Rightarrow> bool" where
  "accepts_location (Loop _ _ _ _) l i = (l = Some INSIDE_LOOP \<or> l = Some AFTER)"
| "accepts_location (Router _ _ _ _) l i = (l = Some AFTER \<or> (l = Some INSIDE_BRANCH \<and> (\<exists>k \<ge> 0. i = Some k)))"
| "accepts_location (Parallel _ _ _ _) l i = (l = Some AFTER \<or> (l = Some INSIDE_BRANCH \<and> (\<exists>k \<ge> 0. i = Some k)))"
| "accepts_location (Code _ _ _ _ _) l i = True"
| "accepts_location (Connector _ _ _ _ _) l i = True"
| "accepts_location _ l i = (l \<noteq> Some INSIDE_ON_SUCCESS_BRANCH \<and> l \<noteq> Some INSIDE_ON_FAILURE_BRANCH)"

lemma with_validity_simps [simp]:
  "slots (with_validity e v s) = slots s" "step_name (with_validity e v s) = step_name s"
  "type_of (with_validity e v s) = type_of s"
  by (simp_all add: with_validity_def)

lemma createAction_name [simp]: "step_name (createAction e a x) = req_name a"
  by (simp add: createAction_def request_base_def split: ActionSettings.split)

lemma createAction_slots:
  "slots (createAction e a x) = replicate (case req_settings a of RouterS s \<Rightarrow> length (branches s)
     | ParallelS s \<Rightarrow> length (parallelBranches s) | LoopS _ \<Rightarrow> 1 | ComponentS _ \<Rightarrow> 0 | _ \<Rightarrow> 2) None @ [x]"
  by (cases "req_settings a") (simp_all add: createAction_def map_replicate_const numeral_2_eq_2)

lemma createAction_names: "step_names (createAction e a x) = req_name a # opt_list step_names x"
proof -
  obtain k where "slots (createAction e a x) = replicate k None @ [x]" by (simp only: createAction_slots)
  moreover have "concat (map (opt_list g) (replicate k None)) = []" for g :: "step \<Rightarrow> string list" by (induction k) simp_all
  ultimately show ?thesis by (subst step_names_slots) simp
qed

abbreviation slot_names :: "step option list \<Rightarrow> string multiset" where
  "slot_names xs \<equiv> (\<Sum>x \<leftarrow> xs. mset (opt_list step_names x))"

lemma slot_names_update:
  "i < length xs \<Longrightarrow> slot_names (xs[i := Some (createAction e a (xs ! i))]) = add_mset (req_name a) (slot_names xs)"
proof (induction xs arbitrary: i)
  case Nil
  then show ?case by simp
next
  case (Cons x xs)
  then show ?case by (cases i) (simp_all add: createAction_names)
qed

lemma slot_names_assign:
  assumes "0 \<le> i"
  shows "slot_names (array_assign xs i (createAction e a (array_read xs i))) = add_mset (req_name a) (slot_names xs)"
proof (cases "nat i < length xs")
  case True
  with assms show ?thesis by (simp add: array_assign_def array_read_def slot_names_update)
next
  case False
  have "slot_names (replicate k None) = {#}" for k by (induction k) simp_all
  with False assms show ?thesis by (simp add: array_assign_def array_read_def createAction_names)
qed

lemma add_transfer_accepted:
  assumes "step_name p = parentStep r" and "accepts_location p (stepLocation r) (branchIndex r)"
  shows "\<exists>u. add_transfer e r p = Inr (Mutated u) \<and> base_of u = base_of p \<and> type_of u = type_of p
     \<and> slot_names (slots u) = add_mset (req_name (action r)) (slot_names (slots p))"
  using assms
  by (cases p) (auto simp: add_transfer_def handleContinueOnFailureBranches_def handleLoopOnItems_def
      handleRouter_def handleParallel_def createAction_names slot_names_assign)

lemma add_transfer_rejected:
  assumes "step_name p = parentStep r" and "\<not> accepts_location p (stepLocation r) (branchIndex r)"
    and "\<forall>k. branchIndex r = Some k \<longrightarrow> 0 \<le> k"
  shows "\<exists>msg. add_transfer e r p = Inl (OperationInvalid msg)"
  using assms
  by (cases p; cases "branchIndex r") (auto simp: add_transfer_def handleContinueOnFailureBranches_def handleLoopOnItems_def
      handleRouter_def handleParallel_def)

lemma slot_names_mem: "n \<in># slot_names xs \<longleftrightarrow> (\<exists>a. Some a \<in> set xs \<and> n \<in> set (step_names a))"
proof (induction xs)
  case Nil
  then show ?case by simp
next
  case (Cons x xs)
  then show ?case by (cases x) auto
qed

lemma addAction_at:
  assumes distinct: "distinct (step_names (trigger wv))" and p: "getStep (parentStep r) (trigger wv) = Some p"
    and ok: "accepts_location p (stepLocation r) (branchIndex r)"
    and fresh: "req_name (action r) \<notin> set (step_names (trigger wv))"
    and room: "2 * length (getAllSteps (trigger wv)) + 1 \<le> stack e"
  shows "\<exists>u. addAction e wv r = Inr (wv\<lparr>trigger := subst_step (parentStep r) u (trigger wv)\<rparr>)
     \<and> add_transfer e r p = Inr (Mutated u) \<and> base_of u = base_of p
     \<and> mset (step_names u) = add_mset (req_name (action r)) (mset (step_names p))"
proof -
  have mem: "p \<in> set (getAllSteps (trigger wv))" and name: "step_name p = parentStep r"
    using getStep_Some [OF p] by auto
  obtain u where u: "add_transfer e r p = Inr (Mutated u)" "base_of u = base_of p"
    "slot_names (slots u) = add_mset (req_name (action r)) (slot_names (slots p))"
    using add_transfer_accepted [OF name ok] by blast
  then have names: "mset (step_names u) = add_mset (req_name (action r)) (mset (step_names p))"
    unfolding mset_names_slots [of u] mset_names_slots [of p] by simp
  have sub: "set (getAllSteps p) \<subseteq> set (getAllSteps (trigger wv))" and len: "length (getAllSteps p) \<le> length (getAllSteps (trigger wv))"
    using mem by (simp_all add: getAllSteps_sub getAllSteps_sub_length)
  have "parentStep r \<notin> set (step_names a)" if "Some a \<in> set (slots u)" for a
  proof
    assume "parentStep r \<in> set (step_names a)"
    with that have "parentStep r \<in># slot_names (slots u)" unfolding slot_names_mem by blast
    moreover have "parentStep r \<noteq> req_name (action r)" using fresh mem name by force
    ultimately have "parentStep r \<in># slot_names (slots p)" using u(3) by simp
    moreover have "distinct (step_names p)" using distinct mem by (rule getAllSteps_sub_distinct)
    ultimately show False using distinct_slots(3) [of p] name unfolding slot_names_mem by force
  qed
  moreover have "length (getAllSteps u) = Suc (length (getAllSteps p))"
    using arg_cong [OF names, of size] by simp
  ultimately have "transferStep (stack e) (add_transfer e r) (trigger wv) = Inr (subst_step (parentStep r) u (trigger wv))"
    using adding.transfer_site [where s = "trigger wv" and t = "Mutated u" and d = "stack e" and p = p and e = e and r = r] distinct mem name u room len by simp
  with u names show ?thesis by (auto simp: addAction_def transferWorkflow_def)
qed

text \<open>
  A request whose action carries the name of its own parent never ends: each new action is a parent
  again. Every stack overflows.
\<close>

lemma self_named_chain:
  assumes "req_name (action r) = parentStep r" and "req_settings (action r) = CodeS cs" and "stepLocation r = Some AFTER"
    and "step_name (Code b s None None n) = parentStep r"
  shows "transferStep d (add_transfer e r) (Code b s None None n) = Inl StackOverflow"
  using assms
proof (induction d arbitrary: b s n)
  case 0
  then show ?case by simp
next
  case (Suc d)
  obtain b' where b': "createAction e (action r) n = Code b' cs None None n"
    using Suc.prems(2) by (simp add: createAction_def with_validity_def)
  have "sname b' = parentStep r" using createAction_name [of e "action r" n] b' Suc.prems(1) by simp
  with Suc.IH [of b' cs n] Suc.prems have "transferStep d (add_transfer e r) (createAction e (action r) n) = Inl StackOverflow"
    unfolding b' by simp
  moreover have "add_transfer e r (Code b s None None n) = Inr (Mutated (Code b s None None (Some (createAction e (action r) n))))"
    using Suc.prems by (simp add: add_transfer_def)
  ultimately show ?case by (simp add: transfer_branch_def)
qed

subsection \<open>Deleting an action\<close>

lemma delete_child_simps [simp]:
  "base_of (delete_child name s) = base_of s" "type_of (delete_child name s) = type_of s"
  "slots (delete_child name s) = map (del_slot name) (slots s)"
  by (cases s; simp)+

lemma step_names_next: "step_names s = step_names (set_next None s) @ opt_list step_names (nextAction s)"
proof -
  obtain us where "slots s = us @ [nextAction s]" by (metis append_butlast_last_id last_slots slots_nonempty)
  moreover from this have "slots (set_next None s) = us @ [None]" by (cases s) (auto simp: append_eq_Cons_conv)
  ultimately have "concat (map (opt_list step_names) (slots s))
      = concat (map (opt_list step_names) (slots (set_next None s))) @ opt_list step_names (nextAction s)"
    by simp
  then show ?thesis unfolding step_names_slots [of s] step_names_slots [of "set_next None s"] by simp
qed

text \<open>What is deleted with a step: the step and its children, not its next action.\<close>

definition subtree_names :: "step \<Rightarrow> string set" where
  "subtree_names a = set (step_names (set_next None a))"

lemma subtree_names_sub: "subtree_names a \<subseteq> set (step_names a)"
  unfolding subtree_names_def by (subst (2) step_names_next) auto

lemma own_name_in_subtree [simp]: "step_name a \<in> subtree_names a"
  unfolding subtree_names_def by (subst step_names_slots) simp

lemma del_slot_filter:
  assumes "\<And>c. x = Some c \<Longrightarrow> step_name c = step_name a \<Longrightarrow> c = a"
  shows "filter (\<lambda>n. n \<notin> subtree_names a) (opt_list step_names (del_slot (step_name a) x))
       = filter (\<lambda>n. n \<notin> subtree_names a) (opt_list step_names x)"
proof (cases x)
  case None
  then show ?thesis by (simp add: del_slot_def)
next
  case (Some c)
  show ?thesis
  proof (cases "step_name c = step_name a")
    case True
    with assms Some have c: "c = a" by simp
    have "filter (\<lambda>n. n \<notin> subtree_names a) (step_names (set_next None a)) = []"
      by (simp add: subtree_names_def filter_empty_conv)
    then have "filter (\<lambda>n. n \<notin> subtree_names a) (step_names a) = filter (\<lambda>n. n \<notin> subtree_names a) (opt_list step_names (nextAction a))"
      by (subst step_names_next) (simp del: filter_map)
    with c Some show ?thesis by (simp add: del_slot_def del: filter_map)
  next
    case False
    with Some show ?thesis by (simp add: del_slot_def)
  qed
qed

lemma list_all2_filter_slots:
  assumes "list_all2 (rel_option (\<lambda>c r. step_names r = filter K (step_names c))) xs vs"
  shows "concat (map (opt_list step_names) vs) = concat (map (\<lambda>x. filter K (opt_list step_names x)) xs)"
  using assms
proof (induction rule: list_all2_induct)
  case Nil
  then show ?case by simp
next
  case (Cons x xs v vs)
  from Cons(1) have "opt_list step_names v = filter K (opt_list step_names x)" by (cases x; cases v) (simp_all del: filter_map)
  with Cons show ?case by simp
qed

text \<open>Where the deleted step is not below \<open>s\<close>, nothing of its subtree is.\<close>

definition deletable :: "step \<Rightarrow> step \<Rightarrow> bool" where
  "deletable a s \<longleftrightarrow> distinct (step_names s) \<and> (\<forall>c \<in> set (getAllSteps s). step_name c = step_name a \<longrightarrow> c = a)
     \<and> (step_name a \<notin> set (step_names s) \<longrightarrow> subtree_names a \<inter> set (step_names s) = {})"

lemma deletable_slot:
  assumes "deletable a s" and c: "Some c \<in> set (slots s)" and "step_name s \<noteq> step_name a"
  shows "deletable a c"
proof -
  have dis: "distinct (step_names s)" using assms unfolding deletable_def by blast
  have sub: "set (step_names c) \<subseteq> set (step_names s)" using slot_getAllSteps [OF c] by auto
  have "subtree_names a \<inter> set (step_names c) = {}" if no: "step_name a \<notin> set (step_names c)"
  proof (cases "step_name a \<in> set (step_names s)")
    case False
    with assms(1) sub show ?thesis unfolding deletable_def by blast
  next
    case True
    then have "a \<in> set (getAllSteps s)" using assms unfolding deletable_def by auto
    then obtain y where y: "Some y \<in> set (slots s)" "a \<in> set (getAllSteps y)"
      using getAllSteps_cases [of a s] assms(3) by auto
    with no have "y \<noteq> c" by auto
    have "subtree_names a \<subseteq> set (step_names y)" using subtree_names_sub getAllSteps_sub [OF y(2)] by fastforce
    with distinct_slots_disjoint [OF dis y(1) c \<open>y \<noteq> c\<close>] show ?thesis by blast
  qed
  with assms(1) distinct_slots(2) [OF dis c] slot_getAllSteps [OF c] show ?thesis unfolding deletable_def by blast
qed

lemma deletable_next:
  assumes "distinct (step_names a)" and "nextAction a = Some n"
  shows "deletable a n" and "step_name n \<noteq> step_name a"
proof -
  have "distinct (step_names (set_next None a) @ step_names n)" using assms step_names_next [of a] by simp
  then have d: "distinct (step_names n)" "subtree_names a \<inter> set (step_names n) = {}"
    by (simp_all only: distinct_append subtree_names_def)
  then have no: "step_name a \<notin> set (step_names n)" using own_name_in_subtree by blast
  then have other: "step_name c \<noteq> step_name a" if "c \<in> set (getAllSteps n)" for c using that by (metis image_eqI list.set_map)
  with d show "deletable a n" unfolding deletable_def by blast
  show "step_name n \<noteq> step_name a" by (rule other) simp
qed

lemma deletable_own_name:
  assumes "deletable a s" and "step_name s \<noteq> step_name a"
  shows "step_name s \<notin> subtree_names a"
proof (cases "step_name a \<in> set (step_names s)")
  case False
  moreover have "step_name s \<in> set (step_names s)" by simp
  ultimately show ?thesis using assms(1) unfolding deletable_def by blast
next
  case True
  then have "a \<in> set (getAllSteps s)" using assms unfolding deletable_def by auto
  then obtain y where y: "Some y \<in> set (slots s)" "a \<in> set (getAllSteps y)"
    using getAllSteps_cases [of a s] assms(2) by auto
  have "subtree_names a \<subseteq> set (step_names y)" using subtree_names_sub getAllSteps_sub [OF y(2)] by fastforce
  moreover have "step_name s \<notin> set (step_names y)"
    using distinct_slots(3) [of s] assms(1) y(1) unfolding deletable_def by force
  ultimately show ?thesis by blast
qed

lemma transfer_delete:
  assumes "length (getAllSteps s) \<le> d" and "deletable a s" and "step_name s \<noteq> step_name a" and "distinct (step_names a)"
  shows "\<exists>r. transferStep d (delete_transfer (step_name a)) s = Inr r
     \<and> heldStep d (delete_transfer (step_name a)) s = Inr r
     \<and> base_of r = base_of s \<and> step_names r = filter (\<lambda>n. n \<notin> subtree_names a) (step_names s)"
  using assms
proof (induction d arbitrary: s)
  case 0
  then show ?case by (subst (asm) getAllSteps_slots) simp
next
  case (Suc d)
  let ?f = "delete_transfer (step_name a)" and ?K = "\<lambda>n. n \<notin> subtree_names a"
  let ?Q = "\<lambda>c r. step_names r = filter ?K (step_names c)"
  have child: "(\<exists>r. transferStep d ?f c = Inr r \<and> ?Q c r) \<and> (\<exists>h. heldStep d ?f c = Inr h \<and> ?Q c h)"
    if c: "Some c \<in> set (slots (delete_child (step_name a) s))" for c
  proof -
    from c obtain y where y: "Some y \<in> set (slots s)" "Some c = del_slot (step_name a) (Some y)"
      by (auto simp: del_slot_def split: option.splits if_splits)
    have "deletable a y" using deletable_slot Suc.prems y by blast
    show ?thesis
    proof (cases "step_name y = step_name a")
      case True
      with \<open>deletable a y\<close> have "y = a" unfolding deletable_def by simp
      with y True have n: "nextAction a = Some c" by (simp add: del_slot_def)
      have "length (getAllSteps c) \<le> length (getAllSteps a)" using slot_length [of c a] n last_slots [of a] last_in_set [of "slots a"] by simp
      then have "length (getAllSteps c) \<le> d" using Suc.prems(1) slot_length [OF y(1)] \<open>y = a\<close> by simp
      then show ?thesis
        using Suc.IH [OF _ deletable_next [OF Suc.prems(4) n] Suc.prems(4)] by blast
    next
      case False
      with y have "c = y" by (simp add: del_slot_def)
      then show ?thesis using Suc.IH [of c] \<open>deletable a y\<close> False Suc.prems slot_length [OF y(1)] by (auto simp del: filter_map)
    qed
  qed
  obtain vs where vs: "transfer_children (transferStep d ?f) (heldStep d ?f) (delete_child (step_name a) s) = Inr (with_slots (delete_child (step_name a) s) vs)"
    "list_all2 (rel_option ?Q) (slots (delete_child (step_name a) s)) vs"
    using transfer_children_rel [of "delete_child (step_name a) s" "transferStep d ?f" ?Q "heldStep d ?f"] child by blast
  let ?r = "with_slots (delete_child (step_name a) s) vs"
  have len: "length vs = length (slots (delete_child (step_name a) s))" using vs(2) list_all2_lengthD by metis
  have "filter ?K (opt_list step_names (del_slot (step_name a) x)) = filter ?K (opt_list step_names x)" if "x \<in> set (slots s)" for x
    using Suc.prems(2) that deletable_slot [OF Suc.prems(2) _ Suc.prems(3)] by (intro del_slot_filter) (auto simp: deletable_def)
  then have "concat (map (\<lambda>x. filter ?K (opt_list step_names x)) (slots (delete_child (step_name a) s)))
      = concat (map (\<lambda>x. filter ?K (opt_list step_names x)) (slots s))"
    by (simp add: o_def cong: map_cong)
  moreover have "?K (step_name s)" by (rule deletable_own_name [OF Suc.prems(2,3)])
  ultimately have "step_names ?r = filter ?K (step_names s)"
    by (subst step_names_slots, subst (2) step_names_slots)
       (simp add: slots_with_slots [OF len] list_all2_filter_slots [OF vs(2)] filter_concat o_def)
  moreover have "?f s = Inr (Mutated (delete_child (step_name a) s))" by (simp add: delete_transfer_def)
  ultimately show ?case using vs(1) by (auto simp del: filter_map)
qed

subsection \<open>Branches\<close>

interpretation branch_adding: site_transfer "add_branch_transfer r" "addBranchStep r"
  by unfold_locales (simp add: add_branch_transfer_def)

interpretation branch_deleting: site_transfer "delete_branch_transfer i name" name
  by unfold_locales (simp add: delete_branch_transfer_def)

interpretation branch_moving: site_transfer "move_branch_transfer r" "moveBranchStep r"
  by unfold_locales (auto simp: move_branch_transfer_def Let_def split: step.split)

text \<open>Every branch of a router or a parallel has its child slot.\<close>

fun paired :: "step \<Rightarrow> bool" where
  "paired (Router _ s cs _) = (length cs = length (branches s))"
| "paired (Parallel _ s cs _) = (length cs = length (parallelBranches s))"
| "paired _ = True"

lemma paired_with_slots: "length vs = length (slots s) \<Longrightarrow> paired (with_slots s vs) = paired s"
  by (cases s) simp_all

lemma paired_map_base [simp]: "paired (map_base g s) = paired s"
  by (cases s) simp_all

lemma length_insertAt [simp]: "length (insertAt xs i v) = Suc (length xs)"
  by (simp add: insertAt_def)

lemma insertAt_zip:
  "length xs = length ys \<Longrightarrow> zip (insertAt xs i x) (insertAt ys i y) = insertAt (zip xs ys) i (x, y)"
  by (simp add: insertAt_def take_zip drop_zip zip_append)

lemma mset_insertAt: "mset (insertAt xs i x) = add_mset x (mset xs)"
proof -
  have "mset xs = mset (take k xs) + mset (drop k xs)" for k by (metis append_take_drop_id mset_append)
  from this [of "slice_index (length xs) i"] show ?thesis by (simp add: insertAt_def)
qed

lemma mset_remove_index: "0 \<le> i \<Longrightarrow> nat i < length xs \<Longrightarrow> add_mset (xs ! nat i) (mset (remove_index i xs)) = mset xs"
  by (simp add: remove_index_def) (metis id_take_nth_drop mset.simps(2) mset_append union_mset_add_mset_right)

lemma mset_splice_move:
  "0 \<le> i \<Longrightarrow> nat i < length xs \<Longrightarrow> mset (splice_move i j (xs ! nat i) xs) = mset xs"
  by (simp add: splice_move_def mset_insertAt mset_remove_index)

lemma splice_move_zip:
  assumes "length xs = length ys"
  shows "zip (splice_move i j x xs) (splice_move i j y ys) = splice_move i j (x, y) (zip xs ys)"
  using assms by (simp add: splice_move_def insertAt_zip remove_index_zip length_remove_index)

lemma slot_names_mset: "mset xs = mset ys \<Longrightarrow> slot_names xs = slot_names ys"
  by (metis mset_map sum_mset_sum_list)

text \<open>A change at one router or parallel whose children are among the old ones.\<close>

lemma site_change_bounds:
  assumes "distinct (step_names t)" and "p \<in> set (getAllSteps t)" and "base_of u = base_of p"
    and "slot_names (slots u) \<subseteq># slot_names (slots p)"
  shows "length (getAllSteps u) \<le> length (getAllSteps t)"
    and "\<forall>a. Some a \<in> set (slots u) \<longrightarrow> step_name p \<notin> set (step_names a)"
    and "distinct (step_names u)" and "set (step_names u) \<subseteq> set (step_names p)"
proof -
  have sub: "mset (step_names u) \<subseteq># mset (step_names p)"
    using assms(3,4) unfolding mset_names_slots [of u] mset_names_slots [of p] by simp
  have dp: "distinct (step_names p)" by (rule getAllSteps_sub_distinct [OF assms(1,2)])
  show "length (getAllSteps u) \<le> length (getAllSteps t)"
    using size_mset_mono [OF sub] getAllSteps_sub_length [OF assms(2)] by simp
  show "\<forall>a. Some a \<in> set (slots u) \<longrightarrow> step_name p \<notin> set (step_names a)"
  proof (intro allI impI notI)
    fix a assume "Some a \<in> set (slots u)" "step_name p \<in> set (step_names a)"
    then have "step_name p \<in># slot_names (slots u)" unfolding slot_names_mem by blast
    then have "step_name p \<in># slot_names (slots p)" by (rule mset_subset_eqD [OF assms(4)])
    then show False using distinct_slots(3) [OF dp] unfolding slot_names_mem by force
  qed
  obtain zs where "mset (step_names p) = mset (step_names u @ zs)"
    using sub by (metis ex_mset mset_append mset_subset_eq_exists_conv)
  then have "distinct (step_names u @ zs)" using dp mset_eq_imp_distinct_iff by blast
  then show "distinct (step_names u)" by (simp only: distinct_append)
  show "set (step_names u) \<subseteq> set (step_names p)" using set_mset_mono [OF sub] by (simp only: set_mset_mset)
qed

context site_transfer
begin

lemma transfer_change:
  assumes t: "distinct (step_names t)" and p: "getStep site t = Some p" and r: "f p = Inr r"
    and u: "base_of (returned r) = base_of p" "slot_names (slots (returned r)) \<subseteq># slot_names (slots p)"
    and acc: "(\<exists>v. r = Mutated v) \<or> isStepAction (returned r)" and d: "2 * length (getAllSteps t) \<le> d"
  shows "transferStep d f t = Inr (subst_step site (returned r) t)"
    and "distinct (step_names (subst_step site (returned r) t))"
    and "getStep site (subst_step site (returned r) t) = Some (returned r)"
    and "mset (step_names (subst_step site (returned r) t)) + slot_names (slots p) = mset (step_names t) + slot_names (slots (returned r))"
proof -
  have mem: "p \<in> set (getAllSteps t)" and name: "step_name p = site" using getStep_Some [OF p] by auto
  note b = site_change_bounds [OF t mem u]
  show "transferStep d f t = Inr (subst_step site (returned r) t)"
    using transfer_site [OF _ t mem name r _ acc, of d] b(1,2) d name by simp
  show dis: "distinct (step_names (subst_step site (returned r) t))"
    using b(3,4) by (intro subst_step_distinct [OF t mem name]) auto
  have "site \<in> set (step_names t)" using mem name by auto
  then show "getStep site (subst_step site (returned r) t) = Some (returned r)"
    using getStep_subst [OF dis] u(1) name by simp
  show "mset (step_names (subst_step site (returned r) t)) + slot_names (slots p) = mset (step_names t) + slot_names (slots (returned r))"
    using subst_step_names [OF t mem name, of "returned r"] u(1)
    unfolding mset_names_slots [of p] mset_names_slots [of "returned r"] by simp
qed

end

lemma slot_names_insertAt_None: "slot_names (insertAt cs i None) = slot_names cs"
proof -
  have "slot_names (insertAt cs i None) = slot_names (None # cs)" by (rule slot_names_mset) (simp add: mset_insertAt)
  then show ?thesis by simp
qed

lemma slot_names_mono: "mset xs \<subseteq># mset ys \<Longrightarrow> slot_names xs \<subseteq># slot_names ys"
proof -
  assume "mset xs \<subseteq># mset ys"
  then obtain zs where "mset ys = mset (xs @ zs)" by (metis ex_mset mset_append mset_subset_eq_exists_conv)
  from slot_names_mset [OF this] show ?thesis by simp
qed

lemma remove_index_subset: "mset (remove_index i xs) \<subseteq># mset xs"
proof (cases "0 \<le> i \<and> nat i < length xs")
  case True
  then have "mset xs = add_mset (xs ! nat i) (mset (remove_index i xs))" using mset_remove_index [of i xs] by simp
  then show ?thesis by (metis add_mset_add_single mset_subset_eq_add_left)
next
  case False
  then have "remove_index i xs = xs" by (auto simp: remove_index_def)
  then show ?thesis by simp
qed

lemma splice_move_read: "0 \<le> i \<Longrightarrow> nat i < length cs \<Longrightarrow> splice_move i j (array_read cs i) cs = splice_move i j (cs ! nat i) cs"
  by (simp add: array_read_def)

text \<open>
  Adding a branch to a router inserts the new branch and an empty child at the same
  position, keeps every other branch with its child, and leaves the set of steps as it was.
\<close>

theorem addBranch_pairs:
  assumes "distinct (step_names (trigger wv))" and "getStep (addBranchStep r) (trigger wv) = Some (Router b s cs n)"
    and "length cs = length (branches s)" and "2 * length (getAllSteps (trigger wv)) \<le> stack e"
  shows "\<exists>wv' s' cs'. addBranch e wv r = Inr wv' \<and> getStep (addBranchStep r) (trigger wv') = Some (Router b s' cs' n)
     \<and> zip (branches s') cs' = insertAt (zip (branches s) cs) (addBranchIndex r)
           (createBranch (addBranchName r) (addBranchConditions r), None)
     \<and> length cs' = length (branches s') \<and> mset (step_names (trigger wv')) = mset (step_names (trigger wv))"
proof -
  let ?s = "s\<lparr>branches := insertAt (branches s) (addBranchIndex r) (createBranch (addBranchName r) (addBranchConditions r))\<rparr>"
  let ?cs = "insertAt cs (addBranchIndex r) None"
  let ?u = "Router b ?s ?cs n"
  have name: "sname b = addBranchStep r" using getStep_Some [OF assms(2)] by simp
  then have f: "add_branch_transfer r (Router b s cs n) = Inr (Replaced ?u)" by (simp add: add_branch_transfer_def)
  have pre: "slot_names (slots ?u) = slot_names (slots (Router b s cs n))"
    by (simp add: slot_names_insertAt_None)
  note c = branch_adding.transfer_change [OF assms(1,2) f _ _ _ assms(4), unfolded returned.simps, OF _ _ disjI2]
  show ?thesis
  proof (intro exI conjI)
    show "addBranch e wv r = Inr (wv\<lparr>trigger := subst_step (addBranchStep r) ?u (trigger wv)\<rparr>)"
      using c(1) pre by (simp add: addBranch_def transferWorkflow_def isStepAction_def)
    show "getStep (addBranchStep r) (trigger (wv\<lparr>trigger := subst_step (addBranchStep r) ?u (trigger wv)\<rparr>)) = Some (Router b ?s ?cs n)"
      using c(3) pre by (simp add: isStepAction_def)
    show "mset (step_names (trigger (wv\<lparr>trigger := subst_step (addBranchStep r) ?u (trigger wv)\<rparr>))) = mset (step_names (trigger wv))"
      using c(4) pre by (simp add: isStepAction_def)
  qed (use assms(3) in \<open>simp_all add: insertAt_zip\<close>)
qed

text \<open>
  Deleting a branch of a router removes the branch and its child at the same position
  and nothing else: the other branches keep their children, and the steps that go are those of the child.
\<close>

theorem deleteBranch_pairs:
  assumes "distinct (step_names (trigger wv))" and "getStep name (trigger wv) = Some (Router b s cs n)"
    and "length cs = length (branches s)" and "0 \<le> i" and "nat i < length cs"
    and "2 * length (getAllSteps (trigger wv)) \<le> stack e"
  shows "\<exists>wv' s' cs'. deleteBranch e wv i name = Inr wv' \<and> getStep name (trigger wv') = Some (Router b s' cs' n)
     \<and> zip (branches s') cs' = remove_index i (zip (branches s) cs) \<and> length cs' = length (branches s')
     \<and> mset (step_names (trigger wv')) + mset (opt_list step_names (cs ! nat i)) = mset (step_names (trigger wv))"
proof -
  let ?s = "s\<lparr>branches := remove_index i (branches s)\<rparr>" and ?cs = "remove_index i cs"
  let ?u = "Router b ?s ?cs n"
  have name: "sname b = name" using getStep_Some [OF assms(2)] by simp
  then have f: "delete_branch_transfer i name (Router b s cs n) = Inr (Replaced ?u)" by (simp add: delete_branch_transfer_def)
  have pre: "slot_names (slots ?u) \<subseteq># slot_names (slots (Router b s cs n))"
    using slot_names_mono [OF remove_index_subset [of i cs]] by simp
  have split: "slot_names cs = slot_names ?cs + mset (opt_list step_names (cs ! nat i))"
    using slot_names_mset [of "(cs ! nat i) # ?cs" cs] mset_remove_index [of i cs] assms(4,5) by (simp add: ac_simps)
  note c = branch_deleting.transfer_change [OF assms(1,2) f _ _ _ assms(6), unfolded returned.simps, OF _ pre disjI2]
  show ?thesis
  proof (intro exI conjI)
    show "deleteBranch e wv i name = Inr (wv\<lparr>trigger := subst_step name ?u (trigger wv)\<rparr>)"
      using c(1) by (simp add: deleteBranch_def transferWorkflow_def isStepAction_def)
    show "getStep name (trigger (wv\<lparr>trigger := subst_step name ?u (trigger wv)\<rparr>)) = Some (Router b ?s ?cs n)"
      using c(3) by (simp add: isStepAction_def)
    show "mset (step_names (trigger (wv\<lparr>trigger := subst_step name ?u (trigger wv)\<rparr>))) + mset (opt_list step_names (cs ! nat i)) = mset (step_names (trigger wv))"
      using c(4) split by (simp add: isStepAction_def ac_simps)
  qed (use assms(3) in \<open>simp_all add: remove_index_zip length_remove_index\<close>)
qed


end
