(* ===== verification/Workflow_Invariant.thy ===== *)
theory Workflow_Invariant
  imports Tree_Correctness
begin

text \<open>
  The invariant of a workflow version: its root is a trigger, no two steps share a name and every branch
  has its child slot. Each operation that is not composite keeps it, together with the renumbering that
  follows it; the conditions on the request are those of \<open>admissible\<close>.
\<close>

definition wf_tree :: "step \<Rightarrow> bool" where
  "wf_tree t \<longleftrightarrow> isTrigger (type_of t) \<and> distinct (step_names t) \<and> (\<forall>c \<in> set (getAllSteps t). paired c)"

text \<open>
  An added action needs a name of its own and, inside a branch, an index of an existing branch. The
  trigger is updated under its own name. Replacing the settings of an action may change the number of
  branches, so \<open>UPDATE_ACTION\<close> is left out.
\<close>

fun admissible :: "WorkflowVersion \<Rightarrow> WorkflowOperationRequest \<Rightarrow> bool" where
  "admissible wv (ADD_ACTION r) =
     (req_name (action r) \<notin> set (step_names (trigger wv)) \<and>
      (case getStep (parentStep r) (trigger wv) of None \<Rightarrow> True
       | Some p \<Rightarrow> (case branchIndex r of None \<Rightarrow> True
           | Some k \<Rightarrow> 0 \<le> k \<and> (type_of p = ROUTER \<or> type_of p = PARALLEL \<longrightarrow> nat k < length (children_of p)))))"
| "admissible wv (UPDATE_TRIGGER r) = (treq_name r = step_name (trigger wv))"
| "admissible wv (UPDATE_ACTION _) = False"
| "admissible wv op = (\<not> composite op)"

lemma transfer_children_root:
  assumes "transfer_children rec held s = Inr r"
  shows "type_of r = type_of s" and "base_of r = base_of s"
  using transfer_children_Inr [OF assms] by auto

lemma transferStep_root:
  assumes "transferStep d f s = Inr r"
  obtains t where "f s = Inr t" and "type_of r = type_of (returned t)" and "base_of r = base_of (returned t)"
  using assms by (cases d) (auto simp: rbind_eq_Inr dest: transfer_children_root)

subsection \<open>Operations on settings\<close>

interpretation skipping: renaming_transfer "skip_transfer names v" "\<lambda>n. n" "\<lambda>_. True"
  by unfold_locales (auto simp: skip_transfer_def split: if_splits)

lemma set_sample_data_simps [simp]:
  "base_of (set_sample_data d s) = base_of s" "slots (set_sample_data d s) = slots s"
  "type_of (set_sample_data d s) = type_of s" "paired (set_sample_data d s) = paired s"
  by (cases s; simp)+

interpretation sampling: renaming_transfer "sample_data_transfer e r" "\<lambda>n. n" "\<lambda>_. True"
  by unfold_locales (auto simp: sample_data_transfer_def split: if_splits)

lemma getAllSteps_same_slots:
  assumes "slots u = slots s" and "P u" and "\<forall>c \<in> set (getAllSteps s). P c"
  shows "\<forall>c \<in> set (getAllSteps u). P c"
proof
  fix c assume "c \<in> set (getAllSteps u)"
  then consider "c = u" | a where "Some a \<in> set (slots s)" "c \<in> set (getAllSteps a)"
    using assms(1) getAllSteps_cases [of c u] by auto
  then show "P c" using assms(2,3) slot_getAllSteps by cases blast+
qed

lemma paired_set_display_number [simp]: "paired (set_display_number d s) = paired s"
  by (cases s) simp_all

lemma node_invariantI:
  assumes "\<And>s t. f s = Inr t \<Longrightarrow> slots (returned t) = slots s" and "\<And>s t. f s = Inr t \<Longrightarrow> paired (returned t) = paired s"
  shows "node_invariant f paired"
proof
  show "length vs = length (slots s) \<Longrightarrow> paired (with_slots s vs) = paired s" for vs s by (rule paired_with_slots)
  fix s t assume t: "f s = Inr t" and all: "\<forall>c \<in> set (getAllSteps s). paired c"
  have "paired (returned t)" using assms(2) [OF t] all by simp
  with getAllSteps_same_slots [OF assms(1) [OF t]] all show "\<forall>c \<in> set (getAllSteps (returned t)). paired c" by blast
qed

interpretation skip_pairs: node_invariant "skip_transfer names v" paired
  by (rule node_invariantI) (auto simp: skip_transfer_def split: if_splits)

interpretation sample_pairs: node_invariant "sample_data_transfer e r" paired
  by (rule node_invariantI) (auto simp: sample_data_transfer_def split: if_splits)

interpretation number_pairs: node_invariant "assign_transfer nums" paired
  by (rule node_invariantI) (auto simp: assign_transfer_def split: if_splits option.splits)

text \<open>A traversal that keeps names, pairs and the root's type keeps the invariant.\<close>

lemma wf_transfer:
  assumes "wf_tree t" and "transferStep d f t = Inr r" and "step_names r = step_names t"
    and "\<And>u. f t = Inr u \<Longrightarrow> type_of (returned u) = type_of t" and "node_invariant f paired"
  shows "wf_tree r"
proof -
  have "\<forall>c \<in> set (getAllSteps r). paired c"
    using node_invariant.transfer_nodes [OF assms(5)] assms(1,2) unfolding wf_tree_def by blast
  moreover have "type_of r = type_of t" using transferStep_root [OF assms(2)] assms(4) by metis
  ultimately show ?thesis using assms(1,3) unfolding wf_tree_def by simp
qed

lemma skip_keeps:
  assumes "length (getAllSteps (trigger wv)) \<le> stack e"
  shows "\<exists>t. skipAction e wv names v = Inr (wv\<lparr>trigger := t\<rparr>) \<and> step_names t = step_names (trigger wv)
     \<and> (wf_tree (trigger wv) \<longrightarrow> wf_tree t)"
proof -
  obtain t where t: "transferStep (stack e) (skip_transfer names v) (trigger wv) = Inr t" "step_names t = step_names (trigger wv)"
    using skipping.transfer_names [of "trigger wv" "stack e" names v] assms by auto
  moreover have "wf_tree (trigger wv) \<Longrightarrow> wf_tree t"
    by (rule wf_transfer [OF _ t _ skip_pairs.node_invariant_axioms]) (auto simp: skip_transfer_def split: if_splits)
  ultimately show ?thesis by (auto simp: skipAction_def transferWorkflow_def)
qed

lemma sample_data_keeps:
  assumes "length (getAllSteps (trigger wv)) \<le> stack e"
  shows "\<exists>t. updateSampleDataInfo e wv r = Inr (wv\<lparr>trigger := t\<rparr>) \<and> step_names t = step_names (trigger wv)
     \<and> (wf_tree (trigger wv) \<longrightarrow> wf_tree t)"
proof -
  obtain t where t: "transferStep (stack e) (sample_data_transfer e r) (trigger wv) = Inr t" "step_names t = step_names (trigger wv)"
    using sampling.transfer_names [of "trigger wv" "stack e" e r] assms by auto
  moreover have "wf_tree (trigger wv) \<Longrightarrow> wf_tree t"
    by (rule wf_transfer [OF _ t _ sample_pairs.node_invariant_axioms]) (auto simp: sample_data_transfer_def split: if_splits)
  ultimately show ?thesis by (auto simp: updateSampleDataInfo_def transferWorkflow_def)
qed

lemma assign_keeps:
  assumes "length (getAllSteps t) \<le> d" and "wf_tree t"
  shows "\<exists>r. assign d t = Inr r \<and> step_names r = step_names t \<and> wf_tree r"
proof -
  let ?f = "assign_transfer (computeNumbers t)"
  obtain r where r: "transferStep d ?f t = Inr r" "step_names r = step_names t"
    using numbering.transfer_names [of t d "computeNumbers t"] assms(1) by auto
  have "wf_tree r"
    by (rule wf_transfer [OF assms(2) r _ number_pairs.node_invariant_axioms])
       (auto simp: assign_transfer_def split: if_splits option.splits)
  moreover from this have "toTrigger r = Some r" by (auto simp: wf_tree_def toTrigger_def isTrigger_def)
  ultimately show ?thesis using r by (simp add: assign_def)
qed

subsection \<open>Operations on branches\<close>

context site_transfer
begin

lemma wf_site_change:
  assumes "wf_tree t" and "2 * length (getAllSteps t) \<le> d" and "node_invariant f paired"
    and ok: "\<And>p. step_name p = site \<Longrightarrow> \<exists>r. f p = Inr r \<and> base_of (returned r) = base_of p \<and> type_of (returned r) = type_of p
        \<and> slot_names (slots (returned r)) \<subseteq># slot_names (slots p) \<and> ((\<exists>v. r = Mutated v) \<or> isStepAction (returned r))"
  shows "\<exists>t'. transferStep d f t = Inr t' \<and> wf_tree t'"
proof (cases "getStep site t")
  case None
  then have "transferStep d f t = Inr t"
    using transfer_absent(1) [of t d] assms(2) by (simp add: getStep_None_iff)
  with assms(1) show ?thesis by blast
next
  case (Some p)
  have t: "distinct (step_names t)" using assms(1) by (simp add: wf_tree_def)
  obtain r where r: "f p = Inr r" "base_of (returned r) = base_of p" "type_of (returned r) = type_of p"
    "slot_names (slots (returned r)) \<subseteq># slot_names (slots p)" "(\<exists>v. r = Mutated v) \<or> isStepAction (returned r)"
    using ok getStep_Some [OF Some] by blast
  note c = transfer_change [OF t Some r(1,2,4,5) assms(2)]
  have "type_of (subst_step site (returned r) t) = type_of t"
  proof (cases "step_name t = site")
    case True
    then have "p = t" using Some getStep_unique [OF t, of t] by simp
    with True r(3) show ?thesis by simp
  next
    case False
    then show ?thesis by (rule subst_step_node(4))
  qed
  moreover have "\<forall>c \<in> set (getAllSteps (subst_step site (returned r) t)). paired c"
    using node_invariant.transfer_nodes [OF assms(3)] c(1) assms(1) unfolding wf_tree_def by blast
  ultimately show ?thesis using c(1,2) assms(1) unfolding wf_tree_def by auto
qed

end

text \<open>A step whose child slots hold only old children is fine when the step itself is.\<close>

lemma fewer_slots_nodes:
  assumes "P u" and "\<forall>c \<in> set (getAllSteps s). P c" and "\<And>a. Some a \<in> set (slots u) \<Longrightarrow> a \<in> set (getAllSteps s)"
  shows "\<forall>c \<in> set (getAllSteps u). P c"
proof
  fix c assume "c \<in> set (getAllSteps u)"
  then consider "c = u" | a where "Some a \<in> set (slots u)" "c \<in> set (getAllSteps a)"
    using getAllSteps_cases [of c u] by auto
  then show "P c" using assms getAllSteps_sub by cases blast+
qed

lemma slot_mem: "Some a \<in> set (slots s) \<Longrightarrow> a \<in> set (getAllSteps s)"
  using slot_getAllSteps by force

lemma set_insertAt: "set (insertAt xs i v) = insert v (set xs)"
  by (metis mset_insertAt set_mset_add_mset_insert set_mset_mset)

lemma set_remove_index: "set (remove_index i xs) \<subseteq> set xs"
  using set_mset_mono [OF remove_index_subset [of i xs]] by simp

lemma array_read_mem: "array_read cs i = Some a \<Longrightarrow> Some a \<in> set cs"
  by (auto simp: array_read_def in_set_conv_nth split: if_splits)

lemma splice_move_mem: "Some a \<in> set (splice_move i j (array_read cs i) cs) \<Longrightarrow> Some a \<in> set cs"
  using set_remove_index [of i cs] array_read_mem [of cs i a] by (auto simp: splice_move_def set_insertAt)

lemma branch_node_invariantI:
  assumes "\<And>s t. f s = Inr t \<Longrightarrow> paired s \<Longrightarrow> paired (returned t)"
    and "\<And>s t a. f s = Inr t \<Longrightarrow> Some a \<in> set (slots (returned t)) \<Longrightarrow> Some a \<in> set (slots s)"
  shows "node_invariant f paired"
proof
  show "length vs = length (slots s) \<Longrightarrow> paired (with_slots s vs) = paired s" for vs s by (rule paired_with_slots)
  fix s t assume t: "f s = Inr t" and all: "\<forall>c \<in> set (getAllSteps s). paired c"
  then have "paired (returned t)" using assms(1) by simp
  from fewer_slots_nodes [OF this all] slot_mem [OF assms(2) [OF t]] show "\<forall>c \<in> set (getAllSteps (returned t)). paired c" by blast
qed

interpretation add_branch_pairs: node_invariant "add_branch_transfer r" paired
  by (rule branch_node_invariantI)
     (auto simp: add_branch_transfer_def set_insertAt split: if_splits step.splits)

interpretation delete_branch_pairs: node_invariant "delete_branch_transfer i name" paired
  by (rule branch_node_invariantI)
     (auto simp: delete_branch_transfer_def length_remove_index split: if_splits step.splits
       dest: set_remove_index [THEN subsetD])

interpretation move_branch_pairs: node_invariant "move_branch_transfer r" paired
  by (rule branch_node_invariantI)
     (auto simp: move_branch_transfer_def Let_def splice_move_def length_remove_index split: if_splits step.splits
       dest: splice_move_mem [unfolded splice_move_def])

lemma slot_names_splice:
  "slot_names (splice_move i j (array_read cs i) cs) = slot_names cs"
proof (cases "0 \<le> i \<and> nat i < length cs")
  case True
  then show ?thesis using slot_names_mset [OF mset_splice_move [of i cs j]] by (simp add: splice_move_read)
next
  case False
  then have "remove_index i cs = cs" "array_read cs i = None" by (auto simp: remove_index_def array_read_def)
  then show ?thesis by (simp add: splice_move_def slot_names_insertAt_None)
qed

lemma branch_operations_wf:
  assumes "wf_tree (trigger wv)" and "2 * length (getAllSteps (trigger wv)) \<le> stack e"
  shows "\<exists>t. addBranch e wv ar = Inr (wv\<lparr>trigger := t\<rparr>) \<and> wf_tree t"
    and "\<exists>t. deleteBranch e wv i name = Inr (wv\<lparr>trigger := t\<rparr>) \<and> wf_tree t"
    and "\<exists>t. moveBranch e wv mr = Inr (wv\<lparr>trigger := t\<rparr>) \<and> wf_tree t"
proof -
  have "\<exists>t. transferStep (stack e) (add_branch_transfer ar) (trigger wv) = Inr t \<and> wf_tree t"
    by (rule branch_adding.wf_site_change [OF assms add_branch_pairs.node_invariant_axioms])
       (auto simp: add_branch_transfer_def isStepAction_def slot_names_insertAt_None split: step.split)
  then show "\<exists>t. addBranch e wv ar = Inr (wv\<lparr>trigger := t\<rparr>) \<and> wf_tree t"
    by (auto simp: addBranch_def transferWorkflow_def)
  have "\<exists>t. transferStep (stack e) (delete_branch_transfer i name) (trigger wv) = Inr t \<and> wf_tree t"
    by (rule branch_deleting.wf_site_change [OF assms delete_branch_pairs.node_invariant_axioms])
       (auto simp: delete_branch_transfer_def isStepAction_def split: step.split
         intro: slot_names_mono remove_index_subset)
  then show "\<exists>t. deleteBranch e wv i name = Inr (wv\<lparr>trigger := t\<rparr>) \<and> wf_tree t"
    by (auto simp: deleteBranch_def transferWorkflow_def)
  have "\<exists>t. transferStep (stack e) (move_branch_transfer mr) (trigger wv) = Inr t \<and> wf_tree t"
    by (rule branch_moving.wf_site_change [OF assms move_branch_pairs.node_invariant_axioms])
       (auto simp: move_branch_transfer_def Let_def slot_names_splice split: step.split)
  then show "\<exists>t. moveBranch e wv mr = Inr (wv\<lparr>trigger := t\<rparr>) \<and> wf_tree t"
    by (auto simp: moveBranch_def transferWorkflow_def)
qed

subsection \<open>Deleting\<close>

interpretation deleting: local_transfer "delete_transfer name" "\<lambda>s. \<exists>c. Some c \<in> set (slots s) \<and> step_name c = name"
proof
  fix s assume no: "\<not> (\<exists>c. Some c \<in> set (slots s) \<and> step_name c = name)"
  have "del_slot name x = x" if "x \<in> set (slots s)" for x
    using that no by (auto simp: del_slot_def split: option.splits)
  then have "delete_child name s = s" by (cases s) (auto intro: map_idI)
  then show "delete_transfer name s = Inr (Mutated s)" by (simp add: delete_transfer_def)
qed

interpretation delete_pairs: node_invariant "delete_transfer name" paired
proof
  show "length vs = length (slots s) \<Longrightarrow> paired (with_slots s vs) = paired s" for vs s by (rule paired_with_slots)
  fix s t assume t: "delete_transfer name s = Inr t" and all: "\<forall>c \<in> set (getAllSteps s). paired c"
  then have u: "returned t = delete_child name s" by (auto simp: delete_transfer_def)
  have "paired (delete_child name s) = paired s" by (cases s) simp_all
  moreover have "a \<in> set (getAllSteps s)" if "Some a \<in> set (slots (delete_child name s))" for a
  proof -
    from that obtain c where c: "Some c \<in> set (slots s)" "c = a \<or> nextAction c = Some a"
      by (auto simp: del_slot_def split: option.splits if_splits)
    moreover have "a \<in> set (getAllSteps c)" if "nextAction c = Some a"
      using that slot_mem [of a c] last_in_set [OF slots_nonempty [of c]] by simp
    ultimately show ?thesis using slot_getAllSteps [OF c(1)] by auto
  qed
  ultimately show "\<forall>c \<in> set (getAllSteps (returned t)). paired c"
    unfolding u using all by (intro fewer_slots_nodes [OF _ all]) simp_all
qed

lemma delete_one_wf:
  assumes wf: "wf_tree t" and len: "length (getAllSteps t) \<le> d"
  shows "\<exists>r. transferStep d (delete_transfer name) t = Inr r \<and> wf_tree r \<and> length (getAllSteps r) \<le> length (getAllSteps t)"
proof (cases "name \<in> set (step_names t) \<and> name \<noteq> step_name t")
  case True
  have dis: "distinct (step_names t)" using wf by (simp add: wf_tree_def)
  from True obtain a where a: "a \<in> set (getAllSteps t)" "step_name a = name" by auto
  have "c = a" if "c \<in> set (getAllSteps t)" "step_name c = step_name a" for c
    by (rule step_by_name [OF dis that(1) a(1) that(2)])
  with dis True a(2) have "deletable a t" unfolding deletable_def by blast
  then obtain r where r: "transferStep d (delete_transfer name) t = Inr r" "base_of r = base_of t"
    "step_names r = filter (\<lambda>n. n \<notin> subtree_names a) (step_names t)"
    using transfer_delete [OF len _ _ getAllSteps_sub_distinct [OF dis a(1)]] True a(2) by metis
  have "type_of r = type_of t" using transferStep_root [OF r(1)] by (auto simp: delete_transfer_def)
  moreover have "\<forall>c \<in> set (getAllSteps r). paired c"
    using delete_pairs.transfer_nodes r(1) wf unfolding wf_tree_def by blast
  moreover have "distinct (step_names r)" unfolding r(3) using dis by (rule distinct_filter)
  moreover have "length (step_names r) \<le> length (step_names t)" unfolding r(3) by (rule length_filter_le)
  ultimately show ?thesis using r(1) wf by (auto simp: wf_tree_def)
next
  case False
  have "\<not> (\<exists>a. Some a \<in> set (slots c) \<and> step_name a = name)" if c: "c \<in> set (getAllSteps t)" for c
  proof
    assume "\<exists>a. Some a \<in> set (slots c) \<and> step_name a = name"
    then obtain a where a: "Some a \<in> set (slots c)" "step_name a = name" by blast
    then have mem: "a \<in> set (getAllSteps t)" using slot_mem getAllSteps_sub [OF c] by blast
    with False a have "step_name a = step_name t" by auto
    moreover have dis: "distinct (step_names t)" using wf by (simp add: wf_tree_def)
    ultimately have "a = t" using step_by_name [OF dis mem self_in_getAllSteps] by blast
    with slot_length [OF a(1)] getAllSteps_sub_length [OF c] show False by simp
  qed
  with deleting.transfer_no_hit [OF len, of name] wf show ?thesis by auto
qed

lemma delete_wf:
  assumes "wf_tree (trigger wv)" and "length (getAllSteps (trigger wv)) \<le> stack e"
  shows "\<exists>t. deleteAction e wv names = Inr (wv\<lparr>trigger := t\<rparr>) \<and> wf_tree t \<and> length (getAllSteps t) \<le> length (getAllSteps (trigger wv))"
  using assms
proof (induction names arbitrary: wv)
  case Nil
  then show ?case by (intro exI [of _ "trigger wv"]) simp
next
  case (Cons name names)
  obtain r where r: "transferStep (stack e) (delete_transfer name) (trigger wv) = Inr r" "wf_tree r"
    "length (getAllSteps r) \<le> length (getAllSteps (trigger wv))" using delete_one_wf [OF Cons.prems] by blast
  obtain t where "deleteAction e (wv\<lparr>trigger := r\<rparr>) names = Inr (wv\<lparr>trigger := t\<rparr>)" "wf_tree t" "length (getAllSteps t) \<le> length (getAllSteps r)"
    using Cons.IH [of "wv\<lparr>trigger := r\<rparr>"] r Cons.prems by auto
  with r show ?case by (auto simp: transferWorkflow_def)
qed

subsection \<open>Adding\<close>

lemma createAction_paired:
  assumes "\<forall>c \<in> set (opt_list getAllSteps x). paired c"
  shows "\<forall>c \<in> set (getAllSteps (createAction e a x)). paired c"
proof
  fix c assume "c \<in> set (getAllSteps (createAction e a x))"
  then consider "c = createAction e a x" | n where "x = Some n" "c \<in> set (getAllSteps n)"
    unfolding getAllSteps_cases [of c "createAction e a x"] createAction_slots by auto
  then show "paired c"
  proof cases
    case 1
    then show ?thesis by (simp add: createAction_def with_validity_def split: ActionSettings.split)
  next
    case 2
    with assms show ?thesis by simp
  qed
qed

text \<open>An accepted request puts the new action into one child slot, in front of what was there.\<close>

lemma add_transfer_slot:
  assumes "step_name p = parentStep r" and "accepts_location p (stepLocation r) (branchIndex r)"
    and "\<And>k. branchIndex r = Some k \<Longrightarrow> type_of p = ROUTER \<or> type_of p = PARALLEL \<Longrightarrow> nat k < length (children_of p)"
  shows "\<exists>u k. add_transfer e r p = Inr (Mutated u) \<and> type_of u = type_of p \<and> paired u = paired p \<and> k < length (slots p)
     \<and> slots u = (slots p)[k := Some (createAction e (action r) (slots p ! k))]"
proof (cases p)
  case (Code b s x y n)
  let ?k = "if stepLocation r = Some INSIDE_ON_SUCCESS_BRANCH then 0 else if stepLocation r = Some INSIDE_ON_FAILURE_BRANCH then 1 else 2 :: nat"
  show ?thesis using Code assms
    by (intro exI [of _ "with_slots p ((slots p)[?k := Some (createAction e (action r) (slots p ! ?k))])"] exI [of _ ?k])
       (auto simp: add_transfer_def handleContinueOnFailureBranches_def)
next
  case (Connector b s x y n)
  let ?k = "if stepLocation r = Some INSIDE_ON_SUCCESS_BRANCH then 0 else if stepLocation r = Some INSIDE_ON_FAILURE_BRANCH then 1 else 2 :: nat"
  show ?thesis using Connector assms
    by (intro exI [of _ "with_slots p ((slots p)[?k := Some (createAction e (action r) (slots p ! ?k))])"] exI [of _ ?k])
       (auto simp: add_transfer_def handleContinueOnFailureBranches_def)
next
  case (Loop b s f n)
  let ?k = "if stepLocation r = Some INSIDE_LOOP then 0 else 1 :: nat"
  show ?thesis using Loop assms
    by (intro exI [of _ "with_slots p ((slots p)[?k := Some (createAction e (action r) (slots p ! ?k))])"] exI [of _ ?k])
       (auto simp: add_transfer_def handleLoopOnItems_def)
next
  case (Router b s cs n)
  let ?k = "if stepLocation r = Some AFTER then length cs else nat (the (branchIndex r))"
  have "?k < Suc (length cs)" using Router assms by auto
  with Router assms show ?thesis
    by (intro exI [of _ "if stepLocation r = Some AFTER then Router b s cs (Some (createAction e (action r) n))
          else Router b s (cs[?k := Some (createAction e (action r) (cs ! ?k))]) n"] exI [of _ ?k])
       (auto simp: add_transfer_def handleRouter_def Let_def array_assign_def array_read_def nth_append list_update_append)
next
  case (Parallel b s cs n)
  let ?k = "if stepLocation r = Some AFTER then length cs else nat (the (branchIndex r))"
  have "?k < Suc (length cs)" using Parallel assms by auto
  with Parallel assms show ?thesis
    by (intro exI [of _ "if stepLocation r = Some AFTER then Parallel b s cs (Some (createAction e (action r) n))
          else Parallel b s (cs[?k := Some (createAction e (action r) (cs ! ?k))]) n"] exI [of _ ?k])
       (auto simp: add_transfer_def handleParallel_def Let_def array_assign_def array_read_def nth_append list_update_append)
qed (use assms in \<open>auto simp: add_transfer_def intro!: exI [of _ 0]\<close>)

lemma new_slot_paired:
  assumes "k < length (slots p)" and "slots u = (slots p)[k := Some (createAction e a (slots p ! k))]"
    and "paired u" and all: "\<forall>c \<in> set (getAllSteps p). paired c"
  shows "\<forall>c \<in> set (getAllSteps u). paired c"
proof
  have old: "\<forall>c \<in> set (opt_list getAllSteps x). paired c" if "x \<in> set (slots p)" for x
    using that all slot_getAllSteps [of _ p] by (cases "x = None") force+
  fix c assume "c \<in> set (getAllSteps u)"
  then consider "c = u" | b where "Some b \<in> set (slots u)" "c \<in> set (getAllSteps b)" using getAllSteps_cases [of c u] by auto
  then show "paired c"
  proof cases
    case 1
    with assms(3) show ?thesis by simp
  next
    case 2
    then have "b = createAction e a (slots p ! k) \<or> Some b \<in> set (slots p)"
      using set_update_subset_insert [of "slots p" k] assms(2) by auto
    with 2 old [of "Some b"] createAction_paired [OF old [of "slots p ! k"]] assms(1) show ?thesis by auto
  qed
qed

lemma add_wf:
  assumes wf: "wf_tree (trigger wv)" and adm: "admissible wv (ADD_ACTION r)"
    and room: "2 * length (getAllSteps (trigger wv)) + 1 \<le> stack e" and res: "addAction e wv r = Inr wv'"
  shows "wf_tree (trigger wv') \<and> length (getAllSteps (trigger wv')) \<le> Suc (length (getAllSteps (trigger wv)))"
proof (cases "getStep (parentStep r) (trigger wv)")
  case None
  then have "addAction e wv r = Inr wv"
    using adding.transfer_absent(1) [of "trigger wv" "stack e" r e] room
    by (simp add: getStep_None_iff addAction_def transferWorkflow_def)
  with res wf show ?thesis by simp
next
  case (Some p)
  let ?t = "trigger wv"
  have dis: "distinct (step_names ?t)" using wf by (simp add: wf_tree_def)
  have mem: "p \<in> set (getAllSteps ?t)" and name: "step_name p = parentStep r" using getStep_Some [OF Some] by auto
  have fresh: "req_name (action r) \<notin> set (step_names ?t)" using adm by simp
  have idx: "nat k < length (children_of p)" if "branchIndex r = Some k" "type_of p = ROUTER \<or> type_of p = PARALLEL" for k
    using adm Some that by simp
  have pos: "\<forall>k. branchIndex r = Some k \<longrightarrow> 0 \<le> k" using adm Some by auto
  have ok: "accepts_location p (stepLocation r) (branchIndex r)"
  proof (rule ccontr)
    assume "\<not> ?thesis"
    from add_transfer_rejected [OF name this pos] obtain msg where "add_transfer e r p = Inl (OperationInvalid msg)" by blast
    from adding.transfer_site_error [OF _ dis mem name this] res room show False
      by (simp add: addAction_def transferWorkflow_def)
  qed
  obtain u where u: "wv' = wv\<lparr>trigger := subst_step (parentStep r) u ?t\<rparr>" "add_transfer e r p = Inr (Mutated u)"
    "base_of u = base_of p" "mset (step_names u) = add_mset (req_name (action r)) (mset (step_names p))"
    using addAction_at [OF dis Some ok fresh room] res by auto
  obtain k where k: "type_of u = type_of p" "paired u = paired p" "k < length (slots p)"
    "slots u = (slots p)[k := Some (createAction e (action r) (slots p ! k))]"
    using add_transfer_slot [OF name ok idx, of e] u(2) by auto
  have sub: "set (step_names p) \<subseteq> set (step_names ?t)" using getAllSteps_sub [OF mem] by auto
  have "mset (step_names u) = mset (req_name (action r) # step_names p)" using u(4) by simp
  then have "distinct (step_names u) = distinct (req_name (action r) # step_names p)" and
    names: "set (step_names u) = insert (req_name (action r)) (set (step_names p))"
    using mset_eq_imp_distinct_iff mset_eq_setD by (blast, fastforce)
  with fresh sub getAllSteps_sub_distinct [OF dis mem] have "distinct (step_names u)" by auto
  then have d: "distinct (step_names (subst_step (parentStep r) u ?t))"
    using fresh names by (intro subst_step_distinct [OF dis mem name]) auto
  have all: "\<forall>c \<in> set (getAllSteps ?t). paired c" using wf by (simp add: wf_tree_def)
  have "\<forall>c \<in> set (getAllSteps u). paired c"
    using new_slot_paired [OF k(3,4)] k(2) all getAllSteps_sub [OF mem] by (meson mem subsetD)
  then have "\<forall>c \<in> set (getAllSteps (subst_step (parentStep r) u ?t)). paired c"
    using all paired_with_slots by (intro subst_step_nodes) auto
  moreover have "type_of (subst_step (parentStep r) u ?t) = type_of ?t"
  proof (cases "step_name ?t = parentStep r")
    case True
    then have "p = ?t" using step_by_name [OF dis mem self_in_getAllSteps] name by simp
    with True k(1) show ?thesis by simp
  qed (rule subst_step_node(4))
  moreover have "length (getAllSteps (subst_step (parentStep r) u ?t)) = Suc (length (getAllSteps ?t))"
    using arg_cong [OF subst_step_names [OF dis mem name, of u], of size] arg_cong [OF u(4), of size] by simp
  ultimately show ?thesis using u(1) d wf by (simp add: wf_tree_def)
qed

subsection \<open>Updating the trigger\<close>

interpretation retriggering: site_transfer "trigger_transfer name new" name
  by unfold_locales (simp add: trigger_transfer_def)

lemma createTrigger_simps [simp]:
  "slots (createTrigger e name r n sd num) = [n]" "step_name (createTrigger e name r n sd num) = name"
  "isTrigger (type_of (createTrigger e name r n sd num))" "paired (createTrigger e name r n sd num)"
  by (simp_all add: createTrigger_def Let_def with_validity_def isTrigger_def split: TriggerSettings.split)

lemma trigger_slots: "isTrigger (type_of t) \<Longrightarrow> slots t = [nextAction t]"
  by (cases t) (simp_all add: isTrigger_def)

lemma update_trigger_wf:
  assumes wf: "wf_tree (trigger wv)" and name: "treq_name r = step_name (trigger wv)"
    and room: "length (getAllSteps (trigger wv)) \<le> stack e"
  shows "\<exists>t. updateTrigger e wv r = Inr (wv\<lparr>trigger := t\<rparr>) \<and> wf_tree t \<and> step_names t = step_names (trigger wv)"
proof -
  let ?t = "trigger wv"
  have dis: "distinct (step_names ?t)" and sl: "slots ?t = [nextAction ?t]"
    using wf trigger_slots by (auto simp: wf_tree_def)
  have get: "getStepOrThrow (treq_name r) ?t = Inr ?t"
    using getStep_unique [OF dis, of ?t] name by (simp add: getStepOrThrow_def)
  obtain sd num where sd: "(case ?t of ConnectorTrigger _ s _ \<Rightarrow> (sampleData s, displayNumber s) | _ \<Rightarrow> (None, None)) = (sd, num)"
    by fastforce
  let ?u = "createTrigger e (treq_name r) r (nextAction ?t) sd num"
  have names: "step_names ?u = step_names ?t"
    unfolding step_names_slots [of ?u] step_names_slots [of ?t] using sl name by simp
  have "treq_name r \<notin> set (step_names a)" if "Some a \<in> set (slots ?u)" for a
  proof -
    from that have "nextAction ?t = Some a" by auto
    with distinct_slots(3) [OF dis] sl name show ?thesis by simp
  qed
  moreover have "length (getAllSteps ?u) = length (getAllSteps ?t)" using arg_cong [OF names, of length] by simp
  moreover have "0 < stack e" using room by (subst (asm) getAllSteps_slots) simp
  ultimately have "transferStep (stack e) (trigger_transfer (treq_name r) ?u) ?t = Inr ?u"
    using retriggering.transfer_at_site [of "Replaced ?u" "stack e - 1" "treq_name r" ?u ?t] room name
    by (simp add: trigger_transfer_def)
  then have "updateTrigger e wv r = Inr (wv\<lparr>trigger := ?u\<rparr>)"
    using get sd by (simp add: updateTrigger_def transferWorkflow_def)
  moreover have "\<forall>c \<in> set (getAllSteps ?u). paired c"
    by (rule getAllSteps_same_slots [of _ ?t]) (use wf sl in \<open>auto simp: wf_tree_def\<close>)
  ultimately show ?thesis using names dis by (auto simp: wf_tree_def)
qed

subsection \<open>Every operation\<close>

lemma apply_simple_wf:
  assumes "wf_tree (trigger wv)" and "admissible wv op" and "2 * length (getAllSteps (trigger wv)) + 1 \<le> stack e"
    and "apply_simple e wv op = Inr wv'"
  shows "wf_tree (trigger wv') \<and> (step_tree_operation op \<longrightarrow> length (getAllSteps (trigger wv')) \<le> stack e)"
proof (cases op)
  case (ADD_ACTION r)
  then have "admissible wv (ADD_ACTION (r\<lparr>action := exact_request (action r)\<rparr>))" using assms(2) by (auto split: option.splits)
  from add_wf [OF assms(1) this assms(3)] ADD_ACTION assms(3,4) show ?thesis by auto
next
  case (UPDATE_TRIGGER r)
  have "treq_name (exact_trigger_request r) = treq_name r" by (simp add: exact_trigger_request_def split: TriggerSettings.split)
  then obtain t where t: "updateTrigger e wv (exact_trigger_request r) = Inr (wv\<lparr>trigger := t\<rparr>)" "wf_tree t" "step_names t = step_names (trigger wv)"
    using update_trigger_wf [OF assms(1), of "exact_trigger_request r" e] assms(2,3) UPDATE_TRIGGER by auto
  then have "length (getAllSteps t) = length (getAllSteps (trigger wv))" by (metis length_map)
  with t UPDATE_TRIGGER assms(3,4) show ?thesis by auto
next
  case (DELETE_ACTION names)
  with delete_wf [OF assms(1), of e names] assms show ?thesis by auto
next
  case (SET_SKIP_ACTION names v)
  with skip_keeps [of wv e names v] assms show ?thesis by auto
next
  case (UPDATE_SAMPLE_DATA_INFO r)
  with sample_data_keeps [of wv e r] assms show ?thesis by auto
next
  case (ADD_BRANCH r)
  with branch_operations_wf(1) [OF assms(1), of e r] assms show ?thesis by auto
next
  case (DELETE_BRANCH i name)
  with branch_operations_wf(2) [OF assms(1), of e i name] assms show ?thesis by auto
next
  case (MOVE_BRANCH r)
  with branch_operations_wf(3) [OF assms(1), of e r] assms show ?thesis by auto
qed (use assms in \<open>auto simp: updateNote_def deleteNote_def addNote_def setJoinEdges_def Let_def\<close>)

text \<open>
  C1: Every admissible operation of the builder, with the renumbering that follows it,
  keeps the invariant of the workflow: a trigger at the root, pairwise different step names, and one
  child slot per branch of every router and parallel.
\<close>

theorem applyOperation_keeps_wf:
  assumes "wf_tree (trigger wv)" and "admissible wv op" and "2 * length (getAllSteps (trigger wv)) + 1 \<le> stack e"
    and "applyOperation e wv op = Inr wv'"
  shows "wf_tree (trigger wv')"
proof -
  have simple: "\<not> composite op" using assms(2) by (cases op) auto
  then obtain w where w: "apply_simple e wv op = Inr w" "finish_operation e op w = Inr wv'"
    using assms(4) by (auto simp: applyOperation_simple rbind_eq_Inr)
  note inv = apply_simple_wf [OF assms(1-3) w(1)]
  then have "\<exists>r. assign (stack e) (trigger w) = Inr r \<and> wf_tree r" if "step_tree_operation op"
    using that assign_keeps by blast
  with w(2) inv show ?thesis
    by (cases "step_tree_operation op") (auto simp: finish_operation_def renumber_def revalidate_def)
qed

end
