(* ===== verification/Execution_Plan.thy ===== *)
theory Execution_Plan
  imports Structure_Lemmas
begin

text \<open>
  \<open>core/execution/src/lib/workflows/execution-plan\<close>: the compiler from the action tree to the plan the
  engine walks, the join edges that turn the tree into a graph, and the cursor of the engine over the plan
  (\<open>server/engine/src/lib/handler/execution-plan-cursor.ts\<close>).

  The plan is built in plain objects. A step whose name is inherited from \<open>Object.prototype\<close> looks as
  if it had been visited already, and spreading the inherited function into an array throws; both are
  part of the model (\<open>js_has\<close>, \<open>read_dependencies\<close>). Only the trigger is assumed not to be called
  \<open>__proto__\<close>.
\<close>

datatype ExecutionNodeKind = TRIGGER | ACTION

record ExecutionNode =
  node_id :: string
  node_kind :: ExecutionNodeKind
  node_step :: step
  node_next :: "string list"
  node_children :: "string list js_record"

type_synonym dependencies = "string list js_record"

record ExecutionPlan =
  plan_entry :: string
  plan_nodes :: "ExecutionNode js_record"
  plan_dependencies :: dependencies

subsection \<open>Nodes\<close>

definition nextIds :: "step option \<Rightarrow> string list" where
  "nextIds x = opt_list (\<lambda>a. [step_name a]) x"

text \<open>The argument is an action; a trigger has no children.\<close>

fun childrenOf :: "step \<Rightarrow> step option js_record" where
  "childrenOf (Loop _ _ f _) = [(''loop'', f)]"
| "childrenOf (Router _ _ cs _) = map (\<lambda>(i, c). (''branch_'' @ show_nat i, c)) (enumerate 0 cs)"
| "childrenOf (Parallel _ _ cs _) = map (\<lambda>(i, c). (''branch_'' @ show_nat i, c)) (enumerate 0 cs)"
| "childrenOf (Code _ _ x y _) = opt_list (\<lambda>a. [(''onSuccess'', Some a)]) x @ opt_list (\<lambda>a. [(''onFailure'', Some a)]) y"
| "childrenOf (Component _ _ x y _) = opt_list (\<lambda>a. [(''onSuccess'', Some a)]) x @ opt_list (\<lambda>a. [(''onFailure'', Some a)]) y"
| "childrenOf (Connector _ _ x y _) = opt_list (\<lambda>a. [(''onSuccess'', Some a)]) x @ opt_list (\<lambda>a. [(''onFailure'', Some a)]) y"
| "childrenOf _ = []"

definition action_node :: "step \<Rightarrow> ExecutionNode" where
  "action_node a = \<lparr>node_id = step_name a, node_kind = ACTION, node_step = a, node_next = nextIds (nextAction a),
     node_children = map (\<lambda>(slot, c). (slot, nextIds c)) (childrenOf a)\<rparr>"

definition trigger_node :: "step \<Rightarrow> ExecutionNode" where
  "trigger_node t = \<lparr>node_id = step_name t, node_kind = TRIGGER, node_step = t, node_next = nextIds (nextAction t),
     node_children = []\<rparr>"

lemma childrenOf_size: "(slot, Some c) \<in> set (childrenOf a) \<Longrightarrow> size c < size a"
  by (cases a) (auto simp: opt_list_def dest!: enumerate_snd_mem size_Some_in_list split: option.splits)

function visitAction :: "step option \<Rightarrow> ExecutionNode js_record \<Rightarrow> ExecutionNode js_record" where
  "visitAction None nodes = nodes"
| "visitAction (Some a) nodes =
     (if js_has nodes (step_name a) then nodes
      else foldl (\<lambda>ns (slot, c). visitAction c ns)
             (visitAction (nextAction a) (AList.update (step_name a) (action_node a) nodes)) (childrenOf a))"
  by pat_completeness auto
termination
proof (relation "measure (\<lambda>(x, _). size_option size x)", goal_cases)
  case 1
  show ?case by simp
next
  case (2 a nodes)
  show ?case using size_pos [of a] by (cases "nextAction a") (auto dest: nextAction_size)
next
  case (3 a nodes acc p slot c)
  then show ?case using size_pos [of a] by (cases c) (auto dest: childrenOf_size)
qed

declare visitAction.simps(2) [simp del]

definition visitTrigger :: "step \<Rightarrow> ExecutionNode js_record" where
  "visitTrigger t = visitAction (nextAction t) [(step_name t, trigger_node t)]"

subsection \<open>Dependencies\<close>

definition not_iterable :: error where
  "not_iterable = TypeError ''object is not iterable''"

text \<open>\<open>[...(dependencies[id] ?? [])]\<close>\<close>

definition read_dependencies :: "dependencies \<Rightarrow> string \<Rightarrow> string list result" where
  "read_dependencies deps i = (case map_of deps i of
      Some ds \<Rightarrow> Inr ds
    | None \<Rightarrow> if i \<in> set object_prototype_keys then Inl not_iterable else Inr [])"

definition outgoing :: "ExecutionNode \<Rightarrow> string list" where
  "outgoing n = node_next n @ concat (map snd (node_children n))"

definition add_dependency :: "string \<Rightarrow> dependencies \<Rightarrow> string \<Rightarrow> dependencies result" where
  "add_dependency src deps target =
     (if \<not> js_has deps target then Inr deps
      else rbind (read_dependencies deps target) (\<lambda>ds. Inr (AList.update target (ds @ [src]) deps)))"

definition buildDependencies :: "ExecutionNode js_record \<Rightarrow> dependencies result" where
  "buildDependencies nodes =
     rfold (\<lambda>deps (_, n). rfold (add_dependency (node_id n)) deps (outgoing n)) (map (\<lambda>(k, _). (k, [])) nodes) nodes"

definition add_join_edge :: "dependencies \<Rightarrow> WorkflowJoinEdge \<Rightarrow> dependencies result" where
  "add_join_edge deps e =
     rbind (read_dependencies deps (edge_to e)) (\<lambda>existing.
       Inr (AList.update (edge_to e) (if edge_from e \<in> set existing then existing else existing @ [edge_from e]) deps))"

definition withJoinEdges :: "dependencies \<Rightarrow> WorkflowJoinEdge list \<Rightarrow> dependencies result" where
  "withJoinEdges deps es = rfold add_join_edge deps es"

definition joinEdgesOf :: "WorkflowVersion \<Rightarrow> WorkflowJoinEdge list" where
  "joinEdgesOf wv = getD (graph wv) []"

definition compile :: "WorkflowVersion \<Rightarrow> ExecutionPlan result" where
  "compile wv =
     (let nodes = visitTrigger (trigger wv);
          joinEdges = filter (\<lambda>e. js_has nodes (edge_from e) \<and> js_has nodes (edge_to e)) (joinEdgesOf wv)
      in rbind (buildDependencies nodes) (\<lambda>deps. rbind (withJoinEdges deps joinEdges) (\<lambda>deps'.
         Inr \<lparr>plan_entry = step_name (trigger wv), plan_nodes = nodes, plan_dependencies = deps'\<rparr>)))"

subsection \<open>Cycles\<close>

text \<open>The loop of \<open>ancestorsOf\<close>; \<open>pop\<close> takes the last element.\<close>

definition all_dependencies :: "dependencies \<Rightarrow> string set" where
  "all_dependencies deps = (\<Union>(k, ds) \<in> set deps. set ds)"

lemma read_dependencies_all: "read_dependencies deps i = Inr ds \<Longrightarrow> set ds \<subseteq> all_dependencies deps"
  by (auto simp: read_dependencies_def all_dependencies_def dest!: map_of_SomeD split: option.splits if_splits)

lemma finite_all_dependencies [simp]: "finite (all_dependencies deps)"
  by (auto simp: all_dependencies_def)

function ancestors_loop :: "dependencies \<Rightarrow> string list \<Rightarrow> string list \<Rightarrow> string list result" where
  "ancestors_loop deps seen pending =
     (if pending = [] then Inr seen
      else if last pending \<in> set seen then ancestors_loop deps seen (butlast pending)
      else rbind (read_dependencies deps (last pending))
             (\<lambda>ds. ancestors_loop deps (seen @ [last pending]) (butlast pending @ ds)))"
  by pat_completeness auto
termination
proof (relation "measures [\<lambda>(deps, seen, pending). card ((set pending \<union> all_dependencies deps) - set seen), \<lambda>(_, _, pending). length pending]", goal_cases)
  case 1
  show ?case by simp
next
  case (2 deps seen pending)
  then have "set (butlast pending) \<subseteq> set pending" by (auto dest: in_set_butlastD)
  then have "card ((set (butlast pending) \<union> all_dependencies deps) - set seen) \<le> card ((set pending \<union> all_dependencies deps) - set seen)"
    by (intro card_mono) auto
  with 2 show ?case by auto
next
  case (3 deps seen pending ds)
  have "(set (butlast pending @ ds) \<union> all_dependencies deps) - set (seen @ [last pending])
      \<subset> (set pending \<union> all_dependencies deps) - set seen"
    using 3 read_dependencies_all [OF 3(3)] last_in_set [of pending] by (auto dest: in_set_butlastD)
  then have "card ((set (butlast pending @ ds) \<union> all_dependencies deps) - set (seen @ [last pending]))
      < card ((set pending \<union> all_dependencies deps) - set seen)" by (intro psubset_card_mono) auto
  then show ?case by simp
qed

declare ancestors_loop.simps [simp del]

definition ancestorsOf :: "dependencies \<Rightarrow> string \<Rightarrow> string list result" where
  "ancestorsOf deps i = rbind (read_dependencies deps i) (ancestors_loop deps [])"

fun rfilter :: "('a \<Rightarrow> bool result) \<Rightarrow> 'a list \<Rightarrow> 'a list result" where
  "rfilter p [] = Inr []"
| "rfilter p (x # xs) = rbind (p x) (\<lambda>b. rbind (rfilter p xs) (\<lambda>ys. Inr (if b then x # ys else ys)))"

definition edge_is_cyclic :: "ExecutionPlan \<Rightarrow> WorkflowJoinEdge \<Rightarrow> bool result" where
  "edge_is_cyclic plan e =
     (if edge_from e = edge_to e then Inr True
      else if js_has (plan_nodes plan) (edge_from e) \<and> js_has (plan_nodes plan) (edge_to e)
      then rbind (ancestorsOf (plan_dependencies plan) (edge_from e)) (\<lambda>as. Inr (edge_to e \<in> set as))
      else Inr False)"

definition cyclicJoinEdges :: "WorkflowVersion \<Rightarrow> WorkflowJoinEdge list result" where
  "cyclicJoinEdges wv = rbind (compile wv) (\<lambda>plan. rfilter (edge_is_cyclic plan) (joinEdgesOf wv))"

definition wouldCreateCycle :: "WorkflowVersion \<Rightarrow> WorkflowJoinEdge \<Rightarrow> bool result" where
  "wouldCreateCycle wv e =
     rbind (cyclicJoinEdges (wv\<lparr>graph := Some (joinEdgesOf wv @ [e])\<rparr>)) (\<lambda>es. Inr (es \<noteq> []))"

subsection \<open>The cursor of the engine\<close>

definition SYNTHETIC_ID :: string where "SYNTHETIC_ID = ''plan-cursor''"
definition SYNTHETIC_TRIGGER_NAME :: string where "SYNTHETIC_TRIGGER_NAME = ''plan-cursor-entry''"
definition EPOCH :: string where "EPOCH = ''1970-01-01T00:00:00.000Z''"

definition syntheticVersionFor :: "step \<Rightarrow> WorkflowJoinEdge list option \<Rightarrow> WorkflowVersion" where
  "syntheticVersionFor a g =
     \<lparr>versionId = SYNTHETIC_ID, created = EPOCH, updated = EPOCH, workflowId = SYNTHETIC_ID,
      versionDisplayName = SYNTHETIC_ID,
      trigger = EmptyTrigger \<lparr>sname = SYNTHETIC_TRIGGER_NAME, valid = True, displayName = SYNTHETIC_TRIGGER_NAME,
        skip = None, lastUpdatedDate = EPOCH\<rparr> (JObj []) (Some a),
      updatedBy = None, versionValid = True, schemaVersion = None, agentIds = [], state = DRAFT,
      connectionIds = [], backupFiles = None, versionNotes = [], graph = g, publishNote = None\<rparr>"

definition forSubtree :: "step \<Rightarrow> WorkflowJoinEdge list option \<Rightarrow> ExecutionPlan result" where
  "forSubtree a g = compile (syntheticVersionFor a g)"

definition forWorkflow :: "WorkflowVersion \<Rightarrow> ExecutionPlan result" where
  "forWorkflow wv = compile wv"

text \<open>
  A node read under an inherited name is a function: it has no \<open>kind\<close>, so \<open>stepAt\<close> finds no action.
\<close>

definition stepAt :: "ExecutionPlan \<Rightarrow> string \<Rightarrow> step option" where
  "stepAt plan i = (case map_of (plan_nodes plan) i of
      Some n \<Rightarrow> if node_kind n = ACTION then Some (node_step n) else None
    | None \<Rightarrow> None)"

text \<open>\<open>required.length\<close> of an inherited function is its arity; \<open>every\<close> is then missing.\<close>

definition prototype_arity :: "string \<Rightarrow> nat option" where
  "prototype_arity k = (if k = ''__proto__'' then None
     else if k \<in> {''__defineGetter__'', ''__defineSetter__''} then Some 2
     else if k \<in> {''toString'', ''valueOf'', ''toLocaleString''} then Some 0 else Some 1)"

definition dependenciesMet :: "ExecutionPlan \<Rightarrow> string \<Rightarrow> (string \<Rightarrow> bool result) \<Rightarrow> bool result" where
  "dependenciesMet plan i hasCompleted = (case map_of (plan_dependencies plan) i of
      None \<Rightarrow>
        if i \<notin> set object_prototype_keys then Inr True
        else (case prototype_arity i of Some n \<Rightarrow> if n \<le> 1 then Inr True else Inl (TypeError ''required.every is not a function'')
              | None \<Rightarrow> Inl (TypeError ''required.every is not a function''))
    | Some required \<Rightarrow>
        if length required \<le> 1 then Inr True
        else rfold (\<lambda>ok d. if \<not> ok then Inr False
               else case map_of (plan_nodes plan) d of
                   None \<Rightarrow> if d \<in> set object_prototype_keys then hasCompleted d else Inr True
                 | Some n \<Rightarrow> if node_kind n = TRIGGER then Inr True else hasCompleted d) True required)"

definition nextOf :: "ExecutionPlan \<Rightarrow> string \<Rightarrow> string option result" where
  "nextOf plan i = (case map_of (plan_nodes plan) i of
      Some n \<Rightarrow> Inr (case node_next n of [] \<Rightarrow> None | x # _ \<Rightarrow> Some x)
    | None \<Rightarrow> if i \<in> set object_prototype_keys then Inl (TypeError ''Cannot read properties of undefined (reading 0)'') else Inr None)"

end
