(* ===== verification/Plan_Correctness.thy ===== *)
theory Plan_Correctness
  imports Execution_Plan
begin

text \<open>
  The dependency relation of a plan, \<open>ancestorsOf\<close> as its transitive closure, the shape of a compiled
  plan, and the soundness of the cycle check: a version without cyclic join edges compiles to an acyclic
  plan.
\<close>

definition dep_rel :: "dependencies \<Rightarrow> (string \<times> string) set" where
  "dep_rel deps = {(d, n). d \<in> set (getD (map_of deps n) [])}"

lemma read_dependencies_rel: "read_dependencies deps i = Inr ds \<Longrightarrow> set ds = {d. (d, i) \<in> dep_rel deps}"
  by (auto simp: read_dependencies_def dep_rel_def split: option.splits if_splits)

lemma read_dependencies_plain: "i \<notin> set object_prototype_keys \<Longrightarrow> read_dependencies deps i = Inr (getD (map_of deps i) [])"
  by (simp add: read_dependencies_def split: option.split)

subsection \<open>Ancestors\<close>

lemma ancestors_loop_spec:
  assumes "ancestors_loop deps seen pending = Inr r"
    and "\<And>x y. x \<in> set seen \<Longrightarrow> (y, x) \<in> dep_rel deps \<Longrightarrow> y \<in> set seen \<union> set pending"
  shows "set seen \<union> set pending \<subseteq> set r \<and> (\<forall>x y. x \<in> set r \<longrightarrow> (y, x) \<in> dep_rel deps \<longrightarrow> y \<in> set r)
     \<and> set r \<subseteq> set seen \<union> {y. \<exists>p \<in> set pending. (y, p) \<in> (dep_rel deps)\<^sup>*}"
  using assms
proof (induction deps seen pending rule: ancestors_loop.induct)
  case (1 deps seen pending)
  show ?case
  proof (cases "pending = []")
    case True
    with "1.prems" show ?thesis by (auto simp: ancestors_loop.simps [of deps seen])
  next
    case False
    then have split: "set pending = insert (last pending) (set (butlast pending))"
      by (metis append_butlast_last_id insert_is_Un list.simps(15) set_append sup_commute empty_set)
    show ?thesis
    proof (cases "last pending \<in> set seen")
      case True
      then have r: "ancestors_loop deps seen (butlast pending) = Inr r"
        using "1.prems"(1) False by (simp add: ancestors_loop.simps [of deps seen pending])
      have inv: "y \<in> set seen \<union> set (butlast pending)" if "x \<in> set seen" "(y, x) \<in> dep_rel deps" for x y
        using "1.prems"(2) [OF that] True split by auto
      have "set seen \<union> set (butlast pending) \<subseteq> set r \<and> (\<forall>x y. x \<in> set r \<longrightarrow> (y, x) \<in> dep_rel deps \<longrightarrow> y \<in> set r)
         \<and> set r \<subseteq> set seen \<union> {y. \<exists>p \<in> set (butlast pending). (y, p) \<in> (dep_rel deps)\<^sup>*}"
        by (rule "1.IH"(1) [OF False True r]) (rule inv)
      with True split show ?thesis by auto
    next
      case new: False
      obtain ds where ds: "read_dependencies deps (last pending) = Inr ds"
        and r: "ancestors_loop deps (seen @ [last pending]) (butlast pending @ ds) = Inr r"
        using "1.prems"(1) False new by (auto simp: ancestors_loop.simps [of deps seen pending] rbind_eq_Inr)
      note rel = read_dependencies_rel [OF ds]
      have inv: "y \<in> set (seen @ [last pending]) \<union> set (butlast pending @ ds)"
        if "x \<in> set (seen @ [last pending])" "(y, x) \<in> dep_rel deps" for x y
        using that "1.prems"(2) [of x y] split rel by auto
      have IH: "set (seen @ [last pending]) \<union> set (butlast pending @ ds) \<subseteq> set r
         \<and> (\<forall>x y. x \<in> set r \<longrightarrow> (y, x) \<in> dep_rel deps \<longrightarrow> y \<in> set r)
         \<and> set r \<subseteq> set (seen @ [last pending]) \<union> {y. \<exists>p \<in> set (butlast pending @ ds). (y, p) \<in> (dep_rel deps)\<^sup>*}"
        by (rule "1.IH"(2) [OF False new ds r]) (rule inv)
      have through: "(y, last pending) \<in> (dep_rel deps)\<^sup>*" if "p \<in> set ds" "(y, p) \<in> (dep_rel deps)\<^sup>*" for y p
        using that rel by (auto intro: rtrancl_into_rtrancl)
      have "y \<in> set seen \<union> {y. \<exists>p \<in> set pending. (y, p) \<in> (dep_rel deps)\<^sup>*}" if "y \<in> set r" for y
      proof -
        from that IH consider "y \<in> set seen" | "y = last pending" | p where "p \<in> set (butlast pending)" "(y, p) \<in> (dep_rel deps)\<^sup>*"
          | p where "p \<in> set ds" "(y, p) \<in> (dep_rel deps)\<^sup>*" by auto
        then show ?thesis using split through by cases auto
      qed
      with IH split show ?thesis by auto
    qed
  qed
qed

lemma closed_rtrancl:
  assumes "(y, x) \<in> R\<^sup>*" and "x \<in> A" and "\<forall>x y. x \<in> A \<longrightarrow> (y, x) \<in> R \<longrightarrow> y \<in> A"
  shows "y \<in> A"
  using assms by (induction rule: converse_rtrancl_induct) auto

lemma ancestors_of_trancl:
  assumes "ancestorsOf deps i = Inr r"
  shows "set r = {y. (y, i) \<in> (dep_rel deps)\<^sup>+}"
proof -
  obtain ds where ds: "read_dependencies deps i = Inr ds" "ancestors_loop deps [] ds = Inr r"
    using assms by (auto simp: ancestorsOf_def rbind_eq_Inr)
  note rel = read_dependencies_rel [OF ds(1)]
  have spec: "set ds \<subseteq> set r" "\<forall>x y. x \<in> set r \<longrightarrow> (y, x) \<in> dep_rel deps \<longrightarrow> y \<in> set r"
    "set r \<subseteq> {y. \<exists>p \<in> set ds. (y, p) \<in> (dep_rel deps)\<^sup>*}"
    using ancestors_loop_spec [OF ds(2)] by auto
  have "y \<in> set r" if "(y, i) \<in> (dep_rel deps)\<^sup>+" for y
  proof -
    from that obtain p where "(y, p) \<in> (dep_rel deps)\<^sup>*" "(p, i) \<in> dep_rel deps" by (meson tranclD2)
    with rel spec(1) closed_rtrancl [OF _ _ spec(2)] show ?thesis by blast
  qed
  moreover have "(y, i) \<in> (dep_rel deps)\<^sup>+" if "y \<in> set r" for y
    using that spec(3) rel by (auto intro: rtrancl_into_trancl1)
  ultimately show ?thesis by blast
qed

text \<open>The loop only fails on a name that is inherited and not a key.\<close>

definition plain_dependencies :: "dependencies \<Rightarrow> bool" where
  "plain_dependencies deps \<longleftrightarrow> (\<forall>(d, n) \<in> dep_rel deps. d \<notin> set object_prototype_keys)"

lemma ancestors_loop_total:
  assumes "plain_dependencies deps" and "\<forall>n \<in> set pending. n \<notin> set object_prototype_keys"
  shows "\<exists>r. ancestors_loop deps seen pending = Inr r"
  using assms
proof (induction deps seen pending rule: ancestors_loop.induct)
  case (1 deps seen pending)
  show ?case
  proof (cases "pending = [] \<or> last pending \<in> set seen")
    case True
    with 1 show ?thesis by (auto simp: ancestors_loop.simps [of deps seen pending] dest: in_set_butlastD)
  next
    case False
    then have last: "last pending \<notin> set object_prototype_keys" using "1.prems"(2) by simp
    then obtain ds where ds: "read_dependencies deps (last pending) = Inr ds"
      using read_dependencies_plain by blast
    have "\<forall>n \<in> set (butlast pending @ ds). n \<notin> set object_prototype_keys"
      using read_dependencies_rel [OF ds] "1.prems" unfolding plain_dependencies_def by (auto dest: in_set_butlastD)
    from "1.IH"(2) [OF _ _ ds "1.prems"(1) this] False ds show ?thesis
      by (auto simp: ancestors_loop.simps [of deps seen pending])
  qed
qed


subsection \<open>The nodes of a plan\<close>

function plan_steps :: "step option \<Rightarrow> step list" where
  "plan_steps None = []"
| "plan_steps (Some a) = a # plan_steps (nextAction a) @ concat (map (\<lambda>(slot, c). plan_steps c) (childrenOf a))"
  by pat_completeness auto
termination
proof (relation "measure (size_option size)", goal_cases)
  case 1
  show ?case by simp
next
  case (2 a)
  show ?case using size_pos [of a] by (cases "nextAction a") (auto dest: nextAction_size)
next
  case (3 a p slot c)
  then show ?case using size_pos [of a] by (cases c) (auto dest: childrenOf_size)
qed

abbreviation plan_names :: "step option \<Rightarrow> string list" where
  "plan_names x \<equiv> map step_name (plan_steps x)"

definition node_entry :: "step \<Rightarrow> string \<times> ExecutionNode" where
  "node_entry a = (step_name a, action_node a)"

lemma fst_node_entry [simp]: "fst (node_entry a) = step_name a"
  by (simp add: node_entry_def)

definition fresh_for :: "string list \<Rightarrow> ExecutionNode js_record \<Rightarrow> bool" where
  "fresh_for names nodes \<longleftrightarrow> distinct names \<and> (\<forall>n \<in> set names. \<not> js_has nodes n)"

lemma fresh_for_append:
  "fresh_for (xs @ ys) nodes \<longleftrightarrow> fresh_for xs nodes \<and> fresh_for ys nodes \<and> set xs \<inter> set ys = {}"
  by (auto simp: fresh_for_def)

lemma fresh_for_extend:
  "fresh_for ys (nodes @ map node_entry as) \<longleftrightarrow> fresh_for ys nodes \<and> set (map step_name as) \<inter> set ys = {}"
  by (auto simp: fresh_for_def js_has_def image_iff)

lemma visit_children:
  assumes "fresh_for (concat (map (\<lambda>(slot, c). plan_names c) cs)) nodes"
    and "\<And>slot c ns. (slot, c) \<in> set cs \<Longrightarrow> fresh_for (plan_names c) ns \<Longrightarrow> visitAction c ns = ns @ map node_entry (plan_steps c)"
  shows "foldl (\<lambda>ns (slot, c). visitAction c ns) nodes cs
       = nodes @ map node_entry (concat (map (\<lambda>(slot, c). plan_steps c) cs))"
  using assms
proof (induction cs arbitrary: nodes)
  case Nil
  then show ?case by simp
next
  case (Cons p cs)
  obtain slot c where p: "p = (slot, c)" by (cases p)
  have fr: "fresh_for (plan_names c) nodes" "fresh_for (concat (map (\<lambda>(slot, c). plan_names c) cs)) nodes"
    "set (plan_names c) \<inter> set (concat (map (\<lambda>(slot, c). plan_names c) cs)) = {}"
    using Cons.prems(1) by (simp_all only: p list.map concat.simps fresh_for_append split)
  have v: "visitAction c nodes = nodes @ map node_entry (plan_steps c)" by (rule Cons.prems(2) [OF _ fr(1), of slot]) (simp add: p)
  have "fresh_for (concat (map (\<lambda>(slot, c). plan_names c) cs)) (visitAction c nodes)"
    unfolding v fresh_for_extend by (intro conjI fr(2,3))
  then have "foldl (\<lambda>ns (slot, c). visitAction c ns) (visitAction c nodes) cs
      = visitAction c nodes @ map node_entry (concat (map (\<lambda>(slot, c). plan_steps c) cs))"
    by (rule Cons.IH) (use Cons.prems(2) in auto)
  then show ?case by (simp add: p v)
qed

lemma visitAction_steps:
  "fresh_for (plan_names x) nodes \<Longrightarrow> visitAction x nodes = nodes @ map node_entry (plan_steps x)"
proof (induction x arbitrary: nodes rule: plan_steps.induct)
  case 1
  then show ?case by simp
next
  case (2 a)
  let ?cs = "concat (map (\<lambda>(slot, c). plan_names c) (childrenOf a))"
  have cs: "map step_name (concat (map (\<lambda>(slot, c). plan_steps c) (childrenOf a))) = ?cs"
    by (simp add: map_concat o_def case_prod_unfold)
  have fr: "step_name a \<notin> set (map fst nodes)" "\<not> js_has nodes (step_name a)"
    "fresh_for (plan_names (nextAction a)) nodes" "fresh_for ?cs nodes" "step_name a \<notin> set (plan_names (nextAction a))"
    "step_name a \<notin> set ?cs" "set (plan_names (nextAction a)) \<inter> set ?cs = {}"
    using "2.prems" cs by (auto simp: fresh_for_def js_has_def)
  let ?n1 = "nodes @ map node_entry [a]"
  have upd: "AList.update (step_name a) (action_node a) nodes = ?n1"
    using fst_update_new [OF fr(1)] by (simp add: node_entry_def)
  have f1: "fresh_for (plan_names (nextAction a)) ?n1" "fresh_for ?cs ?n1"
    unfolding fresh_for_extend using fr by auto
  have n2: "visitAction (nextAction a) ?n1 = ?n1 @ map node_entry (plan_steps (nextAction a))"
    by (rule "2.IH"(1) [OF f1(1)])
  have "fresh_for ?cs (visitAction (nextAction a) ?n1)" unfolding n2 by (subst fresh_for_extend) (intro conjI f1(2) fr(7))
  then have "foldl (\<lambda>ns (slot, c). visitAction c ns) (visitAction (nextAction a) ?n1) (childrenOf a)
      = visitAction (nextAction a) ?n1 @ map node_entry (concat (map (\<lambda>(slot, c). plan_steps c) (childrenOf a)))"
    by (rule visit_children) (use "2.IH"(2) in blast)
  then show ?case using fr(2) n2 by (simp add: visitAction.simps upd)
qed

subsection \<open>The dependencies of a plan\<close>

lemma dep_rel_update: "dep_rel (AList.update k ds deps) = {(d, n). if n = k then d \<in> set ds else (d, n) \<in> dep_rel deps}"
  by (auto simp: dep_rel_def update_conv')

lemma dep_rel_key: "(d, n) \<in> dep_rel deps \<Longrightarrow> n \<in> set (map fst deps)"
proof -
  assume "(d, n) \<in> dep_rel deps"
  then have "map_of deps n \<noteq> None" by (cases "map_of deps n") (auto simp: dep_rel_def)
  then show ?thesis by (simp add: map_of_eq_None_iff)
qed

lemma add_dependency_rel:
  assumes "add_dependency src deps target = Inr deps'"
  shows "set (map fst deps') = set (map fst deps)"
    and "dep_rel deps' = dep_rel deps \<union> (if target \<in> set (map fst deps) then {(src, target)} else {})"
proof -
  have "set (map fst deps') = set (map fst deps) \<and>
    dep_rel deps' = dep_rel deps \<union> (if target \<in> set (map fst deps) then {(src, target)} else {})"
  proof (cases "map_of deps target")
    case None
    then have no: "target \<notin> set (map fst deps)" by (rule map_of_eq_None_keys [THEN iffD1])
    with assms None have "deps' = deps"
      by (auto simp: add_dependency_def js_has_def read_dependencies_def split: if_splits)
    with no show ?thesis by simp
  next
    case (Some ds)
    then have key: "target \<in> set (map fst deps)" using map_of_eq_None_keys [of deps target] by auto
    with assms Some have deps': "deps' = AList.update target (ds @ [src]) deps"
      by (simp add: add_dependency_def js_has_def read_dependencies_def)
    have "dep_rel deps' = dep_rel deps \<union> {(src, target)}"
      unfolding deps' dep_rel_update using Some by (auto simp: dep_rel_def)
    moreover have "set (map fst deps') = set (map fst deps)" unfolding deps' keys_update using key by blast
    ultimately show ?thesis using key by simp
  qed
  then show "set (map fst deps') = set (map fst deps)"
    and "dep_rel deps' = dep_rel deps \<union> (if target \<in> set (map fst deps) then {(src, target)} else {})" by blast+
qed

lemma add_dependencies_rel:
  assumes "rfold (add_dependency src) deps targets = Inr deps'"
  shows "set (map fst deps') = set (map fst deps) \<and>
    dep_rel deps' = dep_rel deps \<union> {(src, n) |n. n \<in> set targets \<and> n \<in> set (map fst deps)}"
  using assms
proof (induction targets arbitrary: deps)
  case Nil
  then show ?case by simp
next
  case (Cons x xs)
  then obtain t where t: "add_dependency src deps x = Inr t" "rfold (add_dependency src) t xs = Inr deps'"
    by (auto simp: rbind_eq_Inr)
  show ?case using Cons.IH [OF t(2)] add_dependency_rel [OF t(1)] by auto
qed

text \<open>The edges of the tree: from a step to its next action and its children.\<close>

definition tree_rel :: "ExecutionNode js_record \<Rightarrow> (string \<times> string) set" where
  "tree_rel nodes = {(node_id nd, n) |k nd n. (k, nd) \<in> set nodes \<and> n \<in> set (outgoing nd)}"

lemma tree_rel_Cons: "tree_rel ((k, nd) # nodes) = {(node_id nd, n) |n. n \<in> set (outgoing nd)} \<union> tree_rel nodes"
  by (auto simp: tree_rel_def)

lemma build_nodes_rel:
  assumes "rfold (\<lambda>deps (_, n). rfold (add_dependency (node_id n)) deps (outgoing n)) deps nodes = Inr deps'"
  shows "set (map fst deps') = set (map fst deps) \<and>
    dep_rel deps' = dep_rel deps \<union> {(d, n). (d, n) \<in> tree_rel nodes \<and> n \<in> set (map fst deps)}"
  using assms
proof (induction nodes arbitrary: deps)
  case Nil
  then show ?case by (simp add: tree_rel_def)
next
  case (Cons p nodes)
  obtain k nd where p: "p = (k, nd)" by (cases p)
  with Cons.prems obtain t where t: "rfold (add_dependency (node_id nd)) deps (outgoing nd) = Inr t"
    "rfold (\<lambda>deps (_, n). rfold (add_dependency (node_id n)) deps (outgoing n)) t nodes = Inr deps'"
    by (auto simp: rbind_eq_Inr)
  note split = tree_rel_Cons [of k nd nodes, folded p]
  have one: "set (map fst t) = set (map fst deps)"
    "dep_rel t = dep_rel deps \<union> {(node_id nd, n) |n. n \<in> set (outgoing nd) \<and> n \<in> set (map fst deps)}"
    using add_dependencies_rel [OF t(1)] by blast+
  have "set (map fst deps') = set (map fst deps)"
    "dep_rel deps' = dep_rel t \<union> {(d, n). (d, n) \<in> tree_rel nodes \<and> n \<in> set (map fst deps)}"
    using Cons.IH [OF t(2)] unfolding one(1) by blast+
  with one(2) split show ?case by auto
qed

lemma build_rel:
  assumes "buildDependencies nodes = Inr deps"
  shows "set (map fst deps) = set (map fst nodes)"
    and "dep_rel deps = {(d, n). (d, n) \<in> tree_rel nodes \<and> n \<in> set (map fst nodes)}"
proof -
  let ?d0 = "map (\<lambda>(k, _). (k, [] :: string list)) nodes"
  have keys: "map fst ?d0 = map fst nodes" by (simp add: o_def case_prod_unfold)
  have "map_of ?d0 n = None \<or> map_of ?d0 n = Some []" for n by (induction nodes) auto
  then have "getD (map_of ?d0 n) [] = []" for n by (metis getD_simps)
  then have empty: "dep_rel ?d0 = {}" unfolding dep_rel_def by simp
  note r = build_nodes_rel [OF assms [unfolded buildDependencies_def]]
  show "set (map fst deps) = set (map fst nodes)" using r unfolding keys by blast
  show "dep_rel deps = {(d, n). (d, n) \<in> tree_rel nodes \<and> n \<in> set (map fst nodes)}"
    using r unfolding keys empty by blast
qed

lemma join_rel:
  "withJoinEdges deps es = Inr deps' \<Longrightarrow> dep_rel deps' = dep_rel deps \<union> {(edge_from e, edge_to e) |e. e \<in> set es}"
proof (induction es arbitrary: deps)
  case Nil
  then show ?case by (simp add: withJoinEdges_def)
next
  case (Cons e es)
  then obtain t where t: "add_join_edge deps e = Inr t" "withJoinEdges t es = Inr deps'"
    by (auto simp: withJoinEdges_def rbind_eq_Inr)
  then obtain ds where ds: "read_dependencies deps (edge_to e) = Inr ds"
    "t = AList.update (edge_to e) (if edge_from e \<in> set ds then ds else ds @ [edge_from e]) deps"
    by (auto simp: add_join_edge_def rbind_eq_Inr)
  have "dep_rel t = dep_rel deps \<union> {(edge_from e, edge_to e)}"
    unfolding ds(2) dep_rel_update using read_dependencies_rel [OF ds(1)] by auto
  with Cons.IH [OF t(2)] show ?case by auto
qed

subsection \<open>Well-named versions compile\<close>

definition well_named :: "step \<Rightarrow> bool" where
  "well_named t \<longleftrightarrow> distinct (step_name t # plan_names (nextAction t))
     \<and> (\<forall>n \<in> set (step_name t # plan_names (nextAction t)). n \<notin> set object_prototype_keys)"

lemma visitTrigger_nodes:
  assumes "well_named t"
  shows "visitTrigger t = (step_name t, trigger_node t) # map node_entry (plan_steps (nextAction t))"
proof -
  have "n \<noteq> step_name t \<and> n \<notin> set object_prototype_keys" if "n \<in> set (plan_names (nextAction t))" for n
    using assms that unfolding well_named_def by (metis distinct.simps(2) list.set_intros(2))
  then have "\<forall>n \<in> set (plan_names (nextAction t)). \<not> js_has [(step_name t, trigger_node t)] n"
    unfolding js_has_def by simp
  then have "fresh_for (plan_names (nextAction t)) [(step_name t, trigger_node t)]"
    using assms unfolding well_named_def fresh_for_def by simp
  from visitAction_steps [OF this] show ?thesis by (simp add: visitTrigger_def)
qed

lemma opt_singleton [simp]: "c \<in> set (opt_list (\<lambda>n. [n]) x) \<longleftrightarrow> x = Some c"
  by (cases x) auto

lemma nextIds_mem: "n \<in> set (nextIds x) \<longleftrightarrow> (\<exists>c. x = Some c \<and> n = step_name c)"
  by (cases x) (auto simp: nextIds_def)

definition child_steps :: "step \<Rightarrow> step list" where
  "child_steps a = opt_list (\<lambda>n. [n]) (nextAction a) @ concat (map (\<lambda>(slot, c). opt_list (\<lambda>n. [n]) c) (childrenOf a))"

lemma outgoing_action: "outgoing (action_node a) = map step_name (child_steps a)"
proof -
  have "nextIds x = map step_name (opt_list (\<lambda>n. [n]) x)" for x by (cases x) (simp_all add: nextIds_def)
  then show ?thesis by (simp add: outgoing_def action_node_def child_steps_def map_concat o_def case_prod_unfold)
qed

lemma node_ids [simp]: "node_id (action_node a) = step_name a" "node_id (trigger_node t) = step_name t"
  by (simp_all add: action_node_def trigger_node_def)

lemma outgoing_trigger: "outgoing (trigger_node t) = nextIds (nextAction t)"
  by (simp add: outgoing_def trigger_node_def)

lemma child_steps_mem: "c \<in> set (child_steps a) \<longleftrightarrow> nextAction a = Some c \<or> (\<exists>slot. (slot, Some c) \<in> set (childrenOf a))"
  by (force simp: child_steps_def)

lemma child_steps_size: "c \<in> set (child_steps a) \<Longrightarrow> size c < size a"
  unfolding child_steps_mem using nextAction_size childrenOf_size by blast

lemma plan_steps_child:
  "a \<in> set (plan_steps x) \<Longrightarrow> c \<in> set (child_steps a) \<Longrightarrow> c \<in> set (plan_steps x)"
proof (induction x rule: plan_steps.induct)
  case 1
  then show ?case by simp
next
  case (2 b)
  have head: "y = Some c \<Longrightarrow> c \<in> set (plan_steps y)" for y by simp
  consider "a = b" | "a \<in> set (plan_steps (nextAction b))" | slot d where "(slot, d) \<in> set (childrenOf b)" "a \<in> set (plan_steps d)"
    using "2.prems"(1) by auto
  then show ?case
  proof cases
    case 1
    then consider "nextAction b = Some c" | slot where "(slot, Some c) \<in> set (childrenOf b)"
      using "2.prems"(2) unfolding child_steps_mem by blast
    then show ?thesis using head by cases force+
  next
    case 2
    then show ?thesis using "2.IH"(1) "2.prems"(2) by simp
  next
    case 3
    then show ?thesis using "2.IH"(2) "2.prems"(2) by force
  qed
qed

lemma tree_rel_well_named:
  assumes "well_named t"
  shows "tree_rel (visitTrigger t) = {(step_name t, n) |n. n \<in> set (nextIds (nextAction t))}
     \<union> {(step_name a, step_name c) |a c. a \<in> set (plan_steps (nextAction t)) \<and> c \<in> set (child_steps a)}"
proof -
  have "tree_rel (map node_entry as) = {(step_name a, step_name c) |a c. a \<in> set as \<and> c \<in> set (child_steps a)}" for as
  proof (induction as)
    case Nil
    then show ?case by (simp add: tree_rel_def)
  next
    case (Cons a as)
    have "tree_rel (map node_entry (a # as)) = {(step_name a, step_name c) |c. c \<in> set (child_steps a)} \<union> tree_rel (map node_entry as)"
      by (auto simp: node_entry_def outgoing_action tree_rel_Cons)
    with Cons show ?case by auto
  qed
  then show ?thesis unfolding visitTrigger_nodes [OF assms] tree_rel_Cons outgoing_trigger by simp
qed

text \<open>A child is smaller than its parent, so the edges of the tree have no cycle.\<close>

definition step_rank :: "step \<Rightarrow> string \<Rightarrow> nat" where
  "step_rank t n = (case List.find (\<lambda>s. step_name s = n) (t # plan_steps (nextAction t)) of Some s \<Rightarrow> size s | None \<Rightarrow> 0)"

lemma step_rank_step:
  assumes "well_named t" and "s \<in> set (t # plan_steps (nextAction t))"
  shows "step_rank t (step_name s) = size s"
  using find_unique [of step_name "t # plan_steps (nextAction t)" s] assms by (simp add: step_rank_def well_named_def)

lemma tree_rel_rank:
  assumes wn: "well_named t" and "(d, n) \<in> tree_rel (visitTrigger t)"
  shows "step_rank t n < step_rank t d"
proof -
  consider c where "d = step_name t" "nextAction t = Some c" "n = step_name c"
    | a c where "d = step_name a" "n = step_name c" "a \<in> set (plan_steps (nextAction t))" "c \<in> set (child_steps a)"
    using assms(2) unfolding tree_rel_well_named [OF wn] nextIds_mem by blast
  then show ?thesis
  proof cases
    case 1
    then show ?thesis using step_rank_step [OF wn, of t] step_rank_step [OF wn, of c] nextAction_size by simp
  next
    case 2
    then show ?thesis
      using step_rank_step [OF wn, of a] step_rank_step [OF wn, of c] plan_steps_child [OF 2(3,4)] child_steps_size by simp
  qed
qed

lemma tree_rel_acyclic: "well_named t \<Longrightarrow> acyclic (tree_rel (visitTrigger t))"
proof (rule acyclic_subset)
  assume "well_named t"
  then show "tree_rel (visitTrigger t) \<subseteq> (measure (step_rank t))\<inverse>" using tree_rel_rank by auto
  show "acyclic ((measure (step_rank t))\<inverse>)" by (simp add: acyclic_converse wf_acyclic)
qed

subsection \<open>The cycle check\<close>

lemma build_total:
  assumes "\<forall>(k, nd) \<in> set nodes. \<forall>n \<in> set (outgoing nd). n \<notin> set object_prototype_keys"
  shows "\<exists>deps. buildDependencies nodes = Inr deps"
proof -
  have one: "\<exists>t. add_dependency src deps n = Inr t" if "n \<notin> set object_prototype_keys" for src deps n
    using that by (simp add: add_dependency_def read_dependencies_plain)
  have many: "\<exists>t. rfold (add_dependency src) deps ns = Inr t" if "\<forall>n \<in> set ns. n \<notin> set object_prototype_keys" for src deps ns
    using that
  proof (induction ns arbitrary: deps)
    case (Cons n ns)
    then obtain t where "add_dependency src deps n = Inr t" using one [of n src deps] by auto
    with Cons show ?case by simp
  qed simp
  have "\<exists>t. rfold (\<lambda>deps (_, n). rfold (add_dependency (node_id n)) deps (outgoing n)) deps nodes = Inr t" for deps
    using assms
  proof (induction nodes arbitrary: deps)
    case (Cons p nodes)
    obtain k nd where p: "p = (k, nd)" by (cases p)
    with Cons.prems obtain t where "rfold (add_dependency (node_id nd)) deps (outgoing nd) = Inr t" using many by fastforce
    with Cons p show ?case by simp
  qed simp
  then show ?thesis by (simp add: buildDependencies_def)
qed

lemma join_total: "\<forall>e \<in> set es. edge_to e \<notin> set object_prototype_keys \<Longrightarrow> \<exists>deps'. withJoinEdges deps es = Inr deps'"
proof (induction es arbitrary: deps)
  case Nil
  then show ?case by (simp add: withJoinEdges_def)
next
  case (Cons e es)
  then show ?case by (simp add: withJoinEdges_def add_join_edge_def read_dependencies_plain)
qed

text \<open>The endpoints of the join edges are steps of the plan other than the trigger.\<close>

definition edges_inside :: "WorkflowVersion \<Rightarrow> bool" where
  "edges_inside wv \<longleftrightarrow> (\<forall>e \<in> set (joinEdgesOf wv). edge_from e \<in> set (plan_names (nextAction (trigger wv)))
     \<and> edge_to e \<in> set (plan_names (nextAction (trigger wv))))"

lemma compile_rel:
  assumes wn: "well_named (trigger wv)" and inside: "edges_inside wv"
  shows "\<exists>plan. compile wv = Inr plan \<and> plan_nodes plan = visitTrigger (trigger wv)
     \<and> dep_rel (plan_dependencies plan) = tree_rel (visitTrigger (trigger wv)) \<union> {(edge_from e, edge_to e) |e. e \<in> set (joinEdgesOf wv)}
     \<and> plain_dependencies (plan_dependencies plan)"
proof -
  let ?t = "trigger wv" and ?names = "plan_names (nextAction (trigger wv))"
  let ?nodes = "visitTrigger ?t"
  have keys: "map fst ?nodes = step_name ?t # ?names" by (simp add: visitTrigger_nodes [OF wn])
  have plain: "n \<notin> set object_prototype_keys" if "n \<in> set (step_name ?t # ?names)" for n
    using wn that unfolding well_named_def by blast
  have target: "n \<in> set ?names" and source: "d \<in> set (step_name ?t # ?names)" if edge: "(d, n) \<in> tree_rel ?nodes" for d n
  proof -
    consider c where "d = step_name ?t" "n = step_name c" "nextAction ?t = Some c"
      | a c where "d = step_name a" "n = step_name c" "a \<in> set (plan_steps (nextAction ?t))" "c \<in> set (child_steps a)"
      using edge unfolding tree_rel_well_named [OF wn] nextIds_mem by blast
    then have "n \<in> set ?names \<and> d \<in> set (step_name ?t # ?names)"
      by cases (simp, simp add: plan_steps_child)
    then show "n \<in> set ?names" and "d \<in> set (step_name ?t # ?names)" by blast+
  qed
  have "\<forall>n \<in> set (outgoing nd). n \<notin> set object_prototype_keys" if "(k, nd) \<in> set ?nodes" for k nd
    using that target plain unfolding tree_rel_def by (metis (mono_tags, lifting) list.set_intros(2) mem_Collect_eq)
  then obtain deps where deps: "buildDependencies ?nodes = Inr deps" using build_total [of ?nodes] by blast
  have rel: "dep_rel deps = tree_rel ?nodes"
    unfolding build_rel(2) [OF deps] keys using target by auto
  have ends: "edge_from e \<in> set ?names" "edge_to e \<in> set ?names" if "e \<in> set (joinEdgesOf wv)" for e
    using inside that unfolding edges_inside_def by blast+
  have "js_has ?nodes (edge_from e) \<and> js_has ?nodes (edge_to e)" if "e \<in> set (joinEdgesOf wv)" for e
    unfolding js_has_def keys using ends [OF that] by simp
  then have filt: "filter (\<lambda>e. js_has ?nodes (edge_from e) \<and> js_has ?nodes (edge_to e)) (joinEdgesOf wv) = joinEdgesOf wv" by simp
  obtain deps' where deps': "withJoinEdges deps (joinEdgesOf wv) = Inr deps'"
    using join_total [of "joinEdgesOf wv" deps] ends plain by (meson list.set_intros(2))
  note rel' = join_rel [OF deps', unfolded rel]
  have "plain_dependencies deps'"
    unfolding plain_dependencies_def rel' using source plain ends by fastforce
  with deps deps' rel' filt show ?thesis by (simp add: compile_def)
qed

lemma acyclic_union:
  assumes "acyclic T" and "\<And>f t. (f, t) \<in> J \<Longrightarrow> (t, f) \<notin> (T \<union> J)\<^sup>*"
  shows "acyclic (T \<union> J)"
proof (rule acyclicI, intro allI notI)
  fix x assume "(x, x) \<in> (T \<union> J)\<^sup>+"
  moreover have "(x, y) \<in> T\<^sup>+ \<or> (\<exists>(f, t) \<in> J. (x, f) \<in> (T \<union> J)\<^sup>* \<and> (t, y) \<in> (T \<union> J)\<^sup>*)" if "(x, y) \<in> (T \<union> J)\<^sup>+" for x y
    using that
  proof (induction rule: trancl_induct)
    case (base y)
    then show ?case by fastforce
  next
    case (step y z)
    have xy: "(x, y) \<in> (T \<union> J)\<^sup>*" using step(1) by (rule trancl_into_rtrancl)
    show ?case
    proof (cases "(y, z) \<in> J")
      case True
      with xy show ?thesis by blast
    next
      case False
      with step show ?thesis by (auto intro: trancl_into_trancl rtrancl_into_rtrancl)
    qed
  qed
  ultimately consider "(x, x) \<in> T\<^sup>+" | f t where "(f, t) \<in> J" "(x, f) \<in> (T \<union> J)\<^sup>*" "(t, x) \<in> (T \<union> J)\<^sup>*" by blast
  then show False
  proof cases
    case 1
    with assms(1) show ?thesis by (auto simp: acyclic_def)
  next
    case 2
    with assms(2) show ?thesis by (meson rtrancl_trans)
  qed
qed

lemma rfilter_total:
  assumes "\<And>x. x \<in> set xs \<Longrightarrow> p x = Inr (q x)"
  shows "rfilter p xs = Inr (filter q xs)"
  using assms by (induction xs) auto

lemma cyclic_edges_spec:
  assumes wn: "well_named (trigger wv)" and inside: "edges_inside wv" and plan: "compile wv = Inr plan"
  shows "cyclicJoinEdges wv = Inr (filter (\<lambda>e. (edge_to e, edge_from e) \<in> (dep_rel (plan_dependencies plan))\<^sup>*) (joinEdgesOf wv))"
proof -
  let ?R = "dep_rel (plan_dependencies plan)" and ?names = "plan_names (nextAction (trigger wv))"
  have nodes: "plan_nodes plan = visitTrigger (trigger wv)" and pd: "plain_dependencies (plan_dependencies plan)"
    using compile_rel [OF wn inside] plan by auto
  have "edge_is_cyclic plan e = Inr ((edge_to e, edge_from e) \<in> ?R\<^sup>*)" if e: "e \<in> set (joinEdgesOf wv)" for e
  proof (cases "edge_from e = edge_to e")
    case True
    then show ?thesis by (simp add: edge_is_cyclic_def)
  next
    case False
    have ends: "edge_from e \<in> set ?names" "edge_to e \<in> set ?names"
      using inside e unfolding edges_inside_def by blast+
    then have has: "js_has (plan_nodes plan) (edge_from e)" "js_has (plan_nodes plan) (edge_to e)"
      unfolding nodes visitTrigger_nodes [OF wn] js_has_def by simp_all
    have "edge_from e \<notin> set object_prototype_keys" using wn ends(1) unfolding well_named_def by (meson list.set_intros(2))
    then obtain ds where ds: "read_dependencies (plan_dependencies plan) (edge_from e) = Inr ds" using read_dependencies_plain by blast
    have "\<forall>n \<in> set ds. n \<notin> set object_prototype_keys"
      using read_dependencies_rel [OF ds] pd by (auto simp: plain_dependencies_def)
    from ancestors_loop_total [OF pd this] ds obtain r where r: "ancestorsOf (plan_dependencies plan) (edge_from e) = Inr r"
      by (auto simp: ancestorsOf_def)
    have "edge_to e \<in> set r \<longleftrightarrow> (edge_to e, edge_from e) \<in> ?R\<^sup>*"
      using ancestors_of_trancl [OF r] False by (auto simp: rtrancl_eq_or_trancl)
    with r has False show ?thesis by (simp add: edge_is_cyclic_def)
  qed
  then show ?thesis using plan by (simp add: cyclicJoinEdges_def rfilter_total)
qed

lemma cyclic_edges_acyclic:
  assumes wn: "well_named (trigger wv)" and inside: "edges_inside wv"
  shows "\<exists>plan es. compile wv = Inr plan \<and> cyclicJoinEdges wv = Inr es \<and> (es = [] \<longleftrightarrow> acyclic (dep_rel (plan_dependencies plan)))"
proof -
  obtain plan where plan: "compile wv = Inr plan"
    "dep_rel (plan_dependencies plan) = tree_rel (visitTrigger (trigger wv)) \<union> {(edge_from e, edge_to e) |e. e \<in> set (joinEdgesOf wv)}"
    using compile_rel [OF wn inside] by blast
  let ?R = "dep_rel (plan_dependencies plan)" and ?J = "{(edge_from e, edge_to e) |e. e \<in> set (joinEdgesOf wv)}"
  let ?es = "filter (\<lambda>e. (edge_to e, edge_from e) \<in> ?R\<^sup>*) (joinEdgesOf wv)"
  have "acyclic ?R" if "?es = []"
  proof -
    have "(t, f) \<notin> (tree_rel (visitTrigger (trigger wv)) \<union> ?J)\<^sup>*" if "(f, t) \<in> ?J" for f t
      using that \<open>?es = []\<close> unfolding plan(2) [symmetric] filter_empty_conv by auto
    from acyclic_union [OF tree_rel_acyclic [OF wn] this] show ?thesis unfolding plan(2) .
  qed
  moreover have "?es = []" if acyc: "acyclic ?R"
  proof -
    have "(edge_to e, edge_from e) \<notin> ?R\<^sup>*" if "e \<in> set (joinEdgesOf wv)" for e
    proof
      assume "(edge_to e, edge_from e) \<in> ?R\<^sup>*"
      moreover have "(edge_from e, edge_to e) \<in> ?R" using that unfolding plan(2) by blast
      ultimately have "(edge_to e, edge_to e) \<in> ?R\<^sup>+" by (rule rtrancl_into_trancl1)
      with acyc show False by (auto simp: acyclic_def)
    qed
    then show ?thesis by (simp add: filter_empty_conv)
  qed
  ultimately show ?thesis using plan(1) cyclic_edges_spec [OF wn inside plan(1)] by blast
qed

text \<open>
  C5: For a workflow whose steps have different, ordinary names and whose join edges connect
  steps of it, the compiler succeeds and the cycle check is exact: it reports no edge if and only if the
  compiled dependencies have no cycle.
\<close>

theorem cyclicJoinEdges_exact:
  assumes "well_named (trigger wv)" and "edges_inside wv"
  shows "\<exists>plan es. compile wv = Inr plan \<and> cyclicJoinEdges wv = Inr es \<and> (es = [] \<longleftrightarrow> acyclic (dep_rel (plan_dependencies plan)))"
  using cyclic_edges_acyclic [OF assms] .

text \<open>
  The builder's question before it draws a join edge is answered exactly: the answer
  is yes if and only if the plan with the new edge has a cycle.
\<close>

lemma wouldCreateCycle_exact:
  assumes "well_named (trigger wv)" and "edges_inside (wv\<lparr>graph := Some (joinEdgesOf wv @ [e])\<rparr>)"
  shows "\<exists>plan b. compile (wv\<lparr>graph := Some (joinEdgesOf wv @ [e])\<rparr>) = Inr plan \<and> wouldCreateCycle wv e = Inr b
     \<and> (b \<longleftrightarrow> \<not> acyclic (dep_rel (plan_dependencies plan)))"
proof -
  have "well_named (trigger (wv\<lparr>graph := Some (joinEdgesOf wv @ [e])\<rparr>))" using assms(1) by simp
  from cyclic_edges_acyclic [OF this assms(2)] show ?thesis by (auto simp: wouldCreateCycle_def)
qed

end
