(* ===== verification/Execution_Journal.thy ===== *)
theory Execution_Journal
  imports Workflow_Model
begin

text \<open>
  \<open>core/execution/src/lib/execution/state\<close>: the output of a step (\<open>step-output.ts\<close>), the journal of a run
  (\<open>execution-journal.ts\<close>) and the states of a run (\<open>workflow-execution.ts\<close>).

  A journal is an object from step names to outputs; a loop keeps one such object per iteration, and a
  path of loop names and iterations leads to one of them. No step named like a property of
  \<open>Object.prototype\<close> ever reaches a journal (the compiler of \<open>Execution_Plan\<close> refuses to build a plan
  with an edge to it), so lookups are by own keys.
\<close>

subsection \<open>Step outputs\<close>

datatype StepOutputStatus = StepFAILED | StepPAUSED | StepRUNNING | StepSTOPPED | StepSUCCEEDED

record BaseStepOutput =
  status :: StepOutputStatus
  stepInput :: "json option"
  sliced :: bool
  duration :: "rat option"
  errorMessage :: "string option"

text \<open>
  The output of a loop is a \<open>LoopStepResult\<close>; every other output is an arbitrary value. \<open>sliced\<close> stands
  for \<open>outputType: StepOutputType.SLICE\<close>.
\<close>

datatype StepOutput =
    LoopOutput BaseStepOutput "LoopStepResult option"
  | ActionOutput step_type BaseStepOutput "json option"
and LoopStepResult =
    LoopStepResult (loopItem: "json option") (loopIndex: nat) (iterations: "(string \<times> StepOutput) list list")

type_synonym journal = "StepOutput js_record"
type_synonym journal_path = "(string \<times> nat) list"

fun output_base :: "StepOutput \<Rightarrow> BaseStepOutput" where
  "output_base (LoopOutput b _) = b"
| "output_base (ActionOutput _ b _) = b"

fun map_output :: "(BaseStepOutput \<Rightarrow> BaseStepOutput) \<Rightarrow> StepOutput \<Rightarrow> StepOutput" where
  "map_output g (LoopOutput b r) = LoopOutput (g b) r"
| "map_output g (ActionOutput t b v) = ActionOutput t (g b) v"

definition setStatus :: "StepOutputStatus \<Rightarrow> StepOutput \<Rightarrow> StepOutput" where
  "setStatus st = map_output (\<lambda>b. b\<lparr>status := st\<rparr>)"

definition setErrorMessage :: "string \<Rightarrow> StepOutput \<Rightarrow> StepOutput" where
  "setErrorMessage m = map_output (\<lambda>b. b\<lparr>errorMessage := Some m\<rparr>)"

definition setDuration :: "rat \<Rightarrow> StepOutput \<Rightarrow> StepOutput" where
  "setDuration d = map_output (\<lambda>b. b\<lparr>duration := Some d\<rparr>)"

fun setOutput :: "json \<Rightarrow> StepOutput \<Rightarrow> StepOutput" where
  "setOutput v (ActionOutput t b _) = ActionOutput t b (Some v)"
| "setOutput v (LoopOutput b r) = LoopOutput b r"

definition new_base :: "StepOutputStatus \<Rightarrow> json option \<Rightarrow> BaseStepOutput" where
  "new_base st i = \<lparr>status = st, stepInput = i, sliced = False, duration = None, errorMessage = None\<rparr>"

definition createOutput :: "step_type \<Rightarrow> StepOutputStatus \<Rightarrow> json option \<Rightarrow> json option \<Rightarrow> StepOutput" where
  "createOutput t st i v = (if t = LOOP_ON_ITEMS then LoopOutput (new_base st i) None else ActionOutput t (new_base st i) v)"

definition initRouter :: "json option \<Rightarrow> StepOutput" where
  "initRouter i = ActionOutput ROUTER (new_base StepSUCCEEDED i) None"

definition empty_result :: LoopStepResult where
  "empty_result = LoopStepResult None 0 []"

definition initLoop :: "json option \<Rightarrow> StepOutput" where
  "initLoop i = LoopOutput (new_base StepSUCCEEDED i) (Some empty_result)"

fun loop_result :: "StepOutput \<Rightarrow> LoopStepResult option" where
  "loop_result (LoopOutput _ r) = r"
| "loop_result (ActionOutput _ _ _) = None"

definition loop_iterations :: "StepOutput \<Rightarrow> journal list" where
  "loop_iterations s = (case loop_result s of None \<Rightarrow> [] | Some r \<Rightarrow> iterations r)"

text \<open>The methods of \<open>LoopStepOutput\<close>; each goes through the constructor, which fills in a missing result.\<close>

definition loop_object :: "StepOutput \<Rightarrow> StepOutput" where
  "loop_object s = LoopOutput (output_base s) (Some (getD (loop_result s) empty_result))"

definition setIterations :: "journal list \<Rightarrow> StepOutput \<Rightarrow> StepOutput" where
  "setIterations its s = LoopOutput (output_base s)
     (Some (LoopStepResult (Option.bind (loop_result s) loopItem) (case loop_result s of None \<Rightarrow> 0 | Some r \<Rightarrow> loopIndex r) its))"

definition hasIteration :: "nat \<Rightarrow> StepOutput \<Rightarrow> bool" where
  "hasIteration i s \<longleftrightarrow> i < length (loop_iterations s)"

definition setItemAndIndex :: "json \<Rightarrow> nat \<Rightarrow> StepOutput \<Rightarrow> StepOutput" where
  "setItemAndIndex v i s = LoopOutput (output_base s) (Some (LoopStepResult (Some v) i (loop_iterations s)))"

definition addIteration :: "StepOutput \<Rightarrow> StepOutput" where
  "addIteration s = setIterations (loop_iterations s @ [[]]) s"

subsection \<open>The journal\<close>

definition path_text :: "journal_path \<Rightarrow> string" where
  "path_text p = (let parts = concat (map (\<lambda>(n, i). [n, show_nat i]) p)
     in concat (case parts of [] \<Rightarrow> [] | x # xs \<Rightarrow> x # map (\<lambda>y. '','' @ y) xs))"

definition step_not_found :: "string \<Rightarrow> journal_path \<Rightarrow> error" where
  "step_not_found n p = PlainError (''Step '' @ n @ '' not found in path '' @ path_text p)"

definition not_a_loop :: "string \<Rightarrow> journal_path \<Rightarrow> error" where
  "not_a_loop n p = PlainError (''Step '' @ n @ '' is not a loop on items step in path '' @ path_text p)"

definition iteration_not_found :: "nat \<Rightarrow> journal_path \<Rightarrow> error" where
  "iteration_not_found i p = PlainError (''Iteration '' @ show_nat i @ '' not found in path '' @ path_text p)"

definition array_at :: "'a list \<Rightarrow> nat \<Rightarrow> 'a option" where
  "array_at xs i = (if i < length xs then Some (xs ! i) else None)"

fun upsertStep :: "string \<Rightarrow> StepOutput \<Rightarrow> journal_path \<Rightarrow> journal \<Rightarrow> bool \<Rightarrow> journal result" where
  "upsertStep name out [] steps create = Inr (AList.update name out steps)"
| "upsertStep name out ((parent, i) # path) steps create =
     (case (case map_of steps parent of Some s \<Rightarrow> Some s | None \<Rightarrow> if create then Some (initLoop (Some JNull)) else None) of
        None \<Rightarrow> Inl (step_not_found parent ((parent, i) # path))
      | Some (ActionOutput _ _ _) \<Rightarrow> Inl (not_a_loop parent ((parent, i) # path))
      | Some (LoopOutput b r) \<Rightarrow>
          (let its = loop_iterations (LoopOutput b r) in
           if array_at its i = None \<and> \<not> create then Inl (iteration_not_found i ((parent, i) # path))
           else rbind (upsertStep name out path (getD (array_at its i) []) create) (\<lambda>it.
                Inr (AList.update parent
                  (setIterations ((its @ replicate (Suc i - length its) [])[i := it]) (LoopOutput b r)) steps))))"

text \<open>The walk of \<open>getStateAtPath\<close>; the errors name the whole path.\<close>

fun walk :: "journal_path \<Rightarrow> journal_path \<Rightarrow> journal \<Rightarrow> journal result" where
  "walk full [] target = Inr target"
| "walk full ((parent, i) # path) target =
     (case map_of target parent of
        None \<Rightarrow> Inl (step_not_found parent full)
      | Some (ActionOutput _ _ _) \<Rightarrow> Inl (not_a_loop parent full)
      | Some (LoopOutput b r) \<Rightarrow>
          (case array_at (loop_iterations (LoopOutput b r)) i of
             None \<Rightarrow> Inl (iteration_not_found i full)
           | Some it \<Rightarrow> walk full path it))"

definition getStateAtPath :: "journal_path \<Rightarrow> journal \<Rightarrow> journal result" where
  "getStateAtPath path steps = walk path path steps"

definition getStepAt :: "string \<Rightarrow> journal_path \<Rightarrow> journal \<Rightarrow> StepOutput option result" where
  "getStepAt name path steps = rbind (getStateAtPath path steps) (\<lambda>s. Inr (map_of s name))"

fun lastStep :: "StepOutputStatus option \<Rightarrow> journal \<Rightarrow> string option \<Rightarrow> string option"
  and lastStepInIterations :: "StepOutputStatus option \<Rightarrow> journal list \<Rightarrow> string option \<Rightarrow> string option" where
  "lastStep st [] acc = acc"
| "lastStep st ((n, LoopOutput b (Some (LoopStepResult v i its))) # rest) acc =
     lastStep st rest (let acc' = lastStepInIterations st its acc in if st = None \<or> st = Some (status b) then Some n else acc')"
| "lastStep st ((n, LoopOutput b None) # rest) acc =
     lastStep st rest (if st = None \<or> st = Some (status b) then Some n else acc)"
| "lastStep st ((n, ActionOutput t b v) # rest) acc =
     lastStep st rest (if st = None \<or> st = Some (status b) then Some n else acc)"
| "lastStepInIterations st [] acc = acc"
| "lastStepInIterations st (it # its) acc =
     lastStepInIterations st its (case lastStep st it None of None \<Rightarrow> acc | Some n \<Rightarrow> Some n)"

definition findLastStepWithStatus :: "journal \<Rightarrow> StepOutputStatus option \<Rightarrow> string option" where
  "findLastStepWithStatus steps st = lastStep st steps None"

text \<open>\<open>{ ...a, ...b }\<close>\<close>

definition object_spread :: "'a js_record \<Rightarrow> 'a js_record \<Rightarrow> 'a js_record" where
  "object_spread a b = foldl (\<lambda>r (k, v). AList.update k v r) a b"

fun getLoopSteps :: "journal \<Rightarrow> journal"
  and loopStepsInIterations :: "journal list \<Rightarrow> journal \<Rightarrow> journal"
  and loopStepsFrom :: "journal \<Rightarrow> journal \<Rightarrow> journal" where
  "getLoopSteps steps = loopStepsFrom steps []"
| "loopStepsInIterations [] acc = acc"
| "loopStepsInIterations (it # its) acc = loopStepsInIterations its (object_spread acc (loopStepsFrom it []))"
| "loopStepsFrom [] res = res"
| "loopStepsFrom ((n, LoopOutput b None) # rest) res = loopStepsFrom rest (AList.update n (LoopOutput b None) res)"
| "loopStepsFrom ((n, LoopOutput b (Some (LoopStepResult v i its))) # rest) res =
     loopStepsFrom rest (AList.update n (LoopOutput b (Some (LoopStepResult v i its)))
       (object_spread res (loopStepsInIterations its [])))"
| "loopStepsFrom ((n, ActionOutput t b v) # rest) res = loopStepsFrom rest res"

fun outputHasChild :: "StepOutput \<Rightarrow> string \<Rightarrow> bool"
  and journalHas :: "journal \<Rightarrow> string \<Rightarrow> bool"
  and iterationsHave :: "journal list \<Rightarrow> string \<Rightarrow> bool" where
  "outputHasChild (ActionOutput t b v) child = False"
| "outputHasChild (LoopOutput b None) child = False"
| "outputHasChild (LoopOutput b (Some (LoopStepResult v i its))) child = iterationsHave its child"
| "journalHas [] child = False"
| "journalHas ((n, out) # rest) child = (n = child \<or> outputHasChild out child \<or> journalHas rest child)"
| "iterationsHave [] child = False"
| "iterationsHave (it # its) child = (journalHas it child \<or> iterationsHave its child)"

text \<open>The indices come from a table and may be missing.\<close>

type_synonym indexed_path = "(string \<times> nat option) list"

fun getPathToStep :: "journal \<Rightarrow> string \<Rightarrow> nat js_record \<Rightarrow> indexed_path \<Rightarrow> indexed_path option"
  and pathInIterations :: "journal list \<Rightarrow> string \<Rightarrow> nat js_record \<Rightarrow> indexed_path \<Rightarrow> indexed_path option" where
  "getPathToStep [] name idx cur = None"
| "getPathToStep ((n, LoopOutput b (Some (LoopStepResult v i its))) # rest) name idx cur =
     (if n = name then Some cur
      else case pathInIterations its name idx (cur @ [(n, map_of idx n)]) of
          Some p \<Rightarrow> Some p
        | None \<Rightarrow> getPathToStep rest name idx cur)"
| "getPathToStep ((n, LoopOutput b None) # rest) name idx cur = (if n = name then Some cur else getPathToStep rest name idx cur)"
| "getPathToStep ((n, ActionOutput t b v) # rest) name idx cur = (if n = name then Some cur else getPathToStep rest name idx cur)"
| "pathInIterations [] name idx cur = None"
| "pathInIterations (it # its) name idx cur =
     (case getPathToStep it name idx cur of Some p \<Rightarrow> Some p | None \<Rightarrow> pathInIterations its name idx cur)"

subsection \<open>The state of a run\<close>

datatype ExecutionStatus =
    RunFAILED | RunINTERNAL_ERROR | RunPAUSED | RunQUEUED | RunRUNNING | RunSUCCEEDED
  | RunMEMORY_LIMIT_EXCEEDED | RunTIMEOUT | RunCANCELED | RunLOG_SIZE_EXCEEDED

fun isExecutionStateTerminal :: "ExecutionStatus \<Rightarrow> bool \<Rightarrow> bool" where
  "isExecutionStateTerminal RunSUCCEEDED ignoreInternalError = True"
| "isExecutionStateTerminal RunTIMEOUT ignoreInternalError = True"
| "isExecutionStateTerminal RunFAILED ignoreInternalError = True"
| "isExecutionStateTerminal RunMEMORY_LIMIT_EXCEEDED ignoreInternalError = True"
| "isExecutionStateTerminal RunLOG_SIZE_EXCEEDED ignoreInternalError = True"
| "isExecutionStateTerminal RunCANCELED ignoreInternalError = True"
| "isExecutionStateTerminal RunINTERNAL_ERROR ignoreInternalError = (\<not> ignoreInternalError)"
| "isExecutionStateTerminal RunQUEUED ignoreInternalError = False"
| "isExecutionStateTerminal RunRUNNING ignoreInternalError = False"
| "isExecutionStateTerminal RunPAUSED ignoreInternalError = False"

definition FAILED_STATES :: "ExecutionStatus list" where
  "FAILED_STATES = [RunFAILED, RunINTERNAL_ERROR, RunTIMEOUT, RunMEMORY_LIMIT_EXCEEDED]"

definition isFailedState :: "ExecutionStatus \<Rightarrow> bool" where
  "isFailedState st \<longleftrightarrow> st \<in> set FAILED_STATES"

end
