(* ===== verification/Journal_Laws.thy ===== *)
theory Journal_Laws
  imports Execution_Journal
begin

text \<open>
  The laws of the journal. The locale \<open>step_store\<close> is the interface the engine uses it through: writing
  a step at a path and reading steps there. Its client lemma on sequences of writes is proved once and
  reaches the engine through the interpretation on \<open>upsertStep\<close> and \<open>getStepAt\<close>.
\<close>

locale step_store =
  fixes put :: "'p \<Rightarrow> string \<Rightarrow> 'v \<Rightarrow> 's \<Rightarrow> error + 's" and get :: "'p \<Rightarrow> string \<Rightarrow> 's \<Rightarrow> error + 'v option"
    and reachable :: "'p \<Rightarrow> 's \<Rightarrow> bool"
  assumes put_ok: "reachable p s \<Longrightarrow> \<exists>s'. put p n v s = Inr s' \<and> reachable p s'"
    and get_ok: "reachable p s \<Longrightarrow> \<exists>x. get p n s = Inr x"
    and get_put: "reachable p s \<Longrightarrow> put p n v s = Inr s' \<Longrightarrow> get p n s' = Inr (Some v)"
    and get_put_other: "reachable p s \<Longrightarrow> put p n v s = Inr s' \<Longrightarrow> m \<noteq> n \<Longrightarrow> get p m s' = get p m s"
begin

text \<open>A sequence of writes at one path succeeds, and a read answers with the last write to its name.\<close>

lemma put_many:
  assumes "reachable p s"
  shows "\<exists>s'. rfold (\<lambda>s (n, v). put p n v s) s xs = Inr s' \<and> reachable p s'
     \<and> (\<forall>m. get p m s' = (case map_of (rev xs) m of Some v \<Rightarrow> Inr (Some v) | None \<Rightarrow> get p m s))"
  using assms
proof (induction xs arbitrary: s)
  case Nil
  then show ?case by simp
next
  case (Cons x xs)
  obtain n v where x: "x = (n, v)" by (cases x)
  obtain t where t: "put p n v s = Inr t" "reachable p t" using put_ok Cons.prems by blast
  obtain s' where s': "rfold (\<lambda>s (n, v). put p n v s) t xs = Inr s'" "reachable p s'"
    "\<And>m. get p m s' = (case map_of (rev xs) m of Some v \<Rightarrow> Inr (Some v) | None \<Rightarrow> get p m t)"
    using Cons.IH [OF t(2)] by blast
  have "get p m s' = (case map_of (rev (x # xs)) m of Some v \<Rightarrow> Inr (Some v) | None \<Rightarrow> get p m s)" for m
    using s'(3) [of m] get_put [OF Cons.prems t(1)] get_put_other [OF Cons.prems t(1), of m]
    by (cases "m = n"; cases "map_of (rev xs) m") (simp_all add: x map_add_def)
  with s' t show ?case by (auto simp: x)
qed

end

subsection \<open>Reading and writing\<close>

lemma loop_iterations_set [simp]: "loop_iterations (setIterations its s) = its"
  by (simp add: loop_iterations_def setIterations_def)

lemma setIterations_loop: "\<exists>b r. setIterations its s = LoopOutput b r"
  by (simp add: setIterations_def)

lemma array_at_update: "i < length xs \<Longrightarrow> array_at (xs[i := x]) j = (if j = i then Some x else array_at xs j)"
  by (simp add: array_at_def)

lemma array_at_pad: "array_at (xs @ replicate k []) j = (case array_at xs j of Some x \<Rightarrow> Some x | None \<Rightarrow> if j < length xs + k then Some [] else None)"
  by (auto simp: array_at_def nth_append)

text \<open>Where a walk ends does not depend on the path its errors mention.\<close>

lemma walk_full: "walk f path s = Inr t \<longleftrightarrow> walk g path s = Inr t"
proof (induction f path s arbitrary: t rule: walk.induct)
  case (2 full parent i path target)
  then show ?case by (auto split: option.splits StepOutput.splits)
qed simp

text \<open>What a successful write below a loop did.\<close>

lemma upsert_loop:
  assumes "upsertStep name out ((parent, i) # path) steps create = Inr steps'"
  obtains b r it it' where "map_of steps parent = Some (LoopOutput b r) \<or> (map_of steps parent = None \<and> create \<and> LoopOutput b r = initLoop (Some JNull))"
    and "it = getD (array_at (loop_iterations (LoopOutput b r)) i) []"
    and "array_at (loop_iterations (LoopOutput b r)) i \<noteq> None \<or> create"
    and "upsertStep name out path it create = Inr it'"
    and "steps' = AList.update parent (setIterations (((loop_iterations (LoopOutput b r)) @
           replicate (Suc i - length (loop_iterations (LoopOutput b r))) [])[i := it']) (LoopOutput b r)) steps"
  using assms
  by (auto simp: Let_def rbind_eq_Inr initLoop_def split: option.splits StepOutput.splits if_splits)

text \<open>Without permission to create, the loop and its iteration are there already.\<close>

lemma upsert_inner:
  assumes "upsertStep name out ((parent, i) # path) j False = Inr j'"
  obtains b r it' where "map_of j parent = Some (LoopOutput b (Some r))" and "i < length (iterations r)"
    and "upsertStep name out path (iterations r ! i) False = Inr it'"
    and "j' = AList.update parent (LoopOutput b (Some (LoopStepResult (loopItem r) (loopIndex r) ((iterations r)[i := it'])))) j"
proof -
  from assms obtain b r it it' where u: "map_of j parent = Some (LoopOutput b r)"
    "array_at (loop_iterations (LoopOutput b r)) i = Some it" "upsertStep name out path it False = Inr it'"
    "j' = AList.update parent (setIterations ((loop_iterations (LoopOutput b r) @
        replicate (Suc i - length (loop_iterations (LoopOutput b r))) [])[i := it']) (LoopOutput b r)) j"
    by (rule upsert_loop) (auto simp: getD_def)
  then obtain r' where "r = Some r'" by (cases r) (auto simp: loop_iterations_def array_at_def)
  with u show thesis by (intro that) (auto simp: loop_iterations_def array_at_def setIterations_def split: if_splits)
qed

lemma upsert_walk:
  "upsertStep name out path steps create = Inr steps' \<Longrightarrow>
   \<exists>s. walk full path steps' = Inr s \<and> map_of s name = Some out"
proof (induction path arbitrary: steps steps')
  case Nil
  then show ?case by (auto simp: update_conv')
next
  case (Cons x path)
  obtain parent i where x: "x = (parent, i)" by (cases x)
  obtain b r it it' where u: "upsertStep name out path it create = Inr it'"
    "steps' = AList.update parent (setIterations (((loop_iterations (LoopOutput b r)) @
           replicate (Suc i - length (loop_iterations (LoopOutput b r))) [])[i := it']) (LoopOutput b r)) steps"
    using upsert_loop [OF Cons.prems [unfolded x]] by metis
  let ?its = "(loop_iterations (LoopOutput b r) @ replicate (Suc i - length (loop_iterations (LoopOutput b r))) [])[i := it']"
  have at: "array_at ?its i = Some it'" by (simp add: array_at_def)
  obtain b' r' where out: "setIterations ?its (LoopOutput b r) = LoopOutput b' r'" using setIterations_loop by blast
  have its: "loop_iterations (LoopOutput b' r') = ?its" using loop_iterations_set [of ?its "LoopOutput b r"] out by simp
  from Cons.IH [OF u(1)] show ?case by (simp add: x u(2) update_conv' out its at)
qed

text \<open>
  C36: What was written at a path is what a lookup at that path finds, whether the loop iterations
  on the way existed or were created by the write.
\<close>

theorem journal_roundtrip:
  assumes "upsertStep name out path steps create = Inr steps'"
  shows "getStepAt name path steps' = Inr (Some out)"
  using upsert_walk [OF assms, of path] by (auto simp: getStepAt_def getStateAtPath_def)

subsection \<open>What a write leaves alone\<close>

text \<open>
  The step \<open>m\<close> at path \<open>q\<close> is touched by a write of \<open>name\<close> at \<open>path\<close> when it is the written step, when it
  is one of the loops on the way to it, or when it lies inside the written step.
\<close>

fun touched :: "journal_path \<Rightarrow> string \<Rightarrow> journal_path \<Rightarrow> string \<Rightarrow> bool" where
  "touched [] name [] m = (m = name)"
| "touched [] name ((parent, i) # q) m = (parent = name)"
| "touched ((parent, i) # path) name [] m = (m = parent)"
| "touched ((parent, i) # path) name ((parent', i') # q) m = (parent = parent' \<and> i = i' \<and> touched path name q m)"

lemma touched_same: "touched p name p m \<longleftrightarrow> m = name"
proof (induction p)
  case (Cons x p)
  then show ?case by (cases x) simp
qed simp

lemma walk_Cons:
  "walk full ((parent, i) # q) s = Inr t \<longleftrightarrow>
     (\<exists>b r it. map_of s parent = Some (LoopOutput b r) \<and> array_at (loop_iterations (LoopOutput b r)) i = Some it \<and> walk full q it = Inr t)"
  by (auto split: option.splits StepOutput.splits)

lemma upsert_frame:
  assumes "upsertStep name out path steps create = Inr steps'" and "\<not> touched path name q m"
    and "walk full q steps = Inr s"
  shows "\<exists>s'. walk full q steps' = Inr s' \<and> map_of s' m = map_of s m"
  using assms
proof (induction path name q m arbitrary: steps steps' s rule: touched.induct)
  case (1 name m)
  then show ?case by (auto simp: update_conv')
next
  case (2 name parent i q m)
  then have "map_of steps' parent = map_of steps parent" by (auto simp: update_conv')
  with 2 show ?case by auto
next
  case (3 parent i path name m)
  obtain o' where "steps' = AList.update parent o' steps" using upsert_loop [OF 3(1)] by metis
  with 3 show ?case by (auto simp: update_conv')
next
  case (4 parent i path name parent' i' q m)
  obtain b r it it' where u: "map_of steps parent = Some (LoopOutput b r) \<or> (map_of steps parent = None \<and> create \<and> LoopOutput b r = initLoop (Some JNull))"
    "it = getD (array_at (loop_iterations (LoopOutput b r)) i) []" "upsertStep name out path it create = Inr it'"
    "steps' = AList.update parent (setIterations (((loop_iterations (LoopOutput b r)) @
           replicate (Suc i - length (loop_iterations (LoopOutput b r))) [])[i := it']) (LoopOutput b r)) steps"
    using upsert_loop [OF "4.prems"(1)] by metis
  let ?old = "loop_iterations (LoopOutput b r)"
  let ?its = "(?old @ replicate (Suc i - length ?old) [])[i := it']"
  obtain b' r' where out: "setIterations ?its (LoopOutput b r) = LoopOutput b' r'" using setIterations_loop by blast
  have its: "loop_iterations (LoopOutput b' r') = ?its" using loop_iterations_set [of ?its "LoopOutput b r"] out by simp
  obtain c d jt where w: "map_of steps parent' = Some (LoopOutput c d)" "array_at (loop_iterations (LoopOutput c d)) i' = Some jt"
    "walk full q jt = Inr s" using "4.prems"(3) unfolding walk_Cons by blast
  show ?case
  proof (cases "parent = parent'")
    case False
    then have "map_of steps' parent' = map_of steps parent'" by (simp add: u(4) update_conv')
    with w show ?thesis unfolding walk_Cons by auto
  next
    case True
    with u(1) w(1) have same: "LoopOutput c d = LoopOutput b r" by auto
    have new: "map_of steps' parent' = Some (LoopOutput b' r')" using True by (simp add: u(4) update_conv' out)
    show ?thesis
    proof (cases "i = i'")
      case False
      with w(2) same have "array_at ?its i' = Some jt"
        by (simp add: array_at_update array_at_pad)
      with new w(3) its show ?thesis unfolding walk_Cons by auto
    next
      case True
      with w(2) same u(2) have "it = jt" by simp
      with "4.IH" u(3) w(3) "4.prems"(2) \<open>parent = parent'\<close> True
      obtain s' where "walk full q it' = Inr s'" "map_of s' m = map_of s m" by (metis touched.simps(4))
      moreover have "array_at ?its i' = Some it'" using True by (simp add: array_at_def)
      ultimately show ?thesis using new its unfolding walk_Cons by auto
    qed
  qed
qed

text \<open>
  A write changes nothing else: every step that is not the written one, not a loop on the way to
  it and not inside it reads the same afterwards.
\<close>

lemma journal_frame:
  assumes "upsertStep name out path steps create = Inr steps'" and "\<not> touched path name q m"
    and "getStepAt m q steps = Inr x"
  shows "getStepAt m q steps' = Inr x"
proof -
  obtain s where "walk q q steps = Inr s" "x = map_of s m"
    using assms(3) by (auto simp: getStepAt_def getStateAtPath_def rbind_eq_Inr)
  with upsert_frame [OF assms(1,2)] show ?thesis by (fastforce simp: getStepAt_def getStateAtPath_def)
qed

subsection \<open>When a write fails\<close>

lemma upsert_success_iff:
  "(\<exists>steps'. upsertStep name out path steps False = Inr steps') \<longleftrightarrow> (\<exists>s. walk full path steps = Inr s)"
proof (induction path arbitrary: steps)
  case Nil
  then show ?case by simp
next
  case (Cons x path)
  obtain parent i where x: "x = (parent, i)" by (cases x)
  show ?case
    using Cons by (auto simp: x Let_def rbind_eq_Inr split: option.splits StepOutput.splits)
qed

text \<open>
  Without permission to create iterations, a write succeeds exactly when the path can be
  read: every loop on it exists, is a loop, and has the iteration.
\<close>

lemma journal_write_needs_path:
  "(\<exists>steps'. upsertStep name out path steps False = Inr steps') \<longleftrightarrow> (\<exists>s. getStateAtPath path steps = Inr s)"
  unfolding getStateAtPath_def by (rule upsert_success_iff)

text \<open>With permission, the only thing in the way is a step on the path that is no loop.\<close>

lemma upsert_create_fails:
  "upsertStep name out path steps True = Inl e \<Longrightarrow> \<exists>n q. e = not_a_loop n q"
proof (induction path arbitrary: steps)
  case Nil
  then show ?case by simp
next
  case (Cons x path)
  obtain parent i where x: "x = (parent, i)" by (cases x)
  have inner: "\<exists>n q. e = not_a_loop n q" if "rbind (upsertStep name out path it True) (\<lambda>it. Inr (g it)) = Inl e" for it and g :: "journal \<Rightarrow> journal"
    using that Cons.IH by (cases "upsertStep name out path it True") auto
  show ?case using Cons.prems
    by (auto simp: x Let_def initLoop_def split: option.splits StepOutput.splits dest: inner)
qed

interpretation journal: step_store "\<lambda>p n v s. upsertStep n v p s False" "\<lambda>p n s. getStepAt n p s" "\<lambda>p s. \<exists>t. getStateAtPath p s = Inr t"
proof
  fix p n v s
  assume "\<exists>t. getStateAtPath p s = Inr t"
  then obtain s' where s': "upsertStep n v p s False = Inr s'"
    using upsert_success_iff [of n v p s p] by (auto simp: getStateAtPath_def)
  with upsert_walk [OF s', of p] show "\<exists>s'. upsertStep n v p s False = Inr s' \<and> (\<exists>t. getStateAtPath p s' = Inr t)"
    by (auto simp: getStateAtPath_def)
next
  fix p n s
  assume "\<exists>t. getStateAtPath p s = Inr t"
  then show "\<exists>x. getStepAt n p s = Inr x" by (auto simp: getStepAt_def)
next
  fix p n v s s'
  assume "upsertStep n v p s False = Inr s'"
  from upsert_walk [OF this, of p] show "getStepAt n p s' = Inr (Some v)" by (auto simp: getStepAt_def getStateAtPath_def)
next
  fix p n v s s' m
  assume ok: "\<exists>t. getStateAtPath p s = Inr t" and w: "upsertStep n v p s False = Inr s'" and "m \<noteq> n"
  then have "\<not> touched p n p m" by (simp add: touched_same)
  with ok upsert_frame [OF w] show "getStepAt m p s' = getStepAt m p s" by (fastforce simp: getStepAt_def getStateAtPath_def)
qed

end
