(* ===== verification/Component_Properties.thy ===== *)
theory Component_Properties
  imports Workflow_Invariant Plan_Correctness Journal_Laws
begin

text \<open>
  The correctness properties of the single components: error handling and retries, names and numbers,
  copies and their references, the tree operations, notes and join edges, and two places where the code
  does not do what it means to.
\<close>

subsection \<open>Error handling\<close>

text \<open>
  The strategy of a failure is that of the first rule that matches its codes; rules
  after it have no say, and the id of the rule is reported.
\<close>

lemma resolveStrategy_first_rule:
  assumes "strategy o' = Some dflt" and "rules o' = Some (before @ r # after)"
    and "ruleMatches r errorCode externalCode" and "\<forall>q \<in> set before. \<not> ruleMatches q errorCode externalCode"
  shows "resolveStrategy (Some o') errorCode externalCode =
     Some \<lparr>resolvedMode = mode (ruleStrategy r), outcome = outcomeOf (mode (ruleStrategy r)),
           retry = retryPolicyOf (ruleStrategy r), resolvedRuleId = Some (ruleId r)\<rparr>"
proof -
  have "List.find (\<lambda>q. ruleMatches q errorCode externalCode) (before @ r # after) = Some r"
    using assms(3,4) by (induction before) auto
  with assms(1,2) show ?thesis by (simp add: resolveStrategy_def Let_def)
qed

text \<open>
  A write that is neither idempotent nor preceded by a lookup is retried only when the failure
  shows that the target did not apply it, and an idempotent write with a deduplication window only inside
  the window.
\<close>

theorem decide_protects_writes:
  assumes "allowed (decide c ws ec blocked firstAt now win)" and "c \<noteq> Some READ" and "c \<noteq> Some SEARCH"
  shows "ws = Some LOOKUP_BEFORE_WRITE \<or> (ws \<noteq> Some IDEMPOTENT \<and> (blocked \<noteq> None \<or> status_in ec NOT_APPLIED_STATUSES))
     \<or> (ws = Some IDEMPOTENT \<and> (win = None \<or> (\<exists>t w. firstAt = Some t \<and> win = Some w \<and> now - t < w * 1000)))"
  using assms by (auto simp: decide_def split: if_splits option.splits)

subsection \<open>Names, numbers and connections\<close>

text \<open>
  The copies of a subtree get names that are pairwise different and not used anywhere in the
  workflow, one for each step of the subtree, in the same order.
\<close>

theorem clone_names_fresh:
  assumes "length (getAllSteps s) \<le> stack e" and "distinct (step_names s)"
  shows "\<exists>r. clone_tree e (mapToNewNames wv [s]) copySuffix s = Inr r \<and> length (getAllSteps r) = length (getAllSteps s)
     \<and> distinct (step_names r) \<and> set (step_names r) \<inter> set (step_names (trigger wv)) = {}"
proof -
  obtain r where r: "clone_tree e (mapToNewNames wv [s]) copySuffix s = Inr r"
    "step_names r = findUnusedNames (step_names (trigger wv)) (length (step_names s))"
    using clone_tree_names [OF assms] by blast
  let ?ns = "findUnusedNames (step_names (trigger wv)) (length (step_names s))"
  have ns: "length ?ns = length (step_names s)" "distinct ?ns" "set ?ns \<inter> set (step_names (trigger wv)) = {}"
    using findUnusedNames_fresh by blast+
  have "length (getAllSteps r) = length (getAllSteps s)" using arg_cong [OF r(2), of length] ns(1) by simp
  with r(1) ns(2,3) show ?thesis unfolding r(2) [symmetric] by blast
qed

text \<open>
  A template reference to a copied step, such as \<open>{{step_1.field}}\<close>, names the copy afterwards;
  text without a template is not touched.
\<close>

theorem remap_reference:
  assumes "list_all is_word w" and "w \<noteq> []" and "\<not> is_digit (hd w)" and "map_of m w = Some v"
    and "list_all (\<lambda>c. c \<noteq> CHR ''}'' \<and> \<not> is_newline c) f" and "\<not> has_open plain"
  shows "remapStepReferences m (''{{'' @ w @ ''.'' @ f @ ''}}'' @ rest)
       = ''{{'' @ v @ ''.'' @ rename_identifiers m f @ ''}}'' @ remapStepReferences m rest
     \<and> remapStepReferences m plain = plain"
proof -
  have dot: "\<not> is_word (CHR ''.'')" "\<not> is_newline (CHR ''.'')"
    by (simp_all add: is_word_def is_digit_def is_upper_def is_lower_def is_newline_def)
  have body: "list_all (\<lambda>c. c \<noteq> CHR ''}'' \<and> \<not> is_newline c) (w @ ''.'' @ f)"
  proof -
    have "list_all (\<lambda>c. c \<noteq> CHR ''}'' \<and> \<not> is_newline c) w"
      using assms(1) by (rule list.pred_mono_strong) (use word_not_brace in blast)
    with assms(5) dot(2) show ?thesis by simp
  qed
  have "rename_identifiers m (w @ ''.'' @ f) = v @ ''.'' @ rename_identifiers m f"
    using rename_identifiers_words [OF assms(1), of "''.'' @ f" m] assms(2-4) dot(1) by (simp add: new_identifier_def)
  with remap_text_token [OF body, of m rest] remap_text_no_token [OF assms(6)] show ?thesis
    by (simp add: remapStepReferences_def)
qed

text \<open>
  Every step of a workflow gets a display number and no two steps get the same one, for
  stored numbers that are written the way the code writes them.
\<close>

theorem computeNumbers_distinct:
  assumes "distinct (step_names trig)"
    and "\<forall>s \<in> set (getAllSteps trig). prefixOf s \<noteq> ''constructor'' \<and> canonical (numbered s)"
  shows "map fst (computeNumbers trig) = step_names trig \<and> distinct (map snd (computeNumbers trig))"
  using computeNumbers_props [OF assms] by blast

text \<open>
  The connections of a workflow are listed once each, and each of them is named by the
  authentication of some step.
\<close>

lemma extractConnectionIds_distinct:
  assumes "extractConnectionIds wv = Inr ids"
  shows "distinct ids \<and> (\<forall>i \<in> set ids. \<exists>s \<in> set (getAllSteps (trigger wv)). \<exists>xs. step_connection_ids s = Inr xs \<and> i \<in> set xs)"
proof -
  obtain t ss where t: "step_connection_ids (trigger wv) = Inr t"
    and ss: "rmap_list step_connection_ids (getAllSteps (trigger wv)) = Inr ss" and ids: "ids = js_unique (t @ concat ss)"
    using assms by (auto simp: extractConnectionIds_def rbind_eq_Inr)
  have "\<exists>s \<in> set ys. step_connection_ids s = Inr xs" if "rmap_list step_connection_ids ys = Inr zs" "xs \<in> set zs" for ys zs xs
    using that by (induction ys arbitrary: zs) (auto simp: rbind_eq_Inr)
  with t ss ids show ?thesis by (fastforce intro: bexI [of _ "trigger wv"])
qed

subsection \<open>Operations on the step tree\<close>

text \<open>
  C29: Adding an action under an existing parent at a location the parent accepts succeeds and puts
  exactly one step into the workflow, in front of what the location held; all other steps stay, under
  different names, and nothing but the tree changes.
\<close>

theorem addAction_inserts_one:
  assumes "distinct (step_names (trigger wv))" and "getStep (parentStep r) (trigger wv) = Some p"
    and "accepts_location p (stepLocation r) (branchIndex r)"
    and "req_name (action r) \<notin> set (step_names (trigger wv))"
    and "2 * length (getAllSteps (trigger wv)) + 1 \<le> stack e"
  shows "\<exists>t. addAction e wv r = Inr (wv\<lparr>trigger := t\<rparr>) \<and> distinct (step_names t)
     \<and> mset (step_names t) = add_mset (req_name (action r)) (mset (step_names (trigger wv)))"
proof -
  obtain u where u: "addAction e wv r = Inr (wv\<lparr>trigger := subst_step (parentStep r) u (trigger wv)\<rparr>)"
    "mset (step_names u) = add_mset (req_name (action r)) (mset (step_names p))"
    using addAction_at [OF assms] by blast
  have mem: "p \<in> set (getAllSteps (trigger wv))" and name: "step_name p = parentStep r"
    using getStep_Some [OF assms(2)] by auto
  let ?t = "subst_step (parentStep r) u (trigger wv)"
  have "mset (step_names ?t) + mset (step_names p) = add_mset (req_name (action r)) (mset (step_names (trigger wv))) + mset (step_names p)"
    using subst_step_names [OF assms(1) mem name, of u] u(2) by simp
  then have names: "mset (step_names ?t) = mset (req_name (action r) # step_names (trigger wv))" by simp
  moreover have "distinct (step_names ?t)" using mset_eq_imp_distinct_iff [OF names] assms(1,4) by simp
  ultimately show ?thesis using u(1) by auto
qed

text \<open>
  At a location the parent does not accept the request is refused as an invalid operation.
\<close>

theorem addAction_rejects:
  assumes "distinct (step_names (trigger wv))" and "getStep (parentStep r) (trigger wv) = Some p"
    and "\<not> accepts_location p (stepLocation r) (branchIndex r)" and "\<forall>k. branchIndex r = Some k \<longrightarrow> 0 \<le> k"
    and "length (getAllSteps (trigger wv)) \<le> stack e"
  shows "\<exists>msg. addAction e wv r = Inl (OperationInvalid msg)"
proof -
  have mem: "p \<in> set (getAllSteps (trigger wv))" and name: "step_name p = parentStep r"
    using getStep_Some [OF assms(2)] by auto
  obtain msg where "add_transfer e r p = Inl (OperationInvalid msg)" using add_transfer_rejected [OF name assms(3,4)] by blast
  from adding.transfer_site_error [OF assms(5,1) mem name this] show ?thesis
    by (simp add: addAction_def transferWorkflow_def)
qed

text \<open>
  A request whose action has the name of its own parent never comes to an end: whatever
  the size of the stack, it overflows.
\<close>

theorem addAction_self_named_overflows:
  assumes "trigger wv = EmptyTrigger b j n" and "sname b = parentStep r" and "req_name (action r) = parentStep r"
    and "req_settings (action r) = CodeS cs" and "stepLocation r = Some AFTER"
  shows "addAction e wv r = Inl StackOverflow"
proof (cases "stack e")
  case 0
  then show ?thesis using assms(1) by (simp add: addAction_def transferWorkflow_def)
next
  case (Suc d)
  obtain b' where b': "createAction e (action r) n = Code b' cs None None n"
    using assms(4) by (simp add: createAction_def with_validity_def)
  have "sname b' = parentStep r" using createAction_name [of e "action r" n] b' assms(3) by simp
  with self_named_chain [OF assms(3,4,5), of b' cs n d e] b'
  have inner: "transferStep d (add_transfer e r) (createAction e (action r) n) = Inl StackOverflow" by simp
  have "add_transfer e r (EmptyTrigger b j n) = Inr (Mutated (EmptyTrigger b j (Some (createAction e (action r) n))))"
    using assms(2,5) by (simp add: add_transfer_def)
  with inner Suc show ?thesis by (simp add: addAction_def transferWorkflow_def assms(1))
qed

text \<open>
  C6: Deleting an action takes exactly the action and the steps inside it out of the workflow;
  its next action takes its place, and the order of all other steps stays.
\<close>

theorem deleteAction_removes_subtree:
  assumes "distinct (step_names (trigger wv))" and "getStep name (trigger wv) = Some a" and "step_name (trigger wv) \<noteq> name"
    and "length (getAllSteps (trigger wv)) \<le> stack e"
  shows "\<exists>t. deleteAction e wv [name] = Inr (wv\<lparr>trigger := t\<rparr>)
     \<and> step_names t = filter (\<lambda>n. n \<notin> set (step_names (set_next None a))) (step_names (trigger wv))"
proof -
  have mem: "a \<in> set (getAllSteps (trigger wv))" and name: "step_name a = name" using getStep_Some [OF assms(2)] by auto
  have "name \<in> set (step_names (trigger wv))" using mem name by auto
  then have "deletable a (trigger wv)"
    using step_by_name [OF assms(1) _ mem] assms(1) name unfolding deletable_def by blast
  with transfer_delete [OF assms(4), of a] assms(3) name getAllSteps_sub_distinct [OF assms(1) mem]
  show ?thesis by (auto simp: transferWorkflow_def subtree_names_def)
qed

text \<open>
  After every operation the validity flag of the version says exactly whether each step is
  valid or a skipped action.
\<close>

lemma apply_recomputes_validity:
  assumes "applyOperation e wv op = Inr wv'"
  shows "versionValid wv' \<longleftrightarrow> (\<forall>s \<in> set (getAllSteps (trigger wv')).
     valid (base_of s) \<or> (\<not> isTrigger (type_of s) \<and> skip (base_of s) = Some True))"
proof -
  obtain w where "finish_operation e op w = Inr wv'"
    using assms by (subst (asm) applyOperation.simps) (auto simp: rbind_eq_Inr)
  then show ?thesis
    by (auto simp: finish_operation_def revalidate_def rbind_eq_Inr list_all_iff step_ready_def isTrigger_def)
qed

subsection \<open>Where the code misses its aim\<close>

text \<open>
  A component at the head of a success branch cannot be skipped: the traversal replaces it but
  stores only what \<open>isStepAction\<close> accepts, and that test leaves components out.
\<close>

theorem skip_misses_component:
  assumes "trigger wv = EmptyTrigger tb j (Some (Code b s (Some (Component cb cs x y None)) None None))"
    and "distinct [sname tb, sname b, sname cb]" and "4 \<le> stack e"
  shows "skipAction e wv [sname cb] True = Inr wv"
proof -
  obtain k where "stack e = 4 + k" using le_Suc_ex [OF assms(3)] by blast
  then have d: "stack e = Suc (Suc (Suc (Suc k)))" by simp
  show ?thesis
    using assms(1,2) by (simp add: skipAction_def transferWorkflow_def d skip_transfer_def transfer_branch_def isStepAction_def)
qed

text \<open>
  A first step named like a property every object inherits, such as \<open>toString\<close>, which the
  name pattern allows, makes the compiler fail with a type error.
\<close>

theorem compile_rejects_inherited_name:
  assumes "nextAction (trigger wv) = Some a" and "step_name a \<in> set object_prototype_keys" and "step_name a \<noteq> step_name (trigger wv)"
  shows "compile wv = Inl not_iterable"
proof -
  let ?t = "trigger wv"
  have "visitTrigger ?t = [(step_name ?t, trigger_node ?t)]"
    using assms(1,2) by (simp add: visitTrigger_def visitAction.simps js_has_def)
  moreover have "buildDependencies [(step_name ?t, trigger_node ?t)] = Inl not_iterable"
    using assms by (simp add: buildDependencies_def outgoing_trigger nextIds_def add_dependency_def js_has_def read_dependencies_def)
  ultimately show ?thesis by (simp add: compile_def)
qed

end
