(* ===== verification/Witnesses.thy ===== *)
theory Witnesses
  imports Component_Properties
begin

text \<open>
  A sample workflow and, for every property with hypotheses, its instance at concrete values: the
  hypotheses hold there, so none of the properties is vacuous.
\<close>

subsection \<open>A sample workflow\<close>

definition demo_base :: "string \<Rightarrow> BaseProps" where
  "demo_base n = \<lparr>sname = n, valid = True, displayName = n, skip = None, lastUpdatedDate = ''2024''\<rparr>"

definition demo_code :: CodeActionSettings where
  "demo_code = \<lparr>sampleData = None, customLogoUrl = None, displayNumber = None, pendingReview = None,
     sensitiveOutput = None, input = [], errorHandlingOptions = None,
     sourceCode = \<lparr>packageJson = ''{}'', code = ''''\<rparr>\<rparr>"

definition demo_component :: ComponentActionSettings where
  "demo_component = \<lparr>sampleData = None, customLogoUrl = None, displayNumber = None, pendingReview = None,
     sensitiveOutput = None, input = [], errorHandlingOptions = None,
     componentPropertySettings = [], componentType = ''form''\<rparr>"

definition demo_router :: RouterActionSettings where
  "demo_router = \<lparr>sampleData = None, customLogoUrl = None, displayNumber = None, pendingReview = None,
     sensitiveOutput = None, branches = [ConditionBranch ''A'' [[emptyCondition]], ConditionBranch ''B'' [], FallbackBranch ''Otherwise''],
     executionType = EXECUTE_FIRST_MATCH\<rparr>"

definition demo_trigger :: step where
  "demo_trigger = EmptyTrigger (demo_base ''trigger'') JNull
     (Some (Router (demo_base ''step_1'') demo_router
        [Some (Code (demo_base ''step_2'') demo_code None None None), None, None]
        (Some (Code (demo_base ''step_3'') demo_code None None None))))"

definition demo_version :: WorkflowVersion where
  "demo_version = \<lparr>versionId = ''v'', created = '''', updated = '''', workflowId = ''w'',
     versionDisplayName = ''demo'', trigger = demo_trigger, updatedBy = None, versionValid = True,
     schemaVersion = Some ''23'', agentIds = [], state = DRAFT, connectionIds = [], backupFiles = None,
     versionNotes = [], graph = None, publishNote = None\<rparr>"

definition demo_env :: env where
  "demo_env = \<lparr>clock = ''2024'', safeParse = (\<lambda>_. True), stack = 40\<rparr>"

definition demo_request :: "string \<Rightarrow> UpdateActionRequest" where
  "demo_request n = \<lparr>req_name = n, req_displayName = n, req_valid = Some True, req_skip = None, req_settings = CodeS demo_code\<rparr>"

definition demo_add :: AddActionRequest where
  "demo_add = \<lparr>parentStep = ''step_1'', stepLocation = Some INSIDE_BRANCH, branchIndex = Some 1, action = demo_request ''step_4''\<rparr>"

lemmas demo_defs = demo_base_def demo_code_def demo_component_def demo_router_def demo_trigger_def demo_version_def
  demo_env_def demo_request_def demo_add_def

lemma demo_names: "step_names (trigger demo_version) = [''trigger'', ''step_1'', ''step_2'', ''step_3'']"
  by (simp add: demo_defs opt_list_def)

lemma demo_size: "length (getAllSteps (trigger demo_version)) = 4"
  using arg_cong [OF demo_names, of length] by simp

lemma demo_stack: "stack demo_env = 40"
  by (simp add: demo_env_def)

lemma demo_trigger_of: "trigger demo_version = demo_trigger"
  by (simp add: demo_version_def)

lemma demo_step_1:
  "getStep ''step_1'' (trigger demo_version) = Some (Router (demo_base ''step_1'') demo_router
     [Some (Code (demo_base ''step_2'') demo_code None None None), None, None]
     (Some (Code (demo_base ''step_3'') demo_code None None None)))"
  by (simp add: demo_trigger_of demo_trigger_def getStep_def opt_list_def demo_base_def)

lemma demo_distinct: "distinct (step_names (trigger demo_version))"
  by (simp add: demo_names)

lemmas demo_facts = demo_distinct demo_size demo_stack

subsection \<open>Operations on the step tree\<close>

theorem addBranch_pairs_witness:
  "\<exists>wv' s' cs'. addBranch demo_env demo_version \<lparr>addBranchIndex = 1, addBranchStep = ''step_1'', addBranchConditions = None, addBranchName = ''N''\<rparr> = Inr wv'
     \<and> getStep ''step_1'' (trigger wv') = Some (Router (demo_base ''step_1'') s' cs' (Some (Code (demo_base ''step_3'') demo_code None None None)))
     \<and> length cs' = length (branches s')"
  using addBranch_pairs [of demo_version "\<lparr>addBranchIndex = 1, addBranchStep = ''step_1'', addBranchConditions = None, addBranchName = ''N''\<rparr>", simplified,
      OF demo_distinct demo_step_1, of demo_env]
  by (simp add: demo_facts demo_router_def) blast

theorem deleteBranch_pairs_witness:
  "\<exists>wv' s' cs'. deleteBranch demo_env demo_version 0 ''step_1'' = Inr wv'
     \<and> getStep ''step_1'' (trigger wv') = Some (Router (demo_base ''step_1'') s' cs' (Some (Code (demo_base ''step_3'') demo_code None None None)))
     \<and> mset (step_names (trigger wv')) + {# ''step_2'' #} = {# ''trigger'', ''step_1'', ''step_2'', ''step_3'' #}"
  using deleteBranch_pairs [OF demo_distinct demo_step_1, of 0 demo_env]
  by (simp add: demo_facts demo_names demo_router_def opt_list_def demo_base_def) blast


lemma demo_wf: "wf_tree (trigger demo_version)"
  unfolding wf_tree_def
  by (simp add: demo_distinct) (simp add: demo_trigger_of demo_trigger_def demo_router_def isTrigger_def opt_list_def)

lemma demo_rename: "applyOperation demo_env demo_version (CHANGE_NAME ''n'') =
    Inr (demo_version\<lparr>versionDisplayName := ''n''\<rparr>)"
  by (simp add: applyOperation_simple finish_operation_def renumber_def revalidate_def demo_defs opt_list_def step_ready_def)

theorem applyOperation_keeps_wf_witness:
  "\<exists>wv'. applyOperation demo_env demo_version (CHANGE_NAME ''n'') = Inr wv' \<and> wf_tree (trigger wv')"
  using applyOperation_keeps_wf [OF demo_wf _ _ demo_rename] by (simp add: demo_rename demo_facts)

theorem addAction_inserts_one_witness:
  "\<exists>t. addAction demo_env demo_version demo_add = Inr (demo_version\<lparr>trigger := t\<rparr>) \<and> distinct (step_names t)
     \<and> mset (step_names t) = {# ''step_4'', ''trigger'', ''step_1'', ''step_2'', ''step_3'' #}"
proof -
  have "getStep (parentStep demo_add) (trigger demo_version) = getStep ''step_1'' (trigger demo_version)"
    and acc: "accepts_location (Router x y z n) (stepLocation demo_add) (branchIndex demo_add)" for x y z n
    by (simp_all add: demo_add_def)
  note step = this(1) [unfolded demo_step_1]
  have name: "req_name (action demo_add) = ''step_4''" by (simp add: demo_add_def demo_request_def)
  have fresh: "req_name (action demo_add) \<notin> set (step_names (trigger demo_version))"
    unfolding name demo_names by simp
  have "2 * length (getAllSteps (trigger demo_version)) + 1 \<le> stack demo_env" by (simp add: demo_facts)
  from addAction_inserts_one [OF demo_distinct step acc fresh this] show ?thesis
    unfolding name demo_names by simp
qed

theorem addAction_rejects_witness:
  "\<exists>msg. addAction demo_env demo_version (demo_add\<lparr>stepLocation := Some INSIDE_LOOP\<rparr>) = Inl (OperationInvalid msg)"
  using addAction_rejects [of demo_version "demo_add\<lparr>stepLocation := Some INSIDE_LOOP\<rparr>", unfolded demo_add_def, simplified, OF demo_distinct demo_step_1, of demo_env]
  by (simp add: demo_add_def demo_facts)

theorem addAction_self_named_overflows_witness:
  "addAction demo_env demo_version (demo_add\<lparr>parentStep := ''trigger'', stepLocation := Some AFTER, action := demo_request ''trigger''\<rparr>) = Inl StackOverflow"
  by (rule addAction_self_named_overflows [of _ "demo_base ''trigger''" JNull "nextAction demo_trigger" _ demo_code]) (simp_all add: demo_defs)

theorem deleteAction_removes_subtree_witness:
  "\<exists>t. deleteAction demo_env demo_version [''step_1''] = Inr (demo_version\<lparr>trigger := t\<rparr>) \<and> step_names t = [''trigger'', ''step_3'']"
  using deleteAction_removes_subtree [OF demo_distinct demo_step_1, of demo_env]
  by (simp add: demo_facts demo_names del: demo_trigger_of) (simp add: demo_defs opt_list_def)

definition demo_skipped :: WorkflowVersion where
  "demo_skipped = demo_version\<lparr>trigger := EmptyTrigger (demo_base ''trigger'') JNull
     (Some (Code (demo_base ''step_1'') demo_code (Some (Component (demo_base ''step_2'') demo_component None None None)) None None))\<rparr>"

theorem skip_misses_component_witness:
  "skipAction demo_env demo_skipped [sname (demo_base ''step_2'')] True = Inr demo_skipped"
  by (rule skip_misses_component [of _ "demo_base ''trigger''" JNull "demo_base ''step_1''" demo_code _ demo_component None None])
     (simp_all add: demo_skipped_def demo_base_def demo_env_def)

theorem compile_rejects_inherited_name_witness:
  "compile (demo_version\<lparr>trigger := EmptyTrigger (demo_base ''trigger'') JNull (Some (Code (demo_base ''toString'') demo_code None None None))\<rparr>) = Inl not_iterable"
  by (rule compile_rejects_inherited_name [of _ "Code (demo_base ''toString'') demo_code None None None"]) (simp_all add: demo_base_def object_prototype_keys_def)

subsection \<open>Error handling\<close>

definition demo_strategy :: "ErrorStrategyMode \<Rightarrow> ErrorStrategy" where
  "demo_strategy m = \<lparr>mode = m, retryAttempts = None, retryIntervalSeconds = None\<rparr>"

definition demo_rule :: ErrorHandlingRule where
  "demo_rule = \<lparr>ruleId = ''r1'', ruleName = ''limit'', ruleOperator = EQUALS_ANY, ruleCodes = [''429''], ruleStrategy = demo_strategy RETRY_THEN_BRANCH\<rparr>"

definition demo_options :: ErrorHandlingOptions where
  "demo_options = \<lparr>continueOnFailure = None, retryOnFailure = None, strategy = Some (demo_strategy STOP), rules = Some [demo_rule]\<rparr>"

lemma demo_rule_matches: "ruleMatches demo_rule ''HTTP_429'' None"
  by code_simp

lemma demo_resolves: "map_option outcome (resolveStrategy (Some demo_options) ''HTTP_429'' None) = Some OutcomeBranch"
  by code_simp

theorem decide_protects_writes_witness:
  "allowed (decide (Some WRITE) (Some IDEMPOTENT) None None (Some 0) 999 (Some 1)) \<and> (999::int) - 0 < 1 * 1000"
  using decide_protects_writes [of "Some WRITE" "Some IDEMPOTENT" None None "Some 0" 999 "Some 1"] by (simp add: decide_def)

subsection \<open>Names, numbers and copies\<close>

theorem clone_names_fresh_witness:
  "\<exists>r. clone_tree demo_env (mapToNewNames demo_version [demo_trigger]) None demo_trigger = Inr r
     \<and> length (getAllSteps r) = 4 \<and> set (step_names r) \<inter> {''trigger'', ''step_1'', ''step_2'', ''step_3''} = {}"
proof -
  have "length (getAllSteps demo_trigger) \<le> stack demo_env" "distinct (step_names demo_trigger)"
    using demo_size demo_distinct unfolding demo_trigger_of by (simp_all add: demo_stack)
  from clone_names_fresh [OF this, of demo_version None] demo_size show ?thesis
    unfolding demo_names by (auto simp: demo_trigger_of)
qed

theorem remap_reference_witness:
  "remapStepReferences [(''step_1'', ''step_9'')] (''{{'' @ ''step_1'' @ ''.'' @ ''body'' @ ''}}'' @ ''!'') =
     ''{{'' @ ''step_9'' @ ''.'' @ rename_identifiers [(''step_1'', ''step_9'')] ''body'' @ ''}}'' @ remapStepReferences [(''step_1'', ''step_9'')] ''!''
   \<and> remapStepReferences [(''step_1'', ''step_9'')] ''step_1'' = ''step_1''"
  by (rule remap_reference) code_simp+

theorem computeNumbers_distinct_witness:
  "map fst (computeNumbers demo_trigger) = [''trigger'', ''step_1'', ''step_2'', ''step_3''] \<and> distinct (map snd (computeNumbers demo_trigger))"
proof -
  have "\<forall>s \<in> set (getAllSteps demo_trigger). prefixOf s \<noteq> ''constructor'' \<and> canonical (numbered s)"
    by (simp add: demo_defs opt_list_def canonical_def numbered_def numberOf_def)
  from computeNumbers_distinct [OF demo_distinct [unfolded demo_trigger_of] this] demo_names show ?thesis
    by (simp add: demo_trigger_of)
qed

definition demo_connected :: WorkflowVersion where
  "demo_connected = demo_version\<lparr>trigger := EmptyTrigger (demo_base ''trigger'') JNull
     (Some (Code (demo_base ''step_1'') (demo_code\<lparr>input := [(''auth'', JStr (auth_marker @ ''c1'' @ [CHR 0x27] @ '']}}''))]\<rparr>) None None
       (Some (Code (demo_base ''step_2'') (demo_code\<lparr>input := [(''auth'', JStr (auth_marker @ ''c1'' @ [CHR 0x27] @ '']}}''))]\<rparr>) None None None))))\<rparr>"

subsection \<open>Execution plan\<close>


lemma demo_well_named: "well_named (trigger demo_version)"
  by (simp add: demo_defs well_named_def plan_steps.simps object_prototype_keys_def)

definition demo_edge :: WorkflowJoinEdge where
  "demo_edge = \<lparr>edge_from = ''step_2'', edge_to = ''step_3''\<rparr>"

lemma demo_inside: "edges_inside (demo_version\<lparr>graph := Some (joinEdgesOf demo_version @ [demo_edge])\<rparr>)"
  by (simp add: demo_defs edges_inside_def demo_edge_def joinEdgesOf_def plan_steps.simps)

theorem cyclicJoinEdges_exact_witness:
  "\<exists>plan es. compile (demo_version\<lparr>graph := Some (joinEdgesOf demo_version @ [demo_edge])\<rparr>) = Inr plan
     \<and> cyclicJoinEdges (demo_version\<lparr>graph := Some (joinEdgesOf demo_version @ [demo_edge])\<rparr>) = Inr es
     \<and> (es = [] \<longleftrightarrow> acyclic (dep_rel (plan_dependencies plan)))"
  by (rule cyclicJoinEdges_exact [OF _ demo_inside]) (simp add: demo_well_named)

subsection \<open>Journal\<close>

definition demo_output :: StepOutput where
  "demo_output = createOutput CODE StepSUCCEEDED (Some JNull) (Some (JStr ''ok''))"

lemma demo_write:
  "upsertStep ''step_2'' demo_output [(''loop'', 0)] [(''loop'', initLoop (Some JNull)), (''x'', demo_output)] True =
     Inr (case upsertStep ''step_2'' demo_output [(''loop'', 0)] [(''loop'', initLoop (Some JNull)), (''x'', demo_output)] True of Inr j \<Rightarrow> j)"
  by code_simp

theorem journal_roundtrip_witness:
  "getStepAt ''step_2'' [(''loop'', 0)]
     (case upsertStep ''step_2'' demo_output [(''loop'', 0)] [(''loop'', initLoop (Some JNull)), (''x'', demo_output)] True of Inr j \<Rightarrow> j)
   = Inr (Some demo_output)"
  by (rule journal_roundtrip [OF demo_write])

end
