(* ===== verification/Effects.thy ===== *)
theory Effects
  imports Prelude
begin

text \<open>
  Effects of the engine. An \<open>async\<close> function of the source is a computation on the state of the outside
  world: it returns a value, throws an error, or does not return (\<open>None\<close>, which no \<open>catch\<close> sees). The
  code outside the model (clock, sandbox, connectors, file store) is reached only through \<open>ecall\<close>.

  Two judgements carry the proofs about engine code: \<open>sat m P\<close> says that every value \<open>m\<close> returns
  satisfies \<open>P\<close>, \<open>ends m\<close> that \<open>m\<close> always returns or throws.
\<close>

type_synonym ('w, 'a) eff = "'w \<Rightarrow> ('a result \<times> 'w) option"

named_theorems sat_rules \<open>introduction rules for values returned\<close>
named_theorems ends_rules \<open>introduction rules for computations that end\<close>

definition eret :: "'a \<Rightarrow> ('w, 'a) eff" where
  "eret x = (\<lambda>w. Some (Inr x, w))"

definition ethrow :: "error \<Rightarrow> ('w, 'a) eff" where
  "ethrow e = (\<lambda>w. Some (Inl e, w))"

definition elift :: "'a result \<Rightarrow> ('w, 'a) eff" where
  "elift r = (\<lambda>w. Some (r, w))"

definition ecall :: "('w \<Rightarrow> 'a result \<times> 'w) \<Rightarrow> ('w, 'a) eff" where
  "ecall f = (\<lambda>w. Some (f w))"

definition eread :: "('w \<Rightarrow> 'a \<times> 'w) \<Rightarrow> ('w, 'a) eff" where
  "eread f = (\<lambda>w. case f w of (x, w') \<Rightarrow> Some (Inr x, w'))"

definition ediverge :: "('w, 'a) eff" where
  "ediverge = (\<lambda>w. None)"

definition ebind :: "('w, 'a) eff \<Rightarrow> ('a \<Rightarrow> ('w, 'b) eff) \<Rightarrow> ('w, 'b) eff" where
  "ebind m k = (\<lambda>w. case m w of
      None \<Rightarrow> None
    | Some (Inl e, w') \<Rightarrow> Some (Inl e, w')
    | Some (Inr x, w') \<Rightarrow> k x w')"

text \<open>\<open>try { ... } catch (error) { return { error } }\<close>\<close>

definition ecatch :: "('w, 'a) eff \<Rightarrow> ('w, 'a result) eff" where
  "ecatch m = (\<lambda>w. case m w of None \<Rightarrow> None | Some (r, w') \<Rightarrow> Some (Inr r, w'))"

fun is_engine_error :: "error \<Rightarrow> bool" where
  "is_engine_error (EngineGenericError _ _) = True"
| "is_engine_error _ = False"

definition tryCatchAndThrowOnEngineError :: "('w, 'a) eff \<Rightarrow> ('w, 'a result) eff" where
  "tryCatchAndThrowOnEngineError m = ebind (ecatch m) (\<lambda>r.
     case r of Inl e \<Rightarrow> if is_engine_error e then ethrow e else eret r | Inr _ \<Rightarrow> eret r)"

text \<open>A \<open>for\<close> loop over an array whose body updates a state.\<close>

fun efold :: "('s \<Rightarrow> 'a \<Rightarrow> ('w, 's) eff) \<Rightarrow> 's \<Rightarrow> 'a list \<Rightarrow> ('w, 's) eff" where
  "efold f s [] = eret s"
| "efold f s (x # xs) = ebind (f s x) (\<lambda>s'. efold f s' xs)"

fun emap :: "('a \<Rightarrow> ('w, 'b) eff) \<Rightarrow> 'a list \<Rightarrow> ('w, 'b list) eff" where
  "emap f [] = eret []"
| "emap f (x # xs) = ebind (f x) (\<lambda>y. ebind (emap f xs) (\<lambda>ys. eret (y # ys)))"

subsection \<open>Laws\<close>

lemma ebind_simps [simp]:
  "ebind (eret x) k = k x" "ebind (ethrow e) k = ethrow e" "ebind ediverge k = ediverge"
  by (simp_all add: ebind_def eret_def ethrow_def ediverge_def)

lemma ebind_elift [simp]: "ebind (elift (Inr x)) k = k x" "ebind (elift (Inl e)) k = ethrow e"
  by (simp_all add: ebind_def elift_def ethrow_def)

lemma ebind_assoc: "ebind (ebind m k) l = ebind m (\<lambda>x. ebind (k x) l)"
  by (auto simp: ebind_def fun_eq_iff split: option.split sum.split)

lemma ebind_eq_value:
  "ebind m k w = Some (Inr y, w'') \<longleftrightarrow> (\<exists>x w'. m w = Some (Inr x, w') \<and> k x w' = Some (Inr y, w''))"
  by (auto simp: ebind_def split: option.splits sum.splits)

lemma ebind_cong [fundef_cong]:
  "m w = m' w \<Longrightarrow> (\<And>x w'. m' w = Some (Inr x, w') \<Longrightarrow> k x w' = k' x w') \<Longrightarrow> ebind m k w = ebind m' k' w"
  by (auto simp: ebind_def split: option.split sum.split)

subsection \<open>Judgements\<close>

definition sat :: "('w, 'a) eff \<Rightarrow> ('a \<Rightarrow> bool) \<Rightarrow> bool" where
  "sat m P \<longleftrightarrow> (\<forall>w x w'. m w = Some (Inr x, w') \<longrightarrow> P x)"

definition ends :: "('w, 'a) eff \<Rightarrow> bool" where
  "ends m \<longleftrightarrow> (\<forall>w. m w \<noteq> None)"

lemma sat_eret [sat_rules]: "P x \<Longrightarrow> sat (eret x) P"
  by (simp add: sat_def eret_def)

lemma sat_ethrow [sat_rules]: "sat (ethrow e) P"
  by (simp add: sat_def ethrow_def)

lemma sat_ediverge [sat_rules]: "sat ediverge P"
  by (simp add: sat_def ediverge_def)

lemma sat_elift [sat_rules]: "(\<And>x. r = Inr x \<Longrightarrow> P x) \<Longrightarrow> sat (elift r) P"
  by (simp add: sat_def elift_def)

lemma sat_ecall: "(\<And>w x w'. f w = (Inr x, w') \<Longrightarrow> P x) \<Longrightarrow> sat (ecall f) P"
  by (simp add: sat_def ecall_def)

lemma sat_ebind: "sat m Q \<Longrightarrow> (\<And>x. Q x \<Longrightarrow> sat (k x) P) \<Longrightarrow> sat (ebind m k) P"
  unfolding sat_def ebind_eq_value by blast

lemma sat_ebind_elift [sat_rules]: "(\<And>x. r = Inr x \<Longrightarrow> sat (k x) P) \<Longrightarrow> sat (ebind (elift r) k) P"
  by (rule sat_ebind [OF sat_elift])

lemma sat_ebind_any: "(\<And>x. sat (k x) P) \<Longrightarrow> sat (ebind m k) P"
  by (auto simp: sat_def ebind_eq_value)

lemma sat_ebind_world [sat_rules]:
  "(\<And>x. sat (k x) P) \<Longrightarrow> sat (ebind (eread f) k) P" "(\<And>x. sat (l x) P) \<Longrightarrow> sat (ebind (ecall g) l) P"
  by (rule sat_ebind_any, simp)+

lemma sat_weaken: "sat m Q \<Longrightarrow> (\<And>x. Q x \<Longrightarrow> P x) \<Longrightarrow> sat m P"
  by (auto simp: sat_def)

lemma sat_ecatch: "sat m P \<Longrightarrow> sat (ecatch m) (\<lambda>r. \<forall>x. r = Inr x \<longrightarrow> P x)"
  by (auto simp: sat_def ecatch_def split: option.splits)

lemma sat_try: "sat m P \<Longrightarrow> sat (tryCatchAndThrowOnEngineError m) (\<lambda>r. \<forall>x. r = Inr x \<longrightarrow> P x)"
  unfolding tryCatchAndThrowOnEngineError_def
  by (rule sat_ebind [OF sat_ecatch]) (auto split: sum.split intro: sat_rules)

lemma sat_efold:
  assumes "P s" and "\<And>s x. P s \<Longrightarrow> x \<in> set xs \<Longrightarrow> sat (f s x) P"
  shows "sat (efold f s xs) P"
  using assms
proof (induction xs arbitrary: s)
  case Nil
  then show ?case by (simp add: sat_eret)
next
  case (Cons x xs)
  have "sat (f s x) P" using Cons.prems by simp
  then show ?case unfolding efold.simps by (rule sat_ebind) (use Cons in simp)
qed

lemma sat_emap:
  assumes "\<And>x. x \<in> set xs \<Longrightarrow> sat (f x) P"
  shows "sat (emap f xs) (\<lambda>ys. length ys = length xs \<and> list_all P ys)"
  using assms
proof (induction xs)
  case Nil
  then show ?case by (simp add: sat_eret)
next
  case (Cons x xs)
  have "sat (f x) P" "sat (emap f xs) (\<lambda>ys. length ys = length xs \<and> list_all P ys)" using Cons by simp_all
  then show ?case unfolding emap.simps
    by (elim sat_ebind) (simp add: sat_eret)
qed

lemma ends_basic [ends_rules]:
  "ends (eret x)" "ends (ethrow e)" "ends (elift r)" "ends (ecall f)" "ends (eread g)"
  by (simp_all add: ends_def eret_def ethrow_def elift_def ecall_def eread_def split: prod.split)

lemma ends_ebind: "ends m \<Longrightarrow> (\<And>x. ends (k x)) \<Longrightarrow> ends (ebind m k)"
  unfolding ends_def ebind_def by (auto split: option.split sum.split)

lemma ends_ebind_sat: "ends m \<Longrightarrow> sat m Q \<Longrightarrow> (\<And>x. Q x \<Longrightarrow> ends (k x)) \<Longrightarrow> ends (ebind m k)"
  unfolding ends_def sat_def ebind_def by (force split: option.split sum.split)

lemma ends_ebind_world [ends_rules]:
  "(\<And>x. ends (k x)) \<Longrightarrow> ends (ebind (eread f) k)" "(\<And>x. ends (l x)) \<Longrightarrow> ends (ebind (ecall g) l)"
  by (rule ends_ebind, rule ends_basic, simp)+

lemma ends_ebind_elift [ends_rules]: "(\<And>x. r = Inr x \<Longrightarrow> ends (k x)) \<Longrightarrow> ends (ebind (elift r) k)"
  by (rule ends_ebind_sat [OF _ sat_elift]) (auto intro: ends_basic)

lemma ends_ecatch [ends_rules]: "ends m \<Longrightarrow> ends (ecatch m)"
  unfolding ends_def ecatch_def by (auto split: option.split)

lemma ends_try [ends_rules]: "ends m \<Longrightarrow> ends (tryCatchAndThrowOnEngineError m)"
  unfolding tryCatchAndThrowOnEngineError_def
  by (intro ends_ebind ends_rules) (auto split: sum.split intro: ends_rules)

lemma ends_efold [ends_rules]: "(\<And>s x. x \<in> set xs \<Longrightarrow> ends (f s x)) \<Longrightarrow> ends (efold f s xs)"
  by (induction xs arbitrary: s) (auto intro: ends_ebind ends_basic)

lemma ends_emap [ends_rules]: "(\<And>x. x \<in> set xs \<Longrightarrow> ends (f x)) \<Longrightarrow> ends (emap f xs)"
  by (induction xs) (auto intro!: ends_ebind ends_basic)

end
