(* ===== verification/Engine_Context.thy ===== *)
theory Engine_Context
  imports Effects Execution_Journal Journal_Laws JS_Number
begin

text \<open>
  The state of a run: \<open>handler/context/workflow-execution-context.ts\<close> and \<open>step-execution-path.ts\<close> of
  \<open>server/engine\<close>, with \<open>helper/sizeof.ts\<close> and \<open>helper/logging-utils.ts\<close> for the size of the log.

  The context is immutable in the source; each method returns a new one. The cache of downloaded slices
  only saves repeated downloads and has no field here, nor has \<open>stepNameToTest\<close>, which no method of the
  context reads. The functions of the language that the model leaves open are the fields of \<open>language\<close>,
  the outside world those of \<open>runtime\<close>, the process environment is \<open>process_env\<close>.
\<close>

subsection \<open>Language and environment\<close>

record language =
  numText :: "rat \<Rightarrow> string"              \<comment> \<open>\<open>String(number)\<close>\<close>
  jsonParse :: "string \<Rightarrow> json option"     \<comment> \<open>\<open>JSON.parse\<close>, \<open>None\<close> when it throws\<close>
  parseDate :: "json \<Rightarrow> int option"        \<comment> \<open>\<open>dayjs(value)\<close> in milliseconds, \<open>None\<close> when invalid\<close>
  formatError :: "error \<Rightarrow> string"         \<comment> \<open>\<open>utils.formatError\<close>\<close>

record process_env =
  SLICE_THRESHOLD_KB :: "string option"
  INPUT_TRUNCATE_THRESHOLD_KB :: "string option"
  MAX_EXECUTION_LOG_SIZE_MB :: "string option"
  MAX_NODES_PER_RUN :: "string option"
  STEP_TIMEOUT_SECONDS :: "string option"
  MAX_STEP_PAYLOAD_MB :: "string option"

fun num_le :: "rat \<Rightarrow> js_num \<Rightarrow> bool" where
  "num_le q NaN = False"
| "num_le q (Inf p) = p"
| "num_le q (Fin r) = (q \<le> r)"

fun num_gt :: "rat \<Rightarrow> js_num \<Rightarrow> bool" where
  "num_gt q NaN = False"
| "num_gt q (Inf p) = (\<not> p)"
| "num_gt q (Fin r) = (r < q)"

text \<open>\<open>v * c + d\<close> for a positive factor.\<close>

fun num_affine :: "rat \<Rightarrow> rat \<Rightarrow> js_num \<Rightarrow> js_num" where
  "num_affine c d NaN = NaN"
| "num_affine c d (Inf p) = Inf p"
| "num_affine c d (Fin r) = Fin (r * c + d)"

fun num_string :: "language \<Rightarrow> js_num \<Rightarrow> string" where
  "num_string L NaN = ''NaN''"
| "num_string L (Inf p) = (if p then ''Infinity'' else ''-Infinity'')"
| "num_string L (Fin r) = numText L r"

definition SLICE_THRESHOLD_BYTES :: "process_env \<Rightarrow> js_num" where
  "SLICE_THRESHOLD_BYTES env = num_affine 1024 0 (case SLICE_THRESHOLD_KB env of None \<Rightarrow> Fin 32 | Some s \<Rightarrow> js_number s)"

definition INPUT_TRUNCATE_THRESHOLD_BYTES :: "process_env \<Rightarrow> js_num" where
  "INPUT_TRUNCATE_THRESHOLD_BYTES env =
     num_affine 1024 0 (case INPUT_TRUNCATE_THRESHOLD_KB env of None \<Rightarrow> Fin 2 | Some s \<Rightarrow> js_number s)"

definition MAX_LOG_SIZE :: "process_env \<Rightarrow> js_num" where
  "MAX_LOG_SIZE env = num_affine (1024 * 1024) 0 (case MAX_EXECUTION_LOG_SIZE_MB env of None \<Rightarrow> Fin 50 | Some s \<Rightarrow> js_number s)"

definition MAX_SIZE_FOR_ALL_ENTRIES :: "process_env \<Rightarrow> js_num" where
  "MAX_SIZE_FOR_ALL_ENTRIES env = num_affine 1 (- (256 * 1024)) (MAX_LOG_SIZE env)"

definition isWithinSizeLimit :: "process_env \<Rightarrow> rat \<Rightarrow> bool" where
  "isWithinSizeLimit env logSizeBytes = num_le logSizeBytes (MAX_SIZE_FOR_ALL_ENTRIES env)"

subsection \<open>JSON text and its size\<close>

fun intercalate :: "string \<Rightarrow> string list \<Rightarrow> string" where
  "intercalate sep [] = []"
| "intercalate sep [x] = x"
| "intercalate sep (x # y # ys) = x @ sep @ intercalate sep (y # ys)"

definition hex_digit :: "nat \<Rightarrow> char" where
  "hex_digit d = (if d < 10 then char_of (48 + d) else char_of (87 + d))"

definition json_escape :: "char \<Rightarrow> string" where
  "json_escape c =
     (let n = (of_char c :: nat) in
      if n = 34 then [CHR 0x5C, CHR 0x22]
      else if n = 92 then [CHR 0x5C, CHR 0x5C]
      else if n = 8 then [CHR 0x5C, CHR ''b'']
      else if n = 12 then [CHR 0x5C, CHR ''f'']
      else if n = 10 then [CHR 0x5C, CHR ''n'']
      else if n = 13 then [CHR 0x5C, CHR ''r'']
      else if n = 9 then [CHR 0x5C, CHR ''t'']
      else if n < 32 then [CHR 0x5C, CHR ''u'', CHR ''0'', CHR ''0'', hex_digit (n div 16), hex_digit (n mod 16)]
      else [c])"

definition json_quote :: "string \<Rightarrow> string" where
  "json_quote s = [CHR 0x22] @ concat (map json_escape s) @ [CHR 0x22]"

text \<open>\<open>JSON.stringify\<close> of a defined value.\<close>

fun stringify :: "language \<Rightarrow> json \<Rightarrow> string" where
  "stringify L JNull = ''null''"
| "stringify L (JBool b) = (if b then ''true'' else ''false'')"
| "stringify L (JNum q) = numText L q"
| "stringify L (JStr s) = json_quote s"
| "stringify L (JArr xs) = ''['' @ intercalate '','' (map (stringify L) xs) @ '']''"
| "stringify L (JObj o') = ''{'' @ intercalate '','' (map (\<lambda>(k, v). json_quote k @ '':'' @ stringify L v) o') @ ''}''"

definition utf8Length :: "string \<Rightarrow> nat" where
  "utf8Length s = sum_list (map (\<lambda>c. if (of_char c :: nat) < 128 then 1 else 2) s)"

definition sizeof :: "language \<Rightarrow> json \<Rightarrow> nat" where
  "sizeof L v = utf8Length (stringify L v)"

definition entry_size :: "language \<Rightarrow> string \<Rightarrow> rat \<Rightarrow> rat" where
  "entry_size L k n = of_nat (sizeof L (JStr k)) + 1 + n + 1"

definition isSliceRefShape :: "json option \<Rightarrow> rat option" where
  "isSliceRefShape v = (case v of
      Some (JObj r) \<Rightarrow> (case map_of r ''size'' of Some (JNum n) \<Rightarrow> Some n | _ \<Rightarrow> None)
    | _ \<Rightarrow> None)"

fun recursiveSizeof :: "language \<Rightarrow> json \<Rightarrow> rat" where
  "recursiveSizeof L (JArr xs) = 2 + sum_list (map (\<lambda>x. recursiveSizeof L x + 1) xs)"
| "recursiveSizeof L (JObj o') =
     (case (if map_of o' ''outputType'' = Some (JStr ''slice'') then isSliceRefShape (map_of o' ''output'') else None) of
        Some n \<Rightarrow> 2 + sum_list (map (\<lambda>(k, v). if k = ''output'' then 0 else entry_size L k (recursiveSizeof L v)) o') + n
      | None \<Rightarrow> 2 + sum_list (map (\<lambda>(k, v). entry_size L k (recursiveSizeof L v)) o'))"
| "recursiveSizeof L v = of_nat (sizeof L v)"

text \<open>An undefined property has the size of the empty text.\<close>

definition opt_size :: "language \<Rightarrow> json option \<Rightarrow> rat" where
  "opt_size L v = (case v of None \<Rightarrow> 0 | Some j \<Rightarrow> recursiveSizeof L j)"

fun status_text :: "StepOutputStatus \<Rightarrow> string" where
  "status_text StepFAILED = ''FAILED''"
| "status_text StepPAUSED = ''PAUSED''"
| "status_text StepRUNNING = ''RUNNING''"
| "status_text StepSTOPPED = ''STOPPED''"
| "status_text StepSUCCEEDED = ''SUCCEEDED''"

fun step_type_text :: "step_type \<Rightarrow> string" where
  "step_type_text CODE = ''CODE''"
| "step_type_text COMPONENT = ''COMPONENT''"
| "step_type_text CONNECTOR = ''CONNECTOR''"
| "step_type_text LOOP_ON_ITEMS = ''LOOP_ON_ITEMS''"
| "step_type_text ROUTER = ''ROUTER''"
| "step_type_text PARALLEL = ''PARALLEL''"
| "step_type_text EMPTY = ''EMPTY''"
| "step_type_text CONNECTOR_TRIGGER = ''CONNECTOR_TRIGGER''"

text \<open>The own properties of a \<open>GenericStepOutput\<close> other than \<open>output\<close>: the constructor assigns each of them.\<close>

definition sizeofStepShell :: "language \<Rightarrow> step_type \<Rightarrow> BaseStepOutput \<Rightarrow> rat" where
  "sizeofStepShell L t b = 2
     + entry_size L ''type'' (recursiveSizeof L (JStr (step_type_text t)))
     + entry_size L ''status'' (recursiveSizeof L (JStr (status_text (status b))))
     + entry_size L ''input'' (opt_size L (stepInput b))
     + entry_size L ''outputType'' (opt_size L (if sliced b then Some (JStr ''slice'') else None))
     + entry_size L ''duration'' (opt_size L (map_option JNum (duration b)))
     + entry_size L ''errorMessage'' (opt_size L (map_option JStr (errorMessage b)))"

fun stepSizeof :: "language \<Rightarrow> StepOutput \<Rightarrow> rat"
  and journalSizeof :: "language \<Rightarrow> journal \<Rightarrow> rat"
  and iterationsSizeof :: "language \<Rightarrow> journal list \<Rightarrow> rat" where
  "stepSizeof L (ActionOutput t b v) =
     (case (if sliced b then isSliceRefShape v else None) of
        Some n \<Rightarrow> sizeofStepShell L t b + n
      | None \<Rightarrow> sizeofStepShell L t b + entry_size L ''output'' (opt_size L v))"
| "stepSizeof L (LoopOutput b None) = sizeofStepShell L LOOP_ON_ITEMS b + entry_size L ''output'' 0"
| "stepSizeof L (LoopOutput b (Some (LoopStepResult v i its))) =
     sizeofStepShell L LOOP_ON_ITEMS b + entry_size L ''output'' (2
       + entry_size L ''item'' (opt_size L v)
       + entry_size L ''index'' (recursiveSizeof L (JNum (of_nat i)))
       + entry_size L ''iterations'' (iterationsSizeof L its))"
| "journalSizeof L [] = 2"
| "journalSizeof L ((n, out) # rest) = journalSizeof L rest + entry_size L n (stepSizeof L out)"
| "iterationsSizeof L [] = 2"
| "iterationsSizeof L (it # its) = iterationsSizeof L its + journalSizeof L it + 1"

definition upsertStepDelta :: "language \<Rightarrow> string \<Rightarrow> StepOutput option \<Rightarrow> StepOutput \<Rightarrow> rat" where
  "upsertStepDelta L name prev next = (case prev of
      None \<Rightarrow> of_nat (sizeof L (JStr name)) + 2 + stepSizeof L next
    | Some p \<Rightarrow> stepSizeof L next - stepSizeof L p)"

definition EMPTY_STEPS_SIZE_BYTES :: rat where
  "EMPTY_STEPS_SIZE_BYTES = 2"

subsection \<open>Truncated inputs\<close>

definition js_round :: "rat \<Rightarrow> int" where
  "js_round q = \<lfloor>q + 1 / 2\<rfloor>"

text \<open>\<open>toFixed(1)\<close> of a number that is not negative.\<close>

definition toFixed1 :: "rat \<Rightarrow> string" where
  "toFixed1 q = (let n = nat (js_round (q * 10)) in show_nat (n div 10) @ ''.'' @ show_nat (n mod 10))"

definition formatSize :: "nat \<Rightarrow> string" where
  "formatSize bytes = (let kb = (of_nat bytes :: rat) / 1024 in
     if kb < 1024 then show_nat (nat (js_round kb)) @ '' KB'' else toFixed1 (kb / 1024) @ '' MB'')"

definition maybeTruncateInput :: "language \<Rightarrow> process_env \<Rightarrow> json \<Rightarrow> json" where
  "maybeTruncateInput L env v = (case v of
      JObj o' \<Rightarrow> JObj (map (\<lambda>(k, x). (k,
        if num_gt (of_nat (sizeof L x)) (INPUT_TRUNCATE_THRESHOLD_BYTES env)
        then JStr (''(truncated, original size '' @ formatSize (sizeof L x) @ '')'') else x)) o')
    | _ \<Rightarrow> v)"

definition withTruncatedInput :: "language \<Rightarrow> process_env \<Rightarrow> StepOutput \<Rightarrow> StepOutput" where
  "withTruncatedInput L env = map_output (\<lambda>b. b\<lparr>stepInput := map_option (maybeTruncateInput L env) (stepInput b)\<rparr>)"

subsection \<open>The context\<close>

record FailedStep =
  failedName :: string
  failedDisplayName :: string
  failedMessage :: string

datatype WorkflowVerdict =
    VerdictPaused
  | VerdictSucceeded "json option"
  | VerdictFailed FailedStep
  | VerdictLogSizeExceeded FailedStep
  | VerdictRunning

fun verdict_status :: "WorkflowVerdict \<Rightarrow> ExecutionStatus" where
  "verdict_status VerdictPaused = RunPAUSED"
| "verdict_status (VerdictSucceeded _) = RunSUCCEEDED"
| "verdict_status (VerdictFailed _) = RunFAILED"
| "verdict_status (VerdictLogSizeExceeded _) = RunLOG_SIZE_EXCEEDED"
| "verdict_status VerdictRunning = RunRUNNING"

datatype ReliabilityEventKind = RATE_LIMIT_QUEUED | AUTO_RETRY | RETRY_WITHHELD | CATCH_UP

record PendingReliabilityEvent =
  eventKind :: ReliabilityEventKind
  eventErrorCode :: "string option"
  eventReason :: "string option"
  eventConnector :: "string option"
  waitSeconds :: "int option"

record ReliabilityEventReport = PendingReliabilityEvent +
  reportKey :: string
  reportStep :: string
  reportWorkflow :: string

record WorkflowExecutorContext =
  tags :: "string list"
  steps :: journal
  verdict :: WorkflowVerdict
  currentPath :: journal_path
  stepsCount :: nat
  reliabilityEvents :: "ReliabilityEventReport list"
  engineApi :: bool
  slicingEnabled :: bool
  logSizeBytes :: rat
  runDuration :: rat

record 'w runtime =
  perfNow :: "'w \<Rightarrow> rat \<times> 'w"                                \<comment> \<open>\<open>performance.now()\<close>\<close>
  dateNow :: "'w \<Rightarrow> int \<times> 'w"                                \<comment> \<open>\<open>Date.now()\<close>\<close>
  uploadSlice :: "string \<Rightarrow> 'w \<Rightarrow> (string \<times> string) result \<times> 'w"  \<comment> \<open>\<open>engineFileApi.upload\<close>: file id and read url\<close>
  downloadSlice :: "string \<Rightarrow> 'w \<Rightarrow> json result \<times> 'w"          \<comment> \<open>\<open>engineFileApi.download\<close> and \<open>JSON.parse\<close>\<close>
  sendUpdate :: "WorkflowExecutorContext \<Rightarrow> string option \<Rightarrow> 'w \<Rightarrow> unit result \<times> 'w"  \<comment> \<open>\<open>executionProgressReporter.sendUpdate\<close>\<close>

definition emptyContext :: "bool \<Rightarrow> bool \<Rightarrow> WorkflowExecutorContext" where
  "emptyContext api slicing = \<lparr>tags = [], steps = [], verdict = VerdictRunning, currentPath = [], stepsCount = 0,
     reliabilityEvents = [], engineApi = api, slicingEnabled = slicing, logSizeBytes = EMPTY_STEPS_SIZE_BYTES, runDuration = -1\<rparr>"

definition loopIteration :: "string \<Rightarrow> nat \<Rightarrow> journal_path \<Rightarrow> journal_path" where
  "loopIteration loopName i p = p @ [(loopName, i)]"

definition removeLast :: "journal_path \<Rightarrow> journal_path" where
  "removeLast p = butlast p"

definition finishExecution :: "WorkflowExecutorContext \<Rightarrow> WorkflowExecutorContext" where
  "finishExecution c = (if verdict_status (verdict c) = RunRUNNING then c\<lparr>verdict := VerdictSucceeded None\<rparr> else c)"

definition getLoopStepOutput :: "string \<Rightarrow> WorkflowExecutorContext \<Rightarrow> StepOutput option result" where
  "getLoopStepOutput name c = rbind (getStateAtPath (currentPath c) (steps c)) (\<lambda>s.
     case map_of s name of
       None \<Rightarrow> Inr None
     | Some (ActionOutput _ _ _) \<Rightarrow> Inl (PlainError ''stepOutput.type and LOOP_ON_ITEMS should be equal'')
     | Some (LoopOutput b r) \<Rightarrow> Inr (Some (loop_object (LoopOutput b r))))"

definition isCompleted :: "string \<Rightarrow> WorkflowExecutorContext \<Rightarrow> bool result" where
  "isCompleted name c = rbind (getStateAtPath (currentPath c) (steps c)) (\<lambda>s.
     Inr (case map_of s name of None \<Rightarrow> False | Some out \<Rightarrow> status (output_base out) \<noteq> StepPAUSED))"

definition isPaused :: "string \<Rightarrow> WorkflowExecutorContext \<Rightarrow> bool result" where
  "isPaused name c = rbind (getStateAtPath (currentPath c) (steps c)) (\<lambda>s.
     Inr (case map_of s name of None \<Rightarrow> False | Some out \<Rightarrow> status (output_base out) = StepPAUSED))"

definition addTags :: "string list \<Rightarrow> WorkflowExecutorContext \<Rightarrow> WorkflowExecutorContext" where
  "addTags ts c = c\<lparr>tags := rev (remdups (rev (tags c @ ts)))\<rparr>"

definition getStepOutput :: "string \<Rightarrow> WorkflowExecutorContext \<Rightarrow> StepOutput option result" where
  "getStepOutput name c = getStepAt name (currentPath c) (steps c)"

definition setCurrentPath :: "journal_path \<Rightarrow> WorkflowExecutorContext \<Rightarrow> WorkflowExecutorContext" where
  "setCurrentPath p c = c\<lparr>currentPath := p\<rparr>"

definition setVerdict :: "WorkflowVerdict \<Rightarrow> WorkflowExecutorContext \<Rightarrow> WorkflowExecutorContext" where
  "setVerdict v c = c\<lparr>verdict := v\<rparr>"

definition setRunDuration :: "rat \<Rightarrow> WorkflowExecutorContext \<Rightarrow> WorkflowExecutorContext" where
  "setRunDuration d c = c\<lparr>runDuration := d\<rparr>"

definition incrementStepsExecuted :: "WorkflowExecutorContext \<Rightarrow> WorkflowExecutorContext" where
  "incrementStepsExecuted c = c\<lparr>stepsCount := Suc (stepsCount c)\<rparr>"

text \<open>The reference stored for an output whose text is over the threshold.\<close>

definition maybeSliceOutput ::
  "language \<Rightarrow> process_env \<Rightarrow> 'w runtime \<Rightarrow> bool \<Rightarrow> json option \<Rightarrow> ('w, json option) eff" where
  "maybeSliceOutput L env rt api v = (case v of
      None \<Rightarrow> eret None
    | Some j \<Rightarrow>
        if j = JNull \<or> \<not> api \<or> num_le (of_nat (sizeof L j)) (SLICE_THRESHOLD_BYTES env) then eret None
        else ebind (ecall (uploadSlice rt (stringify L j))) (\<lambda>(fileId, url).
             eret (Some (JObj [(''fileId'', JStr fileId), (''size'', JNum (of_nat (sizeof L j))), (''url'', JStr url)]))))"

definition finalize_output ::
  "language \<Rightarrow> process_env \<Rightarrow> 'w runtime \<Rightarrow> WorkflowExecutorContext \<Rightarrow> StepOutput \<Rightarrow> ('w, StepOutput) eff" where
  "finalize_output L env rt c out = (case withTruncatedInput L env out of
      LoopOutput b r \<Rightarrow> eret (LoopOutput b r)
    | ActionOutput t b v \<Rightarrow>
        if sliced b then eret (ActionOutput t b v)
        else ebind (if slicingEnabled c then maybeSliceOutput L env rt (engineApi c) v else eret None) (\<lambda>ref.
             eret (case ref of
                 None \<Rightarrow> ActionOutput t b v
               | Some r \<Rightarrow> ActionOutput t (b\<lparr>sliced := True\<rparr>) (Some r))))"

definition store_output :: "language \<Rightarrow> string \<Rightarrow> StepOutput \<Rightarrow> WorkflowExecutorContext \<Rightarrow> WorkflowExecutorContext result" where
  "store_output L name out c =
     rbind (getStepAt name (currentPath c) (steps c)) (\<lambda>previousStep.
     rbind (upsertStep name out (currentPath c) (steps c) False) (\<lambda>s.
     Inr (c\<lparr>steps := s, logSizeBytes := logSizeBytes c + upsertStepDelta L name previousStep out\<rparr>)))"

definition ctx_upsertStep ::
  "language \<Rightarrow> process_env \<Rightarrow> 'w runtime \<Rightarrow> string \<Rightarrow> StepOutput \<Rightarrow> WorkflowExecutorContext \<Rightarrow> ('w, WorkflowExecutorContext) eff" where
  "ctx_upsertStep L env rt name out c =
     ebind (finalize_output L env rt c out) (\<lambda>finalized. elift (store_output L name finalized c))"

definition event_kind_text :: "ReliabilityEventKind \<Rightarrow> string" where
  "event_kind_text k = (case k of RATE_LIMIT_QUEUED \<Rightarrow> ''RATE_LIMIT_QUEUED'' | AUTO_RETRY \<Rightarrow> ''AUTO_RETRY''
     | RETRY_WITHHELD \<Rightarrow> ''RETRY_WITHHELD'' | CATCH_UP \<Rightarrow> ''CATCH_UP'')"

definition eventKey :: "string \<Rightarrow> string \<Rightarrow> journal_path \<Rightarrow> ReliabilityEventKind \<Rightarrow> string \<Rightarrow> string" where
  "eventKey executionId stepName path k sequence = intercalate '':''
     [executionId, stepName, intercalate ''/'' (map (\<lambda>(n, i). n @ ''.'' @ show_nat i) path), event_kind_text k, sequence]"

definition withReliabilityEvents ::
  "language \<Rightarrow> 'w runtime \<Rightarrow> PendingReliabilityEvent list \<Rightarrow> string \<Rightarrow> string \<Rightarrow> string \<Rightarrow> WorkflowExecutorContext \<Rightarrow> ('w, WorkflowExecutorContext) eff" where
  "withReliabilityEvents L rt events stepName executionId wid c =
     (if events = [] then eret c
      else ebind (eread (dateNow rt)) (\<lambda>stamp. eret (c\<lparr>reliabilityEvents := reliabilityEvents c @
        map (\<lambda>(i, ev). \<lparr>eventKind = eventKind ev, eventErrorCode = eventErrorCode ev, eventReason = eventReason ev,
               eventConnector = eventConnector ev, waitSeconds = waitSeconds ev,
               reportKey = eventKey executionId stepName (currentPath c) (eventKind ev) (numText L (of_int stamp) @ ''-'' @ show_nat i),
               reportStep = stepName, reportWorkflow = wid\<rparr>) (enumerate 0 events)\<rparr>)))"

subsection \<open>Views of earlier steps\<close>

text \<open>The journals along the path, innermost last; a missing iteration is pushed as it is.\<close>

definition no_loop_output :: error where
  "no_loop_output = EngineGenericError ''NotInstanceOfLoopOnItemsStepOutputError''
     ''[ExecutionState#getTargetMap] Not instance of Loop On Items step output''"

fun step_maps :: "journal_path \<Rightarrow> journal option \<Rightarrow> journal option list result" where
  "step_maps [] target = Inr []"
| "step_maps ((loopName, i) # path) None = Inl (TypeError ''Cannot read properties of undefined'')"
| "step_maps ((loopName, i) # path) (Some target) =
     (case map_of target loopName of
        Some (LoopOutput b (Some r)) \<Rightarrow>
          (let next = array_at (iterations r) i in rbind (step_maps path next) (\<lambda>ms. Inr (next # ms)))
      | _ \<Rightarrow> Inl no_loop_output)"

definition stepMapsAlongPath :: "WorkflowExecutorContext \<Rightarrow> journal option list result" where
  "stepMapsAlongPath c = rbind (step_maps (currentPath c) (Some (steps c))) (\<lambda>ms. Inr (Some (steps c) # ms))"

fun innermost_step :: "string \<Rightarrow> journal option list \<Rightarrow> StepOutput option result" where
  "innermost_step name [] = Inr None"
| "innermost_step name (None # ms) = Inl (TypeError ''Cannot read properties of undefined'')"
| "innermost_step name (Some m # ms) = (case map_of m name of Some out \<Rightarrow> Inr (Some out) | None \<Rightarrow> innermost_step name ms)"

text \<open>Outputs as JSON values, the way a template reads them; an undefined property is absent.\<close>

definition opt_entry :: "string \<Rightarrow> json option \<Rightarrow> json_obj" where
  "opt_entry k v = (case v of None \<Rightarrow> [] | Some j \<Rightarrow> [(k, j)])"

definition shell_entries :: "step_type \<Rightarrow> BaseStepOutput \<Rightarrow> json option \<Rightarrow> json_obj" where
  "shell_entries t b v = [(''type'', JStr (step_type_text t)), (''status'', JStr (status_text (status b)))]
     @ opt_entry ''input'' (stepInput b) @ opt_entry ''output'' v
     @ opt_entry ''outputType'' (if sliced b then Some (JStr ''slice'') else None)
     @ opt_entry ''duration'' (map_option JNum (duration b)) @ opt_entry ''errorMessage'' (map_option JStr (errorMessage b))"

fun output_json :: "StepOutput \<Rightarrow> json option"
  and step_entries :: "journal \<Rightarrow> json_obj"
  and iteration_values :: "journal list \<Rightarrow> json list" where
  "output_json (ActionOutput t b v) = v"
| "output_json (LoopOutput b None) = None"
| "output_json (LoopOutput b (Some (LoopStepResult v i its))) =
     Some (JObj (opt_entry ''item'' v @ [(''index'', JNum (of_nat i)), (''iterations'', JArr (iteration_values its))]))"
| "step_entries [] = []"
| "step_entries ((n, out) # rest) =
     (n, JObj (shell_entries (case out of LoopOutput _ _ \<Rightarrow> LOOP_ON_ITEMS | ActionOutput t _ _ \<Rightarrow> t) (output_base out) (output_json out)))
     # step_entries rest"
| "iteration_values [] = []"
| "iteration_values (it # its) = JObj (step_entries it) # iteration_values its"

definition resolveStepOutput :: "'w runtime \<Rightarrow> bool \<Rightarrow> StepOutput \<Rightarrow> ('w, json option) eff" where
  "resolveStepOutput rt api out =
     (if \<not> sliced (output_base out) then eret (output_json out)
      else if \<not> api then ethrow (EngineGenericError ''MissingEngineApiConfigError'' ''Cannot materialize log slice ref without engine api config'')
      else case output_json out of
          Some (JObj r) \<Rightarrow> (case map_of r ''fileId'' of
              Some (JStr f) \<Rightarrow> ebind (ecall (downloadSlice rt f)) (\<lambda>v. eret (Some v))
            | _ \<Rightarrow> ethrow (TypeError ''fileId''))
        | _ \<Rightarrow> ethrow (TypeError ''fileId''))"

record StepView =
  viewOutput :: "json option"
  viewError :: "string option"

definition getStepView :: "'w runtime \<Rightarrow> string \<Rightarrow> WorkflowExecutorContext \<Rightarrow> ('w, StepView option) eff" where
  "getStepView rt name c =
     ebind (elift (stepMapsAlongPath c)) (\<lambda>ms.
     ebind (elift (innermost_step name (rev ms))) (\<lambda>found. case found of
        None \<Rightarrow> eret None
      | Some out \<Rightarrow> ebind (resolveStepOutput rt (engineApi c) out) (\<lambda>v.
          eret (Some \<lparr>viewOutput = v,
            viewError = (if status (output_base out) = StepFAILED then errorMessage (output_base out) else None)\<rparr>))))"

end
