(* ===== verification/Engine_Log_Size.thy ===== *)
theory Engine_Log_Size
  imports Engine_Context
begin

text \<open>
  The context never measures the whole journal: \<open>upsertStep\<close> adds the difference that one write makes.
  The lemmas here show that the running total is the size of the journal.
\<close>

lemma entry_size_diff: "entry_size L k (n + d) = entry_size L k n + d"
  by (simp add: entry_size_def)

lemma journalSizeof_update:
  "journalSizeof L (AList.update k v r) = journalSizeof L r + upsertStepDelta L k (map_of r k) v"
  by (induction r) (auto simp: upsertStepDelta_def entry_size_def)

lemma iterationsSizeof_update:
  "i < length its \<Longrightarrow> iterationsSizeof L (its[i := it]) = iterationsSizeof L its + (journalSizeof L it - journalSizeof L (its ! i))"
proof (induction its arbitrary: i)
  case Nil
  then show ?case by simp
next
  case (Cons x xs)
  then show ?case by (cases i) (simp_all add: algebra_simps)
qed

lemma loop_iterations_update:
  "i < length (iterations r) \<Longrightarrow> stepSizeof L (LoopOutput b (Some (LoopStepResult (loopItem r) (loopIndex r) ((iterations r)[i := it]))))
       = stepSizeof L (LoopOutput b (Some r)) + (journalSizeof L it - journalSizeof L (iterations r ! i))"
  by (cases r) (simp add: iterationsSizeof_update entry_size_def)

lemma upsert_size:
  "upsertStep name out path j False = Inr j' \<Longrightarrow> walk full path j = Inr s \<Longrightarrow>
   journalSizeof L j' = journalSizeof L j + upsertStepDelta L name (map_of s name) out"
proof (induction path arbitrary: j j')
  case Nil
  then show ?case by (auto simp: journalSizeof_update)
next
  case (Cons x path)
  obtain parent i where x: "x = (parent, i)" by (cases x)
  from Cons.prems(1) [unfolded x] obtain b r it where m: "map_of j parent = Some (LoopOutput b (Some r))"
    and i: "i < length (iterations r)" and it: "upsertStep name out path (iterations r ! i) False = Inr it"
    and st: "j' = AList.update parent (LoopOutput b (Some (LoopStepResult (loopItem r) (loopIndex r) ((iterations r)[i := it])))) j"
    by (rule upsert_inner)
  have "walk full path (iterations r ! i) = Inr s"
    using Cons.prems(2) i by (simp add: x m loop_iterations_def array_at_def)
  from Cons.IH [OF it this] show ?case
    by (simp add: st journalSizeof_update m upsertStepDelta_def loop_iterations_update [OF i] del: stepSizeof.simps)
qed

lemma store_output_size:
  assumes "store_output L name out c = Inr c'"
  shows "logSizeBytes c' - journalSizeof L (steps c') = logSizeBytes c - journalSizeof L (steps c)"
proof -
  obtain s s' where "walk (currentPath c) (currentPath c) (steps c) = Inr s"
    and "upsertStep name out (currentPath c) (steps c) False = Inr s'"
    and "c' = c\<lparr>steps := s', logSizeBytes := logSizeBytes c + upsertStepDelta L name (map_of s name) out\<rparr>"
    using assms by (auto simp: store_output_def getStepAt_def getStateAtPath_def rbind_eq_Inr)
  then show ?thesis using upsert_size by fastforce
qed

end
