(* ===== verification/Router_Conditions.thy ===== *)
theory Router_Conditions
  imports Engine_Context
begin

text \<open>
  The conditions of router branches: \<open>evaluateConditions\<close>, \<open>CONDITION_EVALUATORS\<close> and their helpers in
  \<open>handler/router-executor.ts\<close> of \<open>server/engine\<close>.

  A condition is evaluated after its templates are resolved, so its operands are arbitrary values;
  \<open>None\<close> is \<open>undefined\<close>. The evaluators throw the type errors of the language where they read a property
  of \<open>undefined\<close>.
\<close>

record ConditionValues =
  cFirst :: "json option"
  cSecond :: "json option"
  cCaseSensitive :: bool

record ResolvedCondition = ConditionValues +
  cOperator :: "BranchOperator option"

datatype ResolvedBranch =
    ResolvedConditionBranch (resolvedBranchName: string) (resolvedConditions: "ResolvedCondition list list")
  | ResolvedFallback (resolvedBranchName: string)

subsection \<open>Conversions of the language\<close>

text \<open>\<open>toLowerCase\<close> on the code units below 256.\<close>

definition js_lower :: "char \<Rightarrow> char" where
  "js_lower c = (let n = (of_char c :: nat) in
     if (65 \<le> n \<and> n \<le> 90) \<or> (192 \<le> n \<and> n \<le> 222 \<and> n \<noteq> 215) then char_of (n + 32) else c)"

text \<open>\<open>String(value)\<close>; an array joins its elements, \<open>null\<close> among them as the empty text.\<close>

fun js_String :: "language \<Rightarrow> json \<Rightarrow> string" where
  "js_String L JNull = ''null''"
| "js_String L (JBool b) = (if b then ''true'' else ''false'')"
| "js_String L (JNum q) = numText L q"
| "js_String L (JStr s) = s"
| "js_String L (JArr xs) = intercalate '','' (map (\<lambda>x. if x = JNull then [] else js_String L x) xs)"
| "js_String L (JObj _) = ''[object Object]''"

fun js_Number :: "language \<Rightarrow> json \<Rightarrow> js_num" where
  "js_Number L JNull = Fin 0"
| "js_Number L (JBool b) = Fin (if b then 1 else 0)"
| "js_Number L (JNum q) = Fin q"
| "js_Number L (JStr s) = js_number s"
| "js_Number L (JArr xs) = js_number (js_String L (JArr xs))"
| "js_Number L (JObj _) = NaN"

datatype number_or_text = NumberValue js_num | TextValue string

definition parseStringToNumber :: "language \<Rightarrow> json option \<Rightarrow> number_or_text" where
  "parseStringToNumber L v = (case v of
      None \<Rightarrow> TextValue ''undefined''
    | Some j \<Rightarrow> (case js_Number L j of NaN \<Rightarrow> TextValue (js_String L j) | n \<Rightarrow> NumberValue n))"

fun text_less :: "string \<Rightarrow> string \<Rightarrow> bool" where
  "text_less s [] = False"
| "text_less [] (d # ds) = True"
| "text_less (c # cs) (d # ds) =
     ((of_char c :: nat) < of_char d \<or> (c = d \<and> text_less cs ds))"

fun num_less :: "js_num \<Rightarrow> js_num \<Rightarrow> bool" where
  "num_less (Fin a) (Fin b) = (a < b)"
| "num_less (Fin a) (Inf p) = p"
| "num_less (Inf p) (Fin b) = (\<not> p)"
| "num_less (Inf p) (Inf q) = (\<not> p \<and> q)"
| "num_less _ _ = False"

text \<open>\<open>a < b\<close> and \<open>a == b\<close>: a text that is no number compares with a number as \<open>NaN\<close>.\<close>

fun js_less :: "number_or_text \<Rightarrow> number_or_text \<Rightarrow> bool" where
  "js_less (NumberValue a) (NumberValue b) = num_less a b"
| "js_less (TextValue s) (TextValue t) = text_less s t"
| "js_less (NumberValue a) (TextValue t) = num_less a (js_number t)"
| "js_less (TextValue s) (NumberValue b) = num_less (js_number s) b"

definition num_eq :: "js_num \<Rightarrow> js_num \<Rightarrow> bool" where
  "num_eq a b \<longleftrightarrow> a = b \<and> a \<noteq> NaN"

fun js_equal :: "number_or_text \<Rightarrow> number_or_text \<Rightarrow> bool" where
  "js_equal (NumberValue a) (NumberValue b) = num_eq a b"
| "js_equal (TextValue s) (TextValue t) = (s = t)"
| "js_equal (NumberValue a) (TextValue t) = num_eq a (js_number t)"
| "js_equal (TextValue s) (NumberValue b) = num_eq (js_number s) b"

text \<open>\<open>!!value\<close>\<close>

fun js_truth :: "json option \<Rightarrow> bool" where
  "js_truth None = False"
| "js_truth (Some JNull) = False"
| "js_truth (Some (JBool b)) = b"
| "js_truth (Some (JNum q)) = (q \<noteq> 0)"
| "js_truth (Some (JStr s)) = (s \<noteq> [])"
| "js_truth (Some (JArr _)) = True"
| "js_truth (Some (JObj _)) = True"

fun contains_text :: "string \<Rightarrow> string \<Rightarrow> bool" where
  "contains_text [] p = (p = [])"
| "contains_text (c # cs) p = (starts_with (c # cs) p \<or> contains_text cs p)"

definition ends_with_text :: "string \<Rightarrow> string \<Rightarrow> bool" where
  "ends_with_text s p = starts_with (rev s) (rev p)"

subsection \<open>Evaluators\<close>

text \<open>
  \<open>text(value, condition)\<close>: \<open>JSON.stringify(undefined)\<close> is \<open>undefined\<close>, which has no \<open>toLowerCase\<close>; with
  case sensitivity it is passed on.
\<close>

definition cond_text :: "language \<Rightarrow> ConditionValues \<Rightarrow> json option \<Rightarrow> string option result" where
  "cond_text L c v = (case v of
      None \<Rightarrow> if cCaseSensitive c then Inr None else Inl (TypeError ''Cannot read properties of undefined (reading toLowerCase)'')
    | Some j \<Rightarrow> (let s = (case j of JStr t \<Rightarrow> t | _ \<Rightarrow> stringify L j)
                in Inr (Some (if cCaseSensitive c then s else map js_lower s))))"

text \<open>A string method with an argument: an undefined receiver throws, an undefined argument is read as its name.\<close>

definition text_method :: "(string \<Rightarrow> string \<Rightarrow> bool) \<Rightarrow> language \<Rightarrow> ConditionValues \<Rightarrow> bool result" where
  "text_method f L c =
     rbind (cond_text L c (cFirst c)) (\<lambda>a.
     case a of
       None \<Rightarrow> Inl (TypeError ''Cannot read properties of undefined'')
     | Some s \<Rightarrow> rbind (cond_text L c (cSecond c)) (\<lambda>b. Inr (f s (case b of None \<Rightarrow> ''undefined'' | Some t \<Rightarrow> t))))"

definition text_same :: "language \<Rightarrow> ConditionValues \<Rightarrow> json option \<Rightarrow> bool result" where
  "text_same L c v = rbind (cond_text L c v) (\<lambda>a. rbind (cond_text L c (cSecond c)) (\<lambda>b. Inr (a = b)))"

definition parseListAsArray :: "language \<Rightarrow> json option \<Rightarrow> json list option" where
  "parseListAsArray L v = (case v of
      Some (JStr s) \<Rightarrow> (case jsonParse L s of Some (JArr xs) \<Rightarrow> Some xs | _ \<Rightarrow> None)
    | Some (JArr xs) \<Rightarrow> Some xs
    | _ \<Rightarrow> None)"

definition coerceListAsArray :: "language \<Rightarrow> json option \<Rightarrow> json option list" where
  "coerceListAsArray L v = (case v of
      Some (JStr s) \<Rightarrow> (case jsonParse L s of None \<Rightarrow> [v] | Some (JArr xs) \<Rightarrow> map Some xs | Some j \<Rightarrow> [Some j])
    | Some (JArr xs) \<Rightarrow> map Some xs
    | _ \<Rightarrow> [v])"

text \<open>\<open>Array.prototype.some\<close> and \<open>every\<close> with a callback that may throw.\<close>

fun rsome :: "('a \<Rightarrow> bool result) \<Rightarrow> 'a list \<Rightarrow> bool result" where
  "rsome p [] = Inr False"
| "rsome p (x # xs) = rbind (p x) (\<lambda>b. if b then Inr True else rsome p xs)"

fun revery :: "('a \<Rightarrow> bool result) \<Rightarrow> 'a list \<Rightarrow> bool result" where
  "revery p [] = Inr True"
| "revery p (x # xs) = rbind (p x) (\<lambda>b. if b then revery p xs else Inr False)"

definition rnot :: "bool result \<Rightarrow> bool result" where
  "rnot r = rbind r (\<lambda>b. Inr (\<not> b))"

definition isDateLike :: "json option \<Rightarrow> bool" where
  "isDateLike v = (case v of Some (JStr _) \<Rightarrow> True | Some (JNum _) \<Rightarrow> True | _ \<Rightarrow> False)"

definition compareDates :: "language \<Rightarrow> ConditionValues \<Rightarrow> (int \<Rightarrow> int \<Rightarrow> bool) \<Rightarrow> bool" where
  "compareDates L c f =
     (isDateLike (cFirst c) \<and> isDateLike (cSecond c) \<and>
      (case (Option.bind (cFirst c) (parseDate L), Option.bind (cSecond c) (parseDate L)) of
         (Some a, Some b) \<Rightarrow> f a b
       | _ \<Rightarrow> False))"

definition value_missing :: "json option \<Rightarrow> bool" where
  "value_missing v \<longleftrightarrow> v = None \<or> v = Some JNull \<or> v = Some (JStr [])"

fun CONDITION_EVALUATORS :: "language \<Rightarrow> BranchOperator \<Rightarrow> ConditionValues \<Rightarrow> bool result" where
  "CONDITION_EVALUATORS L TEXT_CONTAINS c = text_method contains_text L c"
| "CONDITION_EVALUATORS L TEXT_DOES_NOT_CONTAIN c = rnot (text_method contains_text L c)"
| "CONDITION_EVALUATORS L TEXT_EXACTLY_MATCHES c = text_same L c (cFirst c)"
| "CONDITION_EVALUATORS L TEXT_DOES_NOT_EXACTLY_MATCH c = rnot (text_same L c (cFirst c))"
| "CONDITION_EVALUATORS L TEXT_STARTS_WITH c = text_method starts_with L c"
| "CONDITION_EVALUATORS L TEXT_DOES_NOT_START_WITH c = rnot (text_method starts_with L c)"
| "CONDITION_EVALUATORS L TEXT_ENDS_WITH c = text_method ends_with_text L c"
| "CONDITION_EVALUATORS L TEXT_DOES_NOT_END_WITH c = rnot (text_method ends_with_text L c)"
| "CONDITION_EVALUATORS L LIST_CONTAINS c = rsome (text_same L c) (coerceListAsArray L (cFirst c))"
| "CONDITION_EVALUATORS L LIST_DOES_NOT_CONTAIN c = rnot (rsome (text_same L c) (coerceListAsArray L (cFirst c)))"
| "CONDITION_EVALUATORS L NUMBER_IS_GREATER_THAN c =
     Inr (js_less (parseStringToNumber L (cSecond c)) (parseStringToNumber L (cFirst c)))"
| "CONDITION_EVALUATORS L NUMBER_IS_LESS_THAN c =
     Inr (js_less (parseStringToNumber L (cFirst c)) (parseStringToNumber L (cSecond c)))"
| "CONDITION_EVALUATORS L NUMBER_IS_EQUAL_TO c =
     Inr (js_equal (parseStringToNumber L (cFirst c)) (parseStringToNumber L (cSecond c)))"
| "CONDITION_EVALUATORS L BOOLEAN_IS_TRUE c = Inr (js_truth (cFirst c))"
| "CONDITION_EVALUATORS L BOOLEAN_IS_FALSE c = Inr (\<not> js_truth (cFirst c))"
| "CONDITION_EVALUATORS L DATE_IS_AFTER c = Inr (compareDates L c (\<lambda>a b. b < a))"
| "CONDITION_EVALUATORS L DATE_IS_EQUAL c = Inr (compareDates L c (\<lambda>a b. a = b))"
| "CONDITION_EVALUATORS L DATE_IS_BEFORE c = Inr (compareDates L c (\<lambda>a b. a < b))"
| "CONDITION_EVALUATORS L LIST_IS_EMPTY c = Inr (parseListAsArray L (cFirst c) = Some [])"
| "CONDITION_EVALUATORS L LIST_IS_NOT_EMPTY c = Inr (getD (parseListAsArray L (cFirst c)) [] \<noteq> [])"
| "CONDITION_EVALUATORS L EXISTS c = Inr (\<not> value_missing (cFirst c))"
| "CONDITION_EVALUATORS L DOES_NOT_EXIST c = Inr (value_missing (cFirst c))"

definition operator_not_set :: error where
  "operator_not_set = EngineGenericError ''OperatorNotSetError'' ''The operator is required but found to be undefined''"

definition evaluateCondition :: "language \<Rightarrow> ResolvedCondition \<Rightarrow> bool result" where
  "evaluateCondition L c = (case cOperator c of
      None \<Rightarrow> Inl operator_not_set
    | Some p \<Rightarrow> CONDITION_EVALUATORS L p (ConditionValues.truncate c))"

definition evaluateConditions :: "language \<Rightarrow> ResolvedCondition list list \<Rightarrow> bool result" where
  "evaluateConditions L groups = rsome (revery (evaluateCondition L)) groups"

subsection \<open>Which branches run\<close>

definition evaluate_branch :: "language \<Rightarrow> ResolvedBranch \<Rightarrow> bool result" where
  "evaluate_branch L b = (case b of ResolvedFallback _ \<Rightarrow> Inr True | ResolvedConditionBranch _ gs \<Rightarrow> evaluateConditions L gs)"

fun is_resolved_fallback :: "ResolvedBranch \<Rightarrow> bool" where
  "is_resolved_fallback (ResolvedFallback _) = True"
| "is_resolved_fallback (ResolvedConditionBranch _ _) = False"

definition with_fallback :: "ResolvedBranch list \<Rightarrow> bool list \<Rightarrow> bool list" where
  "with_fallback bs vs = map (\<lambda>i. if is_resolved_fallback (bs ! i) then list_all Not (take i vs @ drop (Suc i) vs) else vs ! i) [0..<length bs]"

definition evaluate_branches :: "language \<Rightarrow> ResolvedBranch list \<Rightarrow> bool list result" where
  "evaluate_branches L bs = rbind (rmap_list (evaluate_branch L) bs) (\<lambda>vs. Inr (with_fallback bs vs))"

end
