(* ===== verification/Step_Retry.thy ===== *)
theory Step_Retry
  imports Engine_Log_Size Router_Conditions Error_Handling
begin

text \<open>
  What happens around one step: the limits of \<open>helper/run-limits.ts\<close> and the retries of
  \<open>helper/error-handling.ts\<close> of \<open>server/engine\<close>.

  The three recursions of the source are bounded by the number of retries they may still make; the model
  counts that number down and is undefined (\<open>ediverge\<close>) at zero. \<open>ends_backoff\<close> of \<open>Step_Retry_Laws\<close> shows that the
  bounds they start with are enough, so the undefined case is never met.
\<close>

subsection \<open>Constants, metadata and the engine\<close>

record EngineConstants =
  workflowGraph :: "WorkflowJoinEdge list option"
  stepNameToTest :: "string option"
  maxAttempts :: nat
  retryExponential :: nat
  retryIntervalMs :: nat
  executionId :: string
  constWorkflowId :: string
  actionRunMode :: bool
  runEnvironment :: "string option"
  triggerConnector :: string
  workerHandlerId :: "string option"
  httpRequestId :: "string option"

record ReliabilityMetadata =
  dedupeKeyProp :: "string option"
  dedupeWindowSeconds :: "int option"
  writeSafety :: "RetryWriteSafety option"

record ActionMetadata =
  classification :: "Classification option"
  reliability :: "ReliabilityMetadata option"
  hasTestMethod :: bool

datatype HookType = HookNone | HookPaused "json option" | HookStopped "json option option" | HookRespond "json option"

record HookResponse =
  hookTags :: "string list"
  hookType :: HookType

text \<open>
  Parts of the system the engine calls: the props resolver, the code sandbox, the component registry, the
  connector runner, the response API, the timer and the classification of error messages.
\<close>

record 'w services =
  resolveInput :: "step \<Rightarrow> WorkflowExecutorContext \<Rightarrow> 'w \<Rightarrow> (json \<times> json) result \<times> 'w"
  resolveItems :: "string \<Rightarrow> WorkflowExecutorContext \<Rightarrow> 'w \<Rightarrow> (json option \<times> json) result \<times> 'w"
  resolveRouter :: "RouterActionSettings \<Rightarrow> WorkflowExecutorContext \<Rightarrow> 'w \<Rightarrow>
     ((ResolvedBranch list \<times> RouterExecutionType option) \<times> json) result \<times> 'w"
  runCodeModule :: "string \<Rightarrow> json \<Rightarrow> 'w \<Rightarrow> json option result \<times> 'w"
  componentKnown :: "string \<Rightarrow> bool"
  runComponent :: "step \<Rightarrow> json \<Rightarrow> bool \<Rightarrow> 'w \<Rightarrow> (json option \<times> HookResponse) result \<times> 'w"
  describeConnector :: "string \<Rightarrow> string \<Rightarrow> 'w \<Rightarrow> ActionMetadata js_record result \<times> 'w"
  callConnector :: "step \<Rightarrow> bool \<Rightarrow> json \<Rightarrow> bool \<Rightarrow> 'w \<Rightarrow> (json option \<times> HookResponse) result \<times> 'w"
  sendWorkflowResponse :: "json \<Rightarrow> 'w \<Rightarrow> unit result \<times> 'w"
  executeOnStart :: "step \<Rightarrow> 'w \<Rightarrow> unit result \<times> 'w"                     \<comment> \<open>\<open>triggerRunner.executeOnStart\<close>\<close>
  sleep :: "rat \<Rightarrow> 'w \<Rightarrow> unit \<times> 'w"
  classifyErrorMessage :: "string option \<Rightarrow> string \<times> string option"   \<comment> \<open>\<open>errorCode\<close>, \<open>externalCode\<close>\<close>
  blockedUntil :: "string option \<Rightarrow> int option"                        \<comment> \<open>\<open>blockedUntilMarker.parse\<close>\<close>
  failureDetails :: "string option \<Rightarrow> int \<Rightarrow> json"                      \<comment> \<open>\<open>failureDetails.build\<close>\<close>

record 'w engine =
  lang :: language
  penv :: process_env
  rt :: "'w runtime"
  svc :: "'w services"
  const :: EngineConstants

abbreviation upsert_in :: "'w engine \<Rightarrow> string \<Rightarrow> StepOutput \<Rightarrow> WorkflowExecutorContext \<Rightarrow> ('w, WorkflowExecutorContext) eff" where
  "upsert_in E \<equiv> ctx_upsertStep (lang E) (penv E) (rt E)"

abbreviation single_step_test :: "'w engine \<Rightarrow> bool" where
  "single_step_test E \<equiv> stepNameToTest (const E) \<noteq> None"

abbreviation now_ms :: "'w engine \<Rightarrow> ('w, rat) eff" where
  "now_ms E \<equiv> eread (perfNow (rt E))"

subsection \<open>Run limits\<close>

definition positiveNumber :: "string option \<Rightarrow> rat option" where
  "positiveNumber raw = (case raw of
      None \<Rightarrow> None
    | Some s \<Rightarrow> if trim s = [] then None
               else (case js_number s of Fin q \<Rightarrow> if 0 < q then Some q else None | _ \<Rightarrow> None))"

definition maxNodesPerRun :: "process_env \<Rightarrow> rat option" where
  "maxNodesPerRun env = positiveNumber (MAX_NODES_PER_RUN env)"

definition stepTimeoutMs :: "process_env \<Rightarrow> int option" where
  "stepTimeoutMs env = map_option (\<lambda>s. js_round (s * 1000)) (positiveNumber (STEP_TIMEOUT_SECONDS env))"

definition maxStepPayloadBytes :: "process_env \<Rightarrow> int option" where
  "maxStepPayloadBytes env = map_option (\<lambda>m. js_round (m * 1024 * 1024)) (positiveNumber (MAX_STEP_PAYLOAD_MB env))"

definition exceedsNodeLimit :: "nat \<Rightarrow> rat option \<Rightarrow> bool" where
  "exceedsNodeLimit n limit = (case limit of None \<Rightarrow> False | Some l \<Rightarrow> l < of_nat n)"

definition exceedsPayloadLimit :: "int \<Rightarrow> int option \<Rightarrow> bool" where
  "exceedsPayloadLimit bytes limit = (case limit of None \<Rightarrow> False | Some l \<Rightarrow> l < bytes)"

definition formatMegabytes :: "int \<Rightarrow> string" where
  "formatMegabytes bytes = toFixed1 (of_int bytes / (1024 * 1024))"

text \<open>\<open>utils.sizeof\<close> of a value that may be undefined.\<close>

definition sizeof_opt :: "language \<Rightarrow> json option \<Rightarrow> int" where
  "sizeof_opt L v = (case v of None \<Rightarrow> 0 | Some j \<Rightarrow> int (sizeof L j))"

definition assertStepPayloadWithinLimit :: "language \<Rightarrow> process_env \<Rightarrow> json \<Rightarrow> json option \<Rightarrow> unit result" where
  "assertStepPayloadWithinLimit L env inp out = (case maxStepPayloadBytes env of
      None \<Rightarrow> Inr ()
    | Some limit \<Rightarrow>
        (let bytes = sizeof_opt L (Some inp) + sizeof_opt L out in
         if exceedsPayloadLimit bytes (Some limit)
         then Inl (UserError ''StepPayloadLimitExceeded''
           (''The step input and output together are '' @ formatMegabytes bytes @ '' MB, above the '' @ formatMegabytes limit
            @ '' MB limit per step (FEMA_MAX_STEP_PAYLOAD)''))
         else Inr ()))"

definition nodeLimitMessage :: "language \<Rightarrow> rat \<Rightarrow> string" where
  "nodeLimitMessage L limit =
     ''The run executed more than '' @ numText L limit @ '' steps and was stopped (FEMA_MAX_NODES_PER_RUN)''"

subsection \<open>Failures of a step\<close>

fun action_options :: "step \<Rightarrow> ErrorHandlingOptions option" where
  "action_options (Code _ s _ _ _) = errorHandlingOptions s"
| "action_options (Component _ s _ _ _) = errorHandlingOptions s"
| "action_options (Connector _ s _ _ _) = errorHandlingOptions s"
| "action_options _ = None"

definition failed_run :: "WorkflowExecutorContext \<Rightarrow> bool" where
  "failed_run c \<longleftrightarrow> verdict_status (verdict c) = RunFAILED"

fun failed_message :: "WorkflowVerdict \<Rightarrow> string option" where
  "failed_message (VerdictFailed f) = Some (failedMessage f)"
| "failed_message _ = None"

definition failureMessageOf :: "step \<Rightarrow> WorkflowExecutorContext \<Rightarrow> string option result" where
  "failureMessageOf a c = rbind (getStepOutput (step_name a) c) (\<lambda>out.
     Inr (case Option.bind out (\<lambda>x. errorMessage (output_base x)) of
            Some m \<Rightarrow> Some m
          | None \<Rightarrow> failed_message (verdict c)))"

definition classifiedCodeOf :: "'w engine \<Rightarrow> step \<Rightarrow> WorkflowExecutorContext \<Rightarrow> string result" where
  "classifiedCodeOf E a c = rbind (failureMessageOf a c) (\<lambda>m. Inr (fst (classifyErrorMessage (svc E) m)))"

definition resolveFailedStepStrategy :: "'w engine \<Rightarrow> step \<Rightarrow> WorkflowExecutorContext \<Rightarrow> ResolvedErrorStrategy option result" where
  "resolveFailedStepStrategy E a c = rbind (failureMessageOf a c) (\<lambda>m.
     let (errorCode, externalCode) = classifyErrorMessage (svc E) m
     in Inr (resolveStrategy (action_options a) errorCode externalCode))"

fun connectorNameOf :: "step \<Rightarrow> string option" where
  "connectorNameOf (Connector _ s _ _ _) = Some (connectorName s)"
| "connectorNameOf _ = None"

definition event_of :: "'w engine \<Rightarrow> ReliabilityEventKind \<Rightarrow> string option \<Rightarrow> int option \<Rightarrow> step \<Rightarrow> WorkflowExecutorContext \<Rightarrow>
    PendingReliabilityEvent result" where
  "event_of E k why wait a c = rbind (classifiedCodeOf E a c) (\<lambda>ec.
     Inr \<lparr>eventKind = k, eventErrorCode = Some ec, eventReason = why, eventConnector = connectorNameOf a, waitSeconds = wait\<rparr>)"

definition wait_seconds :: "rat \<Rightarrow> int" where
  "wait_seconds ms = \<lceil>ms / 1000\<rceil>"

fun reason_text :: "RetryReason \<Rightarrow> string option" where
  "reason_text UnsafeOutcomeUnknown = Some ''UNSAFE_OUTCOME_UNKNOWN''"
| "reason_text DedupeWindowPassed = Some ''DEDUPE_WINDOW_PASSED''"
| "reason_text _ = None"

subsection \<open>May the step be tried again?\<close>

fun json_object :: "json option \<Rightarrow> json_obj option" where
  "json_object (Some (JObj o')) = Some o'"
| "json_object _ = None"

definition text_property :: "string \<Rightarrow> json option \<Rightarrow> string option" where
  "text_property k v = (case Option.bind (json_object v) (\<lambda>o'. map_of o' k) of Some (JStr s) \<Rightarrow> Some s | _ \<Rightarrow> None)"

text \<open>A text that is not blank and holds no unresolved template.\<close>

definition usable_key :: "string option \<Rightarrow> bool" where
  "usable_key k = (case k of None \<Rightarrow> False | Some s \<Rightarrow> trim s \<noteq> [] \<and> \<not> contains_text s ''{{'')"

definition HTTP_CONNECTOR :: string where
  "HTTP_CONNECTOR = ''@fema-ipaas/connector-http''"

definition retry_decision ::
  "string \<Rightarrow> ActionMetadata option \<Rightarrow> json option \<Rightarrow> string \<Rightarrow> int option \<Rightarrow> int \<Rightarrow> int \<Rightarrow> RetryDecision" where
  "retry_decision name metadata inp errorCode blocked firstAttemptAt now =
     (let rel = Option.bind metadata reliability;
          keyProp = (case Option.bind rel dedupeKeyProp of Some [] \<Rightarrow> None | p \<Rightarrow> p);
          dedupeKey = Option.bind keyProp (\<lambda>p. text_property p inp);
          window = Option.bind rel dedupeWindowSeconds;
          boundedDedupe = (usable_key dedupeKey \<and> window \<noteq> None);
          method = (case text_property ''method'' inp of None \<Rightarrow> [] | Some m \<Rightarrow> upper m);
          isHttp = (name = HTTP_CONNECTOR);
          readOnlyHttp = (isHttp \<and> method \<in> {''GET'', ''HEAD'', ''OPTIONS''});
          idempotentHttp = (isHttp \<and> (method \<in> {''PUT'', ''DELETE''} \<or> usable_key (text_property ''idempotencyKey'' inp)))
      in decide (if readOnlyHttp then Some READ else Option.bind metadata classification)
           (if boundedDedupe \<or> idempotentHttp then Some IDEMPOTENT
            else if keyProp \<noteq> None then Some UNSAFE else Option.bind rel writeSafety)
           (Some errorCode) blocked (Some firstAttemptAt) now (if boundedDedupe then window else None))"

definition decisionOf :: "'w engine \<Rightarrow> step \<Rightarrow> int \<Rightarrow> WorkflowExecutorContext \<Rightarrow> ('w, RetryDecision) eff" where
  "decisionOf E a firstAttemptAt c = (case a of
      Connector b s x y n \<Rightarrow>
        ebind (ecatch (ecall (describeConnector (svc E) (connectorName s) (connectorVersion s)))) (\<lambda>d.
        ebind (elift (getStepOutput (step_name a) c)) (\<lambda>out.
        ebind (eread (dateNow (rt E))) (\<lambda>now.
        ebind (elift (failureMessageOf a c)) (\<lambda>m.
        eret (retry_decision (connectorName s)
          (case d of Inl _ \<Rightarrow> None | Inr acts \<Rightarrow> map_of acts (getD (actionName s) []))
          (Option.bind out (\<lambda>x. stepInput (output_base x))) (fst (classifyErrorMessage (svc E) m)) (blockedUntil (svc E) m)
          firstAttemptAt now)))))
    | _ \<Rightarrow> eret \<lparr>allowed = True, reason = Idempotent\<rparr>)"

subsection \<open>Attempts\<close>

type_synonym AttemptOutcome = "WorkflowExecutorContext \<times> PendingReliabilityEvent list"

definition RATE_LIMIT_MAX_ATTEMPTS :: nat where
  "RATE_LIMIT_MAX_ATTEMPTS = 3"

fun requestWithRateLimitQueue ::
  "nat \<Rightarrow> 'w engine \<Rightarrow> step \<Rightarrow> (WorkflowExecutorContext \<Rightarrow> ('w, WorkflowExecutorContext) eff) \<Rightarrow> WorkflowExecutorContext \<Rightarrow>
   PendingReliabilityEvent list \<Rightarrow> ('w, AttemptOutcome) eff" where
  "requestWithRateLimitQueue 0 E a request c waited = ediverge"
| "requestWithRateLimitQueue (Suc n) E a request c waited =
     ebind (request c) (\<lambda>s.
     ebind (elift (failureMessageOf a s)) (\<lambda>m.
     ebind (eread (dateNow (rt E))) (\<lambda>now.
     case rateLimitWaitMs (blockedUntil (svc E) m) now of
       None \<Rightarrow> eret (s, waited)
     | Some waitMs \<Rightarrow>
         if RATE_LIMIT_MAX_ATTEMPTS \<le> length waited \<or> single_step_test E \<or> \<not> failed_run s then eret (s, waited)
         else ebind (elift (event_of E RATE_LIMIT_QUEUED None (Some (wait_seconds (of_int waitMs))) a s)) (\<lambda>ev.
              ebind (eread (sleep (svc E) (of_int waitMs))) (\<lambda>_.
              requestWithRateLimitQueue n E a request c (waited @ [ev]))))))"

definition one_attempt ::
  "'w engine \<Rightarrow> step \<Rightarrow> (WorkflowExecutorContext \<Rightarrow> ('w, WorkflowExecutorContext) eff) \<Rightarrow> WorkflowExecutorContext \<Rightarrow> ('w, AttemptOutcome) eff" where
  "one_attempt E a request c = requestWithRateLimitQueue (Suc RATE_LIMIT_MAX_ATTEMPTS) E a request c []"

text \<open>The common end of both retry loops: ask for permission, record the event, wait.\<close>

definition retry_or_withhold ::
  "'w engine \<Rightarrow> step \<Rightarrow> int \<Rightarrow> rat \<Rightarrow> AttemptOutcome \<Rightarrow> (PendingReliabilityEvent list \<Rightarrow> ('w, AttemptOutcome) eff) \<Rightarrow>
   ('w, AttemptOutcome) eff" where
  "retry_or_withhold E a firstAttemptAt waitMs attempted again =
     (case attempted of (s, events) \<Rightarrow>
       ebind (decisionOf E a firstAttemptAt s) (\<lambda>safety.
       if \<not> allowed safety
       then ebind (elift (event_of E RETRY_WITHHELD (reason_text (reason safety)) None a s)) (\<lambda>ev. eret (s, events @ [ev]))
       else ebind (elift (event_of E AUTO_RETRY None (Some (wait_seconds waitMs)) a s)) (\<lambda>ev.
            ebind (eread (sleep (svc E) waitMs)) (\<lambda>_. again (events @ [ev])))))"

fun runWithLegacyRetry ::
  "nat \<Rightarrow> 'w engine \<Rightarrow> step \<Rightarrow> (WorkflowExecutorContext \<Rightarrow> ('w, WorkflowExecutorContext) eff) \<Rightarrow> WorkflowExecutorContext \<Rightarrow> int \<Rightarrow> nat \<Rightarrow>
   PendingReliabilityEvent list \<Rightarrow> ('w, AttemptOutcome) eff" where
  "runWithLegacyRetry 0 E a request c firstAttemptAt attemptCount carried = ediverge"
| "runWithLegacyRetry (Suc n) E a request c firstAttemptAt attemptCount carried =
     ebind (one_attempt E a request c) (\<lambda>(s, evs).
     if \<not> failed_run s \<or> maxAttempts (const E) \<le> attemptCount \<or> Option.bind (action_options a) retryOnFailure \<noteq> Some True \<or> single_step_test E
     then eret (s, carried @ evs)
     else retry_or_withhold E a firstAttemptAt
            (of_nat (retryExponential (const E) ^ attemptCount * retryIntervalMs (const E))) (s, carried @ evs)
            (runWithLegacyRetry n E a request c firstAttemptAt (Suc attemptCount)))"

fun runWithErrorStrategy ::
  "nat \<Rightarrow> 'w engine \<Rightarrow> step \<Rightarrow> (WorkflowExecutorContext \<Rightarrow> ('w, WorkflowExecutorContext) eff) \<Rightarrow> WorkflowExecutorContext \<Rightarrow> int \<Rightarrow> nat \<Rightarrow>
   PendingReliabilityEvent list \<Rightarrow> ('w, AttemptOutcome) eff" where
  "runWithErrorStrategy 0 E a request c firstAttemptAt attempt carried = ediverge"
| "runWithErrorStrategy (Suc n) E a request c firstAttemptAt attempt carried =
     ebind (one_attempt E a request c) (\<lambda>(s, evs).
     if \<not> failed_run s \<or> single_step_test E then eret (s, carried @ evs)
     else ebind (elift (resolveFailedStepStrategy E a s)) (\<lambda>resolved.
       case Option.bind resolved retry of
         None \<Rightarrow> eret (s, carried @ evs)
       | Some policy \<Rightarrow>
           if attempts policy < attempt then eret (s, carried @ evs)
           else retry_or_withhold E a firstAttemptAt (of_nat (intervalSeconds policy * 1000)) (s, carried @ evs)
                  (runWithErrorStrategy n E a request c firstAttemptAt (Suc attempt))))"

text \<open>The most retries any strategy of the options allows.\<close>

definition policy_attempts :: "ErrorStrategy \<Rightarrow> nat" where
  "policy_attempts s = (case retryPolicyOf s of None \<Rightarrow> 0 | Some p \<Rightarrow> attempts p)"

definition most_retries :: "ErrorHandlingOptions option \<Rightarrow> nat" where
  "most_retries opts = (case opts of
      None \<Rightarrow> 0
    | Some o' \<Rightarrow> fold max (map (policy_attempts \<circ> ruleStrategy) (getD (rules o') []))
                  (case strategy o' of None \<Rightarrow> 0 | Some s \<Rightarrow> policy_attempts s))"

definition runWithExponentialBackoff ::
  "'w engine \<Rightarrow> step \<Rightarrow> (WorkflowExecutorContext \<Rightarrow> ('w, WorkflowExecutorContext) eff) \<Rightarrow> WorkflowExecutorContext \<Rightarrow> ('w, WorkflowExecutorContext) eff" where
  "runWithExponentialBackoff E a request c =
     ebind (eread (dateNow (rt E))) (\<lambda>firstAttemptAt.
     ebind (if Option.bind (action_options a) strategy = None
            then runWithLegacyRetry (Suc (maxAttempts (const E))) E a request c firstAttemptAt 1 []
            else runWithErrorStrategy (Suc (most_retries (action_options a))) E a request c firstAttemptAt 1 []) (\<lambda>(s, events).
     withReliabilityEvents (lang E) (rt E) events (step_name a) (executionId (const E)) (constWorkflowId (const E)) s))"

definition continueIfFailureHandler :: "'w engine \<Rightarrow> step \<Rightarrow> WorkflowExecutorContext \<Rightarrow> WorkflowExecutorContext result" where
  "continueIfFailureHandler E a c =
     (if \<not> failed_run c \<or> single_step_test E then Inr c
      else if Option.bind (action_options a) strategy \<noteq> None
      then rbind (resolveFailedStepStrategy E a c) (\<lambda>resolved.
           Inr (case resolved of
                  None \<Rightarrow> c
                | Some r \<Rightarrow> if outcome r = OutcomeStop then c else setVerdict VerdictRunning c))
      else Inr (if Option.bind (action_options a) continueOnFailure = Some True then setVerdict VerdictRunning c else c))"

end
