(* ===== verification/Engine.thy ===== *)
theory Engine
  imports Step_Retry Execution_Plan
begin

text \<open>
  The executors of \<open>server/engine/src/lib/handler\<close>: code, component, connector, loop, router and parallel
  steps, and \<open>workflowExecutor\<close>, which walks the execution plan.

  Loops, routers, parallels and failure branches call \<open>workflowExecutor.execute\<close> again. The executors
  take that call as the argument \<open>exec\<close>; \<open>execute\<close> ties the knot with a bound on the nesting, which also
  bounds the \<open>while\<close> loop over the nodes of one plan. \<open>Engine_Termination\<close> shows that the number of
  steps of a workflow is enough for both.

  \<open>Promise.all\<close> of a parallel step runs the branches one after the other, in one of the orders the
  event loop may choose: each branch starts from the same immutable context, so the order shows only in
  what the outside world answers. An output that a branch rebuilt with the same content counts as the
  same object when the branches are merged.
\<close>

type_synonym 'w executor = "step option \<Rightarrow> WorkflowExecutorContext \<Rightarrow> ('w, WorkflowExecutorContext) eff"

abbreviation is_running :: "WorkflowExecutorContext \<Rightarrow> bool" where
  "is_running c \<equiv> verdict_status (verdict c) = RunRUNNING"

definition swallow :: "('w, unit) eff \<Rightarrow> ('w, unit) eff" where
  "swallow m = ebind (ecatch m) (\<lambda>_. eret ())"

definition report :: "'w engine \<Rightarrow> WorkflowExecutorContext \<Rightarrow> string option \<Rightarrow> ('w, unit) eff" where
  "report E c name = ecall (sendUpdate (rt E) c name)"

subsection \<open>Failing a step\<close>

definition failed_step :: "step \<Rightarrow> string \<Rightarrow> FailedStep" where
  "failed_step a message = \<lparr>failedName = step_name a, failedDisplayName = displayName (base_of a), failedMessage = message\<rparr>"

definition failStep ::
  "'w engine \<Rightarrow> step \<Rightarrow> WorkflowExecutorContext \<Rightarrow> StepOutput \<Rightarrow> string \<Rightarrow> rat option \<Rightarrow> ('w, WorkflowExecutorContext) eff" where
  "failStep E a c out message durationMs =
     (let failed = setErrorMessage message (setStatus StepFAILED out);
          withDuration = (case durationMs of None \<Rightarrow> failed | Some d \<Rightarrow> setDuration d failed)
      in ebind (upsert_in E (step_name a) withDuration c) (\<lambda>c'. eret (setVerdict (VerdictFailed (failed_step a message)) c')))"

definition fail_since ::
  "'w engine \<Rightarrow> step \<Rightarrow> WorkflowExecutorContext \<Rightarrow> StepOutput \<Rightarrow> rat \<Rightarrow> string \<Rightarrow> ('w, WorkflowExecutorContext) eff" where
  "fail_since E a c out start message = ebind (now_ms E) (\<lambda>t. failStep E a c out message (Some (t - start)))"

text \<open>The catch around the body of an executor: an error that is not the engine's own fails the step.\<close>

definition or_fail ::
  "'w engine \<Rightarrow> step \<Rightarrow> WorkflowExecutorContext \<Rightarrow> StepOutput \<Rightarrow> rat \<Rightarrow> ('w, 'a) eff \<Rightarrow> ('a \<Rightarrow> ('w, WorkflowExecutorContext) eff) \<Rightarrow>
   ('w, WorkflowExecutorContext) eff" where
  "or_fail E a c out start m k = ebind (tryCatchAndThrowOnEngineError m) (\<lambda>r.
     case r of Inl e \<Rightarrow> fail_since E a c out start (formatError (lang E) e) | Inr x \<Rightarrow> k x)"

fun with_output :: "json option \<Rightarrow> StepOutput \<Rightarrow> StepOutput" where
  "with_output v (ActionOutput t b _) = ActionOutput t b v"
| "with_output v (LoopOutput b r) = LoopOutput b r"

definition with_input :: "json \<Rightarrow> StepOutput \<Rightarrow> StepOutput" where
  "with_input v = map_output (\<lambda>b. b\<lparr>stepInput := Some v\<rparr>)"

definition running_output :: "step_type \<Rightarrow> StepOutput" where
  "running_output t = createOutput t StepRUNNING (Some (JObj [])) None"

definition finished_output :: "StepOutputStatus \<Rightarrow> json option \<Rightarrow> rat \<Rightarrow> StepOutput \<Rightarrow> StepOutput" where
  "finished_output st v d out = setDuration d (setStatus st (with_output v out))"

subsection \<open>Code steps\<close>

text \<open>\<open>STEP_NAME_REGEX\<close>: a letter or underscore, then letters, digits and underscores.\<close>

definition valid_step_name :: "string \<Rightarrow> bool" where
  "valid_step_name s = (case s of
      [] \<Rightarrow> False
    | c # cs \<Rightarrow> (is_upper c \<or> is_lower c \<or> c = CHR ''_'') \<and> list_all (\<lambda>d. is_upper d \<or> is_lower d \<or> is_digit d \<or> d = CHR ''_'') cs)"

definition code_request :: "'w engine \<Rightarrow> step \<Rightarrow> WorkflowExecutorContext \<Rightarrow> ('w, WorkflowExecutorContext) eff" where
  "code_request E a c =
     ebind (now_ms E) (\<lambda>start.
     or_fail E a c (running_output CODE) start (ecall (resolveInput (svc E) a c)) (\<lambda>(resolved, censored).
     let out = with_input censored (running_output CODE) in
     or_fail E a c out start
       (ebind (upsert_in E (step_name a) out c) (\<lambda>started.
        ebind (report E started (Some (step_name a))) (\<lambda>_.
        if \<not> actionRunMode (const E) \<and> runEnvironment (const E) = None
        then ethrow (EngineGenericError ''RunEnvironmentNotSetError'' ''Run environment is not set'')
        else if \<not> valid_step_name (step_name a)
        then ethrow (UserError ''InvalidStepName'' (''Invalid code step name: '' @ [CHR 0x22] @ step_name a @ [CHR 0x22]))
        else ebind (ecall (runCodeModule (svc E) (step_name a) resolved)) (\<lambda>v.
             ebind (elift (assertStepPayloadWithinLimit (lang E) (penv E) resolved v)) (\<lambda>_.
             ebind (now_ms E) (\<lambda>t.
             ebind (upsert_in E (step_name a) (finished_output StepSUCCEEDED v (t - start) out) c) (\<lambda>c'.
             eret (incrementStepsExecuted c'))))))))
       eret))"

subsection \<open>Component and connector steps\<close>

text \<open>The end both share: the verdict and the status of the step follow the hook the call left behind.\<close>

definition hook_outcome ::
  "'w engine \<Rightarrow> step \<Rightarrow> StepOutput \<Rightarrow> json option \<Rightarrow> rat \<Rightarrow> HookType \<Rightarrow> error \<Rightarrow> WorkflowExecutorContext \<Rightarrow> ('w, WorkflowExecutorContext) eff" where
  "hook_outcome E a out v d h missing c = (case h of
      HookPaused _ \<Rightarrow> ebind (upsert_in E (step_name a) (finished_output StepPAUSED v d out) c) (\<lambda>c'.
        eret (setVerdict VerdictPaused (incrementStepsExecuted c')))
    | HookStopped r \<Rightarrow> (case r of
        None \<Rightarrow> ethrow missing
      | Some resp \<Rightarrow> ebind (upsert_in E (step_name a) (finished_output StepSUCCEEDED v d out) c) (\<lambda>c'.
          eret (setVerdict (VerdictSucceeded resp) (incrementStepsExecuted c'))))
    | _ \<Rightarrow> ebind (upsert_in E (step_name a) (finished_output StepSUCCEEDED v d out) c) (\<lambda>c'.
        eret (setVerdict VerdictRunning (incrementStepsExecuted c'))))"

definition no_response :: error where
  "no_response = TypeError ''Cannot read properties of undefined (reading response)''"

text \<open>The step is shown as running unless it is being resumed.\<close>

definition announce :: "'w engine \<Rightarrow> step \<Rightarrow> StepOutput \<Rightarrow> bool \<Rightarrow> WorkflowExecutorContext \<Rightarrow> ('w, unit) eff" where
  "announce E a out paused c =
     (if paused then eret ()
      else ebind (upsert_in E (step_name a) out c) (\<lambda>started. report E started (Some (step_name a))))"

definition component_request :: "'w engine \<Rightarrow> step \<Rightarrow> string \<Rightarrow> WorkflowExecutorContext \<Rightarrow> ('w, WorkflowExecutorContext) eff" where
  "component_request E a kind c =
     ebind (now_ms E) (\<lambda>start.
     or_fail E a c (running_output COMPONENT) start
       (if \<not> componentKnown (svc E) kind
        then ethrow (EntityNotFound kind (''Flow component not found, componentType='' @ kind))
        else ecall (resolveInput (svc E) a c)) (\<lambda>(resolved, censored).
     let out = with_input censored (running_output COMPONENT) in
     or_fail E a c out start
       (ebind (elift (isPaused (step_name a) c)) (\<lambda>paused.
        ebind (announce E a out paused c) (\<lambda>_.
        ebind (ecall (runComponent (svc E) a resolved paused)) (\<lambda>(v, hook).
        ebind (now_ms E) (\<lambda>t.
        hook_outcome E a out v (t - start) (hookType hook) no_response (addTags (hookTags hook) c))))))
       eret))"

definition getResponse :: "HookType \<Rightarrow> json option result" where
  "getResponse h = (case h of
      HookStopped None \<Rightarrow> Inl no_response
    | HookStopped (Some r) \<Rightarrow> Inr r
    | HookRespond r \<Rightarrow> Inr r
    | HookPaused r \<Rightarrow> Inr r
    | HookNone \<Rightarrow> Inr None)"

definition response_field :: "json \<Rightarrow> string \<Rightarrow> json \<Rightarrow> json" where
  "response_field r k d = (case Option.bind (json_object (Some r)) (\<lambda>o'. map_of o' k) of
      Some JNull \<Rightarrow> d | Some v \<Rightarrow> v | None \<Rightarrow> d)"

definition run_response :: "json \<Rightarrow> json" where
  "run_response r = JObj [(''status'', response_field r ''status'' (JNum 200)), (''body'', response_field r ''body'' (JObj [])),
     (''headers'', response_field r ''headers'' (JObj []))]"

definition send_response :: "'w engine \<Rightarrow> string \<Rightarrow> json option \<Rightarrow> ('w, unit) eff" where
  "send_response E connector r = (case r of
      None \<Rightarrow> eret ()
    | Some v \<Rightarrow>
        if v \<noteq> JNull \<and> workerHandlerId (const E) \<noteq> None \<and> httpRequestId (const E) \<noteq> None \<and> triggerConnector (const E) = connector
        then ecall (sendWorkflowResponse (svc E) (run_response v)) else eret ())"

definition connector_request :: "'w engine \<Rightarrow> step \<Rightarrow> ConnectorActionSettings \<Rightarrow> WorkflowExecutorContext \<Rightarrow> ('w, WorkflowExecutorContext) eff" where
  "connector_request E a s c =
     ebind (now_ms E) (\<lambda>start.
     or_fail E a c (running_output CONNECTOR) start
       (case actionName s of
          None \<Rightarrow> ethrow (EngineGenericError ''ActionNameNotSetError'' ''Action name is not set'')
        | Some name \<Rightarrow>
            ebind (ecall (describeConnector (svc E) (connectorName s) (connectorVersion s))) (\<lambda>acts.
            case map_of acts name of
              None \<Rightarrow> ethrow (EntityNotFound name (''Action not found for connector '' @ connectorName s @ ''@'' @ connectorVersion s))
            | Some meta \<Rightarrow> ebind (ecall (resolveInput (svc E) a c)) (\<lambda>r. eret (meta, r)))) (\<lambda>(meta, resolved, censored).
     let out = with_input censored (running_output CONNECTOR) in
     or_fail E a c out start
       (ebind (elift (isPaused (step_name a) c)) (\<lambda>paused.
        ebind (announce E a out paused c) (\<lambda>_.
        ebind (ecall (callConnector (svc E) a (single_step_test E \<and> hasTestMethod meta) resolved paused)) (\<lambda>(v, hook).
        ebind (elift (assertStepPayloadWithinLimit (lang E) (penv E) resolved v)) (\<lambda>_.
        ebind (elift (getResponse (hookType hook))) (\<lambda>response.
        ebind (send_response E (connectorName s) response) (\<lambda>_.
        ebind (now_ms E) (\<lambda>t.
        hook_outcome E a out v (t - start) (hookType hook)
          (EngineGenericError ''StopResponseNotSetError'' ''Stop response is not set'') (addTags (hookTags hook) c)))))))))
       eret))"

text \<open>The handler of the three kinds: a completed step is not run again.\<close>

definition retried ::
  "'w engine \<Rightarrow> step \<Rightarrow> (WorkflowExecutorContext \<Rightarrow> ('w, WorkflowExecutorContext) eff) \<Rightarrow> WorkflowExecutorContext \<Rightarrow> ('w, WorkflowExecutorContext) eff" where
  "retried E a request c =
     ebind (elift (isCompleted (step_name a) c)) (\<lambda>done.
     if done then eret c
     else ebind (runWithExponentialBackoff E a request c) (\<lambda>c'. elift (continueIfFailureHandler E a c')))"

subsection \<open>Loops\<close>

definition isNotRunBranchOutput :: "json option \<Rightarrow> bool" where
  "isNotRunBranchOutput v \<longleftrightarrow> v = None \<or> v = Some JNull \<or> v = Some (JStr [])"

definition finish_loop :: "'w engine \<Rightarrow> step \<Rightarrow> rat \<Rightarrow> StepOutput \<Rightarrow> WorkflowExecutorContext \<Rightarrow> ('w, WorkflowExecutorContext) eff" where
  "finish_loop E a start out c = ebind (now_ms E) (\<lambda>t. upsert_in E (step_name a) (setDuration (t - start) out) c)"

fun loop_iterate ::
  "'w engine \<Rightarrow> 'w executor \<Rightarrow> step \<Rightarrow> step option \<Rightarrow> rat \<Rightarrow> nat \<Rightarrow> json list \<Rightarrow> StepOutput \<Rightarrow> WorkflowExecutorContext \<Rightarrow> ('w, WorkflowExecutorContext) eff" where
  "loop_iterate E exec a first start i [] out c = finish_loop E a start out c"
| "loop_iterate E exec a first start i (x # xs) out c =
     (let path' = loopIteration (step_name a) i (currentPath c);
          item = setItemAndIndex x (Suc i) out;
          out' = (if hasIteration i item then item else addIteration item)
      in ebind (upsert_in E (step_name a) out' c) (\<lambda>c1.
         let c2 = setCurrentPath path' c1 in
         ebind (if first = None \<or> single_step_test E then eret c2 else exec first c2) (\<lambda>c3.
         let c4 = setCurrentPath (removeLast (currentPath c3)) c3 in
         ebind (elift (getLoopStepOutput (step_name a) c4)) (\<lambda>stored.
         let out'' = getD stored out' in
         if \<not> is_running c4 \<or> single_step_test E then finish_loop E a start out'' c4
         else loop_iterate E exec a first start (Suc i) xs out'' c4))))"

definition loop_handle :: "'w engine \<Rightarrow> 'w executor \<Rightarrow> step \<Rightarrow> string \<Rightarrow> step option \<Rightarrow> WorkflowExecutorContext \<Rightarrow> ('w, WorkflowExecutorContext) eff" where
  "loop_handle E exec a template first c =
     ebind (now_ms E) (\<lambda>start.
     or_fail E a c (initLoop (Some (JObj []))) start (ecall (resolveItems (svc E) template c)) (\<lambda>(values, censored).
     ebind (elift (getLoopStepOutput (step_name a) c)) (\<lambda>previous.
     let out = getD previous (initLoop (Some censored)) in
     ebind (upsert_in E (step_name a) out c) (\<lambda>c1.
     if isNotRunBranchOutput values then loop_iterate E exec a first start 0 [] out c1
     else case values of
       Some (JArr xs) \<Rightarrow> loop_iterate E exec a first start 0 xs out c1
     | _ \<Rightarrow> fail_since E a c1 out start
              (stringify (lang E) (JObj [(''message'', JStr ''The items you have selected must be a list.'')]))))))"

subsection \<open>Routers\<close>

definition router_output :: "ResolvedBranch list \<Rightarrow> bool list \<Rightarrow> json" where
  "router_output bs vs = JObj [(''branches'', JArr (map (\<lambda>(i, b, v). JObj [(''branchName'', JStr (resolvedBranchName b)),
     (''branchIndex'', JNum (of_nat (Suc i))), (''evaluation'', JBool v)]) (enumerate 0 (zip bs vs))))]"

text \<open>
  The loop over the branches. The source assigns the state of each finished branch to a variable outside
  the \<open>try\<close>, so a branch that throws leaves the state of the branches before it.
\<close>

fun router_branches ::
  "'w engine \<Rightarrow> 'w executor \<Rightarrow> bool \<Rightarrow> (bool \<times> step option) list \<Rightarrow> WorkflowExecutorContext \<Rightarrow> ('w, WorkflowExecutorContext \<times> error option) eff" where
  "router_branches E exec firstMatch [] c = eret (c, None)"
| "router_branches E exec firstMatch ((v, child) # rest) c =
     (if single_step_test E then eret (c, None)
      else if \<not> v then router_branches E exec firstMatch rest c
      else ebind (tryCatchAndThrowOnEngineError (exec child c)) (\<lambda>r. case r of
          Inl e \<Rightarrow> eret (c, Some e)
        | Inr c' \<Rightarrow> if \<not> is_running c' \<or> firstMatch then eret (c', None)
                    else router_branches E exec firstMatch rest c'))"

definition branch_children :: "step option list \<Rightarrow> bool list \<Rightarrow> (bool \<times> step option) list" where
  "branch_children cs vs = map (\<lambda>(i, v). (v, array_read cs (int i))) (enumerate 0 vs)"

definition handleRouterExecution ::
  "'w engine \<Rightarrow> 'w executor \<Rightarrow> step \<Rightarrow> step option list \<Rightarrow> ResolvedBranch list \<Rightarrow> RouterExecutionType \<Rightarrow> json \<Rightarrow> WorkflowExecutorContext \<Rightarrow>
   ('w, WorkflowExecutorContext) eff" where
  "handleRouterExecution E exec a cs bs kind censored c =
     ebind (now_ms E) (\<lambda>start.
     ebind (elift (evaluate_branches (lang E) bs)) (\<lambda>vs.
     ebind (now_ms E) (\<lambda>t.
     let out = setDuration (t - start) (setOutput (router_output bs vs) (initRouter (Some censored))) in
     ebind (upsert_in E (step_name a) out c) (\<lambda>c1.
     ebind (swallow (report E c1 (Some (step_name a)))) (\<lambda>_.
     ebind (router_branches E exec (kind = EXECUTE_FIRST_MATCH) (branch_children cs vs) c1) (\<lambda>(c2, failure).
     case failure of
       None \<Rightarrow> eret c2
     | Some e \<Rightarrow> failStep E a c2 (setStatus StepFAILED out) (formatError (lang E) e) None))))))"

definition router_handle :: "'w engine \<Rightarrow> 'w executor \<Rightarrow> step \<Rightarrow> RouterActionSettings \<Rightarrow> step option list \<Rightarrow> WorkflowExecutorContext \<Rightarrow> ('w, WorkflowExecutorContext) eff" where
  "router_handle E exec a s cs c =
     ebind (now_ms E) (\<lambda>start.
     or_fail E a c (initRouter (Some (JObj []))) start (ecall (resolveRouter (svc E) s c)) (\<lambda>((bs, kind), censored).
     case kind of
       Some k \<Rightarrow> handleRouterExecution E exec a cs bs k censored c
     | None \<Rightarrow> ethrow (EngineGenericError ''RouterExecutionTypeNotSupportedError'' ''Router execution type is not supported'')))"

subsection \<open>Parallel steps\<close>

definition parallel_output :: "ParallelActionSettings \<Rightarrow> StepOutput" where
  "parallel_output s = setOutput (JObj [(''branches'', JArr (map (\<lambda>(i, n). JObj [(''branchName'', JStr n),
     (''branchIndex'', JNum (of_nat (Suc i)))]) (enumerate 0 (parallelBranches s))))])
     (createOutput PARALLEL StepSUCCEEDED (Some (JObj [])) None)"

definition merge_step :: "'w engine \<Rightarrow> WorkflowExecutorContext \<Rightarrow> WorkflowExecutorContext \<Rightarrow> string \<times> StepOutput \<Rightarrow> ('w, WorkflowExecutorContext) eff" where
  "merge_step E base merged = (\<lambda>(n, out). if map_of (steps base) n = Some out then eret merged else upsert_in E n out merged)"

definition merge_branch :: "'w engine \<Rightarrow> WorkflowExecutorContext \<Rightarrow> WorkflowExecutorContext \<Rightarrow> WorkflowExecutorContext \<Rightarrow> ('w, WorkflowExecutorContext) eff" where
  "merge_branch E base merged result =
     ebind (efold (merge_step E base) merged (steps result)) (\<lambda>m. eret (addTags (tags result) m))"

definition mergeBranchResults :: "'w engine \<Rightarrow> WorkflowExecutorContext \<Rightarrow> WorkflowExecutorContext list \<Rightarrow> ('w, WorkflowExecutorContext) eff" where
  "mergeBranchResults E base results =
     ebind (efold (merge_branch E base) base results) (\<lambda>merged.
     eret (case List.find (\<lambda>r. \<not> is_running r) results of
             None \<Rightarrow> merged
           | Some blocking \<Rightarrow> setVerdict (verdict blocking) merged))"

definition finish_parallel :: "'w engine \<Rightarrow> step \<Rightarrow> rat \<Rightarrow> StepOutput \<Rightarrow> WorkflowExecutorContext \<Rightarrow> ('w, WorkflowExecutorContext) eff" where
  "finish_parallel E a start out c =
     ebind (now_ms E) (\<lambda>t. ebind (upsert_in E (step_name a) (setDuration (t - start) out) c) (\<lambda>c'. eret (incrementStepsExecuted c')))"

fun first_failure :: "'a result list \<Rightarrow> error option" where
  "first_failure [] = None"
| "first_failure (Inl e # rs) = Some e"
| "first_failure (Inr _ # rs) = first_failure rs"

fun successes :: "'a result list \<Rightarrow> 'a list" where
  "successes [] = []"
| "successes (Inl _ # rs) = successes rs"
| "successes (Inr x # rs) = x # successes rs"

definition parallel_handle :: "'w engine \<Rightarrow> 'w executor \<Rightarrow> step \<Rightarrow> ParallelActionSettings \<Rightarrow> step option list \<Rightarrow> WorkflowExecutorContext \<Rightarrow> ('w, WorkflowExecutorContext) eff" where
  "parallel_handle E exec a s cs c =
     ebind (elift (isCompleted (step_name a) c)) (\<lambda>done.
     if done then eret c
     else ebind (now_ms E) (\<lambda>start.
       let bs = List.map_filter (\<lambda>x. x) cs in
       if bs = [] \<or> single_step_test E then finish_parallel E a start (parallel_output s) c
       else ebind (emap (\<lambda>b. ecatch (exec (Some b) c)) bs) (\<lambda>settled.
         case first_failure settled of
           Some e \<Rightarrow> fail_since E a c (setStatus StepFAILED (parallel_output s)) start (formatError (lang E) e)
         | None \<Rightarrow> ebind (mergeBranchResults E c (successes settled)) (\<lambda>merged.
             finish_parallel E a start
               (setStatus (if verdict_status (verdict merged) = RunPAUSED then StepPAUSED else StepSUCCEEDED) (parallel_output s)) merged))))"

subsection \<open>The executor of a step\<close>

fun handle :: "'w engine \<Rightarrow> 'w executor \<Rightarrow> step \<Rightarrow> WorkflowExecutorContext \<Rightarrow> ('w, WorkflowExecutorContext) eff" where
  "handle E exec (Code b s x y n) c = retried E (Code b s x y n) (code_request E (Code b s x y n)) c"
| "handle E exec (Component b s x y n) c = retried E (Component b s x y n) (component_request E (Component b s x y n) (componentType s)) c"
| "handle E exec (Connector b s x y n) c = retried E (Connector b s x y n) (connector_request E (Connector b s x y n) s) c"
| "handle E exec (Loop b s f n) c = loop_handle E exec (Loop b s f n) (items s) f c"
| "handle E exec (Router b s cs n) c = router_handle E exec (Router b s cs n) s cs c"
| "handle E exec (Parallel b s cs n) c = parallel_handle E exec (Parallel b s cs n) s cs c"
| "handle E exec a c = ethrow (EngineGenericError ''ExecutorNotFoundError''
     (''Executor not found for action type: '' @ step_type_text (type_of a)))"

fun branches_of :: "step \<Rightarrow> (step option \<times> step option) option" where
  "branches_of (Code _ _ x y _) = Some (x, y)"
| "branches_of (Component _ _ x y _) = Some (x, y)"
| "branches_of (Connector _ _ x y _) = Some (x, y)"
| "branches_of _ = None"

definition recordFailureDetails :: "'w engine \<Rightarrow> step \<Rightarrow> WorkflowExecutorContext \<Rightarrow> ('w, WorkflowExecutorContext) eff" where
  "recordFailureDetails E a c =
     ebind (elift (getStepOutput (step_name a) c)) (\<lambda>found. case found of
       None \<Rightarrow> eret c
     | Some out \<Rightarrow>
         ebind (eread (dateNow (rt E))) (\<lambda>now.
         let b = output_base out in
         upsert_in E (step_name a) (ActionOutput (type_of a) (b\<lparr>sliced := False\<rparr>)
           (Some (failureDetails (svc E) (errorMessage b) now))) c))"

definition takes_failure_branch :: "'w engine \<Rightarrow> step \<Rightarrow> WorkflowExecutorContext \<Rightarrow> bool result" where
  "takes_failure_branch E a c =
     rbind (getStepOutput (step_name a) c) (\<lambda>found.
     if map_option (\<lambda>out. status (output_base out)) found \<noteq> Some StepFAILED then Inr False
     else if Option.bind (action_options a) strategy = None then Inr True
     else rbind (resolveFailedStepStrategy E a c) (\<lambda>r. Inr (map_option outcome r = Some OutcomeBranch)))"

definition runContinueOnFailureBranchIfNeeded :: "'w engine \<Rightarrow> 'w executor \<Rightarrow> step \<Rightarrow> WorkflowExecutorContext \<Rightarrow> ('w, WorkflowExecutorContext) eff" where
  "runContinueOnFailureBranchIfNeeded E exec a c = (case branches_of a of
      None \<Rightarrow> eret c
    | Some (onSuccess, onFailure) \<Rightarrow>
        if \<not> usesBranches (action_options a) \<or> (onSuccess = None \<and> onFailure = None) \<or> \<not> is_running c then eret c
        else ebind (elift (takes_failure_branch E a c)) (\<lambda>failed.
          case (if failed then onFailure else onSuccess) of
            None \<Rightarrow> eret c
          | Some head \<Rightarrow> ebind (if failed then recordFailureDetails E a c else eret c) (\<lambda>c'. exec (Some head) c')))"

definition applyNodeLimitIfExceeded :: "'w engine \<Rightarrow> step \<Rightarrow> WorkflowExecutorContext \<Rightarrow> WorkflowExecutorContext" where
  "applyNodeLimitIfExceeded E a c = (case maxNodesPerRun (penv E) of
      None \<Rightarrow> c
    | Some limit \<Rightarrow>
        if \<not> is_running c \<or> \<not> exceedsNodeLimit (stepsCount c) (Some limit) then c
        else setVerdict (VerdictFailed (failed_step a (nodeLimitMessage (lang E) limit))) c)"

definition maxLogSizeMb :: "process_env \<Rightarrow> js_num" where
  "maxLogSizeMb env = num_affine (1 / (1024 * 1024)) 0 (MAX_LOG_SIZE env)"

definition applyLogSizeLimitIfExceeded :: "'w engine \<Rightarrow> step \<Rightarrow> WorkflowExecutorContext \<Rightarrow> ('w, WorkflowExecutorContext) eff" where
  "applyLogSizeLimitIfExceeded E a c =
     (if isWithinSizeLimit (penv E) (logSizeBytes c) then eret c
      else ebind (elift (getStepOutput (step_name a) c)) (\<lambda>found.
           ebind (upsert_in E (step_name a)
             (setErrorMessage (''Workflow run data size exceeded the maximum allowed size of ''
                 @ num_string (lang E) (maxLogSizeMb (penv E)) @ '' MB'')
               (createOutput (type_of a) StepFAILED (Option.bind found (\<lambda>out. stepInput (output_base out))) None)) c) (\<lambda>c'.
           eret (setVerdict (VerdictLogSizeExceeded (failed_step a ''Workflow run logs size exceeded'')) c'))))"

subsection \<open>Walking a plan\<close>

text \<open>One step: the handler, the failure branch, and the limits.\<close>

definition run_step :: "'w engine \<Rightarrow> 'w executor \<Rightarrow> step \<Rightarrow> WorkflowExecutorContext \<Rightarrow> ('w, WorkflowExecutorContext) eff" where
  "run_step E exec a c =
     ebind (handle E exec a c) (\<lambda>c1.
     ebind (if single_step_test E then eret c1 else runContinueOnFailureBranchIfNeeded E exec a c1) (\<lambda>c2.
     ebind (applyLogSizeLimitIfExceeded E a c2) (\<lambda>c3.
     eret (if single_step_test E then c3 else applyNodeLimitIfExceeded E a c3))))"

text \<open>The \<open>while\<close> loop; the result names the last action, for the final report.\<close>

fun run_nodes ::
  "nat \<Rightarrow> 'w engine \<Rightarrow> 'w executor \<Rightarrow> ExecutionPlan \<Rightarrow> string \<Rightarrow> string option \<Rightarrow> WorkflowExecutorContext \<Rightarrow> ('w, WorkflowExecutorContext \<times> string) eff" where
  "run_nodes 0 E exec plan previous node c = ediverge"
| "run_nodes (Suc n) E exec plan previous node c =
     (case Option.bind node (\<lambda>i. map_option (\<lambda>a. (i, a)) (stepAt plan i)) of
        None \<Rightarrow> eret (c, previous)
      | Some (i, a) \<Rightarrow>
          ebind (elift (dependenciesMet plan i (\<lambda>d. isCompleted d c))) (\<lambda>met.
          if \<not> met then eret (c, previous)
          else if skip (base_of a) = Some True \<and> \<not> single_step_test E
          then ebind (elift (nextOf plan i)) (\<lambda>next. run_nodes n E exec plan previous next c)
          else ebind (swallow (report E c (Some previous))) (\<lambda>_.
               ebind (run_step E exec a c) (\<lambda>c'.
               ebind (elift (nextOf plan i)) (\<lambda>next.
               if \<not> is_running c' \<or> single_step_test E then eret (c', step_name a)
               else run_nodes n E exec plan (step_name a) next c')))))"

definition execute_plan :: "nat \<Rightarrow> 'w engine \<Rightarrow> 'w executor \<Rightarrow> 'w executor" where
  "execute_plan n E exec action c =
     ebind (now_ms E) (\<lambda>start.
     case action of
       None \<Rightarrow> ebind (now_ms E) (\<lambda>t. eret (setRunDuration (t - start) c))
     | Some a \<Rightarrow>
         ebind (elift (forSubtree a (workflowGraph (const E)))) (\<lambda>plan.
         ebind (run_nodes n E exec plan (step_name a) (Some (step_name a)) c) (\<lambda>(c', previous).
         ebind (swallow (report E c' (Some previous))) (\<lambda>_.
         ebind (now_ms E) (\<lambda>t. eret (setRunDuration (t - start) c'))))))"

fun execute :: "nat \<Rightarrow> 'w engine \<Rightarrow> 'w executor" where
  "execute 0 E action c = ediverge"
| "execute (Suc d) E action c = execute_plan (Suc d) E (execute d E) action c"

definition executeFromTrigger :: "nat \<Rightarrow> 'w engine \<Rightarrow> bool \<Rightarrow> WorkflowVersion \<Rightarrow> WorkflowExecutorContext \<Rightarrow> ('w, WorkflowExecutorContext) eff" where
  "executeFromTrigger d E begins wv c =
     ebind (if begins
            then ebind (report E c None) (\<lambda>_.
                 ebind (ecall (executeOnStart (svc E) (trigger wv))) (\<lambda>_.
                 ebind (report E c (Some (step_name (trigger wv)))) (\<lambda>_.
                 applyLogSizeLimitIfExceeded E (trigger wv) c)))
            else eret c) (\<lambda>c1.
     if begins \<and> \<not> is_running c1 then eret c1
     else ebind (elift (forWorkflow wv)) (\<lambda>plan.
          ebind (elift (nextOf plan (step_name (trigger wv)))) (\<lambda>first.
          execute d E (Option.bind first (stepAt plan)) c1)))"

end
