(* ===== verification/Step_Retry_Laws.thy ===== *)
theory Step_Retry_Laws
  imports Step_Retry
begin

text \<open>
  The retries of a step end, and they stay within what the options of the step allow: every repeated
  request leaves an event, and the events are counted.
\<close>

subsection \<open>Ending\<close>

lemma ends_decisionOf [ends_rules]: "ends (decisionOf E a t c)"
  by (cases a) (simp_all add: decisionOf_def ends_basic, rule ends_ebind, intro ends_rules, intro ends_rules)

lemma ends_rate_limit:
  assumes "\<And>c. ends (request c)"
  shows "0 < n \<Longrightarrow> RATE_LIMIT_MAX_ATTEMPTS < length waited + n \<Longrightarrow> ends (requestWithRateLimitQueue n E a request c waited)"
proof (induction n arbitrary: waited)
  case 0
  then show ?case by simp
next
  case (Suc n)
  then show ?case
    unfolding requestWithRateLimitQueue.simps
    by (intro ends_ebind [OF assms]) (auto intro!: ends_rules split: option.split)
qed

lemma ends_one_attempt: "(\<And>c. ends (request c)) \<Longrightarrow> ends (one_attempt E a request c)"
  unfolding one_attempt_def by (rule ends_rate_limit) simp_all

lemma ends_retry_or_withhold:
  "(\<And>evs. ends (again evs)) \<Longrightarrow> ends (retry_or_withhold E a t ms attempted again)"
  unfolding retry_or_withhold_def by (auto intro!: ends_ebind [OF ends_decisionOf] ends_rules split: prod.split)

lemma ends_legacy:
  assumes "\<And>c. ends (request c)"
  shows "0 < n \<Longrightarrow> maxAttempts (const E) < attemptCount + n \<Longrightarrow>
     ends (runWithLegacyRetry n E a request c t attemptCount carried)"
proof (induction n arbitrary: attemptCount carried)
  case 0
  then show ?case by simp
next
  case (Suc n)
  then show ?case
    unfolding runWithLegacyRetry.simps
    by (intro ends_ebind [OF ends_one_attempt] assms) (auto intro!: ends_basic ends_retry_or_withhold split: prod.split)
qed

lemma fold_max_ge: "(m :: nat) \<le> fold max xs m" and fold_max_mem: "x \<in> set xs \<Longrightarrow> x \<le> fold max xs m"
proof -
  show ge: "m \<le> fold max xs m" for m :: nat and xs
  proof (induction xs arbitrary: m)
    case Nil
    then show ?case by simp
  next
    case (Cons a xs)
    have "m \<le> max a m" by simp
    also have "\<dots> \<le> fold max xs (max a m)" by (rule Cons)
    finally show ?case by simp
  qed
  show "x \<in> set xs \<Longrightarrow> x \<le> fold max xs m"
  proof (induction xs arbitrary: m)
    case Nil
    then show ?case by simp
  next
    case (Cons y ys)
    show ?case
    proof (cases "x = y")
      case True
      then have "x \<le> max y m" by simp
      also have "\<dots> \<le> fold max ys (max y m)" by (rule ge)
      finally show ?thesis by simp
    qed (use Cons in simp)
  qed
qed

lemma resolved_attempts:
  assumes "resolveStrategy opts ec xc = Some r" and "retry r = Some p"
  shows "attempts p \<le> most_retries opts"
proof -
  obtain o' s where o: "opts = Some o'" and s: "strategy o' = Some s"
    using assms(1) by (auto simp: resolveStrategy_def split: option.splits)
  let ?found = "List.find (\<lambda>q. ruleMatches q ec xc) (getD (rules o') [])"
  have r: "retry r = retryPolicyOf (case ?found of Some q \<Rightarrow> ruleStrategy q | None \<Rightarrow> s)"
    using assms(1) by (auto simp: resolveStrategy_def o s Let_def getD_def split: option.splits)
  show ?thesis
  proof (cases ?found)
    case None
    then have "retryPolicyOf s = Some p" using r assms(2) by simp
    then have "attempts p = policy_attempts s" by (simp add: policy_attempts_def)
    then show ?thesis using fold_max_ge by (simp add: most_retries_def o s)
  next
    case (Some q)
    then have "retryPolicyOf (ruleStrategy q) = Some p" using r assms(2) by simp
    then have "attempts p = policy_attempts (ruleStrategy q)" by (simp add: policy_attempts_def)
    moreover have "q \<in> set (getD (rules o') [])" using Some by (auto simp: find_Some_iff)
    ultimately show ?thesis by (auto simp: most_retries_def o s intro: fold_max_mem)
  qed
qed

lemma resolved_step_attempts:
  assumes "resolveFailedStepStrategy E a c = Inr r" and "Option.bind r retry = Some p"
  shows "attempts p \<le> most_retries (action_options a)"
  using assms
  by (auto simp: resolveFailedStepStrategy_def rbind_eq_Inr Let_def case_prod_unfold bind_eq_Some_conv intro: resolved_attempts)

lemma ends_strategy:
  assumes "\<And>c. ends (request c)"
  shows "Suc (most_retries (action_options a)) < attempt + n \<Longrightarrow> 0 < n \<Longrightarrow>
     ends (runWithErrorStrategy n E a request c t attempt carried)"
proof (induction n arbitrary: attempt carried)
  case 0
  then show ?case by simp
next
  case (Suc n)
  have again: "ends (runWithErrorStrategy n E a request c t (Suc attempt) evs)"
    if "attempt \<le> most_retries (action_options a)" for evs
    using that Suc by simp
  have "ends (ebind (elift (resolveFailedStepStrategy E a s)) (\<lambda>resolved.
      case Option.bind resolved retry of None \<Rightarrow> eret (s, carried @ evs)
      | Some policy \<Rightarrow> if attempts policy < attempt then eret (s, carried @ evs)
          else retry_or_withhold E a t (of_nat (intervalSeconds policy * 1000)) (s, carried @ evs)
                 (runWithErrorStrategy n E a request c t (Suc attempt))))" for s evs
  proof (rule ends_ebind_elift)
    fix r
    assume r: "resolveFailedStepStrategy E a s = Inr r"
    show "ends (case Option.bind r retry of None \<Rightarrow> eret (s, carried @ evs)
      | Some policy \<Rightarrow> if attempts policy < attempt then eret (s, carried @ evs)
          else retry_or_withhold E a t (of_nat (intervalSeconds policy * 1000)) (s, carried @ evs)
                 (runWithErrorStrategy n E a request c t (Suc attempt)))"
      using resolved_step_attempts [OF r] again
      by (auto intro!: ends_basic ends_retry_or_withhold split: option.split)
  qed
  then show ?case
    unfolding runWithErrorStrategy.simps
    by (intro ends_ebind ends_one_attempt assms) (auto intro: ends_basic split: prod.split)
qed

lemma ends_withReliabilityEvents: "ends (withReliabilityEvents L R evs n x y c)"
  by (simp add: withReliabilityEvents_def ends_rules)

text \<open>Retrying a step ends under every error strategy and under the older retry option, if each request does.\<close>

lemma ends_backoff:
  assumes "\<And>c. ends (request c)"
  shows "ends (runWithExponentialBackoff E a request c)"
  unfolding runWithExponentialBackoff_def
  by (intro ends_rules ends_ebind)
     (auto intro!: ends_legacy ends_strategy ends_withReliabilityEvents assms split: prod.split
      simp del: runWithLegacyRetry.simps runWithErrorStrategy.simps)

subsection \<open>Counting\<close>

definition count_events :: "ReliabilityEventKind \<Rightarrow> PendingReliabilityEvent list \<Rightarrow> nat" where
  "count_events k evs = length (filter (\<lambda>e. eventKind e = k) evs)"

lemma count_events_simps [simp]:
  "count_events k [] = 0" "count_events k (xs @ ys) = count_events k xs + count_events k ys"
  "count_events k [e] = (if eventKind e = k then 1 else 0)"
  by (simp_all add: count_events_def)

lemma event_of_kind: "event_of E k why wait a c = Inr ev \<Longrightarrow> eventKind ev = k"
  by (auto simp: event_of_def rbind_eq_Inr)

lemma rate_limit_events:
  assumes "length waited \<le> RATE_LIMIT_MAX_ATTEMPTS" and "\<forall>e \<in> set waited. eventKind e = RATE_LIMIT_QUEUED"
  shows "sat (requestWithRateLimitQueue n E a request c waited)
     (\<lambda>(s, evs). length evs \<le> RATE_LIMIT_MAX_ATTEMPTS \<and> (\<forall>e \<in> set evs. eventKind e = RATE_LIMIT_QUEUED))"
  using assms
proof (induction n arbitrary: waited)
  case 0
  then show ?case by (simp add: sat_rules)
next
  case (Suc n)
  have "sat (requestWithRateLimitQueue n E a request c (waited @ [ev]))
     (\<lambda>(s, evs). length evs \<le> RATE_LIMIT_MAX_ATTEMPTS \<and> (\<forall>e \<in> set evs. eventKind e = RATE_LIMIT_QUEUED))"
    if "eventKind ev = RATE_LIMIT_QUEUED" "\<not> RATE_LIMIT_MAX_ATTEMPTS \<le> length waited" for ev
    using Suc that by simp
  with Suc.prems show ?case
    unfolding requestWithRateLimitQueue.simps
    by (intro sat_ebind_any [of _ _ "request c"])
       (auto intro!: sat_rules split: option.split simp: event_of_kind)
qed

lemma one_attempt_events:
  "sat (one_attempt E a request c) (\<lambda>(s, evs). count_events RATE_LIMIT_QUEUED evs \<le> RATE_LIMIT_MAX_ATTEMPTS
     \<and> count_events AUTO_RETRY evs = 0 \<and> count_events RETRY_WITHHELD evs = 0)"
proof -
  have "sat (one_attempt E a request c)
     (\<lambda>(s, evs). length evs \<le> RATE_LIMIT_MAX_ATTEMPTS \<and> (\<forall>e \<in> set evs. eventKind e = RATE_LIMIT_QUEUED))"
    unfolding one_attempt_def by (rule rate_limit_events) simp_all
  then show ?thesis
    by (rule sat_weaken) (auto simp: count_events_def filter_empty_conv intro: order_trans [OF length_filter_le])
qed

text \<open>Events that one loop of the strategy adds, from attempt number \<open>attempt\<close> on.\<close>

definition within_budget :: "nat \<Rightarrow> nat \<Rightarrow> PendingReliabilityEvent list \<Rightarrow> PendingReliabilityEvent list \<Rightarrow> bool" where
  "within_budget most attempt carried evs \<longleftrightarrow> (\<exists>new. evs = carried @ new
     \<and> count_events AUTO_RETRY new \<le> Suc most - attempt
     \<and> count_events RATE_LIMIT_QUEUED new \<le> RATE_LIMIT_MAX_ATTEMPTS * (Suc (Suc most) - attempt)
     \<and> count_events RETRY_WITHHELD new \<le> 1)"


lemma budget_first:
  assumes "count_events RATE_LIMIT_QUEUED evs \<le> RATE_LIMIT_MAX_ATTEMPTS" and "count_events AUTO_RETRY evs = 0"
    and "count_events RETRY_WITHHELD evs = 0" and "attempt \<le> Suc most"
  shows "within_budget most attempt carried (carried @ evs)"
    and "eventKind ev = RETRY_WITHHELD \<Longrightarrow> within_budget most attempt carried ((carried @ evs) @ [ev])"
    and "eventKind ev = AUTO_RETRY \<Longrightarrow> attempt \<le> most \<Longrightarrow> within_budget most (Suc attempt) ((carried @ evs) @ [ev]) evs' \<Longrightarrow>
         within_budget most attempt carried evs'"
proof -
  have "1 \<le> Suc (Suc most) - attempt" using assms(4) by linarith
  then have one: "RATE_LIMIT_MAX_ATTEMPTS \<le> RATE_LIMIT_MAX_ATTEMPTS * (Suc (Suc most) - attempt)"
    by (metis mult.right_neutral mult_le_mono2)
  from order_trans [OF assms(1) this]
  have rate: "count_events RATE_LIMIT_QUEUED evs \<le> RATE_LIMIT_MAX_ATTEMPTS * (Suc (Suc most) - attempt)" .
  show "within_budget most attempt carried (carried @ evs)"
    unfolding within_budget_def using assms(2,3) rate by auto
  show "within_budget most attempt carried ((carried @ evs) @ [ev])" if "eventKind ev = RETRY_WITHHELD"
    unfolding within_budget_def using assms(2,3) rate that by (intro exI [of _ "evs @ [ev]"]) simp
  show "within_budget most attempt carried evs'" if prem: "eventKind ev = AUTO_RETRY" "attempt \<le> most"
    "within_budget most (Suc attempt) ((carried @ evs) @ [ev]) evs'"
  proof -
    obtain new where new: "evs' = ((carried @ evs) @ [ev]) @ new" "count_events AUTO_RETRY new \<le> Suc most - Suc attempt"
      "count_events RATE_LIMIT_QUEUED new \<le> RATE_LIMIT_MAX_ATTEMPTS * (Suc (Suc most) - Suc attempt)"
      "count_events RETRY_WITHHELD new \<le> 1"
      using prem(3) unfolding within_budget_def by blast
    have "Suc (Suc most) - attempt = Suc (Suc (Suc most) - Suc attempt)" using prem(2) by simp
    then have "count_events RATE_LIMIT_QUEUED evs + count_events RATE_LIMIT_QUEUED new
        \<le> RATE_LIMIT_MAX_ATTEMPTS * (Suc (Suc most) - attempt)" using assms(1) new(3) by simp
    then show ?thesis
      unfolding within_budget_def using assms(2,3) new prem by (intro exI [of _ "evs @ ev # new"]) (simp add: count_events_def)
  qed
qed

lemma retry_budget:
  assumes bounds: "count_events RATE_LIMIT_QUEUED evs \<le> RATE_LIMIT_MAX_ATTEMPTS" "count_events AUTO_RETRY evs = 0"
    "count_events RETRY_WITHHELD evs = 0" "attempt \<le> most"
    and again: "\<And>ev. eventKind ev = AUTO_RETRY \<Longrightarrow> sat (again ((carried @ evs) @ [ev]))
       (\<lambda>(s, evs'). within_budget most (Suc attempt) ((carried @ evs) @ [ev]) evs')"
  shows "sat (retry_or_withhold E a t ms (s, carried @ evs) again) (\<lambda>(s, evs'). within_budget most attempt carried evs')"
proof -
  have "attempt \<le> Suc most" using bounds(4) by simp
  note budget = budget_first [OF bounds(1-3) this]
  have "sat (again ((carried @ evs) @ [ev])) (\<lambda>(s, evs'). within_budget most attempt carried evs')"
    if "eventKind ev = AUTO_RETRY" for ev
    using again [OF that] by (rule sat_weaken) (use budget(3) [OF that bounds(4)] in auto)
  then show ?thesis
    unfolding retry_or_withhold_def prod.case
    by (intro sat_ebind_any [of _ _ "decisionOf E a t s"]) (auto intro!: sat_rules budget(2) simp: event_of_kind simp del: append_assoc)
qed

lemma strategy_budget:
  "attempt \<le> Suc (most_retries (action_options a)) \<Longrightarrow>
   sat (runWithErrorStrategy n E a request c t attempt carried)
     (\<lambda>(s, evs). within_budget (most_retries (action_options a)) attempt carried evs)"
proof (induction n arbitrary: attempt carried)
  case 0
  then show ?case by (simp add: sat_rules)
next
  case (Suc n)
  let ?most = "most_retries (action_options a)"
  have again: "sat (runWithErrorStrategy n E a request c t (Suc attempt) evs) (\<lambda>(s, evs'). within_budget ?most (Suc attempt) evs evs')"
    if "attempt \<le> ?most" for evs
    using that Suc.IH [of "Suc attempt" evs] by simp
  show ?case
    unfolding runWithErrorStrategy.simps
  proof (rule sat_ebind [OF one_attempt_events], clarify)
    fix s evs
    assume "count_events RATE_LIMIT_QUEUED evs \<le> RATE_LIMIT_MAX_ATTEMPTS"
      and "count_events AUTO_RETRY evs = 0" and "count_events RETRY_WITHHELD evs = 0"
    note bounds = this
    show "sat (if \<not> failed_run s \<or> single_step_test E then eret (s, carried @ evs)
       else ebind (elift (resolveFailedStepStrategy E a s)) (\<lambda>resolved.
         case Option.bind resolved retry of None \<Rightarrow> eret (s, carried @ evs)
         | Some policy \<Rightarrow> if attempts policy < attempt then eret (s, carried @ evs)
             else retry_or_withhold E a t (of_nat (intervalSeconds policy * 1000)) (s, carried @ evs)
                    (runWithErrorStrategy n E a request c t (Suc attempt))))
       (\<lambda>(s, evs). within_budget ?most attempt carried evs)"
    proof (cases "\<not> failed_run s \<or> single_step_test E")
      case True
      then show ?thesis using budget_first(1) [OF bounds Suc.prems] by (simp add: sat_eret)
    next
      case False
      have "sat (case Option.bind r retry of None \<Rightarrow> eret (s, carried @ evs)
         | Some policy \<Rightarrow> if attempts policy < attempt then eret (s, carried @ evs)
             else retry_or_withhold E a t (of_nat (intervalSeconds policy * 1000)) (s, carried @ evs)
                    (runWithErrorStrategy n E a request c t (Suc attempt)))
         (\<lambda>(s, evs). within_budget ?most attempt carried evs)" if r: "resolveFailedStepStrategy E a s = Inr r" for r
      proof (cases "Option.bind r retry")
        case None
        then show ?thesis using budget_first(1) [OF bounds Suc.prems] by (simp add: sat_eret)
      next
        case (Some p)
        show ?thesis
        proof (cases "attempts p < attempt")
          case True
          then show ?thesis using Some budget_first(1) [OF bounds Suc.prems] by (simp add: sat_eret)
        next
          case False
          then have "attempt \<le> ?most" using resolved_step_attempts [OF r Some] by simp
          with retry_budget [OF bounds this again] Some False show ?thesis by simp
        qed
      qed
      with False show ?thesis by (simp add: sat_ebind_elift)
    qed
  qed
qed


end
