(* ===== verification/Engine_Laws.thy ===== *)
theory Engine_Laws
  imports Engine Step_Retry_Laws
begin

text \<open>
  What no run may break. A relation between the state before and the state after that every elementary
  update of the context respects is respected by every executor, by every step, and by every run,
  whatever the outside world answers. The locale \<open>run_relation\<close> states the elementary laws,
  \<open>executor_run\<close> adds an executor for the inner plans; the induction over the nesting closes the knot.
\<close>

subsection \<open>The contract\<close>

locale run_relation =
  fixes E :: "'w engine"
    and R :: "WorkflowExecutorContext \<Rightarrow> WorkflowExecutorContext \<Rightarrow> bool"
  assumes same: "R c c"
    and chain: "R c c1 \<Longrightarrow> R c1 c2 \<Longrightarrow> R c c2"
    and stored: "store_output (lang E) name out c = Inr c' \<Longrightarrow> R c c'"
    and judged: "R c (setVerdict v c)"
    and counted: "R c (incrementStepsExecuted c)"
    and tagged: "R c (addTags ts c)"
    and timed: "R c (setRunDuration d c)"
    and reported: "R c (c\<lparr>reliabilityEvents := reliabilityEvents c @ evs\<rparr>)"
    and inside: "R (setCurrentPath (currentPath c @ [x]) c) c1 \<Longrightarrow> currentPath c1 = currentPath c @ [x] \<Longrightarrow>
      R c (setCurrentPath (currentPath c) c1)"
begin

definition kept :: "WorkflowExecutorContext \<Rightarrow> WorkflowExecutorContext \<Rightarrow> bool" where
  "kept c c' \<longleftrightarrow> currentPath c' = currentPath c \<and> R c c'"

lemma kept_same: "kept c c"
  by (simp add: kept_def same)

lemma kept_chain: "kept c c1 \<Longrightarrow> kept c1 c2 \<Longrightarrow> kept c c2"
  by (auto simp: kept_def intro: chain)

lemma kept_simple:
  "kept c (setVerdict v c)" "kept c (incrementStepsExecuted c)" "kept c (addTags ts c)" "kept c (setRunDuration d c)"
  "kept c (c\<lparr>reliabilityEvents := reliabilityEvents c @ evs\<rparr>)"
  by (auto simp: kept_def judged counted tagged timed reported)
     (simp_all add: setVerdict_def incrementStepsExecuted_def addTags_def setRunDuration_def)

lemma kept_after:
  "kept c c1 \<Longrightarrow> kept c (setVerdict v c1)" "kept c c1 \<Longrightarrow> kept c (incrementStepsExecuted c1)"
  "kept c c1 \<Longrightarrow> kept c (addTags ts c1)" "kept c c1 \<Longrightarrow> kept c (setRunDuration d c1)"
  by (blast intro: kept_chain kept_simple)+

lemma sat_upsert: "sat (upsert_in E name out c) (kept c)"
proof -
  have "store_output (lang E) name fin c = Inr c' \<Longrightarrow> kept c c'" for fin c'
    using stored by (auto simp: kept_def) (auto simp: store_output_def rbind_eq_Inr)
  then show ?thesis unfolding ctx_upsertStep_def by (intro sat_ebind_any sat_elift)
qed

lemma sat_upsert_after: "kept c c1 \<Longrightarrow> sat (upsert_in E name out c1) (kept c)"
  using sat_upsert by (rule sat_weaken) (rule kept_chain)

lemma sat_upsert_then:
  "kept c c1 \<Longrightarrow> (\<And>c2. kept c c2 \<Longrightarrow> sat (k c2) P) \<Longrightarrow> sat (ebind (upsert_in E name out c1) k) P"
  by (rule sat_ebind [OF sat_upsert_after])

subsection \<open>Failing, retrying, one request\<close>

lemma sat_failStep: "kept c c1 \<Longrightarrow> sat (failStep E a c1 out msg d) (kept c)"
  unfolding failStep_def Let_def by (intro sat_upsert_then sat_eret kept_after)

lemma sat_fail_since: "kept c c1 \<Longrightarrow> sat (fail_since E a c1 out start msg) (kept c)"
  unfolding fail_since_def by (intro sat_rules sat_failStep)

lemma sat_or_fail:
  assumes "sat m Q" and "\<And>x. Q x \<Longrightarrow> sat (k x) (kept c)"
  shows "sat (or_fail E a c out start m k) (kept c)"
  unfolding or_fail_def
  by (rule sat_ebind [OF sat_try [OF assms(1)]])
     (auto split: sum.split intro: assms(2) sat_fail_since kept_same)

lemma sat_or_fail_any: "(\<And>x. sat (k x) (kept c)) \<Longrightarrow> sat (or_fail E a c out start m k) (kept c)"
  by (rule sat_or_fail [where Q = "\<lambda>_. True"]) (simp_all add: sat_def)

lemma sat_or_fail_body: "sat m (kept c) \<Longrightarrow> sat (or_fail E a c out start m eret) (kept c)"
  by (erule sat_or_fail) (rule sat_eret)

lemma sat_hook_outcome: "kept c c1 \<Longrightarrow> sat (hook_outcome E a out v d h missing c1) (kept c)"
  unfolding hook_outcome_def
  by (auto split: HookType.split option.split intro!: sat_ethrow sat_upsert_then sat_eret kept_after)

lemma sat_code_request: "sat (code_request E a c) (kept c)"
  unfolding code_request_def Let_def
  by (intro sat_rules sat_or_fail_any) (auto split: prod.split
      intro!: sat_or_fail_body sat_rules sat_ebind_any [of _ _ "report E z y" for z y] sat_upsert_then [OF kept_same] kept_after)

lemma sat_component_request: "sat (component_request E a kind c) (kept c)"
  unfolding component_request_def Let_def
  by (intro sat_rules sat_or_fail_any) (auto split: prod.split
      intro!: sat_or_fail_body sat_ebind_any sat_hook_outcome kept_after kept_same)

lemma sat_connector_request: "sat (connector_request E a s c) (kept c)"
  unfolding connector_request_def Let_def
  by (intro sat_rules sat_or_fail_any) (auto split: prod.split
      intro!: sat_or_fail_body sat_ebind_any sat_hook_outcome kept_after kept_same)

subsection \<open>Retries\<close>

lemma sat_rate_limit:
  assumes "\<And>c. sat (request c) (kept c)"
  shows "sat (requestWithRateLimitQueue n E a request c waited) (\<lambda>(s, _). kept c s)"
proof (induction n arbitrary: waited)
  case 0
  then show ?case by (simp add: sat_rules)
next
  case (Suc n)
  then show ?case unfolding requestWithRateLimitQueue.simps
    by (intro sat_ebind [OF assms]) (auto intro!: sat_rules split: option.split)
qed

lemma sat_one_attempt: "(\<And>c. sat (request c) (kept c)) \<Longrightarrow> sat (one_attempt E a request c) (\<lambda>(s, _). kept c s)"
  unfolding one_attempt_def by (rule sat_rate_limit)

lemma sat_retry_or_withhold:
  "P s \<Longrightarrow> (\<And>evs. sat (again evs) (\<lambda>(s, _). P s)) \<Longrightarrow> sat (retry_or_withhold E a t ms (s, evs) again) (\<lambda>(s, _). P s)"
  unfolding retry_or_withhold_def prod.case
  by (intro sat_ebind_any [of _ _ "decisionOf E a t s"]) (auto intro!: sat_rules)

lemma sat_legacy:
  assumes "\<And>c. sat (request c) (kept c)"
  shows "sat (runWithLegacyRetry n E a request c t tries carried) (\<lambda>(s, _). kept c s)"
proof (induction n arbitrary: tries carried)
  case 0
  then show ?case by (simp add: sat_rules)
next
  case (Suc n)
  then show ?case unfolding runWithLegacyRetry.simps
    by (intro sat_ebind [OF sat_one_attempt [OF assms]]) (auto intro!: sat_eret sat_retry_or_withhold)
qed

lemma sat_strategy:
  assumes "\<And>c. sat (request c) (kept c)"
  shows "sat (runWithErrorStrategy n E a request c t attempt carried) (\<lambda>(s, _). kept c s)"
proof (induction n arbitrary: attempt carried)
  case 0
  then show ?case by (simp add: sat_rules)
next
  case (Suc n)
  then show ?case unfolding runWithErrorStrategy.simps
    by (intro sat_ebind [OF sat_one_attempt [OF assms]])
       (auto intro!: sat_eret sat_retry_or_withhold sat_ebind_elift split: option.split)
qed

lemma sat_withReliabilityEvents: "kept c s \<Longrightarrow> sat (withReliabilityEvents L T evs n x y s) (kept c)"
  unfolding withReliabilityEvents_def using kept_chain [OF _ kept_simple(5)] by (auto intro!: sat_rules)

lemma sat_backoff: "(\<And>c. sat (request c) (kept c)) \<Longrightarrow> sat (runWithExponentialBackoff E a request c) (kept c)"
  unfolding runWithExponentialBackoff_def
  by (intro sat_rules sat_ebind [where Q = "\<lambda>(s, _). kept c s"])
     (auto intro!: sat_legacy sat_strategy sat_withReliabilityEvents
      simp del: runWithLegacyRetry.simps runWithErrorStrategy.simps)

lemma continueIfFailure_kept: "continueIfFailureHandler E a c = Inr c' \<Longrightarrow> kept c c'"
  by (auto simp: continueIfFailureHandler_def rbind_eq_Inr intro: kept_same kept_simple split: if_splits option.splits)

lemma sat_retried: "(\<And>c. sat (request c) (kept c)) \<Longrightarrow> sat (retried E a request c) (kept c)"
  unfolding retried_def
  by (auto intro!: sat_ebind_elift sat_eret kept_same sat_ebind [OF sat_backoff] sat_elift
      elim!: kept_chain dest!: continueIfFailure_kept)

subsection \<open>Limits and failure details\<close>

lemma sat_recordFailureDetails: "sat (recordFailureDetails E a c) (kept c)"
  unfolding recordFailureDetails_def Let_def
  by (auto intro!: sat_rules kept_same sat_upsert split: option.split)

lemma sat_logSizeLimit: "kept c c1 \<Longrightarrow> sat (applyLogSizeLimitIfExceeded E a c1) (kept c)"
  unfolding applyLogSizeLimitIfExceeded_def by (auto intro!: sat_rules sat_upsert_then kept_after)

lemma nodeLimit_kept: "kept c c1 \<Longrightarrow> kept c (applyNodeLimitIfExceeded E a c1)"
  by (auto simp: applyNodeLimitIfExceeded_def intro: kept_after split: option.split)

subsection \<open>Merging branches\<close>

lemma sat_merge: "sat (mergeBranchResults E c results) (kept c)"
proof -
  have step: "kept c m \<Longrightarrow> sat (merge_step E c m x) (kept c)" for m x
    unfolding merge_step_def by (auto intro!: sat_eret sat_upsert_after split: prod.split)
  have branch: "kept c m \<Longrightarrow> sat (merge_branch E c m r) (kept c)" for m r
    unfolding merge_branch_def by (intro sat_ebind [OF sat_efold [where P = "kept c"]] step sat_eret kept_after)
  show ?thesis
    unfolding mergeBranchResults_def
    by (intro sat_ebind [OF sat_efold [where P = "kept c"]] branch kept_same)
       (auto intro!: sat_eret kept_after split: option.split)
qed

lemma sat_finish_parallel: "kept c c1 \<Longrightarrow> sat (finish_parallel E a start out c1) (kept c)"
  unfolding finish_parallel_def by (intro sat_rules sat_upsert_then kept_after)

end

subsection \<open>Executors of inner plans\<close>

locale executor_run = run_relation E R for E :: "'w engine" and R +
  fixes exec :: "'w executor"
  assumes exec: "sat (exec action c) (kept c)"
begin

lemma sat_exec_after: "kept c c1 \<Longrightarrow> sat (exec action c1) (kept c)"
  using exec by (rule sat_weaken) (rule kept_chain)

lemma sat_iteration:
  assumes "kept c c1" and "kept c c0"
  shows "sat (if P then eret (setCurrentPath (loopIteration n i (currentPath c0)) c1)
              else exec first (setCurrentPath (loopIteration n i (currentPath c0)) c1))
     (\<lambda>c3. kept c (setCurrentPath (removeLast (currentPath c3)) c3))"
proof -
  have at: "currentPath c0 = currentPath c1" using assms by (simp add: kept_def)
  let ?in = "setCurrentPath (loopIteration n i (currentPath c1)) c1"
  have "kept c (setCurrentPath (removeLast (currentPath c3)) c3)" if "kept ?in c3" for c3
  proof -
    have p: "currentPath c3 = currentPath c1 @ [(n, i)]"
      using that by (simp add: kept_def loopIteration_def setCurrentPath_def)
    then have "R c1 (setCurrentPath (currentPath c1) c3)"
      using that inside by (auto simp: kept_def loopIteration_def)
    then have "kept c1 (setCurrentPath (removeLast (currentPath c3)) c3)"
      by (simp add: kept_def p removeLast_def setCurrentPath_def)
    with assms(1) show ?thesis by (rule kept_chain)
  qed
  then show ?thesis unfolding at by (auto intro: sat_eret kept_same sat_weaken [OF exec])
qed

lemma sat_finish_loop: "kept c c1 \<Longrightarrow> sat (finish_loop E a start out c1) (kept c)"
  unfolding finish_loop_def by (intro sat_rules sat_upsert_after)

lemma sat_loop_iterate: "kept c c1 \<Longrightarrow> sat (loop_iterate E exec a first start i xs out c1) (kept c)"
proof (induction xs arbitrary: i out c1)
  case Nil
  then show ?case by (simp add: sat_finish_loop)
next
  case (Cons x xs)
  show ?case
    unfolding loop_iterate.simps Let_def
    by (rule sat_upsert_then [OF Cons.prems], rule sat_ebind [OF sat_iteration [OF _ Cons.prems]], assumption)
       (auto intro!: sat_ebind_elift sat_finish_loop Cons.IH)
qed

lemma sat_loop_handle: "sat (loop_handle E exec a template first c) (kept c)"
  unfolding loop_handle_def Let_def
  by (intro sat_rules sat_or_fail_any)
     (auto intro!: sat_rules sat_upsert_then [OF kept_same] sat_loop_iterate sat_finish_loop sat_fail_since split: option.split json.split)

lemma sat_router_branches: "kept c c1 \<Longrightarrow> sat (router_branches E exec fm bs c1) (\<lambda>(c2, _). kept c c2)"
proof (induction bs arbitrary: c1)
  case Nil
  then show ?case by (simp add: sat_eret)
next
  case (Cons b bs)
  then show ?case
    by (cases b) (auto intro!: sat_eret sat_ebind [OF sat_try [OF sat_exec_after]] split: sum.split)
qed

lemma sat_router_handle: "sat (router_handle E exec a s cs c) (kept c)"
proof -
  have "sat (handleRouterExecution E exec a cs bs k v c) (kept c)" for bs k v
    unfolding handleRouterExecution_def Let_def
    by (intro sat_rules sat_upsert_then [OF kept_same] sat_ebind_any [of _ _ "swallow m" for m] sat_ebind [OF sat_router_branches])
       (auto intro!: sat_eret sat_failStep split: option.split)
  then show ?thesis
    unfolding router_handle_def
    by (intro sat_rules sat_or_fail_any) (auto intro: sat_ethrow split: option.split)
qed

lemma sat_parallel_handle: "sat (parallel_handle E exec a s cs c) (kept c)"
  unfolding parallel_handle_def Let_def
  by (auto intro!: sat_rules sat_ebind_any [of _ _ "emap f xs" for f xs] sat_ebind [OF sat_merge] sat_finish_parallel
      sat_fail_since kept_same split: option.split)

lemma sat_handle: "sat (handle E exec a c) (kept c)"
  by (cases a) (auto intro: sat_retried sat_code_request sat_component_request sat_connector_request
      sat_loop_handle sat_router_handle sat_parallel_handle sat_ethrow)

lemma sat_failure_branch: "kept c c1 \<Longrightarrow> sat (runContinueOnFailureBranchIfNeeded E exec a c1) (kept c)"
  unfolding runContinueOnFailureBranchIfNeeded_def
  by (auto intro!: sat_eret sat_ebind_elift sat_exec_after sat_ebind [OF sat_recordFailureDetails]
      elim: kept_chain split: option.split)

lemma sat_run_step: "sat (run_step E exec a c) (kept c)"
  unfolding run_step_def
  by (rule sat_ebind [OF sat_handle], rule sat_ebind [where Q = "kept c"])
     (auto intro!: sat_eret sat_failure_branch nodeLimit_kept sat_ebind [OF sat_logSizeLimit])

lemma sat_run_nodes: "kept c c1 \<Longrightarrow> sat (run_nodes n E exec plan previous node c1) (\<lambda>(c2, _). kept c c2)"
proof (induction n arbitrary: previous node c1)
  case 0
  then show ?case by (simp add: sat_rules)
next
  case (Suc n)
  have "sat (run_step E exec a c1) (kept c)" for a
    using sat_run_step by (rule sat_weaken) (rule kept_chain [OF Suc.prems])
  note step = sat_ebind [OF this]
  show ?case
    using Suc by (auto intro!: sat_rules sat_ebind_any [of _ _ "swallow m" for m] step split: option.split)
qed

lemma sat_execute_plan: "sat (execute_plan n E exec action c) (kept c)"
  unfolding execute_plan_def
  by (auto intro!: sat_rules sat_ebind_any [of _ _ "swallow m" for m] sat_ebind [OF sat_run_nodes [OF kept_same]]
      kept_simple kept_after split: option.split)

end

text \<open>The engine's own executor, for every nesting.\<close>

context run_relation
begin

lemma sat_execute: "sat (execute d E action c) (kept c)"
proof (induction d arbitrary: action c)
  case 0
  then show ?case by (simp add: sat_rules)
next
  case (Suc d)
  then have "executor_run E R (execute d E)"
    by unfold_locales
  then show ?case by (simp add: executor_run.sat_execute_plan)
qed

lemma sat_executeFromTrigger: "sat (executeFromTrigger d E begins wv c) (kept c)"
  unfolding executeFromTrigger_def report_def
  by (rule sat_ebind [where Q = "kept c"])
     (auto intro!: sat_rules sat_logSizeLimit kept_same intro: sat_weaken [OF sat_execute] kept_chain)

lemma run_kept:
  "execute d E action c w = Some (Inr c', w') \<Longrightarrow> kept c c'"
  "executeFromTrigger d E begins wv c w = Some (Inr c', w') \<Longrightarrow> kept c c'"
  using sat_execute sat_executeFromTrigger unfolding sat_def by blast+

end

end
