(* ===== verification/Journal_Refinement.thy ===== *)
theory Journal_Refinement
  imports Journal_Laws
begin

text \<open>
  What the journal promises, without its nesting: it is a map from positions (a path of loop iterations and
  a step name) to results. A write changes the cell it names and what a replaced loop held; every other
  cell keeps its value. Also, the objects of a journal never hold a name twice, at any depth.
\<close>

subsection \<open>The abstract journal\<close>

text \<open>The result of a step without the iterations below it.\<close>

fun shell :: "StepOutput \<Rightarrow> StepOutput" where
  "shell (ActionOutput t b v) = ActionOutput t b v"
| "shell (LoopOutput b r) = LoopOutput b (map_option (\<lambda>r. LoopStepResult (loopItem r) (loopIndex r) []) r)"

type_synonym cells = "journal_path \<Rightarrow> string \<Rightarrow> StepOutput option"

definition cells_of :: "journal \<Rightarrow> cells" where
  "cells_of j q m = (case getStepAt m q j of Inr (Some out) \<Rightarrow> Some (shell out) | _ \<Rightarrow> None)"

definition at_or_below :: "journal_path \<Rightarrow> string \<Rightarrow> journal_path \<Rightarrow> string \<Rightarrow> bool" where
  "at_or_below path name q m \<longleftrightarrow> (q = path \<and> m = name) \<or> (\<exists>i r. q = path @ (name, i) # r)"

definition put_cell :: "journal_path \<Rightarrow> string \<Rightarrow> StepOutput \<Rightarrow> cells \<Rightarrow> cells" where
  "put_cell path name out f = (\<lambda>q m.
     if at_or_below path name q m then cells_of [(name, out)] (drop (length path) q) m else f q m)"

lemma cells_walk: "cells_of j q m = (case walk [] q j of Inl _ \<Rightarrow> None | Inr s \<Rightarrow> map_option shell (map_of s m))"
proof (cases "walk [] q j")
  case (Inl e)
  have "walk q q j \<noteq> Inr s" for s unfolding walk_full [of q q j s "[]"] using Inl by simp
  then obtain e' where "walk q q j = Inl e'" by (cases "walk q q j") auto
  with Inl show ?thesis by (simp add: cells_of_def getStepAt_def getStateAtPath_def)
next
  case (Inr s)
  then have "walk q q j = Inr s" using walk_full by blast
  with Inr show ?thesis by (simp add: cells_of_def getStepAt_def getStateAtPath_def split: option.split)
qed

lemma cells_of_Nil [simp]: "cells_of j [] m = map_option shell (map_of j m)"
  by (simp add: cells_walk)

lemma cells_of_Cons: "cells_of j ((n, i) # q) m = (case map_of j n of
    Some (LoopOutput b r) \<Rightarrow> (case array_at (loop_iterations (LoopOutput b r)) i of Some it \<Rightarrow> cells_of it q m | None \<Rightarrow> None)
  | _ \<Rightarrow> None)"
  by (simp add: cells_walk split: option.split StepOutput.split)

lemma at_or_below_simps [simp]:
  "at_or_below [] name [] m \<longleftrightarrow> m = name" "at_or_below [] name ((n, i) # q) m \<longleftrightarrow> n = name"
  "\<not> at_or_below (x # path) name [] m" "at_or_below (x # path) name (y # q) m \<longleftrightarrow> x = y \<and> at_or_below path name q m"
  by (auto simp: at_or_below_def)

lemma upsert_cells: "upsertStep name out path j False = Inr j' \<Longrightarrow> cells_of j' q m = put_cell path name out (cells_of j) q m"
proof (induction path arbitrary: j j' q)
  case Nil
  then show ?case by (cases q) (auto simp: put_cell_def update_conv' cells_of_Cons)
next
  case (Cons x path)
  obtain parent i where x: "x = (parent, i)" by (cases x)
  from Cons.prems [unfolded x] obtain b r it' where m: "map_of j parent = Some (LoopOutput b (Some r))"
    and i: "i < length (iterations r)" and u: "upsertStep name out path (iterations r ! i) False = Inr it'"
    and j': "j' = AList.update parent (LoopOutput b (Some (LoopStepResult (loopItem r) (loopIndex r) ((iterations r)[i := it'])))) j"
    by (rule upsert_inner)
  show ?case
  proof (cases q)
    case Nil
    then show ?thesis by (auto simp: put_cell_def j' update_conv' m)
  next
    case (Cons y q')
    obtain n k where y: "y = (n, k)" by (cases y)
    have "cells_of it' q' m = put_cell path name out (cells_of (iterations r ! i)) q' m" by (rule Cons.IH [OF u])
    then show ?thesis
      using i by (auto simp: Cons y x put_cell_def cells_of_Cons j' update_conv' m loop_iterations_def array_at_def nth_list_update)
  qed
qed

text \<open>
  C3: The nested journal implements a flat map from positions to results: a successful write is an update of
  that map, which replaces the named cell together with everything below it and nothing else.
\<close>

theorem journal_refines_map:
  assumes "upsertStep name out path j False = Inr j'"
  shows "cells_of j' = put_cell path name out (cells_of j)"
  using upsert_cells [OF assms] by blast

subsection \<open>Names are unique\<close>

fun wf_output :: "StepOutput \<Rightarrow> bool"
  and wf_journal :: "journal \<Rightarrow> bool"
  and wf_iterations :: "journal list \<Rightarrow> bool" where
  "wf_output (ActionOutput t b v) \<longleftrightarrow> True"
| "wf_output (LoopOutput b None) \<longleftrightarrow> True"
| "wf_output (LoopOutput b (Some (LoopStepResult v i its))) \<longleftrightarrow> wf_iterations its"
| "wf_journal [] \<longleftrightarrow> True"
| "wf_journal ((n, out) # rest) \<longleftrightarrow> n \<notin> fst ` set rest \<and> wf_output out \<and> wf_journal rest"
| "wf_iterations [] \<longleftrightarrow> True"
| "wf_iterations (it # its) \<longleftrightarrow> wf_journal it \<and> wf_iterations its"

lemma wf_journal_conv: "wf_journal j \<longleftrightarrow> distinct (map fst j) \<and> (\<forall>x \<in> set j. wf_output (snd x))"
proof (induction j)
  case (Cons x j)
  then show ?case by (cases x) auto
qed simp

lemma wf_iterations_conv: "wf_iterations its \<longleftrightarrow> (\<forall>it \<in> set its. wf_journal it)"
  by (induction its) auto

lemma wf_output_conv: "wf_output s \<longleftrightarrow> wf_iterations (loop_iterations s)"
  by (cases s rule: wf_output.cases) (simp_all add: loop_iterations_def)

lemma wf_journal_update: "wf_journal j \<Longrightarrow> wf_output out \<Longrightarrow> wf_journal (AList.update n out j)"
proof -
  have "set (AList.update n out j) \<subseteq> insert (n, out) (set j)" by (induction j) auto
  then show "wf_journal j \<Longrightarrow> wf_output out \<Longrightarrow> wf_journal (AList.update n out j)"
    by (auto simp: wf_journal_conv distinct_update)
qed


end
