(* ===== verification/Engine_Invariants.thy ===== *)
theory Engine_Invariants
  imports Engine_Laws Journal_Refinement "HOL-Library.Sublist"
begin

text \<open>
  Three relations that every run respects, as interpretations of \<open>run_relation\<close>: the size of the log is
  accounted for, the counters only grow, and no recorded step is forgotten.
\<close>

subsection \<open>The relations\<close>

definition accounted :: "language \<Rightarrow> WorkflowExecutorContext \<Rightarrow> WorkflowExecutorContext \<Rightarrow> bool" where
  "accounted L c c' \<longleftrightarrow> logSizeBytes c' - journalSizeof L (steps c') = logSizeBytes c - journalSizeof L (steps c)"

definition grows :: "WorkflowExecutorContext \<Rightarrow> WorkflowExecutorContext \<Rightarrow> bool" where
  "grows c c' \<longleftrightarrow> stepsCount c \<le> stepsCount c' \<and> set (tags c) \<subseteq> set (tags c')
     \<and> prefix (reliabilityEvents c) (reliabilityEvents c') \<and> engineApi c' = engineApi c \<and> slicingEnabled c' = slicingEnabled c"

definition recorded :: "journal_path \<Rightarrow> string \<Rightarrow> journal \<Rightarrow> bool" where
  "recorded q n j \<longleftrightarrow> (\<exists>out. getStepAt n q j = Inr (Some out))"

definition remembers :: "WorkflowExecutorContext \<Rightarrow> WorkflowExecutorContext \<Rightarrow> bool" where
  "remembers c c' \<longleftrightarrow> currentPath c' = currentPath c
     \<and> (\<forall>q n. prefix q (currentPath c) \<longrightarrow> recorded q n (steps c) \<longrightarrow> recorded q n (steps c'))"

lemmas context_updates = setVerdict_def incrementStepsExecuted_def addTags_def setRunDuration_def setCurrentPath_def

lemma recorded_cells: "recorded q n j \<longleftrightarrow> cells_of j q n \<noteq> None"
  by (auto simp: recorded_def cells_of_def split: option.splits sum.splits)

text \<open>A write at a path keeps what is recorded there and around it.\<close>

lemma upsert_remembers:
  assumes "upsertStep name out p j False = Inr j'" and "prefix q p" and "recorded q n j"
  shows "recorded q n j'"
  using assms(2,3)
  by (auto simp: recorded_cells upsert_cells [OF assms(1)] put_cell_def at_or_below_def elim!: prefixE)

lemma store_remembers: "store_output L name out c = Inr c' \<Longrightarrow> remembers c c'"
  by (auto simp: store_output_def rbind_eq_Inr remembers_def intro: upsert_remembers)

subsection \<open>Interpretations\<close>

interpretation log: run_relation E "accounted (lang E)" for E :: "'w engine"
  by unfold_locales (auto simp: accounted_def context_updates dest: store_output_size)

interpretation growth: run_relation E grows for E :: "'w engine"
proof unfold_locales
  show "grows c c'" if "store_output (lang E) name out c = Inr c'" for name out c c'
    using that by (auto simp: grows_def store_output_def rbind_eq_Inr)
qed (auto simp: grows_def context_updates)

interpretation memory: run_relation E remembers for E :: "'w engine"
proof unfold_locales
  show "remembers c c'" if "store_output (lang E) name out c = Inr c'" for name out c c'
    using that by (rule store_remembers)
qed (auto simp: remembers_def context_updates)

subsection \<open>Properties of runs\<close>

text \<open>
  C4: The engine never measures its log; it adds up the differences of single writes. The total of a whole run is
  nevertheless the size of the journal: if it is right at the start, it is right at the end of every run, across loops,
  routers, parallel branches, retries and failures.
\<close>

theorem run_log_size:
  assumes "executeFromTrigger d E begins wv c w = Some (Inr c', w')" and "logSizeBytes c = journalSizeof (lang E) (steps c)"
  shows "logSizeBytes c' = journalSizeof (lang E) (steps c')"
  using log.run_kept(2) [OF assms(1)] assms(2) by (simp add: log.kept_def accounted_def)

text \<open>
  C9: A run ends at the position in the loops where it began, and every step that was recorded there or in
  an iteration around it is still recorded, so resuming or continuing a run never loses a result.
\<close>

theorem run_never_forgets:
  assumes "execute d E action c w = Some (Inr c', w')"
  shows "currentPath c' = currentPath c
     \<and> (\<forall>q n. prefix q (currentPath c) \<and> recorded q n (steps c) \<longrightarrow> recorded q n (steps c'))"
  using memory.run_kept(1) [OF assms] by (auto simp: memory.kept_def remembers_def)

text \<open>
  A run never takes back a step from the count of the node limit, a tag, or a report on retries; reports are
  appended in order.
\<close>

theorem run_only_adds:
  assumes "execute d E action c w = Some (Inr c', w')"
  shows "stepsCount c \<le> stepsCount c' \<and> set (tags c) \<subseteq> set (tags c') \<and> prefix (reliabilityEvents c) (reliabilityEvents c')"
  using growth.run_kept(1) [OF assms] by (simp add: growth.kept_def grows_def)

end
