(* ===== verification/Engine_Termination.thy ===== *)
theory Engine_Termination
  imports Engine Step_Retry_Laws Plan_Correctness
begin

text \<open>
  Every run comes to an end. The executors end when the executor of the inner plans does; a plan is walked
  along the chain of next actions, which the names of the steps make finite; and an inner plan has fewer
  steps than the plan around it. So the bound of \<open>execute\<close> is never reached when it exceeds the number
  of steps.
\<close>

subsection \<open>Executors end\<close>

lemma ends_upsert [ends_rules]: "ends (ctx_upsertStep L env T name out c)"
proof -
  have "ends (maybeSliceOutput L env T api v)" for api v
    unfolding maybeSliceOutput_def by (auto intro!: ends_rules split: option.split)
  then have "ends (finalize_output L env T c out)"
    unfolding finalize_output_def by (auto intro!: ends_rules ends_ebind split: StepOutput.split)
  then show ?thesis unfolding ctx_upsertStep_def by (rule ends_ebind) (rule ends_rules)
qed

lemma ends_upsert_then [ends_rules]: "(\<And>x. ends (k x)) \<Longrightarrow> ends (ebind (ctx_upsertStep L env T name out c) k)"
  by (rule ends_ebind [OF ends_upsert])

lemma ends_swallow_report [ends_rules]: "(\<And>x. ends (k x)) \<Longrightarrow> ends (ebind (swallow (report E c n)) k)"
  unfolding swallow_def report_def by (intro ends_ebind ends_rules)

lemma ends_fail_since [ends_rules]: "ends (fail_since E a c out start msg)"
  unfolding fail_since_def failStep_def Let_def by (intro ends_rules)

lemma ends_failStep [ends_rules]: "ends (failStep E a c out msg d)"
  unfolding failStep_def Let_def by (intro ends_rules)

lemma ends_or_fail: "ends m \<Longrightarrow> (\<And>x. ends (k x)) \<Longrightarrow> ends (or_fail E a c out start m k)"
  unfolding or_fail_def by (intro ends_ebind ends_try) (auto intro: ends_rules split: sum.split)

lemma ends_hook_outcome: "ends (hook_outcome E a out v d h missing c)"
  unfolding hook_outcome_def by (auto intro!: ends_rules split: HookType.split option.split)

lemma ends_announce: "(\<And>x. ends (k x)) \<Longrightarrow> ends (ebind (announce E a out paused c) k)"
  unfolding announce_def report_def by (intro ends_ebind) (auto intro!: ends_rules)

lemma ends_send_response: "(\<And>x. ends (k x)) \<Longrightarrow> ends (ebind (send_response E n r) k)"
  unfolding send_response_def by (intro ends_ebind) (auto intro!: ends_rules split: option.split)

lemma ends_code_request: "ends (code_request E a c)"
  unfolding code_request_def Let_def report_def
  by (intro ends_rules ends_or_fail) (auto intro!: ends_rules ends_or_fail)

lemma ends_component_request: "ends (component_request E a kind c)"
  unfolding component_request_def Let_def
  by (intro ends_rules ends_or_fail) (auto intro!: ends_rules ends_or_fail ends_announce ends_hook_outcome)

lemma ends_connector_request: "ends (connector_request E a s c)"
  unfolding connector_request_def Let_def
  by (intro ends_rules ends_or_fail)
     (auto intro!: ends_rules ends_or_fail ends_announce ends_send_response ends_hook_outcome split: option.split)

lemma ends_retried: "(\<And>c. ends (request c)) \<Longrightarrow> ends (retried E a request c)"
  unfolding retried_def by (auto intro!: ends_rules ends_ebind [OF ends_backoff])

lemma ends_finish_loop: "ends (finish_loop E a start out c)"
  unfolding finish_loop_def by (intro ends_rules)

lemma ends_loop_iterate:
  assumes "\<And>f c. first = Some f \<Longrightarrow> ends (exec first c)"
  shows "ends (loop_iterate E exec a first start i xs out c)"
proof (induction xs arbitrary: i out c)
  case Nil
  then show ?case by (simp add: ends_finish_loop)
next
  case (Cons x xs)
  have "ends (if first = None \<or> single_step_test E then eret c2 else exec first c2)" for c2
    using assms by (cases first) (auto intro: ends_rules)
  note body = ends_ebind [OF this]
  show ?case unfolding loop_iterate.simps Let_def
    by (intro ends_upsert_then body ends_ebind_elift) (simp add: ends_finish_loop Cons.IH)
qed

lemma ends_loop_handle:
  "(\<And>f c. first = Some f \<Longrightarrow> ends (exec first c)) \<Longrightarrow> ends (loop_handle E exec a template first c)"
  unfolding loop_handle_def Let_def
  by (intro ends_rules ends_or_fail)
     (auto intro!: ends_rules ends_loop_iterate ends_finish_loop split: option.split json.split)

lemma ends_router_branches:
  "(\<And>child c. child \<in> snd ` set bs \<Longrightarrow> ends (exec child c)) \<Longrightarrow> ends (router_branches E exec fm bs c)"
proof (induction bs arbitrary: c)
  case Nil
  then show ?case by (simp add: ends_rules)
next
  case (Cons b bs)
  then show ?case
    by (cases b) (auto intro!: ends_rules ends_ebind [OF ends_try] split: sum.split)
qed

lemma branch_children_mem: "child \<in> snd ` set (branch_children cs vs) \<Longrightarrow> child \<in> insert None (set cs)"
  by (auto simp: branch_children_def array_read_def split: if_splits)

lemma ends_router_handle:
  assumes "\<And>child c. child \<in> insert None (set cs) \<Longrightarrow> ends (exec child c)"
  shows "ends (router_handle E exec a s cs c)"
proof -
  have "ends (router_branches E exec fm (branch_children cs vs) c)" for fm vs c
    by (rule ends_router_branches) (rule assms, rule branch_children_mem)
  note run = ends_ebind [OF this]
  have "ends (handleRouterExecution E exec a cs bs k v c)" for bs k v
    unfolding handleRouterExecution_def Let_def
    by (intro ends_rules run) (auto intro: ends_rules split: option.split)
  then show ?thesis
    unfolding router_handle_def by (intro ends_rules ends_or_fail) (auto intro: ends_rules split: option.split)
qed

lemma ends_parallel_handle:
  assumes "\<And>child c. Some child \<in> set cs \<Longrightarrow> ends (exec (Some child) c)"
  shows "ends (parallel_handle E exec a s cs c)"
proof -
  have "ends (emap (\<lambda>b. ecatch (exec (Some b) c)) (List.map_filter (\<lambda>x. x) cs))"
    using assms by (intro ends_rules) (force simp: List.map_filter_def)
  note branches = ends_ebind [OF this]
  have "ends (mergeBranchResults E c rs)" for rs
    unfolding mergeBranchResults_def merge_branch_def merge_step_def
    by (intro ends_ebind ends_efold) (auto intro!: ends_rules)
  note merge = ends_ebind [OF this]
  have "ends (finish_parallel E a start out c)" for start out c
    unfolding finish_parallel_def by (intro ends_rules)
  then show ?thesis
    unfolding parallel_handle_def Let_def by (auto intro!: ends_rules branches merge split: option.split)
qed

text \<open>A step ends when its inner plans do.\<close>

definition heads :: "step \<Rightarrow> step option set" where
  "heads a = snd ` set (childrenOf a)"

lemma heads_simps [simp]:
  "heads (Loop b s f n) = {f}" "heads (Router b r cs n) = set cs" "heads (Parallel b p cs n) = set cs"
proof -
  have "snd ` (\<lambda>x. case x of (i, c) \<Rightarrow> (f i, c)) ` set (enumerate 0 cs) = set cs" for f :: "nat \<Rightarrow> string" and cs :: "step option list"
    by (force simp: image_image case_prod_unfold enumerate_eq_zip set_zip in_set_conv_nth)
  then show "heads (Router b r cs n) = set cs" "heads (Parallel b p cs n) = set cs" by (simp_all add: heads_def)
qed (simp add: heads_def)

lemma heads_branches: "branches_of a = Some (Some h, y) \<Longrightarrow> Some h \<in> heads a" "branches_of a = Some (x, Some h) \<Longrightarrow> Some h \<in> heads a"
  by (cases a; auto simp: heads_def)+

lemma ends_handle:
  assumes "\<And>child c. child \<in> heads a \<Longrightarrow> ends (exec child c)" and "\<And>c. ends (exec None c)"
  shows "ends (handle E exec a c)"
  using assms
  by (cases a) (auto intro!: ends_retried ends_code_request ends_component_request ends_connector_request
      ends_loop_handle ends_router_handle ends_parallel_handle ends_basic)

lemma ends_failure_branch:
  assumes "\<And>child c. child \<in> heads a \<Longrightarrow> ends (exec child c)"
  shows "ends (runContinueOnFailureBranchIfNeeded E exec a c)"
proof -
  have "ends (recordFailureDetails E a c)" for c
    unfolding recordFailureDetails_def Let_def by (auto intro!: ends_rules split: option.split)
  note details = ends_ebind [OF this]
  show ?thesis
    unfolding runContinueOnFailureBranchIfNeeded_def
    by (auto intro!: ends_basic ends_ebind_elift details assms intro: heads_branches split: option.split)
qed

lemma ends_run_step:
  assumes "\<And>child c. child \<in> heads a \<Longrightarrow> ends (exec child c)" and "\<And>c. ends (exec None c)"
  shows "ends (run_step E exec a c)"
proof -
  note failure = ends_ebind [OF ends_failure_branch [of a exec, OF assms(1)]]
  have "ends (applyLogSizeLimitIfExceeded E a c)" for c
    unfolding applyLogSizeLimitIfExceeded_def by (auto intro!: ends_rules)
  note limit = ends_ebind [OF this]
  have "ends (handle E exec a c)" using assms by (rule ends_handle)
  then show ?thesis
    unfolding run_step_def by (rule ends_ebind) (auto intro!: limit failure ends_basic)
qed

subsection \<open>Walking a plan ends\<close>

text \<open>Steps whose names tell them apart, from each other and from what every object inherits.\<close>

definition runnable :: "step option \<Rightarrow> bool" where
  "runnable x \<longleftrightarrow> distinct (plan_names x) \<and> (\<forall>n \<in> set (plan_names x). n \<noteq> SYNTHETIC_TRIGGER_NAME \<and> n \<notin> set object_prototype_keys)"

lemma runnable_head: "runnable (Some a) \<Longrightarrow> child \<in> heads a \<Longrightarrow> runnable child \<and> length (plan_steps child) < length (plan_steps (Some a))"
proof -
  assume "runnable (Some a)" "child \<in> heads a"
  then obtain slot xs ys where "childrenOf a = xs @ (slot, child) # ys" by (auto simp: heads_def dest: split_list)
  then show ?thesis using \<open>runnable (Some a)\<close> by (auto simp: runnable_def)
qed

lemma runnable_next: "runnable (Some a) \<Longrightarrow> runnable (nextAction a) \<and> length (plan_steps (nextAction a)) < length (plan_steps (Some a))"
  by (auto simp: runnable_def)

lemma runnable_sub:
  "y \<in> set (plan_steps x) \<Longrightarrow> runnable x \<Longrightarrow> runnable (Some y) \<and> length (plan_steps (Some y)) \<le> length (plan_steps x)"
proof (induction x rule: plan_steps.induct)
  case 1
  then show ?case by simp
next
  case (2 a)
  consider "y = a" | "y \<in> set (plan_steps (nextAction a))" | slot d where "(slot, d) \<in> set (childrenOf a)" "y \<in> set (plan_steps d)"
    using "2.prems"(1) by auto
  then show ?case
  proof cases
    case 1
    then show ?thesis using "2.prems" by simp
  next
    case 2
    then show ?thesis using "2.IH"(1) runnable_next [OF "2.prems"(2)] by fastforce
  next
    case 3
    then have "d \<in> heads a" by (force simp: heads_def)
    then show ?thesis using "2.IH"(2) [OF 3(1) refl 3(2)] runnable_head [OF "2.prems"(2)] by fastforce
  qed
qed

lemma plan_node:
  assumes "runnable (Some a)" and "forSubtree a g = Inr plan" and "x \<in> set (plan_steps (Some a))"
  shows "map_of (plan_nodes plan) (step_name x) = Some (action_node x)"
proof -
  let ?t = "trigger (syntheticVersionFor a g)"
  have t: "step_name ?t = SYNTHETIC_TRIGGER_NAME" "nextAction ?t = Some a" by (simp_all add: syntheticVersionFor_def)
  have "SYNTHETIC_TRIGGER_NAME \<notin> set object_prototype_keys" by (simp add: SYNTHETIC_TRIGGER_NAME_def object_prototype_keys_def)
  with assms(1) have "well_named ?t" unfolding well_named_def t runnable_def by (auto simp del: plan_steps.simps)
  from visitTrigger_nodes [OF this] assms(2)
  have "plan_nodes plan = (SYNTHETIC_TRIGGER_NAME, trigger_node ?t) # map node_entry (plan_steps (Some a))"
    by (auto simp: forSubtree_def compile_def Let_def rbind_eq_Inr t)
  moreover have "step_name x \<in> set (plan_names (Some a))" using assms(3) by (simp del: plan_steps.simps)
  then have "step_name x \<noteq> SYNTHETIC_TRIGGER_NAME" using assms(1) unfolding runnable_def by blast
  moreover have "map_of (map node_entry (plan_steps (Some a))) (step_name x) = Some (action_node x)"
    by (rule map_of_is_SomeI) (use assms in \<open>auto simp: runnable_def node_entry_def o_def simp del: plan_steps.simps\<close>)
  ultimately show ?thesis by simp
qed

lemma plan_cursor:
  assumes "runnable (Some a)" and "forSubtree a g = Inr plan" and "x \<in> set (plan_steps (Some a))"
  shows "stepAt plan (step_name x) = Some x" and "nextOf plan (step_name x) = Inr (map_option step_name (nextAction x))"
  using plan_node [OF assms] by (cases "nextAction x"; simp add: stepAt_def nextOf_def action_node_def nextIds_def)+

lemma ends_run_nodes:
  assumes plan: "runnable (Some a)" "forSubtree a g = Inr plan"
    and step: "\<And>x c. x \<in> set (plan_steps (Some a)) \<Longrightarrow> ends (run_step E exec x c)"
  shows "set (plan_steps y) \<subseteq> set (plan_steps (Some a)) \<Longrightarrow> length (plan_steps y) < n \<Longrightarrow>
    ends (run_nodes n E exec plan previous (map_option step_name y) c)"
proof (induction n arbitrary: y previous c)
  case 0
  then show ?case by simp
next
  case (Suc n)
  show ?case
  proof (cases y)
    case None
    then show ?thesis by (simp add: ends_basic)
  next
    case (Some x)
    then have x: "x \<in> set (plan_steps (Some a))" using Suc.prems(1) by auto
    note cursor = plan_cursor [OF plan x]
    have "ends (run_nodes n E exec plan previous (map_option step_name (nextAction x)) c)" for previous c
      by (rule Suc.IH) (use Suc.prems Some in auto)
    then show ?thesis
      using step [OF x] by (auto simp: Some cursor intro!: ends_rules ends_ebind [of "run_step E exec x c"])
  qed
qed

lemma ends_execute: "runnable x \<Longrightarrow> length (plan_steps x) < d \<Longrightarrow> ends (execute d E x c)"
proof (induction d arbitrary: x c)
  case 0
  then show ?case by simp
next
  case (Suc d)
  show ?case
  proof (cases x)
    case None
    then show ?thesis by (auto simp: execute_plan_def intro!: ends_rules)
  next
    case (Some a)
    have step: "ends (run_step E (execute d E) y c)" if "y \<in> set (plan_steps (Some a))" for y c
    proof (rule ends_run_step)
      have y: "runnable (Some y)" "length (plan_steps (Some y)) \<le> d"
        using runnable_sub [OF that] Suc.prems Some by auto
      show "ends (execute d E child c)" if "child \<in> heads y" for child c
        by (rule Suc.IH) (use runnable_head [OF y(1) that] y(2) in auto)
      show "ends (execute d E None c)" for c
        by (rule Suc.IH) (use y(2) in \<open>simp_all add: runnable_def\<close>)
    qed
    have "ends (run_nodes (Suc d) E (execute d E) plan previous (map_option step_name (Some a)) c)"
      if "forSubtree a (workflowGraph (const E)) = Inr plan" for plan previous c
      by (rule ends_run_nodes [OF _ that step]) (use Suc.prems Some in auto)
    then have "ends (ebind (run_nodes (Suc d) E (execute d E) plan (step_name a) (Some (step_name a)) c) k)"
      if "forSubtree a (workflowGraph (const E)) = Inr plan" "\<And>r. ends (k r)" for plan and k :: "_ \<Rightarrow> ('a, WorkflowExecutorContext) eff"
      using that by (auto intro: ends_ebind simp del: run_nodes.simps)
    note walk = this
    show ?thesis
      unfolding Some execute.simps execute_plan_def option.case
      by (intro ends_ebind_world ends_ebind_elift walk) (auto intro!: ends_rules)
  qed
qed

text \<open>
  C2: Every run ends: whatever the clock, the sandbox, the connectors and the file store answer, and however often
  steps fail and are retried, running an action and everything after it returns or throws, if the steps have names of
  their own. The nesting bound of the model is not reached when it exceeds the number of steps.
\<close>

theorem run_ends:
  assumes "runnable (Some a)" and "length (plan_steps (Some a)) < d"
  shows "\<exists>r w'. execute d E (Some a) c w = Some (r, w')"
  using ends_execute [OF assms, of E c] unfolding ends_def by auto

end
