(* ===== verification/Engine_Properties.thy ===== *)
theory Engine_Properties
  imports Engine Step_Retry_Laws Plan_Correctness
begin

text \<open>
  What single executors promise: which branches a router takes, what a resumed run skips, when the limits
  stop a run, and what a parallel step and a join edge do not do.
\<close>

subsection \<open>Routers\<close>

lemma rsome_value: "rsome p xs = Inr b \<Longrightarrow> b \<longleftrightarrow> (\<exists>x \<in> set xs. p x = Inr True)"
  by (induction xs) (auto simp: rbind_eq_Inr split: if_splits)

lemma revery_value: "revery p xs = Inr b \<Longrightarrow> b \<longleftrightarrow> (\<forall>x \<in> set xs. p x = Inr True)"
  by (induction xs) (auto simp: rbind_eq_Inr split: if_splits)

lemma evaluateConditions_dnf:
  assumes "evaluateConditions L groups = Inr b"
  shows "b \<longleftrightarrow> (\<exists>g \<in> set groups. \<forall>c \<in> set g. evaluateCondition L c = Inr True)"
proof -
  have "revery (evaluateCondition L) g = Inr True \<longleftrightarrow> (\<forall>c \<in> set g. evaluateCondition L c = Inr True)" for g
  proof
    show "revery (evaluateCondition L) g = Inr True" if "\<forall>c \<in> set g. evaluateCondition L c = Inr True"
      using that by (induction g) auto
  qed (use revery_value in blast)
  then show ?thesis using rsome_value [OF assms [unfolded evaluateConditions_def]] by simp
qed

lemma rmap_list_nth: "rmap_list f xs = Inr ys \<Longrightarrow> length ys = length xs \<and> (\<forall>i < length xs. f (xs ! i) = Inr (ys ! i))"
proof (induction xs arbitrary: ys)
  case Nil
  then show ?case by simp
next
  case (Cons x xs)
  then show ?case by (auto simp: rbind_eq_Inr nth_Cons split: nat.split)
qed

lemma list_all_others:
  "i < length us \<Longrightarrow> list_all P (take i us @ drop (Suc i) us) \<longleftrightarrow> (\<forall>j < length us. j \<noteq> i \<longrightarrow> P (us ! j))"
proof (induction us arbitrary: i)
  case Nil
  then show ?case by simp
next
  case (Cons u us)
  then show ?case by (cases i) (simp_all add: All_less_Suc2 list_all_length)
qed

lemma branch_values:
  assumes "evaluate_branches L bs = Inr vs"
  obtains us where "length us = length bs" "vs = with_fallback bs us" "\<And>i. i < length bs \<Longrightarrow> evaluate_branch L (bs ! i) = Inr (us ! i)"
proof -
  obtain us where "rmap_list (evaluate_branch L) bs = Inr us" "vs = with_fallback bs us"
    using assms by (auto simp: evaluate_branches_def rbind_eq_Inr)
  with rmap_list_nth [OF this(1)] show thesis by (intro that [of us]) auto
qed

lemma router_marks:
  assumes "evaluate_branches L bs = Inr vs" and i: "i < length bs"
  shows "vs ! i \<longleftrightarrow> (case bs ! i of
           ResolvedConditionBranch _ groups \<Rightarrow> \<exists>g \<in> set groups. \<forall>c \<in> set g. evaluateCondition L c = Inr True
         | ResolvedFallback _ \<Rightarrow> \<forall>j < length bs. j \<noteq> i \<longrightarrow> \<not> is_resolved_fallback (bs ! j) \<and> \<not> vs ! j)"
proof -
  obtain us where us: "length us = length bs" "vs = with_fallback bs us" "\<And>i. i < length bs \<Longrightarrow> evaluate_branch L (bs ! i) = Inr (us ! i)"
    by (rule branch_values [OF assms(1)], rule that)
  have vs: "vs ! j = (if is_resolved_fallback (bs ! j) then list_all Not (take j us @ drop (Suc j) us) else us ! j)"
    if "j < length bs" for j using that by (simp add: us(2) with_fallback_def)
  have fb: "us ! j" if "j < length bs" "is_resolved_fallback (bs ! j)" for j
    using us(3) [OF that(1)] that(2) by (cases "bs ! j") (auto simp: evaluate_branch_def)
  show ?thesis
  proof (cases "bs ! i")
    case (ResolvedConditionBranch n gs)
    then show ?thesis using us(3) [OF i] vs [OF i] evaluateConditions_dnf by (auto simp: evaluate_branch_def)
  next
    case (ResolvedFallback n)
    have "vs ! i \<longleftrightarrow> (\<forall>j < length bs. j \<noteq> i \<longrightarrow> \<not> us ! j)"
      using vs [OF i] i list_all_others [of i us Not] by (simp add: ResolvedFallback us(1))
    also have "\<dots> \<longleftrightarrow> (\<forall>j < length bs. j \<noteq> i \<longrightarrow> \<not> is_resolved_fallback (bs ! j) \<and> \<not> vs ! j)" using fb vs by auto
    finally show ?thesis by (simp add: ResolvedFallback)
  qed
qed

text \<open>
  C7: A router marks a condition branch exactly when one of its groups has only true conditions, and a fallback
  branch exactly when every other branch is a condition branch that is not marked; with one fallback, some branch is
  always marked.
\<close>

theorem router_selects:
  assumes "evaluate_branches L bs = Inr vs"
  shows "length vs = length bs
     \<and> (\<forall>i < length bs. vs ! i \<longleftrightarrow> (case bs ! i of
           ResolvedConditionBranch _ groups \<Rightarrow> \<exists>g \<in> set groups. \<forall>c \<in> set g. evaluateCondition L c = Inr True
         | ResolvedFallback _ \<Rightarrow> \<forall>j < length bs. j \<noteq> i \<longrightarrow> \<not> is_resolved_fallback (bs ! j) \<and> \<not> vs ! j))
     \<and> ((\<exists>!i. i < length bs \<and> is_resolved_fallback (bs ! i)) \<longrightarrow> True \<in> set vs)"
proof (intro conjI allI impI)
  show len: "length vs = length bs" using assms by (rule branch_values) (simp add: with_fallback_def)
  show "True \<in> set vs" if unique: "\<exists>!i. i < length bs \<and> is_resolved_fallback (bs ! i)"
  proof -
    obtain i where i: "i < length bs" "is_resolved_fallback (bs ! i)"
      and one: "\<And>j. j < length bs \<Longrightarrow> is_resolved_fallback (bs ! j) \<Longrightarrow> j = i" using unique by auto
    obtain n where n: "bs ! i = ResolvedFallback n" using i(2) by (cases "bs ! i") auto
    from router_marks [OF assms i(1), unfolded n ResolvedBranch.case] obtain j where "j < length vs" "vs ! j" using i(1) one len by metis
    then show ?thesis using nth_mem [of j vs] by simp
  qed
qed (rule router_marks [OF assms])

text \<open>
  A router that executes the first match runs the plan of the first marked branch and of no other,
  whatever that plan does.
\<close>

theorem first_match_runs_one:
  assumes "\<not> single_step_test E"
  shows "router_branches E exec True bs c = (case List.find fst bs of
       None \<Rightarrow> eret (c, None)
     | Some (_, child) \<Rightarrow> ebind (tryCatchAndThrowOnEngineError (exec child c)) (\<lambda>r.
         eret (case r of Inl e \<Rightarrow> (c, Some e) | Inr c' \<Rightarrow> (c', None))))"
proof (induction bs)
  case Nil
  then show ?case by simp
next
  case (Cons b bs)
  have "case_sum (\<lambda>e. eret (c, Some e)) (\<lambda>c'. eret (c', None))
      = (\<lambda>r. eret (case r of Inl e \<Rightarrow> (c, Some e) | Inr c' \<Rightarrow> (c', None)) :: ('a, WorkflowExecutorContext \<times> error option) eff)"
    by (auto split: sum.split)
  moreover obtain v child where "b = (v, child)" by (cases b)
  ultimately show ?case using Cons assms by (cases v) simp_all
qed

subsection \<open>Resuming\<close>

text \<open>
  C34: A step that already has a result other than a pause is not run again when a run is resumed or a plan
  is walked twice: its executor returns the state it was given and does not touch the outside world.
\<close>

theorem completed_not_rerun:
  assumes "isCompleted (step_name a) c = Inr True" and "type_of a \<in> {CODE, COMPONENT, CONNECTOR, PARALLEL}"
  shows "handle E exec a c w = Some (Inr c, w)"
  using assms by (cases a) (auto simp: retried_def parallel_handle_def eret_def)

subsection \<open>Limits\<close>

definition within_limits :: "'w engine \<Rightarrow> WorkflowExecutorContext \<Rightarrow> bool" where
  "within_limits E c \<longleftrightarrow> isWithinSizeLimit (penv E) (logSizeBytes c) \<and> \<not> exceedsNodeLimit (stepsCount c) (maxNodesPerRun (penv E))"

lemma logSizeLimit_running:
  "sat (applyLogSizeLimitIfExceeded E a c) (\<lambda>c'. is_running c' \<longrightarrow> isWithinSizeLimit (penv E) (logSizeBytes c'))"
  unfolding applyLogSizeLimitIfExceeded_def
  by (auto intro!: sat_rules sat_ebind_any [of _ _ "ctx_upsertStep L e t n x y" for L e t n x y] simp: setVerdict_def)

lemma nodeLimit_simps:
  "is_running (applyNodeLimitIfExceeded E a c) \<longleftrightarrow> is_running c \<and> \<not> exceedsNodeLimit (stepsCount c) (maxNodesPerRun (penv E))"
  "logSizeBytes (applyNodeLimitIfExceeded E a c) = logSizeBytes c" "stepsCount (applyNodeLimitIfExceeded E a c) = stepsCount c"
  by (auto simp: applyNodeLimitIfExceeded_def exceedsNodeLimit_def setVerdict_def split: option.splits)

lemma run_step_limits:
  assumes "\<not> single_step_test E"
  shows "sat (run_step E exec a c) (\<lambda>c'. is_running c' \<longrightarrow> within_limits E c')"
  unfolding run_step_def
  by (rule sat_ebind_any, rule sat_ebind_any, rule sat_ebind [OF logSizeLimit_running], rule sat_eret)
     (use assms in \<open>auto simp: within_limits_def nodeLimit_simps\<close>)

lemma run_nodes_limits:
  assumes "\<not> single_step_test E"
  shows "(is_running c \<longrightarrow> within_limits E c) \<Longrightarrow>
    sat (run_nodes n E exec plan previous node c) (\<lambda>(c', _). is_running c' \<longrightarrow> within_limits E c')"
proof (induction n arbitrary: previous node c)
  case 0
  then show ?case by (simp add: sat_rules)
next
  case (Suc n)
  note step = sat_ebind [OF run_step_limits [OF assms, of exec]]
  show ?case
    using Suc by (auto intro!: sat_rules sat_ebind_any [of _ _ "swallow m" for m] step split: option.split)
qed


subsection \<open>Parallel steps and joins\<close>

text \<open>
  Merging the branches of a parallel step keeps the step count and the retry reports of the state
  before it: what the branches counted and reported is dropped, so their steps do not count against the node limit.
\<close>

theorem parallel_merge_drops:
  assumes "mergeBranchResults E base results w = Some (Inr merged, w')"
  shows "stepsCount merged = stepsCount base \<and> reliabilityEvents merged = reliabilityEvents base"
proof -
  let ?P = "\<lambda>m. stepsCount m = stepsCount base \<and> reliabilityEvents m = reliabilityEvents base"
  have upsert: "sat (upsert_in E n out m) ?P" if "?P m" for n out m
    using that unfolding ctx_upsertStep_def
    by (intro sat_ebind_any sat_elift) (auto simp: store_output_def rbind_eq_Inr)
  have step: "sat (merge_step E base m x) ?P" if "?P m" for m x
    using that upsert unfolding merge_step_def by (auto intro: sat_eret split: prod.split)
  have branch: "sat (merge_branch E base m r) ?P" if "?P m" for m r
    unfolding merge_branch_def
    by (rule sat_ebind [OF sat_efold [where P = ?P]]) (use that step in \<open>auto intro!: sat_eret simp: addTags_def\<close>)
  have "sat (mergeBranchResults E base results) ?P"
    unfolding mergeBranchResults_def
    by (rule sat_ebind [OF sat_efold [where P = ?P]])
       (use branch in \<open>auto intro!: sat_eret simp: setVerdict_def split: option.split\<close>)
  then show ?thesis using assms unfolding sat_def by blast
qed

text \<open>
  A join edge that starts at a step outside a branch does not make the steps of the branch wait:
  the plan of the branch is the same without the edge, and so is everything its executor does.
\<close>

theorem subtree_ignores_outer_join:
  assumes "well_named (trigger (syntheticVersionFor a (Some es)))"
    and "edge_from e \<notin> set (SYNTHETIC_TRIGGER_NAME # plan_names (Some a))" and "edge_from e \<notin> set object_prototype_keys"
  shows "forSubtree a (Some (xs @ e # ys)) = forSubtree a (Some (xs @ ys))"
proof -
  obtain t where t: "\<And>g. trigger (syntheticVersionFor a g) = t" and "step_name t = SYNTHETIC_TRIGGER_NAME" "nextAction t = Some a"
    by (simp add: syntheticVersionFor_def)
  then have "map fst (visitTrigger t) = SYNTHETIC_TRIGGER_NAME # plan_names (Some a)"
    using visitTrigger_nodes [OF assms(1) [unfolded t]] by (simp add: o_def del: plan_steps.simps)
  with assms(2,3) have "\<not> js_has (visitTrigger t) (edge_from e)"
    unfolding js_has_def by (metis set_map)
  moreover have "joinEdgesOf (syntheticVersionFor a (Some es)) = es" for es
    by (simp add: joinEdgesOf_def syntheticVersionFor_def)
  ultimately show ?thesis unfolding forSubtree_def compile_def t Let_def by simp
qed

end
