(* ===== verification/Engine_Witnesses.thy ===== *)
theory Engine_Witnesses
  imports Witnesses Engine_Invariants Engine_Termination Engine_Properties
begin

text \<open>
  A sample engine whose surroundings answer at once, runs of it, and the instances of the properties of
  runs at these runs.
\<close>

definition demo_language :: language where
  "demo_language = \<lparr>numText = (\<lambda>_. ''1''), jsonParse = (\<lambda>_. None), parseDate = (\<lambda>_. None), formatError = (\<lambda>_. ''error'')\<rparr>"

definition demo_process :: process_env where
  "demo_process = \<lparr>SLICE_THRESHOLD_KB = None, INPUT_TRUNCATE_THRESHOLD_KB = None, MAX_EXECUTION_LOG_SIZE_MB = Some ''Infinity'',
     MAX_NODES_PER_RUN = Some ''5'', STEP_TIMEOUT_SECONDS = None, MAX_STEP_PAYLOAD_MB = None\<rparr>"

definition demo_runtime :: "unit runtime" where
  "demo_runtime = \<lparr>perfNow = (\<lambda>w. (0, w)), dateNow = (\<lambda>w. (0, w)), uploadSlice = (\<lambda>_ w. (Inr (''f'', ''u''), w)),
     downloadSlice = (\<lambda>_ w. (Inr JNull, w)), sendUpdate = (\<lambda>_ _ w. (Inr (), w))\<rparr>"

definition demo_constants :: "WorkflowJoinEdge list option \<Rightarrow> EngineConstants" where
  "demo_constants g = \<lparr>workflowGraph = g, stepNameToTest = None, maxAttempts = 4, retryExponential = 2, retryIntervalMs = 2000,
     executionId = ''e'', constWorkflowId = ''w'', actionRunMode = True, runEnvironment = None, triggerConnector = ''t'',
     workerHandlerId = None, httpRequestId = None\<rparr>"

definition demo_services :: "unit services" where
  "demo_services = \<lparr>resolveInput = (\<lambda>_ _ w. (Inr (JObj [], JObj []), w)), resolveItems = (\<lambda>_ _ w. (Inr (Some (JArr []), JNull), w)),
     resolveRouter = (\<lambda>_ _ w. (Inr (([ResolvedConditionBranch ''A'' [], ResolvedFallback ''Otherwise''], Some EXECUTE_FIRST_MATCH), JObj []), w)),
     runCodeModule = (\<lambda>_ _ w. (Inr (Some (JNum 1)), w)), componentKnown = (\<lambda>_. True),
     runComponent = (\<lambda>_ _ _ w. (Inr (None, \<lparr>hookTags = [], hookType = HookNone\<rparr>), w)),
     describeConnector = (\<lambda>_ _ w. (Inr [], w)), callConnector = (\<lambda>_ _ _ _ w. (Inr (None, \<lparr>hookTags = [], hookType = HookNone\<rparr>), w)),
     sendWorkflowResponse = (\<lambda>_ w. (Inr (), w)), executeOnStart = (\<lambda>_ w. (Inr (), w)), sleep = (\<lambda>_ w. ((), w)),
     classifyErrorMessage = (\<lambda>_. (''X'', None)), blockedUntil = (\<lambda>_. None), failureDetails = (\<lambda>_ _. JNull)\<rparr>"

definition demo_engine :: "WorkflowJoinEdge list option \<Rightarrow> unit engine" where
  "demo_engine g = \<lparr>lang = demo_language, penv = demo_process, rt = demo_runtime, svc = demo_services, const = demo_constants g\<rparr>"

lemmas effect_defs = ebind_def eret_def elift_def ecall_def eread_def ecatch_def ethrow_def tryCatchAndThrowOnEngineError_def

lemma demo_parts [simp]:
  "lang (demo_engine g) = demo_language" "penv (demo_engine g) = demo_process" "rt (demo_engine g) = demo_runtime"
  "svc (demo_engine g) = demo_services" "const (demo_engine g) = demo_constants g"
  "stepNameToTest (demo_constants g) = None" "workflowGraph (demo_constants g) = g"
  "perfNow demo_runtime w = (0, w)" "dateNow demo_runtime w = (0, w)" "sendUpdate demo_runtime c n w = (Inr (), w)"
  by (simp_all add: demo_engine_def demo_constants_def demo_runtime_def)

lemma demo_no_log_limit: "isWithinSizeLimit demo_process n"
  by (simp add: isWithinSizeLimit_def MAX_SIZE_FOR_ALL_ENTRIES_def MAX_LOG_SIZE_def demo_process_def js_number_def Let_def
     trim_def is_space_def unsigned_decimal_def)


lemma demo_node_limit: "maxNodesPerRun demo_process = Some 5"
proof -
  have "''5'' = show_nat 5" by code_simp
  then have "js_number ''5'' = Fin (of_nat 5)" using js_number_show_nat [of 5] by (simp add: finite_num_def)
  then show ?thesis by (simp add: maxNodesPerRun_def positiveNumber_def demo_process_def trim_def is_space_def)
qed

definition demo_start :: WorkflowExecutorContext where
  "demo_start = emptyContext False False"

lemma demo_start_parts [simp]:
  "verdict demo_start = VerdictRunning" "steps demo_start = []" "currentPath demo_start = []" "stepsCount demo_start = 0"
  "\<not> slicingEnabled demo_start"
  by (simp_all add: demo_start_def emptyContext_def)

definition demo_parallel :: step where
  "demo_parallel = Parallel (demo_base ''step_1'') \<lparr>sampleData = None, customLogoUrl = None, displayNumber = None,
     pendingReview = None, sensitiveOutput = None, parallelBranches = []\<rparr> [] None"

text \<open>A write at the top level, without slicing.\<close>

lemma store_top: "currentPath c = [] \<Longrightarrow> store_output L n out c =
    Inr (c\<lparr>steps := AList.update n out (steps c), logSizeBytes := logSizeBytes c + upsertStepDelta L n (map_of (steps c) n) out\<rparr>)"
  by (simp add: store_output_def getStepAt_def getStateAtPath_def)

lemma upsert_plain: "\<not> slicingEnabled c \<Longrightarrow> \<not> sliced b \<Longrightarrow> stepInput b = Some (JObj []) \<Longrightarrow>
    ctx_upsertStep L env T n (ActionOutput t b v) c = elift (store_output L n (ActionOutput t b v) c)"
  by (cases b) (simp add: ctx_upsertStep_def finalize_output_def withTruncatedInput_def maybeTruncateInput_def)

lemma demo_plan: "\<exists>plan. forSubtree demo_parallel None = Inr plan
    \<and> plan_nodes plan = [(SYNTHETIC_TRIGGER_NAME, trigger_node (trigger (syntheticVersionFor demo_parallel None))),
        (''step_1'', action_node demo_parallel)]
    \<and> plan_dependencies plan = [(SYNTHETIC_TRIGGER_NAME, []), (''step_1'', [SYNTHETIC_TRIGGER_NAME])]"
  by (simp add: forSubtree_def compile_def Let_def visitTrigger_def syntheticVersionFor_def visitAction.simps demo_parallel_def
      demo_base_def js_has_def object_prototype_keys_def SYNTHETIC_TRIGGER_NAME_def buildDependencies_def action_node_def trigger_node_def
      nextIds_def outgoing_def add_dependency_def read_dependencies_def withJoinEdges_def joinEdgesOf_def)

lemma demo_handle: "\<exists>out n. handle (demo_engine g) exec demo_parallel demo_start () =
     Some (Inr (demo_start\<lparr>steps := [(''step_1'', out)], logSizeBytes := n, stepsCount := 1\<rparr>), ())"
  by (simp add: demo_parallel_def demo_base_def parallel_handle_def isCompleted_def demo_start_def emptyContext_def getStateAtPath_def
     finish_parallel_def Let_def parallel_output_def upsert_plain store_top incrementStepsExecuted_def effect_defs
     setDuration_def createOutput_def new_base_def)

lemma demo_run: "\<exists>c'. execute 2 (demo_engine None) (Some demo_parallel) demo_start () = Some (Inr c', ())
   \<and> is_running c' \<and> stepsCount c' = 1 \<and> map fst (steps c') = [''step_1'']"
proof -
  obtain plan where plan: "forSubtree demo_parallel None = Inr plan"
    "plan_nodes plan = [(SYNTHETIC_TRIGGER_NAME, trigger_node (trigger (syntheticVersionFor demo_parallel None))),
        (''step_1'', action_node demo_parallel)]"
    "plan_dependencies plan = [(SYNTHETIC_TRIGGER_NAME, []), (''step_1'', [SYNTHETIC_TRIGGER_NAME])]"
    using demo_plan by blast
  then have cursor: "stepAt plan ''step_1'' = Some demo_parallel" "nextOf plan ''step_1'' = Inr None"
    "dependenciesMet plan ''step_1'' h = Inr True" for h
    by (simp_all add: stepAt_def nextOf_def dependenciesMet_def SYNTHETIC_TRIGGER_NAME_def action_node_def demo_parallel_def nextIds_def)
  obtain out n where h: "handle (demo_engine None) (execute (Suc 0) (demo_engine None)) demo_parallel demo_start () =
     Some (Inr (demo_start\<lparr>steps := [(''step_1'', out)], logSizeBytes := n, stepsCount := 1\<rparr>), ())"
    using demo_handle by blast
  have name: "step_name demo_parallel = ''step_1''" "branches_of demo_parallel = None" "skip (base_of demo_parallel) = None"
    by (simp_all add: demo_parallel_def demo_base_def)
  have run: "run_step (demo_engine None) (execute (Suc 0) (demo_engine None)) demo_parallel demo_start () =
     Some (Inr (demo_start\<lparr>steps := [(''step_1'', out)], logSizeBytes := n, stepsCount := 1\<rparr>), ())"
    by (simp add: run_step_def ebind_def h runContinueOnFailureBranchIfNeeded_def name applyLogSizeLimitIfExceeded_def
       applyNodeLimitIfExceeded_def exceedsNodeLimit_def demo_node_limit demo_no_log_limit eret_def)
  show ?thesis
    using plan(1) run
    by (simp add: numeral_2_eq_2 execute_plan_def name cursor swallow_def report_def effect_defs setRunDuration_def)
qed

definition demo_flow :: WorkflowVersion where
  "demo_flow = demo_version\<lparr>trigger := EmptyTrigger (demo_base ''trigger'') JNull (Some demo_parallel)\<rparr>"

lemma demo_flow_plan: "\<exists>plan. forWorkflow demo_flow = Inr plan \<and> nextOf plan ''trigger'' = Inr (Some ''step_1'')
    \<and> stepAt plan ''step_1'' = Some demo_parallel"
  by (simp add: forWorkflow_def compile_def Let_def visitTrigger_def demo_flow_def demo_version_def visitAction.simps demo_parallel_def
      demo_base_def js_has_def object_prototype_keys_def buildDependencies_def action_node_def trigger_node_def
      nextIds_def outgoing_def add_dependency_def read_dependencies_def withJoinEdges_def joinEdgesOf_def nextOf_def stepAt_def)

lemma demo_flow_run: "executeFromTrigger 2 (demo_engine None) False demo_flow demo_start () =
    execute 2 (demo_engine None) (Some demo_parallel) demo_start ()"
proof -
  have "step_name (trigger demo_flow) = ''trigger''" by (simp add: demo_flow_def demo_base_def)
  with demo_flow_plan show ?thesis by (auto simp: executeFromTrigger_def)
qed

subsection \<open>Runs\<close>

theorem run_log_size_witness:
  "\<exists>c'. executeFromTrigger 2 (demo_engine None) False demo_flow demo_start () = Some (Inr c', ()) \<and> stepsCount c' = 1
     \<and> logSizeBytes c' = journalSizeof demo_language (steps c')"
proof -
  obtain c' where run: "executeFromTrigger 2 (demo_engine None) False demo_flow demo_start () = Some (Inr c', ())" "stepsCount c' = 1"
    using demo_run by (auto simp: demo_flow_run)
  have "logSizeBytes demo_start = journalSizeof (lang (demo_engine None)) (steps demo_start)"
    by (simp add: demo_start_def emptyContext_def EMPTY_STEPS_SIZE_BYTES_def)
  from run_log_size [OF run(1) this] run show ?thesis by auto
qed

theorem run_never_forgets_witness:
  "\<exists>c'. execute 2 (demo_engine None) (Some demo_parallel) demo_start () = Some (Inr c', ()) \<and> currentPath c' = []
     \<and> map fst (steps c') = [''step_1'']"
proof -
  obtain c' where run: "execute 2 (demo_engine None) (Some demo_parallel) demo_start () = Some (Inr c', ())" "map fst (steps c') = [''step_1'']"
    using demo_run by auto
  from run_never_forgets [OF run(1)] run show ?thesis by auto
qed

theorem run_only_adds_witness:
  "\<exists>c'. execute 2 (demo_engine None) (Some demo_parallel) demo_start () = Some (Inr c', ()) \<and> 0 \<le> stepsCount c' \<and> set (tags demo_start) \<subseteq> set (tags c')"
proof -
  obtain c' where run: "execute 2 (demo_engine None) (Some demo_parallel) demo_start () = Some (Inr c', ())" using demo_run by auto
  from run_only_adds [OF run] run show ?thesis by auto
qed

lemma demo_runnable: "runnable (Some demo_parallel)" "length (plan_steps (Some demo_parallel)) < 2"
  by (simp_all add: runnable_def demo_parallel_def demo_base_def SYNTHETIC_TRIGGER_NAME_def object_prototype_keys_def)

theorem run_ends_witness: "\<exists>r w'. execute 2 (demo_engine None) (Some demo_parallel) demo_start () = Some (r, w')"
  by (rule run_ends [OF demo_runnable])


subsection \<open>Steps\<close>

theorem completed_not_rerun_witness:
  "handle (demo_engine None) (\<lambda>_ _. ediverge) demo_parallel (demo_start\<lparr>steps := [(''step_1'', demo_output)]\<rparr>) () =
     Some (Inr (demo_start\<lparr>steps := [(''step_1'', demo_output)]\<rparr>), ())"
  by (rule completed_not_rerun)
     (simp_all add: isCompleted_def getStateAtPath_def demo_parallel_def demo_base_def demo_output_def createOutput_def new_base_def)

theorem router_selects_witness:
  "evaluate_branches demo_language [ResolvedConditionBranch ''A'' [], ResolvedFallback ''B''] = Inr [False, True] \<and> True \<in> set [False, True]"
proof -
  have "evaluate_branches demo_language [ResolvedConditionBranch ''A'' [], ResolvedFallback ''B''] = Inr [False, True]"
    by (simp add: evaluate_branches_def evaluate_branch_def evaluateConditions_def with_fallback_def upt_rec)
  moreover have "\<exists>!i. i < length [ResolvedConditionBranch ''A'' [], ResolvedFallback ''B'']
      \<and> is_resolved_fallback ([ResolvedConditionBranch ''A'' [], ResolvedFallback ''B''] ! i)"
    by (rule ex1I [of _ 1]) (auto simp: less_Suc_eq numeral_2_eq_2)
  ultimately show ?thesis using router_selects by blast
qed

theorem first_match_runs_one_witness:
  "router_branches (demo_engine None) (\<lambda>_. eret) True [(False, None), (True, None)] demo_start () = Some (Inr (demo_start, None), ())"
  using first_match_runs_one [of "demo_engine None" "\<lambda>_. eret" "[(False, None), (True, None)]" demo_start]
  by (simp add: effect_defs)

theorem parallel_merge_drops_witness:
  "\<exists>merged. mergeBranchResults (demo_engine None) demo_start [demo_start\<lparr>stepsCount := 3\<rparr>] () = Some (Inr merged, ()) \<and> stepsCount merged = 0"
proof -
  obtain merged where run: "mergeBranchResults (demo_engine None) demo_start [demo_start\<lparr>stepsCount := 3\<rparr>] () = Some (Inr merged, ())"
    by (simp add: mergeBranchResults_def merge_branch_def effect_defs)
  from parallel_merge_drops [OF run] run show ?thesis by simp
qed

theorem subtree_ignores_outer_join_witness:
  "forSubtree demo_parallel (Some [\<lparr>edge_from = ''step_9'', edge_to = ''step_1''\<rparr>]) = forSubtree demo_parallel (Some [])"
  using subtree_ignores_outer_join [of demo_parallel "[]" "\<lparr>edge_from = ''step_9'', edge_to = ''step_1''\<rparr>" "[]" "[]"]
  by (simp add: well_named_def syntheticVersionFor_def demo_parallel_def demo_base_def SYNTHETIC_TRIGGER_NAME_def object_prototype_keys_def)


subsection \<open>The journal\<close>

theorem journal_refines_map_witness:
  "cells_of [(''a'', demo_output), (''b'', demo_output)] = put_cell [] ''b'' demo_output (cells_of [(''a'', demo_output)])"
  by (rule journal_refines_map) simp


subsection \<open>A join edge from a branch that is not taken\<close>

definition demo_step :: "string \<Rightarrow> step" where
  "demo_step n = Code (demo_base n) demo_code None None None"

definition demo_join :: "WorkflowJoinEdge list" where
  "demo_join = [\<lparr>edge_from = ''step_2'', edge_to = ''step_3''\<rparr>]"

definition join_example :: step where
  "join_example = Router (demo_base ''step_1'') demo_router [Some (demo_step ''step_2''), None, None] (Some (demo_step ''step_3''))"

lemma join_plan: "\<exists>plan. forSubtree join_example (Some demo_join) = Inr plan
    \<and> stepAt plan ''step_1'' = Some join_example \<and> nextOf plan ''step_1'' = Inr (Some ''step_3'')
    \<and> stepAt plan ''step_3'' = Some (demo_step ''step_3'')
    \<and> (\<forall>h. dependenciesMet plan ''step_1'' h = Inr True)
    \<and> (\<forall>h. h ''step_1'' = Inr True \<longrightarrow> h ''step_2'' = Inr False \<longrightarrow> dependenciesMet plan ''step_3'' h = Inr False)"
  by (simp add: forSubtree_def compile_def Let_def visitTrigger_def syntheticVersionFor_def visitAction.simps join_example_def
      demo_step_def demo_join_def demo_base_def js_has_def object_prototype_keys_def SYNTHETIC_TRIGGER_NAME_def buildDependencies_def
      action_node_def trigger_node_def nextIds_def outgoing_def add_dependency_def read_dependencies_def withJoinEdges_def
      add_join_edge_def joinEdgesOf_def stepAt_def nextOf_def dependenciesMet_def)

lemma join_handle: "\<exists>out n d. handle (demo_engine g) (execute (Suc (Suc 0)) (demo_engine g)) join_example demo_start () =
     Some (Inr (demo_start\<lparr>steps := [(''step_1'', out)], logSizeBytes := n, runDuration := d\<rparr>), ()) \<and> status (output_base out) = StepSUCCEEDED"
  by (simp add: join_example_def demo_base_def router_handle_def or_fail_def demo_services_def handleRouterExecution_def
     evaluate_branches_def evaluate_branch_def evaluateConditions_def with_fallback_def upt_rec Let_def branch_children_def array_read_def
     execute_plan_def swallow_def report_def setRunDuration_def
     initRouter_def enumerate_simps upsert_plain store_top effect_defs setDuration_def createOutput_def new_base_def)
     (rule exI, rule conjI, (rule exI)+, rule refl, simp)

text \<open>
  A step that waits for a step of a router branch that was not taken is never run, nor is anything
  after it, although the run still counts as running and finishes as a success.
\<close>

theorem join_on_untaken_branch:
  "\<exists>c'. execute 3 (demo_engine (Some demo_join)) (Some join_example) demo_start () = Some (Inr c', ())
     \<and> map fst (steps c') = [''step_1''] \<and> verdict (finishExecution c') = VerdictSucceeded None"
proof -
  let ?E = "demo_engine (Some demo_join)"
  obtain plan where plan: "forSubtree join_example (Some demo_join) = Inr plan" "stepAt plan ''step_1'' = Some join_example"
    "nextOf plan ''step_1'' = Inr (Some ''step_3'')" "stepAt plan ''step_3'' = Some (demo_step ''step_3'')"
    "\<And>h. dependenciesMet plan ''step_1'' h = Inr True"
    "\<And>h. h ''step_1'' = Inr True \<Longrightarrow> h ''step_2'' = Inr False \<Longrightarrow> dependenciesMet plan ''step_3'' h = Inr False"
    using join_plan by blast
  obtain out n d where h: "handle ?E (execute (Suc (Suc 0)) ?E) join_example demo_start () =
     Some (Inr (demo_start\<lparr>steps := [(''step_1'', out)], logSizeBytes := n, runDuration := d\<rparr>), ())" "status (output_base out) = StepSUCCEEDED"
    using join_handle by blast
  let ?c = "demo_start\<lparr>steps := [(''step_1'', out)], logSizeBytes := n, runDuration := d\<rparr>"
  have name: "step_name join_example = ''step_1''" "branches_of join_example = None" "skip (base_of join_example) = None"
    by (simp_all add: join_example_def demo_base_def)
  have run: "run_step ?E (execute (Suc (Suc 0)) ?E) join_example demo_start () = Some (Inr ?c, ())"
    by (simp add: run_step_def ebind_def h runContinueOnFailureBranchIfNeeded_def name applyLogSizeLimitIfExceeded_def
       applyNodeLimitIfExceeded_def exceedsNodeLimit_def demo_node_limit demo_no_log_limit eret_def)
  have blocked: "dependenciesMet plan ''step_3'' (\<lambda>x. isCompleted x ?c) = Inr False"
    by (rule plan(6)) (simp_all add: isCompleted_def getStateAtPath_def h(2))
  show ?thesis
    using plan(1-5) run blocked
    by (simp add: numeral_3_eq_3 execute_plan_def name swallow_def report_def effect_defs setRunDuration_def finishExecution_def)
qed

end
