(* ===== verification/Prop_Keys.thy ===== *)
theory Prop_Keys
  imports Prelude
begin

text \<open>
  \<open>helper/dynamic-prop-keys.ts\<close> of \<open>server/engine\<close>: keys of dynamic properties are escaped before they reach the
  forms of the builder and unescaped before a connector reads them.
\<close>

definition ESCAPED_KEY_MARKER :: string where
  "ESCAPED_KEY_MARKER = ''~ap~''"

text \<open>The reserved characters in the order of their sequences \<open>~0\<close> to \<open>~5\<close>.\<close>

definition RESERVED_CHARS :: string where
  "RESERVED_CHARS = [CHR ''~'', CHR ''.'', CHR ''['', CHR '']'', CHR 0x22, CHR 0x27]"

fun ESCAPE_SEQUENCES :: "char \<Rightarrow> string option" where
  "ESCAPE_SEQUENCES c = map_of (zip RESERVED_CHARS [''~0'', ''~1'', ''~2'', ''~3'', ''~4'', ''~5'']) c"

definition escape_char :: "char \<Rightarrow> string" where
  "escape_char c = (case ESCAPE_SEQUENCES c of None \<Rightarrow> [c] | Some s \<Rightarrow> s)"

definition escapeKey :: "string \<Rightarrow> string" where
  "escapeKey key =
     (if \<not> list_ex (\<lambda>c. c \<in> set RESERVED_CHARS) key then key
      else ESCAPED_KEY_MARKER @ concat (map escape_char key))"

definition UNESCAPE_SEQUENCES :: "string \<Rightarrow> char option" where
  "UNESCAPE_SEQUENCES = map_of (zip [''~0'', ''~1'', ''~2'', ''~3'', ''~4'', ''~5''] RESERVED_CHARS)"

text \<open>\<open>replace(/~[0-5]/g, ...)\<close>: from the left, without looking again at what was put in.\<close>

fun unescape_sequences :: "string \<Rightarrow> string" where
  "unescape_sequences (c # d # s) = (case UNESCAPE_SEQUENCES [c, d] of
      Some x \<Rightarrow> x # unescape_sequences s
    | None \<Rightarrow> c # unescape_sequences (d # s))"
| "unescape_sequences s = s"

definition unescapeKey :: "string \<Rightarrow> string" where
  "unescapeKey key =
     (if \<not> starts_with key ESCAPED_KEY_MARKER then key
      else unescape_sequences (drop (length ESCAPED_KEY_MARKER) key))"

text \<open>\<open>Object.fromEntries\<close>: a repeated key keeps its first place and takes the last value.\<close>

definition from_entries :: "(string \<times> 'a) list \<Rightarrow> 'a js_record" where
  "from_entries es = foldl (\<lambda>r (k, v). AList.update k v r) [] es"

definition escapePropsKeys :: "'a js_record \<Rightarrow> 'a js_record" where
  "escapePropsKeys props = from_entries (map (\<lambda>(k, v). (escapeKey k, v)) props)"

definition unescapePropsKeys :: "'a js_record \<Rightarrow> 'a js_record" where
  "unescapePropsKeys props = from_entries (map (\<lambda>(k, v). (unescapeKey k, v)) props)"

definition unescapeInputKeys :: "json \<Rightarrow> json" where
  "unescapeInputKeys v = (case v of JObj o' \<Rightarrow> JObj (from_entries (map (\<lambda>(k, x). (unescapeKey k, x)) o')) | _ \<Rightarrow> v)"

subsection \<open>Round trip\<close>

lemma escape_char_cases: "escape_char c = (if c = CHR ''~'' then ''~0'' else if c = CHR ''.'' then ''~1'' else if c = CHR ''['' then ''~2''
    else if c = CHR '']'' then ''~3'' else if c = CHR 0x22 then ''~4'' else if c = CHR 0x27 then ''~5'' else [c])"
  by (simp add: escape_char_def RESERVED_CHARS_def)

lemma unescape_escape_char: "unescape_sequences (escape_char c @ s) = c # unescape_sequences s"
  by (cases s) (simp_all add: escape_char_cases UNESCAPE_SEQUENCES_def RESERVED_CHARS_def)

lemma escape_reserved_plain:
  "list_all (\<lambda>c. list_all (\<lambda>d. d = CHR ''~'' \<or> d \<notin> set RESERVED_CHARS) (escape_char c)) RESERVED_CHARS"
  by (simp add: escape_char_cases RESERVED_CHARS_def)

lemma escape_char_other: "c \<notin> set RESERVED_CHARS \<Longrightarrow> escape_char c = [c]"
  by (simp add: escape_char_cases RESERVED_CHARS_def)

lemma escape_char_plain: "d \<in> set (escape_char c) \<Longrightarrow> d = CHR ''~'' \<or> d \<notin> set RESERVED_CHARS"
  using escape_reserved_plain escape_char_other by (cases "c \<in> set RESERVED_CHARS") (auto simp: list_all_iff)

lemma unescape_escape: "unescape_sequences (concat (map escape_char key)) = key"
  by (induction key) (simp_all add: unescape_escape_char)

lemma escapeKey_marker: "starts_with (escapeKey key) ESCAPED_KEY_MARKER \<longleftrightarrow> list_ex (\<lambda>c. c \<in> set RESERVED_CHARS) key"
  by (cases key) (auto simp: escapeKey_def ESCAPED_KEY_MARKER_def RESERVED_CHARS_def)

lemma unescapeKey_escapeKey: "unescapeKey (escapeKey key) = key"
  using escapeKey_marker [of key]
  by (auto simp: unescapeKey_def) (simp_all add: escapeKey_def unescape_escape)

lemma from_entries_distinct: "distinct (map fst es) \<Longrightarrow> from_entries es = es"
  using foldl_update_new [of "[]" es] by (simp add: from_entries_def)

text \<open>
  C38: Escaping the keys of dynamic properties and unescaping them again gives back every property under its
  own key and in its place, and no escaped key holds a character that the forms of the builder take apart.
\<close>

theorem prop_keys_roundtrip:
  assumes "distinct (map fst props)"
  shows "unescapePropsKeys (escapePropsKeys props) = props
     \<and> (\<forall>k \<in> fst ` set (escapePropsKeys props). \<forall>c \<in> set k. c = CHR ''~'' \<or> c \<notin> set RESERVED_CHARS)"
proof -
  have inj: "inj escapeKey" by (metis injI unescapeKey_escapeKey)
  have "map fst (map (\<lambda>(k, v). (escapeKey k, v)) props) = map escapeKey (map fst props)" by (simp add: case_prod_unfold)
  moreover have "distinct (map escapeKey (map fst props))"
    using assms inj_on_subset [OF inj subset_UNIV] by (simp only: distinct_map simp_thms)
  ultimately have "distinct (map fst (map (\<lambda>(k, v). (escapeKey k, v)) props))" by (simp only:)
  then have esc: "escapePropsKeys props = map (\<lambda>(k, v). (escapeKey k, v)) props"
    unfolding escapePropsKeys_def by (rule from_entries_distinct)
  have "unescapePropsKeys (escapePropsKeys props) = props"
    unfolding esc unescapePropsKeys_def
    using assms by (simp add: o_def case_prod_unfold unescapeKey_escapeKey from_entries_distinct)
  moreover have "\<forall>c \<in> set ESCAPED_KEY_MARKER. c = CHR ''~'' \<or> c \<notin> set RESERVED_CHARS"
    by (simp add: ESCAPED_KEY_MARKER_def RESERVED_CHARS_def)
  then have "\<forall>c \<in> set (escapeKey k). c = CHR ''~'' \<or> c \<notin> set RESERVED_CHARS" for k
    using escape_char_plain by (auto simp: escapeKey_def list_ex_iff)
  ultimately show ?thesis unfolding esc by fastforce
qed

end
