(* ===== verification/Byte_Lru_Cache.thy ===== *)
theory Byte_Lru_Cache
  imports Prelude
begin

text \<open>
  \<open>core/utils/src/lib/byte-lru-cache.ts\<close>: the cache the engine keeps downloaded slices in. A \<open>Map\<close> iterates in the
  order of insertion, so the first entry is the one that was used least recently.
\<close>

record 'a ByteLruCacheEntry =
  cacheValue :: 'a
  sizeBytes :: nat

record 'a ByteLruCache =
  budgetBytes :: nat
  entries :: "'a ByteLruCacheEntry js_record"
  totalBytes :: int

definition createByteLruCache :: "nat \<Rightarrow> 'a ByteLruCache" where
  "createByteLruCache budget = \<lparr>budgetBytes = budget, entries = [], totalBytes = 0\<rparr>"

definition cache_get :: "string \<Rightarrow> 'a ByteLruCache \<Rightarrow> 'a option \<times> 'a ByteLruCache" where
  "cache_get key c = (case map_of (entries c) key of
      None \<Rightarrow> (None, c)
    | Some e \<Rightarrow> (Some (cacheValue e), c\<lparr>entries := AList.delete key (entries c) @ [(key, e)]\<rparr>))"

text \<open>The loop over the map; deleting the entry it stands at does not disturb the iteration.\<close>

fun evict :: "nat \<Rightarrow> 'a ByteLruCacheEntry js_record \<Rightarrow> int \<Rightarrow> 'a ByteLruCacheEntry js_record \<times> int" where
  "evict budget [] bytes = ([], bytes)"
| "evict budget ((k, e) # es) bytes =
     (if bytes \<le> int budget then ((k, e) # es, bytes)
      else evict budget es (bytes - int (sizeBytes e)))"

definition cache_set :: "string \<Rightarrow> 'a \<Rightarrow> nat \<Rightarrow> 'a ByteLruCache \<Rightarrow> 'a ByteLruCache" where
  "cache_set key v sz c =
     (let es = AList.delete key (entries c);
          bytes = (case map_of (entries c) key of None \<Rightarrow> totalBytes c | Some e \<Rightarrow> totalBytes c - int (sizeBytes e))
      in if budgetBytes c < sz then c\<lparr>entries := es, totalBytes := bytes\<rparr>
         else case evict (budgetBytes c) (es @ [(key, \<lparr>cacheValue = v, sizeBytes = sz\<rparr>)]) (bytes + int sz) of
             (es', bytes') \<Rightarrow> c\<lparr>entries := es', totalBytes := bytes'\<rparr>)"

subsection \<open>The cache stays within its budget\<close>

definition entry_bytes :: "'a ByteLruCacheEntry js_record \<Rightarrow> nat" where
  "entry_bytes es = sum_list (map (\<lambda>(_, e). sizeBytes e) es)"

definition cache_ok :: "'a ByteLruCache \<Rightarrow> bool" where
  "cache_ok c \<longleftrightarrow> distinct (map fst (entries c)) \<and> totalBytes c = int (entry_bytes (entries c)) \<and> entry_bytes (entries c) \<le> budgetBytes c"

lemma entry_bytes_simps [simp]:
  "entry_bytes [] = 0" "entry_bytes (x # es) = sizeBytes (snd x) + entry_bytes es" "entry_bytes (xs @ ys) = entry_bytes xs + entry_bytes ys"
  by (simp_all add: entry_bytes_def case_prod_unfold)

lemma entry_bytes_delete:
  "distinct (map fst es) \<Longrightarrow> entry_bytes es = entry_bytes (AList.delete key es) + (case map_of es key of None \<Rightarrow> 0 | Some e \<Rightarrow> sizeBytes e)"
proof (induction es)
  case (Cons x es)
  obtain k e where x: "x = (k, e)" by (cases x)
  show ?case
  proof (cases "k = key")
    case True
    then have "AList.delete key es = es" using Cons.prems x by (intro delete_id) simp
    with True x show ?thesis by simp
  next
    case False
    with Cons x show ?thesis by simp
  qed
qed simp

lemma evict_spec:
  assumes "evict budget es (int (entry_bytes es)) = (es', bytes')"
  shows "\<exists>gone. es = gone @ es' \<and> bytes' = int (entry_bytes es') \<and> entry_bytes es' \<le> budget
     \<and> (\<forall>zs z. gone = zs @ [z] \<longrightarrow> budget < entry_bytes ([z] @ es'))"
  using assms
proof (induction es)
  case Nil
  then show ?case by auto
next
  case (Cons x es)
  obtain k e where x: "x = (k, e)" by (cases x)
  show ?case
  proof (cases "entry_bytes (x # es) \<le> budget")
    case True
    then show ?thesis using Cons.prems by (auto simp: x)
  next
    case False
    then have "evict budget es (int (entry_bytes es)) = (es', bytes')" using Cons.prems by (simp add: x)
    from Cons.IH [OF this] obtain gone where gone: "es = gone @ es'" "bytes' = int (entry_bytes es')" "entry_bytes es' \<le> budget"
      "\<forall>zs z. gone = zs @ [z] \<longrightarrow> budget < entry_bytes ([z] @ es')" by blast
    have "budget < entry_bytes ([z] @ es')" if "x # gone = zs @ [z]" for zs z
    proof (cases zs)
      case Nil
      then show ?thesis using that False gone(1) by simp
    next
      case (Cons y ys)
      then show ?thesis using that gone(4) [rule_format, of ys z] by simp
    qed
    with gone show ?thesis by (intro exI [of _ "x # gone"]) auto
  qed
qed

lemma cache_ok_create: "cache_ok (createByteLruCache budget)"
  by (simp add: cache_ok_def createByteLruCache_def)

lemma cache_ok_get: "cache_ok c \<Longrightarrow> cache_ok (snd (cache_get key c))"
  using entry_bytes_delete [of "entries c" key]
  by (cases "map_of (entries c) key") (simp_all add: cache_ok_def cache_get_def distinct_removeAll delete_keys)

text \<open>
  C37: Storing a value that fits the budget keeps the cache within its budget and its count of bytes right,
  makes the value available, and drops only entries from the least recently used end, no more than needed.
\<close>

theorem cache_set_keeps_budget:
  assumes "cache_ok c" and "sz \<le> budgetBytes c"
  shows "cache_ok (cache_set key v sz c) \<and> fst (cache_get key (cache_set key v sz c)) = Some v
     \<and> (\<exists>gone. AList.delete key (entries c) @ [(key, \<lparr>cacheValue = v, sizeBytes = sz\<rparr>)] = gone @ entries (cache_set key v sz c)
          \<and> (\<forall>zs z. gone = zs @ [z] \<longrightarrow> budgetBytes c < entry_bytes (z # entries (cache_set key v sz c))))"
proof -
  let ?new = "(key, \<lparr>cacheValue = v, sizeBytes = sz\<rparr>)"
  let ?es = "AList.delete key (entries c) @ [?new]"
  obtain es' bytes' where ev: "evict (budgetBytes c) ?es (int (entry_bytes ?es)) = (es', bytes')" by fastforce
  have bytes: "(case map_of (entries c) key of None \<Rightarrow> totalBytes c | Some e \<Rightarrow> totalBytes c - int (sizeBytes e)) + int sz
      = int (entry_bytes ?es)"
    using assms(1) entry_bytes_delete [of "entries c" key] by (auto simp: cache_ok_def split: option.splits)
  have set: "cache_set key v sz c = c\<lparr>entries := es', totalBytes := bytes'\<rparr>"
    using assms(2) ev by (simp add: cache_set_def Let_def bytes)
  from evict_spec [OF ev] obtain gone where gone: "?es = gone @ es'" "bytes' = int (entry_bytes es')" "entry_bytes es' \<le> budgetBytes c"
    "\<forall>zs z. gone = zs @ [z] \<longrightarrow> budgetBytes c < entry_bytes ([z] @ es')" by blast
  have "es' \<noteq> []"
  proof
    assume "es' = []"
    then have "gone = AList.delete key (entries c) @ [?new]" using gone(1) by simp
    then have "budgetBytes c < entry_bytes ([?new] @ es')" using gone(4) by blast
    with assms(2) \<open>es' = []\<close> show False by simp
  qed
  then obtain ys where ys: "es' = ys @ [?new]" using gone(1) by (metis append_butlast_last_id last_append last_snoc)
  have dist: "distinct (map fst ?es)" using assms(1) by (simp add: cache_ok_def distinct_removeAll delete_keys)
  then have "distinct (map fst es')" unfolding gone(1) by simp
  moreover from this have "map_of es' key = Some \<lparr>cacheValue = v, sizeBytes = sz\<rparr>" by (intro map_of_is_SomeI) (simp_all add: ys)
  ultimately show ?thesis using gone by (auto simp: set cache_ok_def cache_get_def)
qed

end
