(* ===== verification/Canvas_Layout.thy ===== *)
theory Canvas_Layout
  imports Structure_Util
begin

text \<open>
  \<open>core/execution/src/lib/workflows/util/workflow-canvas-util.ts\<close>: the positions of the steps on the canvas.

  Coordinates are rational: the code adds, compares and halves integers, so every value is a dyadic number that a double
  holds exactly. The map that \<open>buildPositions\<close> fills is passed along as an association list in the order of insertion.
\<close>

subsection \<open>Constants\<close>

definition WORKFLOW_CANVAS_STEP_HEIGHT :: rat where "WORKFLOW_CANVAS_STEP_HEIGHT = 52"
definition WORKFLOW_CANVAS_STEP_WIDTH :: rat where "WORKFLOW_CANVAS_STEP_WIDTH = 240"
definition WORKFLOW_CANVAS_VSPACE :: rat where "WORKFLOW_CANVAS_VSPACE = 60"
definition WORKFLOW_CANVAS_ARC :: rat where "WORKFLOW_CANVAS_ARC = 15"

definition WORKFLOW_CANVAS_LOOP_VOFFSET :: rat where
  "WORKFLOW_CANVAS_LOOP_VOFFSET = WORKFLOW_CANVAS_VSPACE * (3 / 2) + 2 * WORKFLOW_CANVAS_ARC"

definition WORKFLOW_CANVAS_ROUTER_VOFFSET :: rat where
  "WORKFLOW_CANVAS_ROUTER_VOFFSET = WORKFLOW_CANVAS_LOOP_VOFFSET + 30"

definition WORKFLOW_CANVAS_HSPACE :: rat where "WORKFLOW_CANVAS_HSPACE = 80"

lemmas canvas_consts = WORKFLOW_CANVAS_STEP_HEIGHT_def WORKFLOW_CANVAS_STEP_WIDTH_def WORKFLOW_CANVAS_VSPACE_def
  WORKFLOW_CANVAS_ARC_def WORKFLOW_CANVAS_LOOP_VOFFSET_def WORKFLOW_CANVAS_ROUTER_VOFFSET_def WORKFLOW_CANVAS_HSPACE_def

subsection \<open>Branches of a step\<close>

fun hasContinueOnFailureBranches :: "step \<Rightarrow> bool" where
  "hasContinueOnFailureBranches (Code _ s _ _ _) = usesBranches (errorHandlingOptions s)"
| "hasContinueOnFailureBranches (Connector _ s _ _ _) = usesBranches (errorHandlingOptions s)"
| "hasContinueOnFailureBranches _ = False"

fun getContinueOnFailureBranchPair :: "step \<Rightarrow> step option list" where
  "getContinueOnFailureBranchPair (Code _ _ x y _) = [x, y]"
| "getContinueOnFailureBranchPair (Connector _ _ x y _) = [x, y]"
| "getContinueOnFailureBranchPair _ = []"

datatype branch_side = OnSuccess | OnFailure

definition getStepBranchRelativeTo :: "step \<Rightarrow> string \<Rightarrow> branch_side option" where
  "getStepBranchRelativeTo ancestor target =
     (if \<not> hasContinueOnFailureBranches ancestor then None
      else case getContinueOnFailureBranchPair ancestor of
          [onSuccess, onFailure] \<Rightarrow>
            if list_ex (\<lambda>s. step_name s = target) (opt_list getAllSteps onSuccess) then Some OnSuccess
            else if list_ex (\<lambda>s. step_name s = target) (opt_list getAllSteps onFailure) then Some OnFailure
            else None
        | _ \<Rightarrow> None)"

subsection \<open>Bounding boxes\<close>

record CanvasBoundingBox =
  minX :: rat
  maxX :: rat
  boxHeight :: rat

record LayoutDimensions =
  width :: rat
  left :: rat
  right :: rat

definition boundingBoxToLayoutDimensions :: "CanvasBoundingBox \<Rightarrow> LayoutDimensions" where
  "boundingBoxToLayoutDimensions b =
     \<lparr>width = maxX b - minX b, left = - minX b + WORKFLOW_CANVAS_STEP_WIDTH / 2, right = maxX b - WORKFLOW_CANVAS_STEP_WIDTH / 2\<rparr>"

fun child_offsets :: "rat \<Rightarrow> rat \<Rightarrow> LayoutDimensions list \<Rightarrow> rat list" where
  "child_offsets branchGap deltaLeftX [] = []"
| "child_offsets branchGap deltaLeftX (b # bs) =
     (deltaLeftX + left b) # child_offsets branchGap (deltaLeftX + (width b + branchGap)) bs"

definition computeRouterChildOffsets :: "LayoutDimensions list \<Rightarrow> rat \<Rightarrow> rat list" where
  "computeRouterChildOffsets boxes branchGap =
     (if boxes = [] then []
      else let totalWidth = sum_list (map width boxes) + branchGap * (rat_of_nat (length boxes) - 1);
               deltaLeftX = - (totalWidth - left (hd boxes) - right (last boxes)) / 2 - left (hd boxes)
           in child_offsets branchGap deltaLeftX boxes)"

text \<open>The loop of \<open>mergeBranchedChildBoundingBoxes\<close> over the children and their offsets.\<close>

fun merge_boxes :: "CanvasBoundingBox list \<Rightarrow> rat list \<Rightarrow> rat \<Rightarrow> rat \<Rightarrow> rat \<Rightarrow> rat \<times> rat \<times> rat" where
  "merge_boxes (bbox # boxes) (x # offsets) mn mx h =
     merge_boxes boxes offsets (min mn (x + minX bbox)) (max mx (x + maxX bbox)) (max h (boxHeight bbox))"
| "merge_boxes _ _ mn mx h = (mn, mx, h)"

definition mergeBranchedChildBoundingBoxes :: "CanvasBoundingBox list \<Rightarrow> CanvasBoundingBox" where
  "mergeBranchedChildBoundingBoxes boxes =
     (let offsets = computeRouterChildOffsets (map boundingBoxToLayoutDimensions boxes) WORKFLOW_CANVAS_HSPACE
      in case merge_boxes boxes offsets 0 WORKFLOW_CANVAS_STEP_WIDTH 0 of (mergedMinX, mergedMaxX, maxChildHeight) \<Rightarrow>
        \<lparr>minX = mergedMinX, maxX = mergedMaxX,
         boxHeight = max (WORKFLOW_CANVAS_STEP_HEIGHT + WORKFLOW_CANVAS_VSPACE)
           (WORKFLOW_CANVAS_STEP_HEIGHT + WORKFLOW_CANVAS_ROUTER_VOFFSET + maxChildHeight + WORKFLOW_CANVAS_ARC + WORKFLOW_CANVAS_VSPACE)\<rparr>)"

text \<open>The offsets the two functions compute in the same way for the body of a loop.\<close>

definition loop_delta :: "CanvasBoundingBox \<Rightarrow> rat" where
  "loop_delta child =
     (let childWidth = maxX child - minX child;
          childRight = maxX child - WORKFLOW_CANVAS_STEP_WIDTH / 2
      in - (childWidth + WORKFLOW_CANVAS_STEP_WIDTH + WORKFLOW_CANVAS_HSPACE - WORKFLOW_CANVAS_STEP_WIDTH / 2 - childRight) / 2
           - WORKFLOW_CANVAS_STEP_WIDTH / 2)"

definition loop_child_offset :: "CanvasBoundingBox \<Rightarrow> rat" where
  "loop_child_offset child =
     loop_delta child + WORKFLOW_CANVAS_STEP_WIDTH + WORKFLOW_CANVAS_HSPACE + (- minX child + WORKFLOW_CANVAS_STEP_WIDTH / 2)"

definition loop_end :: "CanvasBoundingBox \<Rightarrow> rat" where
  "loop_end child = WORKFLOW_CANVAS_STEP_HEIGHT + WORKFLOW_CANVAS_LOOP_VOFFSET + boxHeight child + WORKFLOW_CANVAS_ARC + WORKFLOW_CANVAS_VSPACE"

definition plain_box :: CanvasBoundingBox where
  "plain_box = \<lparr>minX = 0, maxX = WORKFLOW_CANVAS_STEP_WIDTH, boxHeight = WORKFLOW_CANVAS_STEP_HEIGHT + WORKFLOW_CANVAS_VSPACE\<rparr>"

definition loop_box :: "CanvasBoundingBox \<Rightarrow> CanvasBoundingBox" where
  "loop_box child =
     \<lparr>minX = min 0 (min (loop_delta child) (loop_child_offset child + minX child)),
      maxX = max WORKFLOW_CANVAS_STEP_WIDTH (max (loop_delta child + WORKFLOW_CANVAS_STEP_WIDTH) (loop_child_offset child + maxX child)),
      boxHeight = max (WORKFLOW_CANVAS_STEP_HEIGHT + WORKFLOW_CANVAS_VSPACE) (loop_end child)\<rparr>"

text \<open>The box of a step with its children above the box of the next step.\<close>

definition stack_boxes :: "CanvasBoundingBox \<Rightarrow> CanvasBoundingBox \<Rightarrow> CanvasBoundingBox" where
  "stack_boxes withChild nextBox =
     \<lparr>minX = min (minX withChild) (minX nextBox), maxX = max (maxX withChild) (maxX nextBox),
      boxHeight = boxHeight withChild + boxHeight nextBox\<rparr>"

fun getWorkflowBoundingBox :: "step option \<Rightarrow> bool \<Rightarrow> CanvasBoundingBox" where
  "getWorkflowBoundingBox None forBranch =
     \<lparr>minX = 0, maxX = WORKFLOW_CANVAS_STEP_WIDTH,
      boxHeight = (if forBranch then WORKFLOW_CANVAS_STEP_HEIGHT + WORKFLOW_CANVAS_VSPACE else 0)\<rparr>"
| "getWorkflowBoundingBox (Some (Loop b s f n)) forBranch =
     stack_boxes (loop_box (getWorkflowBoundingBox f True)) (getWorkflowBoundingBox n False)"
| "getWorkflowBoundingBox (Some (Router b s cs n)) forBranch =
     stack_boxes (if cs = [] then plain_box else mergeBranchedChildBoundingBoxes (map (\<lambda>c. getWorkflowBoundingBox c True) cs))
       (getWorkflowBoundingBox n False)"
| "getWorkflowBoundingBox (Some (Code b s x y n)) forBranch =
     stack_boxes
       (if usesBranches (errorHandlingOptions s)
        then mergeBranchedChildBoundingBoxes [getWorkflowBoundingBox x True, getWorkflowBoundingBox y True] else plain_box)
       (getWorkflowBoundingBox n False)"
| "getWorkflowBoundingBox (Some (Connector b s x y n)) forBranch =
     stack_boxes
       (if usesBranches (errorHandlingOptions s)
        then mergeBranchedChildBoundingBoxes [getWorkflowBoundingBox x True, getWorkflowBoundingBox y True] else plain_box)
       (getWorkflowBoundingBox n False)"
| "getWorkflowBoundingBox (Some (Component b s x y n)) forBranch = stack_boxes plain_box (getWorkflowBoundingBox n False)"
| "getWorkflowBoundingBox (Some (Parallel b s cs n)) forBranch = stack_boxes plain_box (getWorkflowBoundingBox n False)"
| "getWorkflowBoundingBox (Some (EmptyTrigger b s n)) forBranch = stack_boxes plain_box (getWorkflowBoundingBox n False)"
| "getWorkflowBoundingBox (Some (ConnectorTrigger b s n)) forBranch = stack_boxes plain_box (getWorkflowBoundingBox n False)"

subsection \<open>Positions\<close>

type_synonym positions = "(string \<times> rat \<times> rat) list"

fun place_children :: "(step \<Rightarrow> rat \<Rightarrow> positions \<Rightarrow> positions) \<Rightarrow> step option list \<Rightarrow> rat list \<Rightarrow> positions \<Rightarrow> positions" where
  "place_children place (c # cs) (x # xs) ps =
     place_children place cs xs (case c of None \<Rightarrow> ps | Some child \<Rightarrow> place child x ps)"
| "place_children place _ _ ps = ps"

lemma place_children_cong [fundef_cong]:
  "cs = cs' \<Longrightarrow> xs = xs' \<Longrightarrow> ps = ps' \<Longrightarrow> (\<And>c x qs. Some c \<in> set cs' \<Longrightarrow> place c x qs = place' c x qs)
     \<Longrightarrow> place_children place cs xs ps = place_children place' cs' xs' ps'"
  by (induction place cs xs ps arbitrary: cs' xs' ps' rule: place_children.induct) (auto split: option.splits)

definition branch_offsets :: "step option list \<Rightarrow> rat list" where
  "branch_offsets children =
     computeRouterChildOffsets (map (\<lambda>c. boundingBoxToLayoutDimensions (getWorkflowBoundingBox c True)) children) WORKFLOW_CANVAS_HSPACE"

definition branched_end :: "step option list \<Rightarrow> rat" where
  "branched_end children =
     WORKFLOW_CANVAS_STEP_HEIGHT + WORKFLOW_CANVAS_ROUTER_VOFFSET
       + foldl (\<lambda>h c. max h (boxHeight (getWorkflowBoundingBox c True))) 0 children + WORKFLOW_CANVAS_ARC + WORKFLOW_CANVAS_VSPACE"

text \<open>Positions of the children and the offset of the step below them.\<close>

definition positionBranchedChildren ::
  "(step \<Rightarrow> rat \<Rightarrow> rat \<Rightarrow> positions \<Rightarrow> positions) \<Rightarrow> step option list \<Rightarrow> rat \<Rightarrow> rat \<Rightarrow> positions \<Rightarrow> rat \<times> positions" where
  "positionBranchedChildren build children offsetX offsetY ps =
     (branched_end children,
      place_children (\<lambda>child x. build child (offsetX + x) (offsetY + WORKFLOW_CANVAS_STEP_HEIGHT + WORKFLOW_CANVAS_ROUTER_VOFFSET))
        children (branch_offsets children) ps)"

lemma positionBranchedChildren_cong [fundef_cong]:
  "cs = cs' \<Longrightarrow> ox = ox' \<Longrightarrow> oy = oy' \<Longrightarrow> ps = ps' \<Longrightarrow> (\<And>c x y qs. Some c \<in> set cs' \<Longrightarrow> build c x y qs = build' c x y qs)
     \<Longrightarrow> positionBranchedChildren build cs ox oy ps = positionBranchedChildren build' cs' ox' oy' ps'"
  by (auto simp: positionBranchedChildren_def intro: place_children_cong)

definition set_position :: "step \<Rightarrow> rat \<Rightarrow> rat \<Rightarrow> positions \<Rightarrow> positions" where
  "set_position s offsetX offsetY ps = AList.update (step_name s) (offsetX + WORKFLOW_CANVAS_STEP_WIDTH / 2, offsetY) ps"

fun buildPositions :: "step option \<Rightarrow> rat \<Rightarrow> rat \<Rightarrow> positions \<Rightarrow> positions" where
  "buildPositions None offsetX offsetY ps = ps"
| "buildPositions (Some (Loop b s f n)) offsetX offsetY ps =
     (let ps = set_position (Loop b s f n) offsetX offsetY ps;
          child = getWorkflowBoundingBox f True;
          ps = buildPositions f (offsetX + loop_child_offset child)
                 (offsetY + WORKFLOW_CANVAS_STEP_HEIGHT + WORKFLOW_CANVAS_LOOP_VOFFSET) ps
      in buildPositions n offsetX (offsetY + loop_end child) ps)"
| "buildPositions (Some (Router b s cs n)) offsetX offsetY ps =
     (case positionBranchedChildren (\<lambda>c. buildPositions (Some c)) cs offsetX offsetY
             (set_position (Router b s cs n) offsetX offsetY ps) of
        (subgraphEndY, ps) \<Rightarrow> buildPositions n offsetX (offsetY + subgraphEndY) ps)"
| "buildPositions (Some (Code b s x y n)) offsetX offsetY ps =
     (let ps = set_position (Code b s x y n) offsetX offsetY ps
      in if usesBranches (errorHandlingOptions s)
         then (case positionBranchedChildren (\<lambda>c. buildPositions (Some c)) [x, y] offsetX offsetY ps of
                 (subgraphEndY, ps) \<Rightarrow> buildPositions n offsetX (offsetY + subgraphEndY) ps)
         else buildPositions n offsetX (offsetY + WORKFLOW_CANVAS_STEP_HEIGHT + WORKFLOW_CANVAS_VSPACE) ps)"
| "buildPositions (Some (Connector b s x y n)) offsetX offsetY ps =
     (let ps = set_position (Connector b s x y n) offsetX offsetY ps
      in if usesBranches (errorHandlingOptions s)
         then (case positionBranchedChildren (\<lambda>c. buildPositions (Some c)) [x, y] offsetX offsetY ps of
                 (subgraphEndY, ps) \<Rightarrow> buildPositions n offsetX (offsetY + subgraphEndY) ps)
         else buildPositions n offsetX (offsetY + WORKFLOW_CANVAS_STEP_HEIGHT + WORKFLOW_CANVAS_VSPACE) ps)"
| "buildPositions (Some (Component b s x y n)) offsetX offsetY ps =
     buildPositions n offsetX (offsetY + WORKFLOW_CANVAS_STEP_HEIGHT + WORKFLOW_CANVAS_VSPACE)
       (set_position (Component b s x y n) offsetX offsetY ps)"
| "buildPositions (Some (Parallel b s cs n)) offsetX offsetY ps =
     buildPositions n offsetX (offsetY + WORKFLOW_CANVAS_STEP_HEIGHT + WORKFLOW_CANVAS_VSPACE)
       (set_position (Parallel b s cs n) offsetX offsetY ps)"
| "buildPositions (Some (EmptyTrigger b s n)) offsetX offsetY ps =
     buildPositions n offsetX (offsetY + WORKFLOW_CANVAS_STEP_HEIGHT + WORKFLOW_CANVAS_VSPACE)
       (set_position (EmptyTrigger b s n) offsetX offsetY ps)"
| "buildPositions (Some (ConnectorTrigger b s n)) offsetX offsetY ps =
     buildPositions n offsetX (offsetY + WORKFLOW_CANVAS_STEP_HEIGHT + WORKFLOW_CANVAS_VSPACE)
       (set_position (ConnectorTrigger b s n) offsetX offsetY ps)"

definition computeStepPositions :: "step \<Rightarrow> positions" where
  "computeStepPositions trig = buildPositions (Some trig) 0 0 []"

end
