(* ===== verification/Canvas_Correctness.thy ===== *)
theory Canvas_Correctness
  imports Canvas_Layout Structure_Lemmas "HOL-Library.Sublist"
begin

text \<open>
  The canvas layout is correct: the steps it places do not touch each other, and it places every step of a workflow without
  parallel steps and without branches that are switched off.

  The effect of a part of the layout is described by \<open>layout f l r t b ns all\<close>: \<open>f\<close> adds positions inside a rectangle that
  keep their distance, for steps among \<open>ns\<close>, and for all of them in order if \<open>all\<close> holds. Three rules build the layout of a
  workflow from those of its parts.
\<close>

subsection \<open>Layouts and how they compose\<close>

definition apart :: "string \<times> rat \<times> rat \<Rightarrow> string \<times> rat \<times> rat \<Rightarrow> bool" where
  "apart p q \<longleftrightarrow>
     WORKFLOW_CANVAS_STEP_WIDTH + WORKFLOW_CANVAS_HSPACE \<le> \<bar>fst (snd p) - fst (snd q)\<bar>
   \<or> WORKFLOW_CANVAS_STEP_HEIGHT + WORKFLOW_CANVAS_VSPACE \<le> \<bar>snd (snd p) - snd (snd q)\<bar>"

definition in_frame :: "rat \<Rightarrow> rat \<Rightarrow> rat \<Rightarrow> rat \<Rightarrow> positions \<Rightarrow> bool" where
  "in_frame l r t b qs \<longleftrightarrow> (\<forall>(n, x, y) \<in> set qs. l \<le> x - 120 \<and> x + 120 \<le> r \<and> t \<le> y \<and> y + 112 \<le> b)"

abbreviation put :: "positions \<Rightarrow> string \<times> rat \<times> rat \<Rightarrow> positions" where
  "put \<equiv> \<lambda>ps (n, p). AList.update n p ps"

definition layout :: "(positions \<Rightarrow> positions) \<Rightarrow> rat \<Rightarrow> rat \<Rightarrow> rat \<Rightarrow> rat \<Rightarrow> string list \<Rightarrow> bool \<Rightarrow> bool" where
  "layout f l r t b ns all \<longleftrightarrow>
     (\<exists>qs. (\<forall>ps. f ps = foldl put ps qs) \<and> in_frame l r t b qs \<and> sorted_wrt apart qs
        \<and> subseq (map fst qs) ns \<and> (all \<longrightarrow> map fst qs = ns))"

lemma layout_nothing: "layout (\<lambda>ps. ps) l r t b [] True"
  unfolding layout_def by (intro exI [of _ "[]"]) (simp add: in_frame_def)

lemma layout_point: "layout (set_position s ox oy) ox (ox + 240) oy (oy + 112) [step_name s] True"
  unfolding layout_def
  by (intro exI [of _ "[(step_name s, ox + 120, oy)]"]) (simp add: in_frame_def set_position_def canvas_consts)

lemma layout_hide: "layout f l r t b ns all \<Longrightarrow> subseq ns ms \<Longrightarrow> (all' \<Longrightarrow> all \<and> ns = ms) \<Longrightarrow> layout f l r t b ms all'"
  unfolding layout_def by (meson subseq_order.order_trans)

lemma in_frame_apart:
  assumes "in_frame l r t b qs" and "in_frame l' r' t' b' rs" and "b \<le> t' \<or> r + 80 \<le> l'" and "p \<in> set qs" and "q \<in> set rs"
  shows "apart p q"
proof -
  obtain n x y m u v where p: "p = (n, x, y)" "q = (m, u, v)" by (metis prod_cases3)
  have "x + 120 \<le> r" "y + 112 \<le> b" "l' \<le> u - 120" "t' \<le> v"
    using assms(1,2,4,5) by (auto simp: in_frame_def p)
  with assms(3) show ?thesis by (auto simp: apart_def canvas_consts p)
qed

lemma in_frame_mono: "in_frame l r t b qs \<Longrightarrow> l' \<le> l \<Longrightarrow> r \<le> r' \<Longrightarrow> t' \<le> t \<Longrightarrow> b \<le> b' \<Longrightarrow> in_frame l' r' t' b' qs"
  unfolding in_frame_def by fastforce

lemma layout_seq:
  assumes "layout f l r t b ns all" and "layout g l' r' t' b' ms all'" and "b \<le> t' \<or> r + 80 \<le> l'"
    and "L \<le> l" "L \<le> l'" "r \<le> R" "r' \<le> R" "T \<le> t" "T \<le> t'" "b \<le> B" "b' \<le> B"
  shows "layout (\<lambda>ps. g (f ps)) L R T B (ns @ ms) (all \<and> all')"
proof -
  from assms(1) obtain qs where qs: "\<And>ps. f ps = foldl put ps qs" "in_frame l r t b qs" "sorted_wrt apart qs"
    "subseq (map fst qs) ns" "all \<longrightarrow> map fst qs = ns" unfolding layout_def by blast
  from assms(2) obtain rs where rs: "\<And>ps. g ps = foldl put ps rs" "in_frame l' r' t' b' rs" "sorted_wrt apart rs"
    "subseq (map fst rs) ms" "all' \<longrightarrow> map fst rs = ms" unfolding layout_def by blast
  have "in_frame L R T B qs" "in_frame L R T B rs"
    using in_frame_mono [OF qs(2)] in_frame_mono [OF rs(2)] assms(4-11) by blast+
  then have "in_frame L R T B (qs @ rs)" by (auto simp: in_frame_def)
  moreover have "sorted_wrt apart (qs @ rs)"
    using qs(3) rs(3) in_frame_apart [OF qs(2) rs(2) assms(3)] by (simp add: sorted_wrt_append)
  moreover have "subseq (map fst (qs @ rs)) (ns @ ms)"
    using list_emb_append_mono [OF qs(4) rs(4)] by simp
  ultimately show ?thesis
    unfolding layout_def using qs(1,5) rs(1,5) by (intro exI [of _ "qs @ rs"]) auto
qed

lemma layout_mono:
  assumes "layout f l r t b ns all" and "L \<le> l" "r \<le> R" "T \<le> t" "b \<le> B"
  shows "layout f L R T B ns all"
  using assms in_frame_mono unfolding layout_def by blast

subsection \<open>Boxes\<close>

abbreviation box_of :: "step option \<Rightarrow> CanvasBoundingBox" where
  "box_of c \<equiv> getWorkflowBoundingBox c True"

abbreviation dims_of :: "step option \<Rightarrow> LayoutDimensions" where
  "dims_of c \<equiv> boundingBoxToLayoutDimensions (box_of c)"

definition wide :: "CanvasBoundingBox \<Rightarrow> bool" where
  "wide b \<longleftrightarrow> minX b \<le> 0 \<and> 240 \<le> maxX b \<and> 0 \<le> boxHeight b"

lemma merge_boxes_grow:
  "merge_boxes boxes xs mn mx h = (mn', mx', h') \<Longrightarrow> mn' \<le> mn \<and> mx \<le> mx' \<and> h \<le> h'"
  by (induction boxes xs mn mx h rule: merge_boxes.induct) fastforce+

lemma merge_boxes_height:
  "length xs = length boxes \<Longrightarrow> merge_boxes boxes xs mn mx h = (mn', mx', h')
     \<Longrightarrow> h' = foldl (\<lambda>h b. max h (boxHeight b)) h boxes"
  by (induction boxes xs mn mx h rule: merge_boxes.induct) auto

lemma length_child_offsets [simp]: "length (child_offsets g d bs) = length bs"
  by (induction g d bs rule: child_offsets.induct) simp_all

lemma wide_merged: "wide (mergeBranchedChildBoundingBoxes boxes)"
proof -
  obtain mn mx h where m: "merge_boxes boxes (computeRouterChildOffsets (map boundingBoxToLayoutDimensions boxes) WORKFLOW_CANVAS_HSPACE)
      0 WORKFLOW_CANVAS_STEP_WIDTH 0 = (mn, mx, h)" by (metis prod_cases3)
  from merge_boxes_grow [OF this] m show ?thesis
    by (simp add: wide_def mergeBranchedChildBoundingBoxes_def Let_def canvas_consts le_max_iff_disj)
qed

lemma wide_stack: "wide a \<Longrightarrow> wide b \<Longrightarrow> wide (stack_boxes a b)"
  by (auto simp: wide_def stack_boxes_def)

lemma wide_plain: "wide plain_box"
  by (simp add: wide_def plain_box_def canvas_consts)

lemma wide_loop: "wide (loop_box b)"
  by (simp add: wide_def loop_box_def canvas_consts le_max_iff_disj min_le_iff_disj)

lemma wide_box: "wide (getWorkflowBoundingBox c fb)"
  by (induction c fb rule: getWorkflowBoundingBox.induct)
    (simp_all add: wide_stack wide_merged wide_plain wide_loop, simp add: wide_def canvas_consts)

lemma box_Some: "getWorkflowBoundingBox (Some s) fb = box_of (Some s)"
  by (cases s) simp_all

subsection \<open>Branches side by side\<close>

definition places :: "step option \<Rightarrow> CanvasBoundingBox \<Rightarrow> bool \<Rightarrow> bool" where
  "places c b all \<longleftrightarrow> (\<forall>x y. layout (buildPositions c x y) (x + minX b) (x + maxX b) y (y + boxHeight b) (opt_list step_names c) all)"

lemma place_children_layout:
  assumes "\<And>c. Some c \<in> set cs \<Longrightarrow> places (Some c) (box_of (Some c)) all"
    and "merge_boxes (map box_of cs) (child_offsets 80 d (map dims_of cs)) mn mx h = (mn', mx', h')"
  shows "layout (place_children (\<lambda>c x. buildPositions (Some c) (ox + x) oy) cs (child_offsets 80 d (map dims_of cs)))
     (max (ox + mn') (ox + d + 120)) (ox + mx') oy (oy + h') (concat (map (opt_list step_names) cs)) all"
  using assms
proof (induction cs arbitrary: d mn mx h)
  case Nil
  show ?case by (simp, rule layout_hide [OF layout_nothing]) simp_all
next
  case (Cons c cs)
  let ?b = "box_of c" and ?d = "d + (width (dims_of c) + 80)" and ?x = "d + (120 - minX (box_of c))"
  let ?place = "\<lambda>c x. buildPositions (Some c) (ox + x) oy"
  have dims: "left (dims_of c) = 120 - minX ?b" "width (dims_of c) = maxX ?b - minX ?b"
    by (simp_all add: boundingBoxToLayoutDimensions_def canvas_consts)
  have rest: "merge_boxes (map box_of cs) (child_offsets 80 ?d (map dims_of cs)) (min mn (?x + minX ?b)) (max mx (?x + maxX ?b))
      (max h (boxHeight ?b)) = (mn', mx', h')" using Cons.prems(2) by (simp add: dims)
  note IH = Cons.IH [OF Cons.prems(1) rest]
  note grow = merge_boxes_grow [OF rest]
  have "layout (\<lambda>ps. case c of None \<Rightarrow> ps | Some a \<Rightarrow> ?place a ?x ps)
      (ox + d + 120) (ox + d + 120 + (maxX ?b - minX ?b)) oy (oy + boxHeight ?b) (opt_list step_names c) all"
  proof (cases c)
    case None
    then show ?thesis by (simp, intro layout_hide [OF layout_nothing]) simp_all
  next
    case (Some a)
    then have pl: "places c ?b all" using Cons.prems(1) by simp
    from layout_mono [OF pl [unfolded places_def, rule_format, of "ox + ?x" oy],
        of "ox + d + 120" "ox + d + 120 + (maxX ?b - minX ?b)" oy "oy + boxHeight ?b"]
    show ?thesis by (simp add: Some)
  qed
  from layout_seq [OF this IH, of "max (ox + mn') (ox + d + 120)" "ox + mx'" oy "oy + h'"] grow wide_box [of c True]
  show ?case by (simp add: wide_def dims)
qed

subsection \<open>Steps\<close>

abbreviation next_box :: "step option \<Rightarrow> CanvasBoundingBox" where
  "next_box n \<equiv> getWorkflowBoundingBox n False"

lemma buildPositions_None: "buildPositions None x y = (\<lambda>ps. ps)"
  by (rule ext) simp

lemma places_next: "(\<And>a. n = Some a \<Longrightarrow> places (Some a) (box_of (Some a)) all) \<Longrightarrow> places n (next_box n) all"
proof (cases n)
  case None
  then show ?thesis
    by (simp add: places_def buildPositions_None canvas_consts, intro allI layout_hide [OF layout_nothing]) simp_all
next
  case (Some a)
  moreover assume "\<And>a. n = Some a \<Longrightarrow> places (Some a) (box_of (Some a)) all"
  ultimately show ?thesis using box_Some [of a False] by simp
qed

text \<open>A step above its next step, with its children in a rectangle between them.\<close>

lemma stacked_layout:
  assumes "layout f l r t b ns all" and "places n (next_box n) all" and "wide B" and "oy + 112 \<le> t" and "b \<le> oy + boxHeight B"
    and "ox + minX B \<le> l" and "r \<le> ox + maxX B" and "112 \<le> boxHeight B"
  shows "layout (\<lambda>ps. buildPositions n ox (oy + boxHeight B) (f (set_position s ox oy ps)))
     (ox + minX (stack_boxes B (next_box n))) (ox + maxX (stack_boxes B (next_box n))) oy (oy + boxHeight (stack_boxes B (next_box n)))
     (step_name s # ns @ opt_list step_names n) all"
proof -
  have nb: "wide (next_box n)" by (rule wide_box)
  have "layout (\<lambda>ps. f (set_position s ox oy ps)) (ox + minX B) (ox + maxX B) oy (oy + boxHeight B) ([step_name s] @ ns) (True \<and> all)"
    by (rule layout_seq [OF layout_point assms(1)]) (use assms(3-8) in \<open>auto simp: wide_def\<close>)
  from layout_seq [OF this assms(2) [unfolded places_def, rule_format, of ox "oy + boxHeight B"],
      of "ox + minX (stack_boxes B (next_box n))" "ox + maxX (stack_boxes B (next_box n))" oy
        "oy + boxHeight (stack_boxes B (next_box n))"]
  show ?thesis using nb assms(3) by (simp add: stack_boxes_def wide_def)
qed

lemma plain_layout:
  assumes "places n (next_box n) all"
  shows "layout (\<lambda>ps. buildPositions n ox (oy + WORKFLOW_CANVAS_STEP_HEIGHT + WORKFLOW_CANVAS_VSPACE) (set_position s ox oy ps))
     (ox + minX (stack_boxes plain_box (next_box n))) (ox + maxX (stack_boxes plain_box (next_box n)))
     oy (oy + boxHeight (stack_boxes plain_box (next_box n))) (step_name s # opt_list step_names n) all"
proof -
  have "layout (\<lambda>ps. ps) ox (ox + 240) (oy + 112) (oy + 112) [] all"
    by (rule layout_hide [OF layout_nothing]) simp_all
  from stacked_layout [OF this assms wide_plain, of oy ox s] show ?thesis
    by (simp add: plain_box_def canvas_consts add.assoc)
qed

lemma branched_layout:
  assumes "places n (next_box n) all" and "cs \<noteq> []" and "\<And>c. Some c \<in> set cs \<Longrightarrow> places (Some c) (box_of (Some c)) all"
  shows "layout (\<lambda>ps. case positionBranchedChildren (\<lambda>c. buildPositions (Some c)) cs ox oy (set_position s ox oy ps) of
         (e, ps) \<Rightarrow> buildPositions n ox (oy + e) ps)
     (ox + minX (stack_boxes (mergeBranchedChildBoundingBoxes (map box_of cs)) (next_box n)))
     (ox + maxX (stack_boxes (mergeBranchedChildBoundingBoxes (map box_of cs)) (next_box n)))
     oy (oy + boxHeight (stack_boxes (mergeBranchedChildBoundingBoxes (map box_of cs)) (next_box n)))
     (step_name s # concat (map (opt_list step_names) cs) @ opt_list step_names n) all"
proof -
  let ?B = "mergeBranchedChildBoundingBoxes (map box_of cs)"
  obtain d where d: "branch_offsets cs = child_offsets 80 d (map dims_of cs)"
    using assms(2) by (simp add: branch_offsets_def computeRouterChildOffsets_def Let_def canvas_consts)
  obtain mn mx h where m: "merge_boxes (map box_of cs) (child_offsets 80 d (map dims_of cs)) 0 240 0 = (mn, mx, h)"
    by (metis prod_cases3)
  have B: "minX ?B = mn" "maxX ?B = mx" "boxHeight ?B = 277 + h"
    using m d merge_boxes_grow [OF m]
    by (simp_all add: mergeBranchedChildBoundingBoxes_def branch_offsets_def o_def Let_def canvas_consts)
  have e: "branched_end cs = 277 + h"
    using merge_boxes_height [OF _ m] by (simp add: branched_end_def foldl_map canvas_consts)
  note children = place_children_layout [OF assms(3) m, where ox = ox and oy = "oy + 202"]
  have "layout (place_children (\<lambda>c x. buildPositions (Some c) (ox + x) (oy + 202)) cs (branch_offsets cs))
      (max (ox + mn) (ox + d + 120)) (ox + mx) (oy + 202) (oy + 202 + h) (concat (map (opt_list step_names) cs)) all"
    unfolding d by (rule children)
  from stacked_layout [OF this assms(1) wide_merged [of "map box_of cs"], of oy ox s] merge_boxes_grow [OF m] show ?thesis
    by (simp add: positionBranchedChildren_def B e canvas_consts add.assoc)
qed

lemma loop_layout:
  assumes "places n (next_box n) all" and "\<And>c. f = Some c \<Longrightarrow> places (Some c) (box_of (Some c)) all"
  shows "layout (\<lambda>ps. buildPositions n ox (oy + loop_end (box_of f))
          (buildPositions f (ox + loop_child_offset (box_of f)) (oy + WORKFLOW_CANVAS_STEP_HEIGHT + WORKFLOW_CANVAS_LOOP_VOFFSET)
            (set_position s ox oy ps)))
     (ox + minX (stack_boxes (loop_box (box_of f)) (next_box n))) (ox + maxX (stack_boxes (loop_box (box_of f)) (next_box n)))
     oy (oy + boxHeight (stack_boxes (loop_box (box_of f)) (next_box n)))
     (step_name s # opt_list step_names f @ opt_list step_names n) all"
proof -
  let ?B = "loop_box (box_of f)" and ?x = "ox + loop_child_offset (box_of f)"
  have wide: "wide (box_of f)" by (rule wide_box)
  have height: "boxHeight ?B = 247 + boxHeight (box_of f)" "loop_end (box_of f) = 247 + boxHeight (box_of f)"
    using wide by (simp_all add: loop_box_def loop_end_def wide_def canvas_consts)
  have "layout (buildPositions f ?x (oy + 172)) (?x + minX (box_of f)) (?x + maxX (box_of f)) (oy + 172)
      (oy + 172 + boxHeight (box_of f)) (opt_list step_names f) all"
  proof (cases f)
    case None
    then show ?thesis by (simp add: buildPositions_None) (intro layout_hide [OF layout_nothing], simp_all)
  next
    case (Some c)
    with assms(2) show ?thesis by (simp add: places_def)
  qed
  moreover have "minX ?B \<le> loop_child_offset (box_of f) + minX (box_of f)" "loop_child_offset (box_of f) + maxX (box_of f) \<le> maxX ?B"
    by (simp_all add: loop_box_def)
  ultimately show ?thesis
    using stacked_layout [OF _ assms(1) wide_loop [of "box_of f"], of "buildPositions f ?x (oy + 172)" _ _ _ _ _ oy ox s] wide
    by (simp add: height wide_def canvas_consts add.assoc)
qed

subsection \<open>Workflows\<close>

text \<open>A router has at least one branch; nothing hangs off a step where the canvas does not look.\<close>

fun has_branch :: "step \<Rightarrow> bool" where
  "has_branch (Router _ _ cs _) = (cs \<noteq> [])"
| "has_branch _ = True"

fun hides_nothing :: "step \<Rightarrow> bool" where
  "hides_nothing (Parallel _ _ cs _) = list_all (\<lambda>c. c = None) cs"
| "hides_nothing (Code _ s x y _) = (usesBranches (errorHandlingOptions s) \<or> (x = None \<and> y = None))"
| "hides_nothing (Connector _ s x y _) = (usesBranches (errorHandlingOptions s) \<or> (x = None \<and> y = None))"
| "hides_nothing _ = True"

lemma no_names: "list_all (\<lambda>c. c = None) cs \<Longrightarrow> concat (map (opt_list g) cs) = []"
  by (induction cs) auto

lemma subseq_skip: "subseq (n # ys) (n # xs @ ys)"
  by (simp add: list_emb_append2)

lemma places_weaken: "places c b all \<Longrightarrow> (all' \<Longrightarrow> all) \<Longrightarrow> places c b all'"
  unfolding places_def by (blast intro: layout_hide [OF _ subseq_order.order_refl])

lemma places_plain_step:
  assumes "places n (next_box n) all" and "all \<Longrightarrow> hidden = []"
    and "\<And>x y ps. buildPositions (Some s) x y ps
       = buildPositions n x (y + WORKFLOW_CANVAS_STEP_HEIGHT + WORKFLOW_CANVAS_VSPACE) (set_position s x y ps)"
    and "box_of (Some s) = stack_boxes plain_box (next_box n)" and "step_names s = step_name s # hidden @ opt_list step_names n"
  shows "places (Some s) (box_of (Some s)) all"
  unfolding places_def assms(4) opt_list_simps assms(5)
  by (intro allI layout_hide [OF plain_layout [OF assms(1), of _ _ s, folded assms(3)]] subseq_skip) (use assms(2) in simp)

lemma places_branched_step:
  assumes "places n (next_box n) all" and "cs \<noteq> []" and "\<And>c. Some c \<in> set cs \<Longrightarrow> places (Some c) (box_of (Some c)) all"
    and "\<And>x y ps. buildPositions (Some s) x y ps
       = (case positionBranchedChildren (\<lambda>c. buildPositions (Some c)) cs x y (set_position s x y ps) of
            (e, ps) \<Rightarrow> buildPositions n x (y + e) ps)"
    and "box_of (Some s) = stack_boxes (mergeBranchedChildBoundingBoxes (map box_of cs)) (next_box n)"
    and "step_names s = step_name s # concat (map (opt_list step_names) cs) @ opt_list step_names n"
  shows "places (Some s) (box_of (Some s)) all"
  unfolding places_def assms(5) opt_list_simps assms(6)
  by (intro allI branched_layout [OF assms(1-3), of _ _ s, folded assms(4)]) blast

lemma places_node:
  assumes IH: "\<And>a. Some a \<in> set (slots s) \<Longrightarrow> places (Some a) (box_of (Some a)) all"
    and self: "all \<Longrightarrow> hides_nothing s" and branch: "has_branch s"
  shows "places (Some s) (box_of (Some s)) all"
proof -
  have nxt: "places (nextAction s) (next_box (nextAction s)) all"
    by (rule places_next) (metis IH last_in_set last_slots slots_nonempty)
  note names = step_names_slots [of s]
  have kids: "places (Some c) (box_of (Some c)) all" if "Some c \<in> set cs" "set cs \<subseteq> set (slots s)" for c cs
    using IH that by blast
  show ?thesis
  proof (cases s)
    case (Code b t x y n)
    have n: "places n (next_box n) all" using nxt by (simp only: Code nextAction.simps)
    show ?thesis
    proof (cases "usesBranches (errorHandlingOptions t)")
      case True
      show ?thesis
        by (rule places_branched_step [OF n, of "[x, y]"]) (use True names kids [of _ "[x, y]"] in \<open>simp_all add: Code\<close>)
    next
      case False
      with self have "all \<Longrightarrow> opt_list step_names x @ opt_list step_names y = []" by (simp add: Code)
      then show ?thesis by (rule places_plain_step [OF n]) (use False names in \<open>simp_all add: Code\<close>)
    qed
  next
    case (Component b t x y n)
    have n: "places n (next_box n) all" using nxt by (simp only: Component nextAction.simps)
    show ?thesis by (rule places_plain_step [OF n, of "[]"]) (use names in \<open>simp_all add: Component\<close>)
  next
    case (Connector b t x y n)
    have n: "places n (next_box n) all" using nxt by (simp only: Connector nextAction.simps)
    show ?thesis
    proof (cases "usesBranches (errorHandlingOptions t)")
      case True
      show ?thesis
        by (rule places_branched_step [OF n, of "[x, y]"]) (use True names kids [of _ "[x, y]"] in \<open>simp_all add: Connector\<close>)
    next
      case False
      with self have "all \<Longrightarrow> opt_list step_names x @ opt_list step_names y = []" by (simp add: Connector)
      then show ?thesis by (rule places_plain_step [OF n]) (use False names in \<open>simp_all add: Connector\<close>)
    qed
  next
    case (Loop b t f n)
    have n: "places n (next_box n) all" using nxt by (simp only: Loop nextAction.simps)
    have f: "places (Some c) (box_of (Some c)) all" if "f = Some c" for c using kids [of c "[f]"] that by (simp add: Loop)
    have "buildPositions (Some s) ox oy = (\<lambda>ps. buildPositions n ox (oy + loop_end (box_of f))
          (buildPositions f (ox + loop_child_offset (box_of f)) (oy + WORKFLOW_CANVAS_STEP_HEIGHT + WORKFLOW_CANVAS_LOOP_VOFFSET)
            (set_position s ox oy ps)))" for ox oy by (rule ext) (simp add: Loop Let_def)
    moreover have "step_names s = step_name s # opt_list step_names f @ opt_list step_names n" using names by (simp add: Loop)
    moreover have "box_of (Some s) = stack_boxes (loop_box (box_of f)) (next_box n)" by (simp add: Loop)
    ultimately show ?thesis unfolding places_def opt_list_simps by (simp only: loop_layout [OF n f] simp_thms)
  next
    case (Router b t cs n)
    have n: "places n (next_box n) all" using nxt by (simp only: Router nextAction.simps)
    have "cs \<noteq> []" using branch by (simp add: Router)
    then show ?thesis
      by (rule places_branched_step [OF n]) (use names kids [of _ cs] \<open>cs \<noteq> []\<close> in \<open>simp_all add: Router subset_insertI\<close>)
  next
    case (Parallel b t cs n)
    have n: "places n (next_box n) all" using nxt by (simp only: Parallel nextAction.simps)
    have "all \<Longrightarrow> concat (map (opt_list step_names) cs) = []" using self by (intro no_names) (simp add: Parallel)
    then show ?thesis by (rule places_plain_step [OF n]) (use names in \<open>simp_all add: Parallel\<close>)
  next
    case (EmptyTrigger b t n)
    have n: "places n (next_box n) all" using nxt by (simp only: EmptyTrigger nextAction.simps)
    show ?thesis by (rule places_plain_step [OF n, of "[]"]) (use names in \<open>simp_all add: EmptyTrigger\<close>)
  next
    case (ConnectorTrigger b t n)
    have n: "places n (next_box n) all" using nxt by (simp only: ConnectorTrigger nextAction.simps)
    show ?thesis by (rule places_plain_step [OF n, of "[]"]) (use names in \<open>simp_all add: ConnectorTrigger\<close>)
  qed
qed

lemma places_step:
  "list_all has_branch (getAllSteps s) \<Longrightarrow> places (Some s) (box_of (Some s)) (list_all hides_nothing (getAllSteps s))"
proof (induction s rule: step_slots_induct)
  case (node s)
  have self: "s \<in> set (getAllSteps s)" by (subst getAllSteps_slots) simp
  show ?case
  proof (rule places_node)
    fix a
    assume a: "Some a \<in> set (slots s)"
    note sub = slot_getAllSteps [OF a]
    show "places (Some a) (box_of (Some a)) (list_all hides_nothing (getAllSteps s))"
    proof (rule places_weaken)
      show "places (Some a) (box_of (Some a)) (list_all hides_nothing (getAllSteps a))"
        using node.prems sub by (intro node.IH [OF a]) (auto simp: list_all_iff)
    qed (use sub in \<open>auto simp: list_all_iff\<close>)
  qed (use self node.prems in \<open>auto simp: list_all_iff\<close>)
qed

text \<open>The positions of a whole workflow as one list.\<close>

lemma computeStepPositions_list:
  assumes "distinct (step_names trig)" and "list_all has_branch (getAllSteps trig)"
  shows "sorted_wrt apart (computeStepPositions trig) \<and> distinct (map fst (computeStepPositions trig))
     \<and> (list_all hides_nothing (getAllSteps trig) \<longrightarrow> map fst (computeStepPositions trig) = step_names trig)"
proof -
  obtain qs where qs: "\<And>ps. buildPositions (Some trig) 0 0 ps = foldl put ps qs" "sorted_wrt apart qs"
    "subseq (map fst qs) (step_names trig)" "list_all hides_nothing (getAllSteps trig) \<longrightarrow> map fst qs = step_names trig"
    using places_step [OF assms(2)] unfolding places_def layout_def by fastforce
  have "distinct (map fst qs)" using qs(3) assms(1) by (auto simp: subseq_conv_nths intro: distinct_nthsI)
  then have "computeStepPositions trig = qs"
    using foldl_update_new [of "[]" qs] by (simp add: computeStepPositions_def qs(1) case_prod_beta')
  with qs \<open>distinct (map fst qs)\<close> show ?thesis by simp
qed

lemma apart_sym: "apart p q \<Longrightarrow> apart q p"
  by (simp add: apart_def abs_minus_commute)

lemma sorted_wrt_apart: "sorted_wrt apart ps \<Longrightarrow> p \<in> set ps \<Longrightarrow> q \<in> set ps \<Longrightarrow> p \<noteq> q \<Longrightarrow> apart p q"
  by (induction ps) (auto intro: apart_sym)


text \<open>What the two conditions leave out: the branches of a parallel step, and the height of a router without branches.\<close>

lemma canvas_ignores_parallel_branches:
  "map fst (buildPositions (Some (Parallel b s cs None)) x y []) = [sname b]"
  by (simp add: set_position_def)

lemma canvas_empty_router_height:
  "boxHeight (getWorkflowBoundingBox (Some (Router b s [] None)) fb) = 112"
  "buildPositions (Some (Router b s [] n)) x y ps = buildPositions n x (y + 277) (set_position (Router b s [] n) x y ps)"
  by (simp_all add: stack_boxes_def plain_box_def positionBranchedChildren_def branched_end_def branch_offsets_def
      computeRouterChildOffsets_def canvas_consts)

end
