(* ===== verification/Ip_Classifier.thy ===== *)
theory Ip_Classifier
  imports Prelude
begin

text \<open>
  \<open>core/utils/src/lib/ssrf-ip-classifier.ts\<close>: which addresses a connector may reach.

  The package \<open>ipaddr.js\<close> is not part of the repository: the record \<open>ipaddr\<close> lists the operations the code calls, on an abstract
  type of addresses. An operation that may throw returns an option. The classification itself is the code's.
\<close>

record 'a ipaddr =
  ip_parse :: "string \<Rightarrow> 'a option"
  ip_parseCIDR :: "string \<Rightarrow> ('a \<times> nat) option"
  ip_kind :: "'a \<Rightarrow> string"
  ip_isIPv4MappedAddress :: "'a \<Rightarrow> bool"
  ip_toIPv4Address :: "'a \<Rightarrow> 'a"
  ip_toNormalizedString :: "'a \<Rightarrow> string"
  ip_match :: "'a \<Rightarrow> 'a \<times> nat \<Rightarrow> bool option"
  ip_range :: "'a \<Rightarrow> string"

text \<open>\<open>slice(1, -1)\<close> of a string that starts with one bracket and ends with the other.\<close>

definition stripBrackets :: "string \<Rightarrow> string" where
  "stripBrackets v = (if starts_with v ''['' \<and> ends_with v '']'' then butlast (tl v) else v)"

definition parseOrNull :: "'a ipaddr \<Rightarrow> string \<Rightarrow> 'a option" where
  "parseOrNull I ip = ip_parse I (stripBrackets (trim ip))"

definition unwrapMapped :: "'a ipaddr \<Rightarrow> 'a \<Rightarrow> 'a" where
  "unwrapMapped I addr =
     (if ip_kind I addr = ''ipv6'' \<and> ip_isIPv4MappedAddress I addr then ip_toIPv4Address I addr else addr)"

definition matchesCidr :: "'a ipaddr \<Rightarrow> 'a \<Rightarrow> string \<Rightarrow> bool" where
  "matchesCidr I addr cidr = (case ip_parseCIDR I cidr of
       None \<Rightarrow> False
     | Some addrRange \<Rightarrow> if ip_kind I addr \<noteq> ip_kind I (fst addrRange) then False
                     else (case ip_match I addr addrRange of None \<Rightarrow> False | Some b \<Rightarrow> b))"

definition matchesEntry :: "'a ipaddr \<Rightarrow> 'a \<Rightarrow> string \<Rightarrow> bool" where
  "matchesEntry I addr entry =
     (if CHR ''/'' \<in> set entry then matchesCidr I addr entry
      else case parseOrNull I entry of
          None \<Rightarrow> False
        | Some parsedEntry \<Rightarrow> let normalized = unwrapMapped I parsedEntry in
            ip_kind I normalized = ip_kind I addr \<and> ip_toNormalizedString I normalized = ip_toNormalizedString I addr)"

definition isInAllowList :: "'a ipaddr \<Rightarrow> string \<Rightarrow> string list \<Rightarrow> bool" where
  "isInAllowList I ip allowList =
     (if ip \<in> set allowList then True
      else case parseOrNull I ip of
          None \<Rightarrow> False
        | Some parsed \<Rightarrow> list_ex (\<lambda>entry. matchesEntry I (unwrapMapped I parsed) (trim entry)) allowList)"

definition isBlockedRange :: "'a ipaddr \<Rightarrow> 'a \<Rightarrow> bool" where
  "isBlockedRange I addr \<longleftrightarrow> ip_range I (unwrapMapped I addr) \<noteq> ''unicast''"

definition isBlockedIp :: "'a ipaddr \<Rightarrow> string \<Rightarrow> string list \<Rightarrow> bool" where
  "isBlockedIp I ip allowList =
     (if isInAllowList I ip allowList then False
      else case parseOrNull I ip of None \<Rightarrow> True | Some addr \<Rightarrow> isBlockedRange I addr)"

datatype SsrfAddressKind = LOOPBACK | LINK_LOCAL | PRIVATE | PUBLIC | INVALID

definition classify_ip :: "'a ipaddr \<Rightarrow> string \<Rightarrow> SsrfAddressKind" where
  "classify_ip I ip = (case parseOrNull I ip of
       None \<Rightarrow> INVALID
     | Some parsed \<Rightarrow>
         let addrRange = ip_range I (unwrapMapped I parsed) in
         if addrRange = ''loopback'' \<or> addrRange = ''unspecified'' then LOOPBACK
         else if addrRange = ''linkLocal'' then LINK_LOCAL
         else if addrRange = ''unicast'' then PUBLIC
         else PRIVATE)"

text \<open>\<open>raw.split(',')\<close>.\<close>

fun split_on :: "char \<Rightarrow> string \<Rightarrow> string list" where
  "split_on c [] = [[]]"
| "split_on c (d # s) = (if d = c then [] # split_on c s else (d # hd (split_on c s)) # tl (split_on c s))"

definition parseAllowList :: "string option \<Rightarrow> string list" where
  "parseAllowList raw = (case raw of
       None \<Rightarrow> []
     | Some r \<Rightarrow> if r = [] then [] else filter (\<lambda>entry. 0 < length entry) (map trim (split_on (CHR '','') r)))"

subsection \<open>Verdicts\<close>

lemma isBlockedIp_iff: "isBlockedIp I ip allow \<longleftrightarrow> \<not> isInAllowList I ip allow \<and> classify_ip I ip \<noteq> PUBLIC"
  by (auto simp: isBlockedIp_def classify_ip_def isBlockedRange_def Let_def split: option.splits)

lemma isInAllowList_empty [simp]: "\<not> isInAllowList I ip []"
  by (simp add: isInAllowList_def split: option.splits)

lemma split_on_nonempty [simp]: "split_on c s \<noteq> []"
  by (cases s) simp_all

lemma split_on_plain: "e \<in> set (split_on c s) \<Longrightarrow> c \<notin> set e"
proof (induction s arbitrary: e)
  case (Cons d s)
  have "hd (split_on c s) \<in> set (split_on c s)" by simp
  then have "c \<notin> set (hd (split_on c s))" using Cons.IH by blast
  with Cons show ?case by (auto split: if_splits dest: list.set_sel(2) [rotated])
qed simp

lemma set_trim: "set (trim s) \<subseteq> set s"
  unfolding trim_def by (metis set_dropWhileD set_rev subsetI)

lemma dropWhile_fix: "s = [] \<or> \<not> P (hd s) \<Longrightarrow> dropWhile P s = s"
  by (cases s) auto

lemma trim_fix: "s = [] \<or> (\<not> is_space (hd s) \<and> \<not> is_space (last s)) \<Longrightarrow> trim s = s"
  by (auto simp: trim_def dropWhile_fix hd_rev)

lemma trim_ends:
  assumes "trim s \<noteq> []"
  shows "\<not> is_space (hd (trim s)) \<and> \<not> is_space (last (trim s))"
proof -
  let ?d = "dropWhile is_space s"
  let ?r = "dropWhile is_space (rev ?d)"
  have r: "trim s = rev ?r" "?r \<noteq> []" using assms by (auto simp: trim_def)
  obtain us where us: "rev ?d = us @ ?r" by (metis takeWhile_dropWhile_id)
  then have d: "?d = rev ?r @ rev us" by (metis rev_append rev_rev_ident)
  then have "?d \<noteq> []" using r(2) by (metis append_is_Nil_conv rev_is_Nil_conv)
  then have "\<not> is_space (hd ?d)" by (rule hd_dropWhile)
  moreover have "hd (rev ?r) = hd ?d" using r(2) by (subst (2) d) simp
  ultimately show ?thesis using r hd_dropWhile [OF r(2)] by (simp add: last_rev)
qed

lemma trim_trim: "trim (trim s) = trim s"
  using trim_ends trim_fix by blast

lemma parseAllowList_entry:
  "entry \<in> set (parseAllowList raw) \<Longrightarrow> entry \<noteq> [] \<and> trim entry = entry \<and> CHR '','' \<notin> set entry"
  using set_trim split_on_plain by (force simp: parseAllowList_def trim_trim split: option.splits if_splits)

end
