(* ===== verification/Ssrf_Guard.thy ===== *)
theory Ssrf_Guard
  imports Ip_Classifier JS_Number Error_Handling
begin

text \<open>
  \<open>server/engine/src/lib/network\<close>: \<open>ssrf-guard.ts\<close>, \<open>dns-lookup-guard.ts\<close> and \<open>socket-connect-guard.ts\<close>.

  The guard replaces three functions of the runtime: \<open>dns.lookup\<close>, \<open>dns.promises.lookup\<close> and \<open>Socket.prototype.connect\<close>.
  Each is a \<open>slot\<close> of the process: the function of the runtime, or a wrapper that captured a policy and the function it found.
  The functions of the runtime itself are the fields of \<open>platform\<close>. Code that replaces the slots by other means (the comment in
  the source calls the guard best effort) is outside the model.
\<close>

subsection \<open>Policies and slots\<close>

record GuardPolicy =
  policyAllowList :: "string list"
  allowedLoopbackPorts :: "rat list"

datatype slot = Original | Guarded GuardPolicy slot

text \<open>What an uninstall function captured: the functions it puts back.\<close>

record UninstallFn =
  savedLookup :: slot
  savedPromisesLookup :: slot
  savedConnect :: slot

record ActiveGuard =
  guardEnabled :: bool
  guardPolicy :: GuardPolicy
  guardUninstall :: "UninstallFn option"

record process_state =
  dnsLookup :: slot
  dnsPromisesLookup :: slot
  socketConnect :: slot
  currentGuard :: "ActiveGuard option"

subsection \<open>Lookups\<close>

record LookupAddress =
  address :: string
  addressFamily :: nat

record LookupOptions =
  optFamily :: "nat option"
  optHints :: "nat option"
  optAll :: bool

datatype lookup_arg = NoOptions | FamilyArg nat | OptionsArg LookupOptions

datatype lookup_error = ResolverError string | NotIterable | SSRFBlockedError string string

text \<open>The arguments of the callback, and the value of the promise.\<close>

datatype lookup_reply = LookupFailed lookup_error | LookupAll "LookupAddress list" | LookupOne string "nat option"

datatype promise_value = ManyAddresses "LookupAddress list" | OneAddress "LookupAddress option"

datatype connect_arg = ObjectArg "string option" "rat option" | NumberArg rat | StringArg string | ListArg "connect_arg list" | OtherArg

record platform =
  node_lookup :: "string \<Rightarrow> lookup_arg \<Rightarrow> lookup_reply"
  node_promises_lookup :: "string \<Rightarrow> lookup_arg \<Rightarrow> lookup_error + promise_value"
  node_isIP :: "string \<Rightarrow> nat"

definition toAddressList :: "lookup_reply \<Rightarrow> LookupAddress list" where
  "toAddressList r = (case r of
       LookupAll es \<Rightarrow> es
     | LookupOne a f \<Rightarrow> [\<lparr>address = a, addressFamily = getD f 4\<rparr>]
     | LookupFailed _ \<Rightarrow> [])"

definition findBlockedEntry :: "'a ipaddr \<Rightarrow> LookupAddress list \<Rightarrow> string list \<Rightarrow> LookupAddress option" where
  "findBlockedEntry I es allowList = List.find (\<lambda>e. isBlockedIp I (address e) allowList) es"

text \<open>\<open>{ ...callerOptions, all: true }\<close>.\<close>

definition all_options :: "LookupOptions option \<Rightarrow> LookupOptions" where
  "all_options o' = (case o' of None \<Rightarrow> \<lparr>optFamily = None, optHints = None, optAll = True\<rparr> | Some x \<Rightarrow> x\<lparr>optAll := True\<rparr>)"

text \<open>
  The wrapper of \<open>dns.lookup\<close>. A call without a callback resolves and reports nothing. Options given as a number are not an
  object, so this wrapper drops them.
\<close>

definition buildGuardedCallbackLookup ::
  "'a ipaddr \<Rightarrow> GuardPolicy \<Rightarrow> (string \<Rightarrow> lookup_arg \<Rightarrow> bool \<Rightarrow> lookup_reply option)
     \<Rightarrow> string \<Rightarrow> lookup_arg \<Rightarrow> bool \<Rightarrow> lookup_reply option" where
  "buildGuardedCallbackLookup I policy boundLookup hostname arg callback =
     (let callerOptions = (case arg of OptionsArg o' \<Rightarrow> Some o' | _ \<Rightarrow> None)
      in case boundLookup hostname (OptionsArg (all_options callerOptions)) True of
          None \<Rightarrow> None
        | Some reply \<Rightarrow>
            if \<not> callback then None
            else case reply of
                LookupFailed e \<Rightarrow> Some (LookupFailed e)
              | _ \<Rightarrow>
                let es = toAddressList reply in
                (case findBlockedEntry I es (policyAllowList policy) of
                    Some blocked \<Rightarrow> Some (LookupFailed (SSRFBlockedError hostname (address blocked)))
                  | None \<Rightarrow>
                      if (case callerOptions of None \<Rightarrow> False | Some o' \<Rightarrow> optAll o') then Some (LookupAll es)
                      else (case es of
                          [] \<Rightarrow> Some (LookupOne '''' (Some 0))
                        | first # _ \<Rightarrow> Some (LookupOne (address first) (Some (addressFamily first))))))"

definition buildGuardedPromiseLookup ::
  "'a ipaddr \<Rightarrow> GuardPolicy \<Rightarrow> (string \<Rightarrow> lookup_arg \<Rightarrow> lookup_error + promise_value)
     \<Rightarrow> string \<Rightarrow> lookup_arg \<Rightarrow> lookup_error + promise_value" where
  "buildGuardedPromiseLookup I policy boundLookup hostname arg =
     (let callerOptions = (case arg of
              FamilyArg f \<Rightarrow> Some \<lparr>optFamily = Some f, optHints = None, optAll = False\<rparr>
            | OptionsArg o' \<Rightarrow> Some o' | NoOptions \<Rightarrow> None)
      in case boundLookup hostname (OptionsArg (all_options callerOptions)) of
          Inl e \<Rightarrow> Inl e
        | Inr (OneAddress _) \<Rightarrow> Inl NotIterable
        | Inr (ManyAddresses es) \<Rightarrow>
            (case findBlockedEntry I es (policyAllowList policy) of
                Some blocked \<Rightarrow> Inl (SSRFBlockedError hostname (address blocked))
              | None \<Rightarrow>
                  if (case callerOptions of None \<Rightarrow> False | Some o' \<Rightarrow> optAll o') then Inr (ManyAddresses es)
                  else Inr (OneAddress (case es of [] \<Rightarrow> None | e # _ \<Rightarrow> Some e))))"

text \<open>A call through a slot.\<close>

fun call_lookup :: "'a ipaddr \<Rightarrow> platform \<Rightarrow> slot \<Rightarrow> string \<Rightarrow> lookup_arg \<Rightarrow> bool \<Rightarrow> lookup_reply option" where
  "call_lookup I N Original hostname arg callback = (if callback then Some (node_lookup N hostname arg) else None)"
| "call_lookup I N (Guarded p inner) hostname arg callback =
     buildGuardedCallbackLookup I p (call_lookup I N inner) hostname arg callback"

fun call_promises_lookup :: "'a ipaddr \<Rightarrow> platform \<Rightarrow> slot \<Rightarrow> string \<Rightarrow> lookup_arg \<Rightarrow> lookup_error + promise_value" where
  "call_promises_lookup I N Original hostname arg = node_promises_lookup N hostname arg"
| "call_promises_lookup I N (Guarded p inner) hostname arg =
     buildGuardedPromiseLookup I p (call_promises_lookup I N inner) hostname arg"

subsection \<open>Connections\<close>

record ConnectTarget =
  targetHost :: "string option"
  targetPort :: "rat option"

definition readConnectTarget :: "connect_arg list \<Rightarrow> ConnectTarget option" where
  "readConnectTarget args =
     (let arg0 = (case args of [] \<Rightarrow> OtherArg | a # _ \<Rightarrow> a);
          first = (case arg0 of ListArg xs \<Rightarrow> (case xs of [] \<Rightarrow> OtherArg | a # _ \<Rightarrow> a) | a \<Rightarrow> a);
          rest = (case arg0 of ListArg xs \<Rightarrow> drop 1 xs | _ \<Rightarrow> drop 1 args)
      in case first of
          ObjectArg host port \<Rightarrow> Some \<lparr>targetHost = host, targetPort = port\<rparr>
        | NumberArg port \<Rightarrow>
            Some \<lparr>targetHost = Some (case rest of StringArg h # _ \<Rightarrow> h | _ \<Rightarrow> ''127.0.0.1''), targetPort = Some port\<rparr>
        | _ \<Rightarrow> None)"

definition LOOPBACK_IPS :: "string list" where
  "LOOPBACK_IPS = [''127.0.0.1'', ''::1'']"

definition isExemptLoopbackPort :: "string \<Rightarrow> rat option \<Rightarrow> GuardPolicy \<Rightarrow> bool" where
  "isExemptLoopbackPort host port policy =
     (if host \<notin> set LOOPBACK_IPS then False
      else case port of None \<Rightarrow> False | Some p \<Rightarrow> p \<in> set (allowedLoopbackPorts policy))"

definition isBlockedRawIpTarget :: "'a ipaddr \<Rightarrow> platform \<Rightarrow> ConnectTarget option \<Rightarrow> GuardPolicy \<Rightarrow> bool" where
  "isBlockedRawIpTarget I N target policy =
     (case Option.bind target targetHost of
        None \<Rightarrow> False
      | Some host \<Rightarrow>
          if host = [] \<or> node_isIP N host = 0 then False
          else if \<not> isBlockedIp I host (policyAllowList policy) then False
          else \<not> isExemptLoopbackPort host (Option.bind target targetPort) policy)"

text \<open>The socket is destroyed with an error, or the arguments reach the function of the runtime.\<close>

datatype connect_outcome = Destroyed string | Connecting "connect_arg list"

fun call_connect :: "'a ipaddr \<Rightarrow> platform \<Rightarrow> slot \<Rightarrow> connect_arg list \<Rightarrow> connect_outcome" where
  "call_connect I N Original args = Connecting args"
| "call_connect I N (Guarded p inner) args =
     (if isBlockedRawIpTarget I N (readConnectTarget args) p
      then Destroyed (the (Option.bind (readConnectTarget args) targetHost))
      else call_connect I N inner args)"

subsection \<open>Installing and uninstalling\<close>

definition installDnsLookupGuard :: "GuardPolicy \<Rightarrow> process_state \<Rightarrow> process_state" where
  "installDnsLookupGuard policy st =
     st\<lparr>dnsLookup := Guarded policy (dnsLookup st), dnsPromisesLookup := Guarded policy (dnsPromisesLookup st)\<rparr>"

definition installSocketConnectGuard :: "GuardPolicy \<Rightarrow> process_state \<Rightarrow> process_state" where
  "installSocketConnectGuard policy st = st\<lparr>socketConnect := Guarded policy (socketConnect st)\<rparr>"

text \<open>The uninstall functions, the last one first.\<close>

definition run_uninstall :: "ActiveGuard option \<Rightarrow> process_state \<Rightarrow> process_state" where
  "run_uninstall guard st = (case Option.bind guard guardUninstall of
       None \<Rightarrow> st
     | Some u \<Rightarrow> st\<lparr>socketConnect := savedConnect u, dnsLookup := savedLookup u, dnsPromisesLookup := savedPromisesLookup u\<rparr>)"

record InstallOptions =
  instEnabled :: "bool option"
  instAllowList :: "string list option"
  instLoopbackPorts :: "rat list option"

type_synonym env_vars = "string \<Rightarrow> string option"

definition isGuardEnabled :: "env_vars \<Rightarrow> InstallOptions \<Rightarrow> bool" where
  "isGuardEnabled env options = getD (instEnabled options) (env ''FEMA_NETWORK_MODE'' = Some ''STRICT'')"

definition splitCsv :: "string option \<Rightarrow> string list" where
  "splitCsv raw = (case raw of
       None \<Rightarrow> []
     | Some r \<Rightarrow> if r = [] then [] else filter (\<lambda>s. s \<noteq> []) (map trim (split_on (CHR '','') r)))"

text \<open>\<open>parseInt(s, 10)\<close>: leading white space, a sign, digits; the rest is ignored.\<close>

definition parse_int :: "string \<Rightarrow> js_num" where
  "parse_int str =
     (let s = dropWhile is_space str;
          neg = (case s of c # _ \<Rightarrow> c = CHR ''-'' | [] \<Rightarrow> False);
          ds = takeWhile is_digit (case s of c # r \<Rightarrow> if c = CHR ''-'' \<or> c = CHR ''+'' then r else s | [] \<Rightarrow> [])
      in if ds = [] then NaN
         else if neg then js_negate (finite_num (of_nat (digits_value ds))) else finite_num (of_nat (digits_value ds)))"

definition readSandboxRpcPortFromEnv :: "env_vars \<Rightarrow> rat list" where
  "readSandboxRpcPortFromEnv env =
     (case parse_int (getD (env ''FEMA_SANDBOX_WS_PORT'') '''') of Fin p \<Rightarrow> [p] | _ \<Rightarrow> [])"

definition buildGuardPolicy :: "env_vars \<Rightarrow> InstallOptions \<Rightarrow> GuardPolicy" where
  "buildGuardPolicy env options =
     \<lparr>policyAllowList = getD (instAllowList options) (splitCsv (env ''FEMA_SSRF_ALLOW_LIST'')),
      allowedLoopbackPorts = getD (instLoopbackPorts options) (readSandboxRpcPortFromEnv env)\<rparr>"

definition DISABLED_POLICY :: GuardPolicy where
  "DISABLED_POLICY = \<lparr>policyAllowList = [], allowedLoopbackPorts = []\<rparr>"

definition guard_install :: "env_vars \<Rightarrow> InstallOptions \<Rightarrow> process_state \<Rightarrow> process_state" where
  "guard_install env options st =
     (let st = (run_uninstall (currentGuard st) st)\<lparr>currentGuard := None\<rparr>
      in if \<not> isGuardEnabled env options
         then st\<lparr>currentGuard := Some \<lparr>guardEnabled = False, guardPolicy = DISABLED_POLICY, guardUninstall = None\<rparr>\<rparr>
         else let policy = buildGuardPolicy env options;
                  saved = \<lparr>savedLookup = dnsLookup st, savedPromisesLookup = dnsPromisesLookup st, savedConnect = socketConnect st\<rparr>
              in (installSocketConnectGuard policy (installDnsLookupGuard policy st))
                   \<lparr>currentGuard := Some \<lparr>guardEnabled = True, guardPolicy = policy, guardUninstall = Some saved\<rparr>\<rparr>)"

definition guard_uninstall :: "process_state \<Rightarrow> process_state" where
  "guard_uninstall st = (run_uninstall (currentGuard st) st)\<lparr>currentGuard := None\<rparr>"

definition guard_allow_list :: "process_state \<Rightarrow> string list" where
  "guard_allow_list st = (case currentGuard st of None \<Rightarrow> [] | Some g \<Rightarrow> policyAllowList (guardPolicy g))"

definition guard_isBlockedIp :: "'a ipaddr \<Rightarrow> process_state \<Rightarrow> string \<Rightarrow> bool" where
  "guard_isBlockedIp I st ip = isBlockedIp I ip (guard_allow_list st)"

definition guard_isEnabled :: "process_state \<Rightarrow> bool" where
  "guard_isEnabled st = (case currentGuard st of None \<Rightarrow> False | Some g \<Rightarrow> guardEnabled g)"

end
