(* ===== verification/Ssrf_Safety.thy ===== *)
theory Ssrf_Safety
  imports Ssrf_Guard
begin

text \<open>
  Installing and uninstalling the network guard as a step relation, its invariant, and what the invariant means for lookups and
  connections: whatever was installed before, an enabled guard hands over public or allowed addresses only, and an uninstalled
  one leaves the functions of the runtime as it found them.
\<close>

subsection \<open>Reachable states of the process\<close>

definition unguarded :: process_state where
  "unguarded = \<lparr>dnsLookup = Original, dnsPromisesLookup = Original, socketConnect = Original, currentGuard = None\<rparr>"

inductive guard_step :: "process_state \<Rightarrow> process_state \<Rightarrow> bool" where
  install: "guard_step st (guard_install env options st)"
| uninstall: "guard_step st (guard_uninstall st)"

inductive guard_reachable :: "process_state \<Rightarrow> bool" where
  start: "guard_reachable unguarded"
| step: "guard_reachable st \<Longrightarrow> guard_step st st' \<Longrightarrow> guard_reachable st'"

inductive_cases guard_stepE: "guard_step st st'"

definition slots_are :: "process_state \<Rightarrow> slot \<Rightarrow> bool" where
  "slots_are st s \<longleftrightarrow> dnsLookup st = s \<and> dnsPromisesLookup st = s \<and> socketConnect st = s"

definition one_layer :: "process_state \<Rightarrow> bool" where
  "one_layer st \<longleftrightarrow> (case currentGuard st of
       None \<Rightarrow> slots_are st Original
     | Some g \<Rightarrow>
         if guardEnabled g
         then slots_are st (Guarded (guardPolicy g) Original)
            \<and> guardUninstall g = Some \<lparr>savedLookup = Original, savedPromisesLookup = Original, savedConnect = Original\<rparr>
         else slots_are st Original \<and> guardUninstall g = None)"

lemma uninstall_restores: "one_layer st \<Longrightarrow> guard_uninstall st = unguarded"
  by (cases st) (auto simp: one_layer_def guard_uninstall_def run_uninstall_def unguarded_def slots_are_def
      split: option.splits if_splits)

lemma install_uninstalls: "(run_uninstall (currentGuard st) st)\<lparr>currentGuard := None\<rparr> = guard_uninstall st"
  by (simp add: guard_uninstall_def)

lemma one_layer_unguarded: "one_layer unguarded"
  by (simp add: one_layer_def unguarded_def slots_are_def)

lemma one_layer_install: "one_layer st \<Longrightarrow> one_layer (guard_install env options st)"
  unfolding guard_install_def install_uninstalls
  by (simp add: uninstall_restores Let_def)
    (simp add: one_layer_def unguarded_def slots_are_def installDnsLookupGuard_def installSocketConnectGuard_def)

lemma reachable_one_layer: "guard_reachable st \<Longrightarrow> one_layer st"
proof (induction rule: guard_reachable.induct)
  case start
  show ?case by (rule one_layer_unguarded)
next
  case (step st st')
  from step(2,3) show ?case
    by (elim guard_stepE) (simp_all add: one_layer_install uninstall_restores one_layer_unguarded)
qed

subsection \<open>Calls through a guarded slot\<close>

text \<open>The three wrappers share a contract: what comes back from a call through a guarded slot obeys the policy.\<close>

locale guarded_call =
  fixes slot_of :: "process_state \<Rightarrow> slot"
    and call :: "slot \<Rightarrow> 'q \<Rightarrow> 'r"
    and lawful :: "GuardPolicy \<Rightarrow> 'q \<Rightarrow> 'r \<Rightarrow> bool"
  assumes in_slots: "slots_are st s \<Longrightarrow> slot_of st = s"
    and wrapped: "lawful p q (call (Guarded p inner) q)"
begin

lemma enabled_lawful:
  assumes "guard_reachable st" and "guard_isEnabled st"
  shows "\<exists>p. currentGuard st = Some p \<and> lawful (guardPolicy p) q (call (slot_of st) q)"
proof -
  from assms(2) obtain g where g: "currentGuard st = Some g" "guardEnabled g"
    by (auto simp: guard_isEnabled_def split: option.splits)
  with reachable_one_layer [OF assms(1)] have "slot_of st = Guarded (guardPolicy g) Original"
    by (intro in_slots) (simp add: one_layer_def)
  then show ?thesis using g wrapped by auto
qed

lemma disabled_original: "guard_reachable st \<Longrightarrow> \<not> guard_isEnabled st \<Longrightarrow> slot_of st = Original"
  by (intro in_slots, drule reachable_one_layer) (auto simp: one_layer_def guard_isEnabled_def split: option.splits)

end

lemma findBlockedEntry_None: "findBlockedEntry I es allow = None \<longleftrightarrow> (\<forall>e \<in> set es. \<not> isBlockedIp I (address e) allow)"
  by (auto simp: findBlockedEntry_def find_None_iff)

definition lookup_lawful :: "'a ipaddr \<Rightarrow> GuardPolicy \<Rightarrow> string \<times> lookup_arg \<times> bool \<Rightarrow> lookup_reply option \<Rightarrow> bool" where
  "lookup_lawful I p q r \<longleftrightarrow> (case r of
       Some (LookupAll es) \<Rightarrow> \<forall>e \<in> set es. \<not> isBlockedIp I (address e) (policyAllowList p)
     | Some (LookupOne a _) \<Rightarrow> a = [] \<or> \<not> isBlockedIp I a (policyAllowList p)
     | _ \<Rightarrow> True)"

interpretation lookup_slot: guarded_call dnsLookup "\<lambda>s (h, a, cb). call_lookup I N s h a cb" "lookup_lawful I" for I N
proof
  show "lookup_lawful I p q ((\<lambda>(h, a, cb). call_lookup I N (Guarded p inner) h a cb) q)" for p q inner
    by (cases q) (auto simp: lookup_lawful_def buildGuardedCallbackLookup_def Let_def findBlockedEntry_None
        split: option.splits lookup_reply.splits list.splits)
qed (simp add: slots_are_def)

definition promise_lawful :: "'a ipaddr \<Rightarrow> GuardPolicy \<Rightarrow> string \<times> lookup_arg \<Rightarrow> lookup_error + promise_value \<Rightarrow> bool" where
  "promise_lawful I p q r \<longleftrightarrow> (case r of
       Inr (ManyAddresses es) \<Rightarrow> \<forall>e \<in> set es. \<not> isBlockedIp I (address e) (policyAllowList p)
     | Inr (OneAddress (Some e)) \<Rightarrow> \<not> isBlockedIp I (address e) (policyAllowList p)
     | _ \<Rightarrow> True)"

interpretation promise_slot: guarded_call dnsPromisesLookup "\<lambda>s (h, a). call_promises_lookup I N s h a" "promise_lawful I" for I N
proof
  show "promise_lawful I p q ((\<lambda>(h, a). call_promises_lookup I N (Guarded p inner) h a) q)" for p q inner
    by (cases q) (auto simp: promise_lawful_def buildGuardedPromiseLookup_def Let_def findBlockedEntry_None
        split: option.splits sum.splits promise_value.splits list.splits)
qed (simp add: slots_are_def)

definition connect_lawful :: "'a ipaddr \<Rightarrow> platform \<Rightarrow> GuardPolicy \<Rightarrow> connect_arg list \<Rightarrow> connect_outcome \<Rightarrow> bool" where
  "connect_lawful I N p args r \<longleftrightarrow>
     (\<forall>passed. r = Connecting passed \<longrightarrow> \<not> isBlockedRawIpTarget I N (readConnectTarget args) p)"

interpretation connect_slot: guarded_call socketConnect "call_connect I N" "connect_lawful I N" for I N
  by unfold_locales (simp_all add: slots_are_def connect_lawful_def)

subsection \<open>The guarantee\<close>

definition permitted :: "'a ipaddr \<Rightarrow> process_state \<Rightarrow> string \<Rightarrow> bool" where
  "permitted I st ip \<longleftrightarrow> isInAllowList I ip (guard_allow_list st) \<or> classify_ip I ip = PUBLIC"

lemma permitted_guard: "currentGuard st = Some g \<Longrightarrow> \<not> isBlockedIp I ip (policyAllowList (guardPolicy g)) \<longleftrightarrow> permitted I st ip"
  by (auto simp: permitted_def isBlockedIp_iff guard_allow_list_def)

fun lookup_permits :: "(string \<Rightarrow> bool) \<Rightarrow> lookup_reply option \<Rightarrow> bool" where
  "lookup_permits P (Some (LookupAll es)) = list_all (\<lambda>e. P (address e)) es"
| "lookup_permits P (Some (LookupOne a f)) = (a = [] \<or> P a)"
| "lookup_permits P _ = True"

fun promise_permits :: "(string \<Rightarrow> bool) \<Rightarrow> lookup_error + promise_value \<Rightarrow> bool" where
  "promise_permits P (Inr (ManyAddresses es)) = list_all (\<lambda>e. P (address e)) es"
| "promise_permits P (Inr (OneAddress (Some e))) = P (address e)"
| "promise_permits P _ = True"

lemma lookup_lawful_permits:
  "currentGuard st = Some g \<Longrightarrow> lookup_lawful I (guardPolicy g) q r \<Longrightarrow> lookup_permits (permitted I st) r"
  by (cases r; (cases "the r")?) (auto simp: lookup_lawful_def permitted_guard list_all_iff)

lemma promise_lawful_permits:
  "currentGuard st = Some g \<Longrightarrow> promise_lawful I (guardPolicy g) q r \<Longrightarrow> promise_permits (permitted I st) r"
  by (auto simp: promise_lawful_def permitted_guard list_all_iff split: sum.splits promise_value.splits option.splits)


text \<open>
  However often the guard was installed before, it wraps each function of the runtime at most once:
  uninstalling it puts all three back, and a guard that is switched off leaves them alone.
\<close>

theorem ssrf_guard_restores:
  assumes "guard_reachable st"
  shows "guard_uninstall st = unguarded
    \<and> (if guard_isEnabled st
        then \<exists>g. currentGuard st = Some g \<and> slots_are st (Guarded (guardPolicy g) Original)
        else slots_are st Original)"
  using reachable_one_layer [OF assms] uninstall_restores
  by (auto simp: one_layer_def guard_isEnabled_def split: option.splits if_splits)

text \<open>A family given as a number is lost on the way through the callback form, not through the promise form.\<close>

lemma lookup_drops_family:
  "buildGuardedCallbackLookup I p bound h (FamilyArg f) cb = buildGuardedCallbackLookup I p bound h NoOptions cb"
  by (simp add: buildGuardedCallbackLookup_def)

end
