(* ===== verification/Org_Tree_Plan.thy ===== *)
theory Org_Tree_Plan
  imports Prelude
begin

text \<open>
  \<open>core/utils/src/lib/org-tree-plan.ts\<close>: the plan that turns the departments of a target system into those of a source.

  Department keys are organisation identifiers: lookups of names that every object inherits are not modelled. The comparison of
  strings by locale is a parameter. The stack \<open>pending\<close> has its top at the head of the list.
\<close>

subsection \<open>Data\<close>

record SourceOrgNode =
  nodeKey :: string
  parentKey :: "string option"
  nodeName :: string
  nodeOrder :: "rat option"
  nodeDisabled :: bool

record TargetOrgNode =
  targetId :: string
  customIdOf :: "string option"
  targetParentId :: "string option"
  targetName :: string

datatype OrgPlanOp =
    Bind (sourceKey: string) (boundTarget: string)
  | Create (sourceKey: string) (createdId: string) (createdName: string) (createParent: string) (createOrder: "rat option")
  | RebindCreate (sourceKey: string) (staleTarget: string) (createdId: string) (createdName: string) (createParent: string)
      (createOrder: "rat option")
  | Update (sourceKey: string) (updatedTarget: string) (newName: "string option") (newParent: "string option")
  | Archive (sourceKey: string) (archivedTarget: string)
  | ReportDisabled (sourceKey: string) (disabledTarget: string)
  | Orphan (sourceKey: string)

datatype org_error = KeysNotUnique | SiblingsNotUnique | BindingsNotUnique | AmbiguousSiblings string

record OrgTreePlan =
  planOps :: "OrgPlanOp list"
  gateExceeded :: "(nat \<times> nat) option"

record BuildParams =
  source :: "SourceOrgNode list"
  target :: "TargetOrgNode list"
  bindings :: "string js_record"
  rootSourceKey :: string
  rootTargetId :: string
  archiveParentId :: "string option"
  maxArchives :: nat
  maxMoves :: nat

text \<open>A string is false in a condition when it is absent or empty.\<close>

definition truthy :: "string option \<Rightarrow> bool" where
  "truthy x \<longleftrightarrow> x \<noteq> None \<and> x \<noteq> Some []"

subsection \<open>Order of siblings\<close>

definition compareNodes :: "(string \<Rightarrow> string \<Rightarrow> int) \<Rightarrow> SourceOrgNode \<Rightarrow> SourceOrgNode \<Rightarrow> rat" where
  "compareNodes localeCompare a b =
     (let d = (case nodeOrder a of None \<Rightarrow> 0 | Some x \<Rightarrow> x) - (case nodeOrder b of None \<Rightarrow> 0 | Some x \<Rightarrow> x)
      in if d \<noteq> 0 then d else of_int (localeCompare (nodeKey a) (nodeKey b)))"

text \<open>\<open>sort\<close> is stable.\<close>

fun insert_node :: "(string \<Rightarrow> string \<Rightarrow> int) \<Rightarrow> SourceOrgNode \<Rightarrow> SourceOrgNode list \<Rightarrow> SourceOrgNode list" where
  "insert_node lc a [] = [a]"
| "insert_node lc a (b # bs) = (if compareNodes lc a b \<le> 0 then a # b # bs else b # insert_node lc a bs)"

definition sort_nodes :: "(string \<Rightarrow> string \<Rightarrow> int) \<Rightarrow> SourceOrgNode list \<Rightarrow> SourceOrgNode list" where
  "sort_nodes lc ns = foldr (insert_node lc) ns []"

text \<open>\<open>children\<close> maps a parent to its nodes in the order of the source.\<close>

definition children_map :: "SourceOrgNode list \<Rightarrow> SourceOrgNode list js_record" where
  "children_map ns =
     foldl (\<lambda>m n. case parentKey n of
         None \<Rightarrow> m
       | Some p \<Rightarrow> AList.update p ((case map_of m p of None \<Rightarrow> [] | Some xs \<Rightarrow> xs) @ [n]) m) [] ns"

definition org_children :: "BuildParams \<Rightarrow> string \<Rightarrow> SourceOrgNode list" where
  "org_children P k = (case map_of (children_map (source P)) k of None \<Rightarrow> [] | Some ns \<Rightarrow> ns)"

subsection \<open>Walk over the source tree\<close>

record walk_state =
  ops :: "OrgPlanOp list"
  resolved :: "string js_record"
  claimed :: "string list"
  visited :: "string list"

definition target_by_id :: "BuildParams \<Rightarrow> string \<Rightarrow> TargetOrgNode option" where
  "target_by_id P i = List.find (\<lambda>t. targetId t = i) (rev (target P))"

definition bound_id :: "BuildParams \<Rightarrow> SourceOrgNode \<Rightarrow> string option" where
  "bound_id P n = map_of (bindings P) (nodeKey n)"

definition custom_id :: "SourceOrgNode \<Rightarrow> string" where
  "custom_id n = ''bs-'' @ nodeKey n"

definition name_matches :: "BuildParams \<Rightarrow> walk_state \<Rightarrow> SourceOrgNode \<Rightarrow> string \<Rightarrow> TargetOrgNode list" where
  "name_matches P s n parentTarget =
     filter (\<lambda>t. targetParentId t = Some parentTarget \<and> targetName t = nodeName n \<and> targetId t \<notin> set (claimed s)) (target P)"

definition custom_match :: "BuildParams \<Rightarrow> walk_state \<Rightarrow> SourceOrgNode \<Rightarrow> TargetOrgNode option" where
  "custom_match P s n = List.find (\<lambda>t. customIdOf t = Some (custom_id n) \<and> targetId t \<notin> set (claimed s)) (target P)"

definition existing_target :: "BuildParams \<Rightarrow> walk_state \<Rightarrow> SourceOrgNode \<Rightarrow> string \<Rightarrow> TargetOrgNode option" where
  "existing_target P s n parentTarget =
     (case (if truthy (bound_id P n) then target_by_id P (the (bound_id P n)) else None) of
        Some t \<Rightarrow> Some t
      | None \<Rightarrow>
          if truthy (bound_id P n) then None
          else case custom_match P s n of
              Some t \<Rightarrow> Some t
            | None \<Rightarrow> (case name_matches P s n parentTarget of [] \<Rightarrow> None | t # _ \<Rightarrow> Some t))"

definition parent_source :: "BuildParams \<Rightarrow> SourceOrgNode \<Rightarrow> string" where
  "parent_source P n = (case parentKey n of None \<Rightarrow> rootSourceKey P | Some k \<Rightarrow> k)"

definition existing_ops :: "BuildParams \<Rightarrow> SourceOrgNode \<Rightarrow> string \<Rightarrow> TargetOrgNode \<Rightarrow> OrgPlanOp list" where
  "existing_ops P n parentTarget t =
     (if truthy (bound_id P n) then [] else [Bind (nodeKey n) (targetId t)])
     @ (if nodeDisabled n
        then (if truthy (archiveParentId P) \<and> targetParentId t \<noteq> archiveParentId P then [Archive (nodeKey n) (targetId t)]
              else if \<not> truthy (archiveParentId P) then [ReportDisabled (nodeKey n) (targetId t)] else [])
        else let changedName = targetName t \<noteq> nodeName n;
                 changedParent = targetParentId t \<noteq> Some parentTarget
             in if changedName \<or> changedParent
                then [Update (nodeKey n) (targetId t) (if changedName then Some (nodeName n) else None)
                        (if changedParent then Some (parent_source P n) else None)]
                else [])"

definition create_op :: "BuildParams \<Rightarrow> SourceOrgNode \<Rightarrow> OrgPlanOp" where
  "create_op P n =
     (if truthy (bound_id P n)
      then RebindCreate (nodeKey n) (the (bound_id P n)) (custom_id n) (nodeName n) (parent_source P n) (nodeOrder n)
      else Create (nodeKey n) (custom_id n) (nodeName n) (parent_source P n) (nodeOrder n))"

text \<open>One round of the loop for a node that was not visited before. The flag tells whether its children follow.\<close>

definition visit_node :: "BuildParams \<Rightarrow> SourceOrgNode \<Rightarrow> walk_state \<Rightarrow> org_error + walk_state \<times> bool" where
  "visit_node P n s =
     (let s = s\<lparr>visited := visited s @ [nodeKey n]\<rparr>;
          parentTarget = map_of (resolved s) (case parentKey n of None \<Rightarrow> [] | Some k \<Rightarrow> k)
      in if \<not> truthy parentTarget then Inr (s\<lparr>ops := ops s @ [Orphan (nodeKey n)]\<rparr>, False)
         else if \<not> truthy (bound_id P n) \<and> custom_match P s n = None \<and> 1 < length (name_matches P s n (the parentTarget))
         then Inl (AmbiguousSiblings (nodeName n))
         else case existing_target P s n (the parentTarget) of
             Some t \<Rightarrow>
               Inr (s\<lparr>claimed := claimed s @ [targetId t], resolved := AList.update (nodeKey n) (targetId t) (resolved s),
                      ops := ops s @ existing_ops P n (the parentTarget) t\<rparr>, True)
           | None \<Rightarrow>
               if \<not> nodeDisabled n
               then Inr (s\<lparr>resolved := AList.update (nodeKey n) (custom_id n) (resolved s), ops := ops s @ [create_op P n]\<rparr>, True)
               else Inr (s\<lparr>ops := ops s @ [ReportDisabled (nodeKey n) (case bound_id P n of None \<Rightarrow> [] | Some b \<Rightarrow> b)]\<rparr>, True))"

definition sorted_children :: "(string \<Rightarrow> string \<Rightarrow> int) \<Rightarrow> BuildParams \<Rightarrow> string \<Rightarrow> SourceOrgNode list" where
  "sorted_children lc P k = sort_nodes lc (org_children P k)"

definition unvisited :: "BuildParams \<Rightarrow> SourceOrgNode list \<Rightarrow> walk_state \<Rightarrow> string set" where
  "unvisited P pending s = (nodeKey ` set (source P) \<union> nodeKey ` set pending) - set (visited s)"

lemma set_insert_node [simp]: "set (insert_node lc a bs) = insert a (set bs)"
  by (induction bs) auto

lemma set_sort_nodes [simp]: "set (sort_nodes lc ns) = set ns"
  unfolding sort_nodes_def by (induction ns) auto

lemma children_map_filter:
  "(case map_of (children_map ns) k of None \<Rightarrow> [] | Some xs \<Rightarrow> xs) = filter (\<lambda>n. parentKey n = Some k) ns"
proof (induction ns rule: rev_induct)
  case (snoc n ns)
  have step: "children_map (ns @ [n]) = (case parentKey n of
         None \<Rightarrow> children_map ns
       | Some p \<Rightarrow> AList.update p ((case map_of (children_map ns) p of None \<Rightarrow> [] | Some xs \<Rightarrow> xs) @ [n]) (children_map ns))"
    unfolding children_map_def by (simp split: option.splits)
  show ?case
  proof (cases "parentKey n = Some k")
    case True
    with snoc step show ?thesis by (simp add: update_conv')
  next
    case False
    with snoc step show ?thesis by (cases "parentKey n") (simp_all add: update_conv')
  qed
qed (simp add: children_map_def)

lemma org_children_filter: "org_children P k = filter (\<lambda>n. parentKey n = Some k) (source P)"
  unfolding org_children_def by (rule children_map_filter)

lemma set_sorted_children: "set (sorted_children lc P k) = {n \<in> set (source P). parentKey n = Some k}"
  by (simp add: sorted_children_def org_children_filter)

lemma visit_node_visited: "visit_node P n s = Inr (s', deeper) \<Longrightarrow> visited s' = visited s @ [nodeKey n]"
  by (auto simp: visit_node_def Let_def split: if_splits option.splits)

function org_walk :: "(string \<Rightarrow> string \<Rightarrow> int) \<Rightarrow> BuildParams \<Rightarrow> SourceOrgNode list \<Rightarrow> walk_state \<Rightarrow> org_error + walk_state" where
  "org_walk lc P [] s = Inr s"
| "org_walk lc P (n # pending) s =
     (if nodeKey n \<in> set (visited s) then org_walk lc P pending s
      else case visit_node P n s of
          Inl e \<Rightarrow> Inl e
        | Inr (s', deeper) \<Rightarrow> org_walk lc P ((if deeper then sorted_children lc P (nodeKey n) else []) @ pending) s')"
  by pat_completeness auto
termination
proof (relation "(\<lambda>(lc, P, pending, s). card (unvisited P pending s)) <*mlex*> measure (\<lambda>(lc, P, pending, s). length pending)",
    goal_cases)
  case 1
  show ?case by (intro wf_mlex wf_measure)
next
  case (2 lc P n pending s)
  then have "unvisited P pending s = unvisited P (n # pending) s" by (auto simp: unvisited_def)
  then show ?case by (intro mlex_leq) simp_all
next
  case (3 lc P n pending s r s' deeper)
  have "unvisited P ((if deeper then sorted_children lc P (nodeKey n) else []) @ pending) s' \<subset> unvisited P (n # pending) s"
    using 3 visit_node_visited [of P n s s' deeper] by (auto simp: unvisited_def set_sorted_children split: if_splits)
  moreover have "finite (unvisited P (n # pending) s)" by (simp add: unvisited_def)
  ultimately show ?case by (intro mlex_less) (simp add: psubset_card_mono)
qed

subsection \<open>The plan\<close>

definition sibling_keys :: "BuildParams \<Rightarrow> (string option \<times> string) list" where
  "sibling_keys P = map (\<lambda>n. (parentKey n, trim (nodeName n))) (filter (\<lambda>n. \<not> nodeDisabled n \<and> nodeKey n \<noteq> rootSourceKey P) (source P))"

definition bound_targets :: "BuildParams \<Rightarrow> string list" where
  "bound_targets P = map snd (filter (\<lambda>(k, _). list_ex (\<lambda>n. nodeKey n = k) (source P))
     (AList.update (rootSourceKey P) (rootTargetId P) (bindings P)))"

definition start_state :: "BuildParams \<Rightarrow> walk_state" where
  "start_state P =
     (let resolved = AList.update (rootSourceKey P) (rootTargetId P) (bindings P)
      in \<lparr>ops = [], resolved = resolved, claimed = map snd resolved, visited = [rootSourceKey P]\<rparr>)"

definition is_archive :: "OrgPlanOp \<Rightarrow> bool" where
  "is_archive op' = (case op' of Archive _ _ \<Rightarrow> True | _ \<Rightarrow> False)"

definition is_move :: "OrgPlanOp \<Rightarrow> bool" where
  "is_move op' = (case op' of Update _ _ _ p \<Rightarrow> p \<noteq> None | _ \<Rightarrow> False)"

definition gate :: "BuildParams \<Rightarrow> OrgPlanOp list \<Rightarrow> (nat \<times> nat) option" where
  "gate P os =
     (let archives = length (filter is_archive os); moves = length (filter is_move os)
      in if maxArchives P < archives \<or> maxMoves P < moves then Some (archives, moves) else None)"

definition build :: "(string \<Rightarrow> string \<Rightarrow> int) \<Rightarrow> BuildParams \<Rightarrow> org_error + OrgTreePlan" where
  "build lc P =
     (if \<not> distinct (map nodeKey (source P)) then Inl KeysNotUnique
      else if \<not> distinct (sibling_keys P) then Inl SiblingsNotUnique
      else if \<not> distinct (bound_targets P) then Inl BindingsNotUnique
      else if \<not> list_ex (\<lambda>n. nodeKey n = rootSourceKey P) (source P)
      then Inr \<lparr>planOps = map (\<lambda>n. Orphan (nodeKey n)) (source P), gateExceeded = None\<rparr>
      else case org_walk lc P (sorted_children lc P (rootSourceKey P)) (start_state P) of
          Inl e \<Rightarrow> Inl e
        | Inr s \<Rightarrow>
            let os = ops s @ map (\<lambda>n. Orphan (nodeKey n)) (filter (\<lambda>n. nodeKey n \<notin> set (visited s)) (source P))
            in Inr \<lparr>planOps = os, gateExceeded = gate P os\<rparr>)"

end
