(* ===== verification/Org_Tree_Correctness.thy ===== *)
theory Org_Tree_Correctness
  imports Org_Tree_Plan
begin

text \<open>
  What a plan for the organisation tree guarantees: parents come before their children, no target department is taken twice, and
  a department without an operation is already as it should be. Each guarantee is an invariant of the walk; the locale
  \<open>walk_invariant\<close> carries an invariant of one visit over the whole walk.
\<close>

locale walk_invariant =
  fixes P :: BuildParams and I :: "walk_state \<Rightarrow> bool"
  assumes visit: "n \<in> set (source P) \<Longrightarrow> nodeKey n \<notin> set (visited s) \<Longrightarrow> parentKey n = Some k \<Longrightarrow> k \<in> set (visited s)
    \<Longrightarrow> I s \<Longrightarrow> visit_node P n s = Inr (s', d) \<Longrightarrow> I s'"
begin

lemma walk_keeps:
  "org_walk lc P pending s = Inr s' \<Longrightarrow> \<forall>n \<in> set pending. n \<in> set (source P) \<and> parentKey n \<in> Some ` set (visited s) \<Longrightarrow> I s \<Longrightarrow> I s'"
proof (induction lc Q \<equiv> P pending s rule: org_walk.induct)
  case (2 lc n pending s)
  show ?case
  proof (cases "nodeKey n \<in> set (visited s)")
    case True
    with 2 show ?thesis by simp
  next
    case False
    then obtain t d where v: "visit_node P n s = Inr (t, d)"
      and w: "org_walk lc P ((if d then sorted_children lc P (nodeKey n) else []) @ pending) t = Inr s'"
      using "2.prems"(1) by (auto split: sum.splits)
    have "I t" using visit [OF _ False _ _ "2.prems"(3) v] "2.prems"(2) by auto
    moreover have "\<forall>m \<in> set ((if d then sorted_children lc P (nodeKey n) else []) @ pending).
        m \<in> set (source P) \<and> parentKey m \<in> Some ` set (visited t)"
      using "2.prems"(2) visit_node_visited [OF v] by (auto simp: set_sorted_children)
    ultimately show ?thesis using "2.hyps"(2) [OF False v refl] w by blast
  qed
qed simp

lemma build_keeps:
  "org_walk lc P (sorted_children lc P (rootSourceKey P)) (start_state P) = Inr s \<Longrightarrow> I (start_state P) \<Longrightarrow> I s"
  by (rule walk_keeps) (auto simp: set_sorted_children start_state_def Let_def)

end

text \<open>The operations a visit adds.\<close>

lemma visit_cases:
  assumes "visit_node P n s = Inr (s', d)"
  obtains (orphan) "s' = s\<lparr>visited := visited s @ [nodeKey n], ops := ops s @ [Orphan (nodeKey n)]\<rparr>"
  | (existing) t parent where "truthy parent" "parent = map_of (resolved s) (case parentKey n of None \<Rightarrow> [] | Some k \<Rightarrow> k)"
      "existing_target P s n (the parent) = Some t"
      "s' = s\<lparr>visited := visited s @ [nodeKey n], claimed := claimed s @ [targetId t],
         resolved := AList.update (nodeKey n) (targetId t) (resolved s), ops := ops s @ existing_ops P n (the parent) t\<rparr>"
  | (created) parent where "truthy parent" "parent = map_of (resolved s) (case parentKey n of None \<Rightarrow> [] | Some k \<Rightarrow> k)"
      "s' = s\<lparr>visited := visited s @ [nodeKey n], resolved := AList.update (nodeKey n) (custom_id n) (resolved s),
         ops := ops s @ [create_op P n]\<rparr>"
  | (disabled) i where "s' = s\<lparr>visited := visited s @ [nodeKey n], ops := ops s @ [ReportDisabled (nodeKey n) i]\<rparr>"
proof -
  let ?p = "map_of (resolved s) (case parentKey n of None \<Rightarrow> [] | Some k \<Rightarrow> k)"
  have cong: "existing_target P (s\<lparr>visited := v\<rparr>) n q = existing_target P s n q" for v q
  proof -
    have "name_matches P (s\<lparr>visited := v\<rparr>) n q = name_matches P s n q" "custom_match P (s\<lparr>visited := v\<rparr>) n = custom_match P s n"
      by (simp_all add: name_matches_def custom_match_def)
    then show ?thesis unfolding existing_target_def by (simp only:)
  qed
  show ?thesis
  proof (cases "truthy ?p")
    case False
    with assms show ?thesis by (intro orphan) (simp add: visit_node_def Let_def)
  next
    case True
    note p = this
    show ?thesis
    proof (cases "existing_target P s n (the ?p)")
      case (Some t)
      with assms p show ?thesis
        by (intro existing [OF p refl Some]) (simp add: visit_node_def Let_def cong split: if_splits)
    next
      case None
      show ?thesis
      proof (cases "nodeDisabled n")
        case True
        with assms p None show ?thesis 
          by (intro disabled [of "case bound_id P n of None \<Rightarrow> [] | Some b \<Rightarrow> b"]) (simp add: visit_node_def Let_def cong split: if_splits)
      next
        case False
        with assms p None show ?thesis
          by (intro created [OF p refl]) (simp add: visit_node_def Let_def cong split: if_splits)
      qed
    qed
  qed
qed

lemma build_cases:
  assumes "build lc P = Inr plan"
  obtains (no_root) "planOps plan = map (\<lambda>n. Orphan (nodeKey n)) (source P)"
  | (walked) s where "org_walk lc P (sorted_children lc P (rootSourceKey P)) (start_state P) = Inr s"
      "planOps plan = ops s @ map (\<lambda>n. Orphan (nodeKey n)) (filter (\<lambda>n. nodeKey n \<notin> set (visited s)) (source P))"
  using assms by (auto simp: build_def Let_def split: if_splits sum.splits)

lemma build_checked: "build lc P = Inr plan \<Longrightarrow> distinct (map nodeKey (source P)) \<and> distinct (bound_targets P)"
  by (auto simp: build_def split: if_splits)

subsection \<open>Parents first\<close>

fun refers_to :: "OrgPlanOp \<Rightarrow> string option" where
  "refers_to (Create _ _ _ p _) = Some p"
| "refers_to (RebindCreate _ _ _ _ p _) = Some p"
| "refers_to (Update _ _ _ p) = p"
| "refers_to _ = None"

fun settles :: "OrgPlanOp \<Rightarrow> string option" where
  "settles (Bind k _) = Some k"
| "settles (Create k _ _ _ _) = Some k"
| "settles (RebindCreate k _ _ _ _ _) = Some k"
| "settles _ = None"

definition known_keys :: "BuildParams \<Rightarrow> string set" where
  "known_keys P = insert (rootSourceKey P) (fst ` set (bindings P))"

text \<open>Every parent an operation names is known before: the root, a bound key, or one an earlier operation settled.\<close>

definition parents_first :: "string set \<Rightarrow> OrgPlanOp list \<Rightarrow> bool" where
  "parents_first K os \<longleftrightarrow>
     (\<forall>i < length os. \<forall>p. refers_to (os ! i) = Some p \<longrightarrow> p \<in> K \<or> Some p \<in> settles ` set (take i os))"

lemma parents_first_Nil [simp]: "parents_first K []"
  by (simp add: parents_first_def)

lemma parents_first_snoc:
  "parents_first K os \<Longrightarrow> (\<And>p. refers_to op' = Some p \<Longrightarrow> p \<in> K \<or> Some p \<in> settles ` set os) \<Longrightarrow> parents_first K (os @ [op'])"
  unfolding parents_first_def by (auto simp: nth_append less_Suc_eq split: if_splits)

lemma parents_first_append:
  "parents_first K os \<Longrightarrow> (\<And>op' p. op' \<in> set qs \<Longrightarrow> refers_to op' = Some p \<Longrightarrow> p \<in> K \<or> Some p \<in> settles ` set os)
     \<Longrightarrow> parents_first K (os @ qs)"
proof (induction qs rule: rev_induct)
  case (snoc q qs)
  have "parents_first K (os @ qs)"
    by (rule snoc.IH [OF snoc.prems(1)]) (rule snoc.prems(2), simp_all)
  then have "parents_first K ((os @ qs) @ [q])"
    by (rule parents_first_snoc) (use snoc.prems(2) in auto)
  then show ?case by simp
qed simp

lemma map_of_key: "map_of r k = Some v \<Longrightarrow> k \<in> fst ` set r"
  by (force dest: map_of_SomeD)

lemma existing_refers: "op' \<in> set (existing_ops P n parent t) \<Longrightarrow> refers_to op' = Some q \<Longrightarrow> q = parent_source P n"
  by (auto simp: existing_ops_def Let_def split: if_splits)

definition settled_inv :: "BuildParams \<Rightarrow> walk_state \<Rightarrow> bool" where
  "settled_inv P s \<longleftrightarrow> parents_first (known_keys P) (ops s)
     \<and> (\<forall>k \<in> fst ` set (resolved s). k \<in> known_keys P \<or> Some k \<in> settles ` set (ops s))"

lemma bound_known: "truthy (bound_id P n) \<Longrightarrow> nodeKey n \<in> known_keys P"
  by (auto simp: truthy_def bound_id_def known_keys_def dest: map_of_key)

lemma parent_settled:
  assumes "settled_inv P s" and "truthy (map_of (resolved s) (case parentKey n of None \<Rightarrow> [] | Some k \<Rightarrow> k))"
  shows "parent_source P n \<in> known_keys P \<or> Some (parent_source P n) \<in> settles ` set (ops s)"
proof (cases "parentKey n")
  case None
  then show ?thesis by (simp add: parent_source_def known_keys_def)
next
  case (Some k)
  with assms(2) have "k \<in> fst ` set (resolved s)" by (auto simp: truthy_def dest: map_of_key)
  with assms(1) Some show ?thesis by (auto simp: settled_inv_def parent_source_def)
qed

lemma settled_inv_visit:
  assumes "settled_inv P s" and "visit_node P n s = Inr (s', d)"
  shows "settled_inv P s'"
  using assms(2)
proof (cases rule: visit_cases)
  case orphan
  with assms(1) show ?thesis by (auto simp: settled_inv_def intro!: parents_first_snoc)
next
  case (disabled i)
  with assms(1) show ?thesis by (auto simp: settled_inv_def intro!: parents_first_snoc)
next
  case (existing t parent)
  have p: "parent_source P n \<in> known_keys P \<or> Some (parent_source P n) \<in> settles ` set (ops s)"
    using parent_settled [OF assms(1)] existing(1,2) by simp
  have "parents_first (known_keys P) (ops s @ existing_ops P n (the parent) t)"
    using assms(1) p existing_refers by (intro parents_first_append) (simp add: settled_inv_def, blast)
  moreover have "nodeKey n \<in> known_keys P \<or> Some (nodeKey n) \<in> settles ` set (existing_ops P n (the parent) t)"
    using bound_known [of P n] by (cases "truthy (bound_id P n)") (simp_all add: existing_ops_def)
  ultimately show ?thesis using assms(1) existing(4) dom_update [of "nodeKey n" "targetId t" "resolved s"]
    by (auto simp: settled_inv_def)
next
  case (created parent)
  have p: "parent_source P n \<in> known_keys P \<or> Some (parent_source P n) \<in> settles ` set (ops s)"
    using parent_settled [OF assms(1)] created(1,2) by simp
  have "parents_first (known_keys P) (ops s @ [create_op P n])"
    using assms(1) p by (intro parents_first_snoc) (simp_all add: settled_inv_def create_op_def split: if_splits)
  moreover have "settles (create_op P n) = Some (nodeKey n)" by (simp add: create_op_def)
  ultimately show ?thesis using assms(1) created(3) dom_update [of "nodeKey n" "custom_id n" "resolved s"]
    by (auto simp: settled_inv_def)
qed

interpretation settled: walk_invariant P "settled_inv P" for P
  by unfold_locales (rule settled_inv_visit)

lemma settled_start: "settled_inv P (start_state P)"
  using dom_update [of "rootSourceKey P" "rootTargetId P" "bindings P"]
  by (simp add: settled_inv_def start_state_def Let_def known_keys_def)


subsection \<open>Different targets\<close>

definition bind_targets :: "OrgPlanOp list \<Rightarrow> string list" where
  "bind_targets os = concat (map (\<lambda>op'. case op' of Bind _ t \<Rightarrow> [t] | _ \<Rightarrow> []) os)"

lemma bind_targets_simps [simp]: "bind_targets [] = []" "bind_targets (xs @ ys) = bind_targets xs @ bind_targets ys"
  by (simp_all add: bind_targets_def)

lemma bind_targets_orphans [simp]: "bind_targets (map (\<lambda>n. Orphan (f n)) ns) = []"
  by (induction ns) (simp_all add: bind_targets_def)

definition targets_inv :: "BuildParams \<Rightarrow> walk_state \<Rightarrow> bool" where
  "targets_inv P s \<longleftrightarrow> distinct (bind_targets (ops s)) \<and> set (bind_targets (ops s)) \<subseteq> set (claimed s)
     \<and> set (claimed (start_state P)) \<subseteq> set (claimed s) \<and> set (bind_targets (ops s)) \<inter> set (claimed (start_state P)) = {}
     \<and> set (bind_targets (ops s)) \<subseteq> targetId ` set (target P)"

lemma existing_unclaimed:
  assumes "existing_target P s n parent = Some t" and "\<not> truthy (bound_id P n)"
  shows "targetId t \<notin> set (claimed s) \<and> t \<in> set (target P)"
proof (cases "custom_match P s n")
  case None
  with assms have "t \<in> set (name_matches P s n parent)" by (auto simp: existing_target_def split: list.splits)
  then show ?thesis by (simp add: name_matches_def)
next
  case (Some u)
  with assms have "u = t" by (simp add: existing_target_def)
  with Some show ?thesis by (auto simp: custom_match_def find_Some_iff)
qed

lemma bind_targets_existing:
  "bind_targets (existing_ops P n parent t) = (if truthy (bound_id P n) then [] else [targetId t])"
  by (simp add: existing_ops_def bind_targets_def Let_def)

lemma targets_inv_visit:
  assumes "targets_inv P s" and "visit_node P n s = Inr (s', d)"
  shows "targets_inv P s'"
  using assms(2)
proof (cases rule: visit_cases)
  case (existing t parent)
  then show ?thesis
    using assms(1) existing_unclaimed [OF existing(3)] by (auto simp: targets_inv_def bind_targets_existing)
qed (use assms(1) in \<open>auto simp: targets_inv_def bind_targets_def create_op_def\<close>)

interpretation targets: walk_invariant P "targets_inv P" for P
  by unfold_locales (rule targets_inv_visit)

lemma bound_targets_claimed: "set (bound_targets P) \<subseteq> set (claimed (start_state P))"
  by (auto simp: bound_targets_def start_state_def Let_def)

text \<open>
  C32: No two departments of the source end up on the same department of the target: the departments a plan
  binds are different, exist, and are none of those that were bound before.
\<close>

theorem org_plan_targets_distinct:
  assumes "build lc P = Inr plan"
  shows "distinct (bound_targets P @ bind_targets (planOps plan)) \<and> set (bind_targets (planOps plan)) \<subseteq> targetId ` set (target P)"
proof -
  have "distinct (bound_targets P)" using build_checked [OF assms] by simp
  moreover have "distinct (bind_targets (planOps plan)) \<and> set (bind_targets (planOps plan)) \<inter> set (claimed (start_state P)) = {}
      \<and> set (bind_targets (planOps plan)) \<subseteq> targetId ` set (target P)"
    using assms
  proof (cases rule: build_cases)
    case (walked s)
    have "targets_inv P s"
      by (rule targets.build_keeps [OF walked(1)]) (simp add: targets_inv_def start_state_def Let_def)
    then show ?thesis unfolding walked(2) by (simp add: targets_inv_def)
  qed simp
  ultimately show ?thesis using bound_targets_claimed [of P] by auto
qed

subsection \<open>Nothing is forgotten\<close>

text \<open>Where a source department lies in the target once the plan is carried out.\<close>

fun given_id :: "OrgPlanOp \<Rightarrow> string option" where
  "given_id (Bind k t) = Some t"
| "given_id (Create k i _ _ _) = Some i"
| "given_id (RebindCreate k _ i _ _ _) = Some i"
| "given_id _ = None"

definition place :: "BuildParams \<Rightarrow> OrgPlanOp list \<Rightarrow> string \<Rightarrow> string option" where
  "place P os k =
     (if k = rootSourceKey P then Some (rootTargetId P)
      else case List.find (\<lambda>op'. settles op' = Some k) os of
          Some op' \<Rightarrow> given_id op'
        | None \<Rightarrow> map_of (bindings P) k)"

text \<open>A department that needs no operation: it is bound, and already archived or already named and placed as in the source.\<close>

definition as_it_should_be :: "BuildParams \<Rightarrow> OrgPlanOp list \<Rightarrow> SourceOrgNode \<Rightarrow> bool" where
  "as_it_should_be P os n \<longleftrightarrow>
     (\<exists>b t. bound_id P n = Some b \<and> target_by_id P b = Some t
        \<and> (if nodeDisabled n then truthy (archiveParentId P) \<and> targetParentId t = archiveParentId P
           else targetName t = nodeName n \<and> targetParentId t = place P os (parent_source P n)))"

lemma find_append: "List.find Q (xs @ ys) = (case List.find Q xs of None \<Rightarrow> List.find Q ys | Some x \<Rightarrow> Some x)"
  by (induction xs) auto

lemma settles_sourceKey: "settles op' = Some k \<Longrightarrow> sourceKey op' = k"
  by (cases op') simp_all

lemma place_unsettled: "Some k \<notin> settles ` set qs \<Longrightarrow> place P (os @ qs) k = place P os k"
proof -
  assume "Some k \<notin> settles ` set qs"
  then have "List.find (\<lambda>op'. settles op' = Some k) qs = None" by (force simp: find_None_iff)
  then show ?thesis by (cases "List.find (\<lambda>op'. settles op' = Some k) os") (simp_all add: place_def find_append)
qed

lemma place_append: "k \<notin> sourceKey ` set qs \<Longrightarrow> place P (os @ qs) k = place P os k"
  by (rule place_unsettled) (auto dest!: settles_sourceKey [OF sym])

definition complete_inv :: "BuildParams \<Rightarrow> walk_state \<Rightarrow> bool" where
  "complete_inv P s \<longleftrightarrow> rootSourceKey P \<in> set (visited s)
     \<and> sourceKey ` set (ops s) \<subseteq> set (visited s) - {rootSourceKey P}
     \<and> (\<forall>k. map_of (resolved s) k = place P (ops s) k)
     \<and> (distinct (map nodeKey (source P)) \<longrightarrow> (\<forall>n \<in> set (source P). nodeKey n \<in> set (visited s) \<longrightarrow> nodeKey n \<noteq> rootSourceKey P \<longrightarrow>
          parentKey n \<in> Some ` set (visited s) \<and> (nodeKey n \<in> sourceKey ` set (ops s) \<or> as_it_should_be P (ops s) n)))"

text \<open>What a visit does to the invariant, in terms of the operations it adds.\<close>

lemma complete_inv_step:
  assumes inv: "complete_inv P s" and n: "n \<in> set (source P)" "nodeKey n \<notin> set (visited s)" "parentKey n = Some k" "k \<in> set (visited s)"
    and s': "visited s' = visited s @ [nodeKey n]" "ops s' = ops s @ qs"
    and qs: "sourceKey ` set qs \<subseteq> {nodeKey n}"
    and res: "resolved s' = resolved s \<and> settles ` set qs \<subseteq> {None}
        \<or> (\<exists>v. resolved s' = AList.update (nodeKey n) v (resolved s) \<and> place P (ops s @ qs) (nodeKey n) = Some v)"
    and quiet: "qs = [] \<Longrightarrow> as_it_should_be P (ops s) n"
  shows "complete_inv P s'"
proof -
  have keep: "place P (ops s @ qs) m = place P (ops s) m" if "m \<noteq> nodeKey n" for m
    using that qs by (intro place_append) auto
  have "place P (ops s @ qs) (nodeKey n) = place P (ops s) (nodeKey n)" if "settles ` set qs \<subseteq> {None}"
    by (rule place_unsettled) (use that in blast)
  then have resolved: "map_of (resolved s') m = place P (ops s') m" for m
    using inv res keep s'(2) by (cases "m = nodeKey n") (auto simp: complete_inv_def update_conv')
  have stable: "as_it_should_be P (ops s') m" if "as_it_should_be P (ops s) m" "parentKey m \<in> Some ` set (visited s)" for m
  proof -
    have "parent_source P m \<noteq> nodeKey n" using that(2) n(2) by (auto simp: parent_source_def)
    then have "place P (ops s') (parent_source P m) = place P (ops s) (parent_source P m)" by (simp add: keep s'(2))
    then show ?thesis using that(1) unfolding as_it_should_be_def by (simp only:)
  qed
  have "parentKey m \<in> Some ` set (visited s') \<and> (nodeKey m \<in> sourceKey ` set (ops s') \<or> as_it_should_be P (ops s') m)"
    if "distinct (map nodeKey (source P))" "m \<in> set (source P)" "nodeKey m \<in> set (visited s')" "nodeKey m \<noteq> rootSourceKey P" for m
  proof (cases "nodeKey m = nodeKey n")
    case True
    then have "m = n" using that(1,2) n(1) by (auto simp: distinct_map inj_on_def)
    have "nodeKey n \<in> sourceKey ` set (ops s') \<or> as_it_should_be P (ops s') n"
    proof (cases qs)
      case Nil
      then show ?thesis using stable [OF quiet] n(3,4) by simp
    next
      case (Cons q rest)
      then have "sourceKey q = nodeKey n" using qs by simp
      then show ?thesis using Cons by (auto simp: s'(2))
    qed
    with \<open>m = n\<close> n(3,4) s'(1) show ?thesis by simp
  next
    case False
    then have "nodeKey m \<in> set (visited s)" using that(3) s'(1) by simp
    with inv that have "parentKey m \<in> Some ` set (visited s)" "nodeKey m \<in> sourceKey ` set (ops s) \<or> as_it_should_be P (ops s) m"
      by (auto simp: complete_inv_def)
    with stable [of m] s' show ?thesis by auto
  qed
  moreover have "sourceKey ` set (ops s') \<subseteq> set (visited s') - {rootSourceKey P}"
    using inv qs n(2) by (auto simp: complete_inv_def s' image_Un)
  ultimately show ?thesis using inv resolved s'(1) by (auto simp: complete_inv_def)
qed

lemma target_by_id_id: "target_by_id P i = Some t \<Longrightarrow> targetId t = i"
  by (auto simp: target_by_id_def find_Some_iff)

lemma bound_existing: "existing_target P s n parent = Some t \<Longrightarrow> truthy (bound_id P n) \<Longrightarrow> target_by_id P (the (bound_id P n)) = Some t"
  by (simp add: existing_target_def split: option.splits)

lemma place_new:
  assumes "complete_inv P s" and "k \<notin> set (visited s)"
  shows "place P (ops s @ qs) k = (case List.find (\<lambda>op'. settles op' = Some k) qs of Some op' \<Rightarrow> given_id op' | None \<Rightarrow> map_of (bindings P) k)"
proof -
  have "k \<noteq> rootSourceKey P" using assms by (auto simp: complete_inv_def)
  moreover have "settles op' \<noteq> Some k" if "op' \<in> set (ops s)" for op'
    using assms that settles_sourceKey [of op' k] by (auto simp: complete_inv_def)
  then have "List.find (\<lambda>op'. settles op' = Some k) (ops s) = None" by (simp add: find_None_iff)
  ultimately show ?thesis by (simp add: place_def find_append)
qed

lemma sourceKey_existing: "sourceKey ` set (existing_ops P n parent t) \<subseteq> {nodeKey n}"
  by (auto simp: existing_ops_def Let_def split: if_splits)

lemma place_existing:
  assumes "complete_inv P s" and "nodeKey n \<notin> set (visited s)" and "existing_target P s n parent = Some t"
  shows "place P (ops s @ existing_ops P n parent t) (nodeKey n) = Some (targetId t)"
proof (cases "truthy (bound_id P n)")
  case True
  then have "List.find (\<lambda>op'. settles op' = Some (nodeKey n)) (existing_ops P n parent t) = None"
    by (auto simp: existing_ops_def Let_def)
  with True place_new [OF assms(1,2)] target_by_id_id [OF bound_existing [OF assms(3) True]] show ?thesis
    by (auto simp: bound_id_def truthy_def)
next
  case False
  then show ?thesis using place_new [OF assms(1,2)] by (simp add: existing_ops_def)
qed

lemma quiet_existing:
  assumes "complete_inv P s" and "parentKey n = Some k" and "truthy parent" and "parent = map_of (resolved s) k"
    and "existing_target P s n (the parent) = Some t" and "existing_ops P n (the parent) t = []"
  shows "as_it_should_be P (ops s) n"
proof -
  have b: "truthy (bound_id P n)" using assms(6) by (auto simp: existing_ops_def split: if_splits)
  have "place P (ops s) (parent_source P n) = Some (the parent)"
    using assms(1-4) by (auto simp: complete_inv_def parent_source_def truthy_def)
  then show ?thesis
    using assms(6) b bound_existing [OF assms(5) b] unfolding as_it_should_be_def
    by (intro exI [of _ "the (bound_id P n)"] exI [of _ t])
      (auto simp: existing_ops_def truthy_def Let_def split: if_splits)
qed

lemma complete_inv_visit:
  assumes n: "n \<in> set (source P)" "nodeKey n \<notin> set (visited s)" "parentKey n = Some k" "k \<in> set (visited s)"
    and inv: "complete_inv P s" and v: "visit_node P n s = Inr (s', d)"
  shows "complete_inv P s'"
  using v
proof (cases rule: visit_cases)
  case orphan
  then show ?thesis by (intro complete_inv_step [OF inv n, of _ "[Orphan (nodeKey n)]"]) simp_all
next
  case (disabled i)
  then show ?thesis by (intro complete_inv_step [OF inv n, of _ "[ReportDisabled (nodeKey n) i]"]) simp_all
next
  case (existing t parent)
  have "parent = map_of (resolved s) k" using existing(2) n(3) by simp
  note quiet = quiet_existing [OF inv n(3) existing(1) this existing(3)]
  show ?thesis
    using existing(4) sourceKey_existing place_existing [OF inv n(2) existing(3)] quiet
    by (intro complete_inv_step [OF inv n, of _ "existing_ops P n (the parent) t"]) auto
next
  case (created parent)
  have "place P (ops s @ [create_op P n]) (nodeKey n) = Some (custom_id n)"
    unfolding place_new [OF inv n(2)] by (simp add: create_op_def)
  with created(3) show ?thesis
    by (intro complete_inv_step [OF inv n, of _ "[create_op P n]"]) (auto simp: create_op_def)
qed

interpretation complete: walk_invariant P "complete_inv P" for P
  by unfold_locales (rule complete_inv_visit)

lemma complete_start: "complete_inv P (start_state P)"
  by (auto simp: complete_inv_def start_state_def Let_def place_def update_conv')

text \<open>
  C31: A plan forgets no department of the source: each one but the root is the subject of an operation, or it is
  bound to a department of the target that already has its name and lies under its parent (for a disabled one, in the archive).
\<close>

theorem org_plan_complete:
  assumes "build lc P = Inr plan" and "n \<in> set (source P)" and "nodeKey n \<noteq> rootSourceKey P"
  shows "nodeKey n \<in> sourceKey ` set (planOps plan) \<or> as_it_should_be P (planOps plan) n"
  using assms(1)
proof (cases rule: build_cases)
  case no_root
  with assms(2) show ?thesis by force
next
  case (walked s)
  let ?missed = "map (\<lambda>n. Orphan (nodeKey n)) (filter (\<lambda>n. nodeKey n \<notin> set (visited s)) (source P))"
  have inv: "complete_inv P s" by (rule complete.build_keeps [OF walked(1) complete_start])
  have dist: "distinct (map nodeKey (source P))" using build_checked [OF assms(1)] by simp
  show ?thesis
  proof (cases "nodeKey n \<in> set (visited s)")
    case False
    with assms(2) walked(2) show ?thesis by force
  next
    case True
    with inv dist assms(2,3) have n: "parentKey n \<in> Some ` set (visited s)"
      "nodeKey n \<in> sourceKey ` set (ops s) \<or> as_it_should_be P (ops s) n" by (auto simp: complete_inv_def)
    have "parent_source P n \<notin> sourceKey ` set ?missed" using n(1) by (auto simp: parent_source_def)
    then have "place P (planOps plan) (parent_source P n) = place P (ops s) (parent_source P n)"
      unfolding walked(2) by (rule place_append)
    then have "as_it_should_be P (ops s) n \<Longrightarrow> as_it_should_be P (planOps plan) n"
      unfolding as_it_should_be_def by (simp only:)
    with n(2) walked(2) show ?thesis by auto
  qed
qed

end
