(* ===== verification/Message_Markers.thy ===== *)
theory Message_Markers
  imports Prelude
begin

text \<open>
  \<open>core/utils/src/lib/fix-owner.ts\<close> and \<open>blocked-until.ts\<close>: error messages carry a marker at their end that says who has to fix
  the failure, or until when the target refuses calls. Both files use the pattern \<open>[name=value]\<close> with a value that holds neither
  a closing bracket nor white space; the model has the matching once, for any prefix. The conversion between dates and text of
  the language is a parameter of the second marker.
\<close>

subsection \<open>Matching\<close>

definition value_char :: "char \<Rightarrow> bool" where
  "value_char c \<longleftrightarrow> c \<noteq> CHR '']'' \<and> \<not> is_space c"

text \<open>The pattern at one position: the value and the text behind the match.\<close>

definition match_at :: "string \<Rightarrow> string \<Rightarrow> (string \<times> string) option" where
  "match_at prefix s =
     (if \<not> starts_with s prefix then None
      else let t = drop (length prefix) s; v = takeWhile value_char t
           in case dropWhile value_char t of
               [] \<Rightarrow> None
             | c # rest \<Rightarrow> if v \<noteq> [] \<and> c = CHR '']'' then Some (v, rest) else None)"

lemma match_at_shorter: "match_at prefix s = Some (v, rest) \<Longrightarrow> length rest < length s"
proof -
  assume "match_at prefix s = Some (v, rest)"
  then obtain c where "dropWhile value_char (drop (length prefix) s) = c # rest"
    by (auto simp: match_at_def Let_def split: if_splits list.splits)
  then have "length (c # rest) \<le> length (drop (length prefix) s)" by (metis length_dropWhile_le)
  then show ?thesis by simp
qed

text \<open>\<open>matchAll\<close> and \<open>replace\<close> with a global pattern: from the left, without overlaps.\<close>

function match_values :: "string \<Rightarrow> string \<Rightarrow> string list" where
  "match_values prefix s = (case match_at prefix s of
       Some (v, rest) \<Rightarrow> v # match_values prefix rest
     | None \<Rightarrow> (case s of [] \<Rightarrow> [] | _ # t \<Rightarrow> match_values prefix t))"
  by pat_completeness auto
termination
  by (relation "measure (\<lambda>(_, s). length s)") (auto dest: match_at_shorter)

declare match_values.simps [simp del]

function remove_markers :: "string \<Rightarrow> string \<Rightarrow> string" where
  "remove_markers prefix s = (case s of
       [] \<Rightarrow> []
     | c # t \<Rightarrow>
         (case (if c = CHR 0x0A then match_at prefix t else match_at prefix s) of
            Some (_, rest) \<Rightarrow> remove_markers prefix rest
          | None \<Rightarrow> c # remove_markers prefix t))"
  by pat_completeness auto
termination
  by (relation "measure (\<lambda>(_, s). length s)") (auto dest: match_at_shorter split: if_splits)

declare remove_markers.simps [simp del]

definition trim_end :: "string \<Rightarrow> string" where
  "trim_end s = rev (dropWhile is_space (rev s))"

definition strip_marker :: "string \<Rightarrow> string \<Rightarrow> string" where
  "strip_marker prefix message = trim_end (remove_markers prefix message)"

definition attach_marker :: "string \<Rightarrow> string \<Rightarrow> string \<Rightarrow> string" where
  "attach_marker prefix message v = strip_marker prefix message @ [CHR 0x0A] @ prefix @ v @ '']''"

definition last_marker :: "string \<Rightarrow> string \<Rightarrow> string option" where
  "last_marker prefix message = (case match_values prefix message of [] \<Rightarrow> None | vs \<Rightarrow> Some (last vs))"

subsection \<open>The two markers\<close>

datatype FixOwner = CONNECTION_OWNER | TARGET_ADMIN | SOURCE_DATA_OWNER | MAPPING_OWNER | WORKFLOW_OWNER | WAIT

definition fix_owners :: "(string \<times> FixOwner) list" where
  "fix_owners =
     [(''CONNECTION_OWNER'', CONNECTION_OWNER), (''TARGET_ADMIN'', TARGET_ADMIN), (''SOURCE_DATA_OWNER'', SOURCE_DATA_OWNER),
      (''MAPPING_OWNER'', MAPPING_OWNER), (''WORKFLOW_OWNER'', WORKFLOW_OWNER), (''WAIT'', WAIT)]"

fun owner_name :: "FixOwner \<Rightarrow> string" where
  "owner_name CONNECTION_OWNER = ''CONNECTION_OWNER''"
| "owner_name TARGET_ADMIN = ''TARGET_ADMIN''"
| "owner_name SOURCE_DATA_OWNER = ''SOURCE_DATA_OWNER''"
| "owner_name MAPPING_OWNER = ''MAPPING_OWNER''"
| "owner_name WORKFLOW_OWNER = ''WORKFLOW_OWNER''"
| "owner_name WAIT = ''WAIT''"

definition OWNER_PREFIX :: string where
  "OWNER_PREFIX = ''[fix-owner=''"

definition owner_attach :: "string \<Rightarrow> FixOwner \<Rightarrow> string" where
  "owner_attach message owner = attach_marker OWNER_PREFIX message (owner_name owner)"

definition owner_strip :: "string \<Rightarrow> string" where
  "owner_strip message = strip_marker OWNER_PREFIX message"

definition owner_parse :: "string option \<Rightarrow> FixOwner option" where
  "owner_parse message =
     Option.bind (last_marker OWNER_PREFIX (case message of None \<Rightarrow> [] | Some m \<Rightarrow> m)) (map_of fix_owners)"

definition MARKER_PREFIX :: string where
  "MARKER_PREFIX = ''[blocked-until=''"

definition blocked_attach :: "('d \<Rightarrow> string) \<Rightarrow> string \<Rightarrow> 'd \<Rightarrow> string" where
  "blocked_attach toISOString message until = attach_marker MARKER_PREFIX message (toISOString until)"

definition blocked_strip :: "string \<Rightarrow> string" where
  "blocked_strip message = strip_marker MARKER_PREFIX message"

text \<open>A date that does not parse has no time value.\<close>

definition blocked_parse :: "(string \<Rightarrow> 'd option) \<Rightarrow> string option \<Rightarrow> 'd option" where
  "blocked_parse to_date message = (case message of
       None \<Rightarrow> None
     | Some m \<Rightarrow> Option.bind (last_marker MARKER_PREFIX m) to_date)"

subsection \<open>The last marker is the one attached\<close>

lemma starts_with_append_newline:
  "CHR 0x0A \<notin> set prefix \<Longrightarrow> starts_with (s @ CHR 0x0A # u) prefix \<longleftrightarrow> starts_with s prefix"
  by (induction s prefix rule: starts_with.induct) auto

lemma match_at_before_newline:
  assumes "CHR 0x0A \<notin> set prefix"
  shows "match_at prefix (s @ CHR 0x0A # u) = map_option (\<lambda>(v, rest). (v, rest @ CHR 0x0A # u)) (match_at prefix s)"
proof (cases "starts_with s prefix")
  case False
  then show ?thesis using starts_with_append_newline [OF assms] by (simp add: match_at_def)
next
  case True
  then obtain t where t: "s = prefix @ t" by (auto simp: starts_with_iff)
  have nl: "\<not> value_char (CHR 0x0A)" by (simp add: value_char_def is_space_def)
  have "takeWhile value_char (t @ CHR 0x0A # u) = takeWhile value_char t"
    "dropWhile value_char (t @ CHR 0x0A # u) = dropWhile value_char t @ CHR 0x0A # u"
    using nl by (induction t) simp_all
  then show ?thesis using t nl by (cases "dropWhile value_char t") (simp_all add: match_at_def Let_def del: dropWhile_eq_Nil_conv)
qed

lemma match_at_marker:
  assumes "v \<noteq> []" and "\<forall>c \<in> set v. value_char c"
  shows "match_at prefix (prefix @ v @ '']'') = Some (v, [])"
proof -
  have "\<not> value_char (CHR '']'')" by (simp add: value_char_def)
  then have "takeWhile value_char (v @ '']'') = v" "dropWhile value_char (v @ '']'') = '']''"
    using assms(2) by (simp_all add: takeWhile_append2 dropWhile_append2)
  with assms(1) show ?thesis by (simp add: match_at_def Let_def)
qed

lemma match_values_attached:
  assumes prefix: "prefix \<noteq> []" "CHR 0x0A \<notin> set prefix" and v: "v \<noteq> []" "\<forall>c \<in> set v. value_char c"
  shows "match_values prefix (s @ CHR 0x0A # prefix @ v @ '']'') = match_values prefix s @ [v]"
proof (induction s rule: length_induct)
  case (1 s)
  let ?X = "CHR 0x0A # prefix @ v @ '']''"
  have start: "match_at prefix (s @ ?X) = map_option (\<lambda>(w, rest). (w, rest @ ?X)) (match_at prefix s)"
    by (rule match_at_before_newline [OF prefix(2)])
  show ?case
  proof (cases "match_at prefix s")
    case (Some r)
    obtain w rest where r: "r = (w, rest)" by (cases r)
    with Some have "match_values prefix (rest @ ?X) = match_values prefix rest @ [v]"
      using 1 match_at_shorter by blast
    then show ?thesis
      by (subst (1 2) match_values.simps) (simp add: start Some r)
  next
    case None
    note none = this
    show ?thesis
    proof (cases s)
      case Nil
      have "match_values prefix [] = []" using none Nil by (subst match_values.simps) simp
      moreover have "match_values prefix (prefix @ v @ '']'') = [v]"
        using match_at_marker [OF v] \<open>match_values prefix [] = []\<close> by (subst match_values.simps) simp
      ultimately show ?thesis using start none Nil by (subst match_values.simps) simp
    next
      case (Cons c t)
      then have "match_values prefix (t @ ?X) = match_values prefix t @ [v]" using 1 by simp
      then show ?thesis using start none Cons by (subst (1 2) match_values.simps) simp
    qed
  qed
qed

lemma last_marker_attach:
  assumes "prefix \<noteq> []" "CHR 0x0A \<notin> set prefix" and "v \<noteq> []" "\<forall>c \<in> set v. value_char c"
  shows "last_marker prefix (attach_marker prefix message v) = Some v"
  using match_values_attached [OF assms, of "strip_marker prefix message"]
  by (cases "match_values prefix (strip_marker prefix message)") (simp_all add: last_marker_def attach_marker_def)

lemma owner_name_chars: "owner_name owner \<noteq> [] \<and> (\<forall>c \<in> set (owner_name owner). value_char c)"
  by (cases owner) (simp_all add: value_char_def is_space_def)

text \<open>
  C39: Whatever the message says, brackets and older markers included, reading the owner back from it gives the owner
  that was attached last.
\<close>

theorem owner_roundtrip: "owner_parse (Some (owner_attach message owner)) = Some owner"
proof -
  have "last_marker OWNER_PREFIX (owner_attach message owner) = Some (owner_name owner)"
    unfolding owner_attach_def using owner_name_chars by (intro last_marker_attach) (auto simp: OWNER_PREFIX_def)
  moreover have "map_of fix_owners (owner_name owner) = Some owner" by (cases owner) (simp_all add: fix_owners_def)
  ultimately show ?thesis by (simp add: owner_parse_def)
qed

text \<open>The same for dates, for which the conversion of the language gives a text without brackets and white space.\<close>

lemma blocked_roundtrip:
  assumes "toISOString until \<noteq> []" "\<forall>c \<in> set (toISOString until). value_char c" "to_date (toISOString until) = Some until"
  shows "blocked_parse to_date (Some (blocked_attach toISOString message until)) = Some until"
proof -
  have "last_marker MARKER_PREFIX (blocked_attach toISOString message until) = Some (toISOString until)"
    unfolding blocked_attach_def using assms(1,2) by (intro last_marker_attach) (auto simp: MARKER_PREFIX_def)
  with assms(3) show ?thesis by (simp add: blocked_parse_def)
qed

end
