(* ===== verification/Utility_Witnesses.thy ===== *)
theory Utility_Witnesses
  imports Witnesses Prop_Keys Byte_Lru_Cache Canvas_Correctness Ssrf_Safety Org_Tree_Correctness Message_Markers
begin

text \<open>
  Concrete inputs at which the hypotheses of the properties of the helper modules hold, and the examples the findings about these
  modules name.
\<close>

subsection \<open>Keys of dynamic properties and the cache of slices\<close>

theorem prop_keys_roundtrip_witness:
  "unescapePropsKeys (escapePropsKeys [(''user.name'', 1 :: nat), (''~ap~x'', 2), (''plain'', 3)])
     = [(''user.name'', 1), (''~ap~x'', 2), (''plain'', 3)]"
  using prop_keys_roundtrip [of "[(''user.name'', 1 :: nat), (''~ap~x'', 2), (''plain'', 3)]"] by simp

definition demo_cache :: "bool ByteLruCache" where
  "demo_cache = cache_set ''a'' True 6 (createByteLruCache 10)"

lemma demo_cache_value:
  "demo_cache = \<lparr>budgetBytes = 10, entries = [(''a'', \<lparr>cacheValue = True, sizeBytes = 6\<rparr>)], totalBytes = 6\<rparr>"
  by (simp add: demo_cache_def cache_set_def createByteLruCache_def)

theorem cache_set_keeps_budget_witness:
  "cache_ok (cache_set ''b'' False 7 demo_cache) \<and> fst (cache_get ''b'' (cache_set ''b'' False 7 demo_cache)) = Some False
     \<and> entries (cache_set ''b'' False 7 demo_cache) = [(''b'', \<lparr>cacheValue = False, sizeBytes = 7\<rparr>)]"
  using cache_set_keeps_budget [of demo_cache 7 "''b''" False]
  by (simp add: demo_cache_value cache_ok_def cache_set_def)

subsection \<open>Canvas\<close>


text \<open>A router without branches is drawn higher than its box: the step below it and the step below the outer router overlap.\<close>

definition empty_router :: step where
  "empty_router = EmptyTrigger (demo_base ''trigger'') JNull
     (Some (Router (demo_base ''step_1'') demo_router
        [Some (Router (demo_base ''step_2'') demo_router [] (Some (Code (demo_base ''step_3'') demo_code None None None)))]
        (Some (Code (demo_base ''step_4'') demo_code None None None))))"

lemma canvas_empty_router_overlaps:
  "map_of (computeStepPositions empty_router) ''step_3'' = Some (120, 591)"
  "map_of (computeStepPositions empty_router) ''step_4'' = Some (120, 613)"
  by (simp_all add: computeStepPositions_def empty_router_def demo_base_def demo_code_def usesBranches_def set_position_def
      positionBranchedChildren_def branched_end_def branch_offsets_def computeRouterChildOffsets_def boundingBoxToLayoutDimensions_def
      stack_boxes_def plain_box_def canvas_consts)

subsection \<open>Network guard\<close>

definition demo_ipaddr :: "string ipaddr" where
  "demo_ipaddr = \<lparr>ip_parse = (\<lambda>s. if s \<in> {''8.8.8.8'', ''10.0.0.1''} then Some s else None), ip_parseCIDR = (\<lambda>_. None),
     ip_kind = (\<lambda>_. ''ipv4''), ip_isIPv4MappedAddress = (\<lambda>_. False), ip_toIPv4Address = id, ip_toNormalizedString = id,
     ip_match = (\<lambda>_ _. None), ip_range = (\<lambda>a. if a = ''8.8.8.8'' then ''unicast'' else ''private'')\<rparr>"

definition demo_platform :: platform where
  "demo_platform = \<lparr>node_lookup = (\<lambda>_ _. LookupAll [\<lparr>address = ''8.8.8.8'', addressFamily = 4\<rparr>]),
     node_promises_lookup = (\<lambda>_ _. Inr (ManyAddresses [\<lparr>address = ''10.0.0.1'', addressFamily = 4\<rparr>])),
     node_isIP = (\<lambda>s. if s \<in> {''8.8.8.8'', ''10.0.0.1''} then 4 else 0)\<rparr>"

definition demo_guarded :: process_state where
  "demo_guarded = guard_install (\<lambda>k. if k = ''FEMA_NETWORK_MODE'' then Some ''STRICT'' else None)
     \<lparr>instEnabled = None, instAllowList = None, instLoopbackPorts = None\<rparr> unguarded"

lemma demo_guard: "guard_reachable demo_guarded" "guard_isEnabled demo_guarded"
  unfolding demo_guarded_def
  by (rule guard_reachable.step [OF start install])
    (simp add: guard_install_def guard_isEnabled_def isGuardEnabled_def Let_def)

lemma demo_slots:
  "dnsLookup demo_guarded = Guarded \<lparr>policyAllowList = [], allowedLoopbackPorts = []\<rparr> Original"
  "socketConnect demo_guarded = Guarded \<lparr>policyAllowList = [], allowedLoopbackPorts = []\<rparr> Original"
  by (simp_all add: demo_guarded_def guard_install_def isGuardEnabled_def buildGuardPolicy_def splitCsv_def readSandboxRpcPortFromEnv_def
      parse_int_def Let_def unguarded_def run_uninstall_def installDnsLookupGuard_def installSocketConnectGuard_def)

lemma demo_calls:
  "call_lookup demo_ipaddr demo_platform (dnsLookup demo_guarded) ''host'' NoOptions True = Some (LookupOne ''8.8.8.8'' (Some 4))"
  "call_connect demo_ipaddr demo_platform (socketConnect demo_guarded) [NumberArg 80, StringArg ''10.0.0.1''] = Destroyed ''10.0.0.1''"
  by (simp_all add: demo_slots buildGuardedCallbackLookup_def toAddressList_def findBlockedEntry_def isBlockedIp_def isInAllowList_def
      parseOrNull_def stripBrackets_def ends_with_def trim_def is_space_def isBlockedRange_def unwrapMapped_def all_options_def
      demo_ipaddr_def demo_platform_def isBlockedRawIpTarget_def readConnectTarget_def isExemptLoopbackPort_def LOOPBACK_IPS_def)


theorem ssrf_guard_restores_witness: "guard_uninstall demo_guarded = unguarded \<and> \<not> slots_are demo_guarded Original"
  using ssrf_guard_restores [OF demo_guard(1)] demo_guard(2) by (auto simp: slots_are_def)

subsection \<open>Organisation tree\<close>

definition org_node :: "string \<Rightarrow> string option \<Rightarrow> bool \<Rightarrow> SourceOrgNode" where
  "org_node k p d = \<lparr>nodeKey = k, parentKey = p, nodeName = k, nodeOrder = None, nodeDisabled = d\<rparr>"

definition demo_org :: BuildParams where
  "demo_org = \<lparr>source = [org_node ''b'' (Some ''a'') False, org_node ''a'' (Some ''root'') False, org_node ''root'' None False,
       org_node ''c'' (Some ''root'') False],
     target = [\<lparr>targetId = ''t1'', customIdOf = None, targetParentId = Some ''0'', targetName = ''a''\<rparr>,
       \<lparr>targetId = ''t2'', customIdOf = None, targetParentId = Some ''0'', targetName = ''c''\<rparr>],
     bindings = [(''c'', ''t2'')], rootSourceKey = ''root'', rootTargetId = ''0'', archiveParentId = None,
     maxArchives = 10, maxMoves = 50\<rparr>"

definition compare_first :: "string \<Rightarrow> string \<Rightarrow> int" where
  "compare_first a b = (of_char (hd a) :: int) - of_char (hd b)"

lemma demo_org_plan:
  "build compare_first demo_org = Inr \<lparr>planOps = [Bind ''a'' ''t1'', Create ''b'' ''bs-b'' ''b'' ''a'' None], gateExceeded = None\<rparr>"
  by code_simp


theorem org_plan_targets_distinct_witness:
  "distinct (bound_targets demo_org @ bind_targets [Bind ''a'' ''t1'', Create ''b'' ''bs-b'' ''b'' ''a'' None])"
  using org_plan_targets_distinct [OF demo_org_plan] by simp

theorem org_plan_complete_witness:
  "as_it_should_be demo_org [Bind ''a'' ''t1'', Create ''b'' ''bs-b'' ''b'' ''a'' None] (org_node ''c'' (Some ''root'') False)"
  using org_plan_complete [OF demo_org_plan, of "org_node ''c'' (Some ''root'') False"] by (simp add: demo_org_def org_node_def)

text \<open>
  A disabled department whose binding is stale: nothing is planned for it but a report, and yet its child is created below it.
\<close>

definition stale_org :: BuildParams where
  "stale_org = \<lparr>source = [org_node ''root'' None False, org_node ''a'' (Some ''root'') True, org_node ''b'' (Some ''a'') False],
     target = [], bindings = [(''a'', ''gone'')], rootSourceKey = ''root'', rootTargetId = ''0'', archiveParentId = None,
     maxArchives = 10, maxMoves = 50\<rparr>"

lemma org_plan_stale_parent:
  "build compare_first stale_org
     = Inr \<lparr>planOps = [ReportDisabled ''a'' ''gone'', Create ''b'' ''bs-b'' ''b'' ''a'' None], gateExceeded = None\<rparr>"
  by code_simp

end
