(* ===== verification/Async_Programs.thy ===== *)
theory Async_Programs
  imports Prelude
begin

text \<open>
  Concurrent programs of the server. An \<open>async\<close> function is a tree of the calls it makes on services
  outside the process (Redis, the database, the job queue, the clock): after each call the rest of the
  function depends on the answer, which may be an error. The same tree is read in two ways.

  \<open>run\<close> executes one program alone, each call answered by a function. \<open>pool_step\<close> executes any number
  of programs at once and switches between them at every call. \<open>runExclusive\<close> of
  \<open>distributed-lock-factory.ts\<close> (a RedLock) is a pair of steps on a map of lock owners; acquiring may
  fail, releasing always comes, and a lock is not lost while it is held.

  \<open>obeys\<close> is the rely-guarantee reading of a program: whatever the others do within the rely relation,
  each of its own steps is within the guarantee. \<open>pool_invariant\<close> puts programs together.
\<close>

datatype ('o, 'v, 'a) prog =
    Ret 'a
  | Call 'o "'v result \<Rightarrow> ('o, 'v, 'a) prog"
  | Lock string "unit result \<Rightarrow> ('o, 'v, 'a) prog"
  | Unlock string "('o, 'v, 'a) prog"

type_synonym ('o, 'v, 'a) async = "('o, 'v, 'a result) prog"

primrec pbind :: "('o, 'v, 'a) prog \<Rightarrow> ('a \<Rightarrow> ('o, 'v, 'b) prog) \<Rightarrow> ('o, 'v, 'b) prog" where
  "pbind (Ret x) f = f x"
| "pbind (Call op k) f = Call op (\<lambda>v. pbind (k v) f)"
| "pbind (Lock l k) f = Lock l (\<lambda>v. pbind (k v) f)"
| "pbind (Unlock l p) f = Unlock l (pbind p f)"

definition aret :: "'a \<Rightarrow> ('o, 'v, 'a) async" where
  "aret x = Ret (Inr x)"

definition athrow :: "error \<Rightarrow> ('o, 'v, 'a) async" where
  "athrow e = Ret (Inl e)"

definition acall :: "'o \<Rightarrow> ('v \<Rightarrow> 'a) \<Rightarrow> ('o, 'v, 'a) async" where
  "acall op f = Call op (\<lambda>r. Ret (map_sum id f r))"

definition abind :: "('o, 'v, 'a) async \<Rightarrow> ('a \<Rightarrow> ('o, 'v, 'b) async) \<Rightarrow> ('o, 'v, 'b) async" where
  "abind p f = pbind p (\<lambda>r. case r of Inl e \<Rightarrow> Ret (Inl e) | Inr x \<Rightarrow> f x)"

definition athen :: "('o, 'v, 'a) async \<Rightarrow> ('o, 'v, 'b) async \<Rightarrow> ('o, 'v, 'b) async" where
  "athen p q = abind p (\<lambda>_. q)"

text \<open>\<open>tryCatch\<close>: the error is a value.\<close>

definition atry :: "('o, 'v, 'a) async \<Rightarrow> ('o, 'v, 'a result) async" where
  "atry p = pbind p (\<lambda>r. Ret (Inr r))"

text \<open>\<open>runExclusive({ key, fn })\<close>\<close>

definition runExclusive :: "string \<Rightarrow> ('o, 'v, 'a) async \<Rightarrow> ('o, 'v, 'a) async" where
  "runExclusive l p = Lock l (\<lambda>v. case v of
      Inl e \<Rightarrow> Ret (Inl e)
    | Inr _ \<Rightarrow> pbind p (\<lambda>r. Unlock l (Ret r)))"

fun afold :: "('s \<Rightarrow> 'a \<Rightarrow> ('o, 'v, 's) async) \<Rightarrow> 's \<Rightarrow> 'a list \<Rightarrow> ('o, 'v, 's) async" where
  "afold f s [] = aret s"
| "afold f s (x # xs) = abind (f s x) (\<lambda>s'. afold f s' xs)"

fun aeach :: "('a \<Rightarrow> ('o, 'v, unit) async) \<Rightarrow> 'a list \<Rightarrow> ('o, 'v, unit) async" where
  "aeach f [] = aret ()"
| "aeach f (x # xs) = athen (f x) (aeach f xs)"

lemma map_sum_eq_Inr: "map_sum id f v = Inr n \<longleftrightarrow> (\<exists>x. v = Inr x \<and> n = f x)"
  by (cases v) auto

lemma pbind_Ret [simp]: "pbind p Ret = p"
  by (induction p) auto

lemma pbind_assoc: "pbind (pbind p f) g = pbind p (\<lambda>x. pbind (f x) g)"
  by (induction p) auto

lemma abind_simps [simp]: "abind (aret x) f = f x" "abind (athrow e) f = athrow e"
  by (simp_all add: abind_def aret_def athrow_def)

subsection \<open>One program alone\<close>

primrec run :: "('o \<Rightarrow> 's \<Rightarrow> 'v result \<times> 's) \<Rightarrow> ('o, 'v, 'a) prog \<Rightarrow> 's \<Rightarrow> 'a \<times> 's" where
  "run h (Ret x) s = (x, s)"
| "run h (Call op k) s = (case h op s of (v, s') \<Rightarrow> run h (k v) s')"
| "run h (Lock l k) s = run h (k (Inr ())) s"
| "run h (Unlock l p) s = run h p s"

lemma run_pbind: "run h (pbind p f) s = (case run h p s of (x, s') \<Rightarrow> run h (f x) s')"
  by (induction p arbitrary: s) (auto split: prod.split)

lemma run_aret [simp]: "run h (aret x) s = (Inr x, s)"
  by (simp add: aret_def)

lemma run_athrow [simp]: "run h (athrow e) s = (Inl e, s)"
  by (simp add: athrow_def)

lemma run_acall: "run h (acall op f) s = (case h op s of (v, s') \<Rightarrow> (map_sum id f v, s'))"
  by (simp add: acall_def)

lemma run_abind: "run h (abind p f) s = (case run h p s of
    (Inl e, s') \<Rightarrow> (Inl e, s') | (Inr x, s') \<Rightarrow> run h (f x) s')"
  by (auto simp: abind_def run_pbind split: prod.split sum.split)

lemma run_athen: "run h (athen p q) s = (case run h p s of
    (Inl e, s') \<Rightarrow> (Inl e, s') | (Inr x, s') \<Rightarrow> run h q s')"
  by (simp add: athen_def run_abind)

lemma run_atry: "run h (atry p) s = (case run h p s of (r, s') \<Rightarrow> (Inr r, s'))"
  by (simp add: atry_def run_pbind)

lemma run_runExclusive [simp]: "run h (runExclusive l p) s = run h p s"
  by (simp add: runExclusive_def run_pbind split: prod.split)

lemmas run_simps = run_aret run_athrow run_acall run_abind run_athen run_atry run_runExclusive

subsection \<open>Many programs at once\<close>

text \<open>
  A pool has the rest of every program, the owner of every lock and the state of the services. The
  relation \<open>H op s v s'\<close> says that a call may take the services from \<open>s\<close> to \<open>s'\<close> and answer \<open>v\<close>.
\<close>

record ('o, 'v, 'a, 's) pool =
  progs :: "nat \<Rightarrow> ('o, 'v, 'a) prog"
  owner :: "string \<Rightarrow> nat option"
  services :: 's

definition released :: "nat \<Rightarrow> string \<Rightarrow> (string \<Rightarrow> nat option) \<Rightarrow> string \<Rightarrow> nat option" where
  "released i l ow = (if ow l = Some i then ow(l := None) else ow)"

inductive pool_step ::
  "('o \<Rightarrow> 's \<Rightarrow> 'v result \<Rightarrow> 's \<Rightarrow> bool) \<Rightarrow> ('o, 'v, 'a, 's) pool \<Rightarrow> ('o, 'v, 'a, 's) pool \<Rightarrow> bool"
  for H where
  step_call: "progs c i = Call op k \<Longrightarrow> H op (services c) v s' \<Longrightarrow>
     pool_step H c (c\<lparr>progs := (progs c)(i := k v), services := s'\<rparr>)"
| step_lock: "progs c i = Lock l k \<Longrightarrow> owner c l = None \<Longrightarrow>
     pool_step H c (c\<lparr>progs := (progs c)(i := k (Inr ())), owner := (owner c)(l \<mapsto> i)\<rparr>)"
| step_lock_fails: "progs c i = Lock l k \<Longrightarrow>
     pool_step H c (c\<lparr>progs := (progs c)(i := k (Inl e))\<rparr>)"
| step_unlock: "progs c i = Unlock l p \<Longrightarrow>
     pool_step H c (c\<lparr>progs := (progs c)(i := p), owner := released i l (owner c)\<rparr>)"

inductive pool_runs ::
  "('o \<Rightarrow> 's \<Rightarrow> 'v result \<Rightarrow> 's \<Rightarrow> bool) \<Rightarrow> ('o, 'v, 'a, 's) pool \<Rightarrow> ('o, 'v, 'a, 's) pool \<Rightarrow> bool"
  for H c where
  runs_refl: "pool_runs H c c"
| runs_step: "pool_runs H c c' \<Longrightarrow> pool_step H c' c'' \<Longrightarrow> pool_runs H c c''"

text \<open>
  The two readings agree on a program that runs while the others rest: when it takes no lock twice and
  gives back every lock it takes, the pool can follow it to its end.
\<close>

primrec brackets :: "string set \<Rightarrow> ('o, 'v, 'a) prog \<Rightarrow> bool" where
  "brackets held (Ret x) = (held = {})"
| "brackets held (Call op k) = (\<forall>v. brackets held (k v))"
| "brackets held (Lock l k) = (l \<notin> held \<and> brackets (insert l held) (k (Inr ())) \<and> (\<forall>e. brackets held (k (Inl e))))"
| "brackets held (Unlock l p) = (l \<in> held \<and> brackets (held - {l}) p)"

lemma pool_runs_trans:
  assumes "pool_runs H c c'" and "pool_runs H c' c''"
  shows "pool_runs H c c''"
  using assms(2,1) by induction (blast intro: pool_runs.intros)+

lemma solo_runs:
  assumes "brackets held (progs c i)" and "run h (progs c i) (services c) = (x, s')"
    and "owner c = (\<lambda>l. if l \<in> held then Some i else None)" and answers: "\<And>op s. H op s (fst (h op s)) (snd (h op s))"
  shows "pool_runs H c (c\<lparr>progs := (progs c)(i := Ret x), owner := Map.empty, services := s'\<rparr>)"
proof -
  have "pool_runs H c (c\<lparr>progs := (progs c)(i := Ret x), owner := Map.empty, services := s'\<rparr>)"
    if "progs c i = p" "brackets held p" "run h p (services c) = (x, s')" "owner c = (\<lambda>l. if l \<in> held then Some i else None)"
    for p
    using that
  proof (induction p arbitrary: c held)
    case (Ret y)
    then have "c\<lparr>progs := (progs c)(i := Ret x), owner := Map.empty, services := s'\<rparr> = c"
      by (cases c) auto
    then show ?case by (simp only: runs_refl)
  next
    case (Call op k)
    let ?c = "c\<lparr>progs := (progs c)(i := k (fst (h op (services c)))), services := snd (h op (services c))\<rparr>"
    have "pool_runs H ?c (?c\<lparr>progs := (progs ?c)(i := Ret x), owner := Map.empty, services := s'\<rparr>)"
      by (rule Call.IH) (use Call.prems in \<open>auto simp: split_beta\<close>)
    moreover have "pool_step H c ?c" using Call.prems(1) answers by (rule step_call)
    ultimately show ?case using pool_runs_trans [OF runs_step [OF runs_refl]] by fastforce
  next
    case (Lock l k)
    let ?c = "c\<lparr>progs := (progs c)(i := k (Inr ())), owner := (owner c)(l \<mapsto> i)\<rparr>"
    have "pool_runs H ?c (?c\<lparr>progs := (progs ?c)(i := Ret x), owner := Map.empty, services := s'\<rparr>)"
      by (rule Lock.IH [where held = "insert l held"]) (use Lock.prems in auto)
    moreover have "pool_step H c ?c" using Lock.prems by (intro step_lock) auto
    ultimately show ?case using pool_runs_trans [OF runs_step [OF runs_refl]] by fastforce
  next
    case (Unlock l p)
    let ?c = "c\<lparr>progs := (progs c)(i := p), owner := released i l (owner c)\<rparr>"
    have "pool_runs H ?c (?c\<lparr>progs := (progs ?c)(i := Ret x), owner := Map.empty, services := s'\<rparr>)"
      by (rule Unlock.IH [where held = "held - {l}"]) (use Unlock.prems in \<open>auto simp: released_def\<close>)
    moreover have "pool_step H c ?c" using Unlock.prems(1) by (rule step_unlock)
    ultimately show ?case using pool_runs_trans [OF runs_step [OF runs_refl]] by fastforce
  qed
  then show ?thesis using assms by blast
qed

subsection \<open>Rely and guarantee\<close>

text \<open>
  Relations between the shared parts of two pools, the owners of the locks and the services. A program
  obeys \<open>(R, G, Q)\<close> from a shared state when after any change within \<open>R\<close> its next step is within \<open>G\<close>, and
  so on, and when after its end \<open>Q\<close> holds of its value as long as the others stay within \<open>R\<close>.
\<close>

type_synonym 's shared = "(string \<Rightarrow> nat option) \<times> 's"

primrec obeys :: "('o \<Rightarrow> 's \<Rightarrow> 'v result \<Rightarrow> 's \<Rightarrow> bool) \<Rightarrow> nat \<Rightarrow> ('s shared \<Rightarrow> 's shared \<Rightarrow> bool)
    \<Rightarrow> ('s shared \<Rightarrow> 's shared \<Rightarrow> bool) \<Rightarrow> ('a \<Rightarrow> 's shared \<Rightarrow> bool) \<Rightarrow> ('o, 'v, 'a) prog \<Rightarrow> 's shared \<Rightarrow> bool" where
  "obeys H i R G Q (Ret x) = (\<lambda>c. \<forall>c'. R c c' \<longrightarrow> Q x c')"
| "obeys H i R G Q (Call op k) = (\<lambda>c. \<forall>ow s. R c (ow, s) \<longrightarrow>
     (\<forall>v s'. H op s v s' \<longrightarrow> G (ow, s) (ow, s') \<and> obeys H i R G Q (k v) (ow, s')))"
| "obeys H i R G Q (Lock l k) = (\<lambda>c. \<forall>ow s. R c (ow, s) \<longrightarrow>
     (ow l = None \<longrightarrow> G (ow, s) (ow(l \<mapsto> i), s) \<and> obeys H i R G Q (k (Inr ())) (ow(l \<mapsto> i), s)) \<and>
     (\<forall>e. obeys H i R G Q (k (Inl e)) (ow, s)))"
| "obeys H i R G Q (Unlock l p) = (\<lambda>c. \<forall>ow s. R c (ow, s) \<longrightarrow>
     G (ow, s) (released i l ow, s) \<and> obeys H i R G Q p (released i l ow, s))"

lemma obeys_rely:
  assumes "obeys H i R G Q p c" and "R c c'" and "\<And>a b d. R a b \<Longrightarrow> R b d \<Longrightarrow> R a d"
  shows "obeys H i R G Q p c'"
  using assms(1) by (cases p) (use assms(2,3) in \<open>simp; blast\<close>)+

lemma obeys_pbind:
  assumes "obeys H i R G Q p c" and "\<And>x c. Q x c \<Longrightarrow> obeys H i R G Q' (f x) c" and "\<And>x. R x x"
  shows "obeys H i R G Q' (pbind p f) c"
  using assms(1)
proof (induction p arbitrary: c)
  case (Ret x)
  then have "Q x c" using assms(3) by (cases c) simp
  then show ?case using assms(2) by simp
qed auto

lemma obeys_weaken:
  "obeys H i R G Q p c \<Longrightarrow> (\<And>x c. Q x c \<Longrightarrow> Q' x c) \<Longrightarrow> obeys H i R G Q' p c"
  by (induction p arbitrary: c) auto

lemma obeys_abind:
  assumes "obeys H i R G Q p c" and "\<And>x c. Q (Inr x) c \<Longrightarrow> obeys H i R G Q' (f x) c"
    and "\<And>e c. Q (Inl e) c \<Longrightarrow> obeys H i R G Q' (Ret (Inl e)) c" and "\<And>x. R x x"
  shows "obeys H i R G Q' (abind p f) c"
  unfolding abind_def
proof (rule obeys_pbind [OF assms(1) _ assms(4)])
  fix x d
  assume "Q x d"
  then show "obeys H i R G Q' (case x of Inl e \<Rightarrow> Ret (Inl e) | Inr y \<Rightarrow> f y) d"
    by (cases x) (simp_all only: sum.case assms(2,3))
qed

text \<open>Programs all of whose calls are harmless in every state in which \<open>J\<close> holds.\<close>

primrec all_calls :: "('o \<Rightarrow> bool) \<Rightarrow> (string \<Rightarrow> bool) \<Rightarrow> ('o, 'v, 'a) prog \<Rightarrow> bool" where
  "all_calls P L (Ret x) = True"
| "all_calls P L (Call op k) = (P op \<and> (\<forall>v. all_calls P L (k v)))"
| "all_calls P L (Lock l k) = (L l \<and> (\<forall>v. all_calls P L (k v)))"
| "all_calls P L (Unlock l p) = (L l \<and> all_calls P L p)"

lemma all_calls_mono: "all_calls P L p \<Longrightarrow> (\<And>op. P op \<Longrightarrow> P' op) \<Longrightarrow> (\<And>l. L l \<Longrightarrow> L' l) \<Longrightarrow> all_calls P' L' p"
  by (induction p) auto

named_theorems calls_rules \<open>introduction rules for programs with harmless calls\<close>

lemma all_calls_pbind: "all_calls P L p \<Longrightarrow> (\<And>x. all_calls P L (f x)) \<Longrightarrow> all_calls P L (pbind p f)"
  by (induction p) auto

lemma all_calls_basic [calls_rules]:
  "all_calls P L (aret x)" "all_calls P L (athrow e)" "P op \<Longrightarrow> all_calls P L (acall op f)"
  by (simp_all add: aret_def athrow_def acall_def)

lemma all_calls_abind [calls_rules]:
  "all_calls P L p \<Longrightarrow> (\<And>x. all_calls P L (f x)) \<Longrightarrow> all_calls P L (abind p f)"
  unfolding abind_def by (rule all_calls_pbind) (auto split: sum.split)

lemma all_calls_athen [calls_rules]: "all_calls P L p \<Longrightarrow> all_calls P L q \<Longrightarrow> all_calls P L (athen p q)"
  unfolding athen_def by (intro calls_rules)

lemma all_calls_atry [calls_rules]: "all_calls P L p \<Longrightarrow> all_calls P L (atry p)"
  unfolding atry_def by (rule all_calls_pbind) simp_all

lemma all_calls_runExclusive [calls_rules]: "L l \<Longrightarrow> all_calls P L p \<Longrightarrow> all_calls P L (runExclusive l p)"
  unfolding runExclusive_def by (auto split: sum.split intro: all_calls_pbind)

lemma all_calls_aeach [calls_rules]: "(\<And>x. x \<in> set xs \<Longrightarrow> all_calls P L (f x)) \<Longrightarrow> all_calls P L (aeach f xs)"
  by (induction xs) (auto intro: calls_rules)

lemma all_calls_afold [calls_rules]:
  "(\<And>s x. x \<in> set xs \<Longrightarrow> all_calls P L (f s x)) \<Longrightarrow> all_calls P L (afold f s xs)"
  by (induction xs arbitrary: s) (auto intro: calls_rules)

text \<open>Programs without locks inside \<open>runExclusive\<close> are well bracketed.\<close>

lemma brackets_flat_bind: "all_calls P (\<lambda>_. False) p \<Longrightarrow> (\<And>x. brackets held (f x)) \<Longrightarrow> brackets held (pbind p f)"
  by (induction p) auto

lemma brackets_pbind: "brackets held p \<Longrightarrow> (\<And>x. brackets {} (f x)) \<Longrightarrow> brackets held (pbind p f)"
  by (induction p arbitrary: held) auto

named_theorems brackets_rules \<open>well bracketed programs\<close>

lemma brackets_flat [brackets_rules]: "all_calls (\<lambda>_. True) (\<lambda>_. False) p \<Longrightarrow> brackets {} p"
  using brackets_flat_bind [of _ p "{}" Ret] by simp

lemma brackets_abind [brackets_rules]:
  "brackets {} p \<Longrightarrow> (\<And>x. brackets {} (f x)) \<Longrightarrow> brackets {} (abind p f)"
  unfolding abind_def by (rule brackets_pbind) (auto split: sum.split)

lemma brackets_athen [brackets_rules]: "brackets {} p \<Longrightarrow> brackets {} q \<Longrightarrow> brackets {} (athen p q)"
  unfolding athen_def by (rule brackets_abind)

lemma brackets_runExclusive [brackets_rules]:
  "all_calls (\<lambda>_. True) (\<lambda>_. False) p \<Longrightarrow> brackets {} (runExclusive l p)"
  unfolding runExclusive_def by (auto split: sum.split intro!: brackets_flat_bind)

lemma obeys_all_calls:
  assumes "all_calls P L p" and "J c" and stable: "\<And>a b. R a b \<Longrightarrow> J a \<Longrightarrow> J b"
    and calls: "\<And>op ow s v s'. P op \<Longrightarrow> H op s v s' \<Longrightarrow> J (ow, s) \<Longrightarrow> G (ow, s) (ow, s') \<and> J (ow, s')"
    and locks: "\<And>l ow s. L l \<Longrightarrow> ow l = None \<Longrightarrow> J (ow, s) \<Longrightarrow> G (ow, s) (ow(l \<mapsto> i), s) \<and> J (ow(l \<mapsto> i), s)"
    and unlocks: "\<And>l ow s. L l \<Longrightarrow> J (ow, s) \<Longrightarrow> G (ow, s) (released i l ow, s) \<and> J (released i l ow, s)"
  shows "obeys H i R G (\<lambda>_. J) p c"
  using assms(1,2)
proof (induction p arbitrary: c)
  case (Ret x)
  then show ?case using stable by auto
next
  case (Call op k)
  then show ?case using stable [OF _ Call.prems(2)] calls by (auto; blast)
next
  case (Lock l k)
  then show ?case using stable [OF _ Lock.prems(2)] locks by auto
next
  case (Unlock l p)
  then show ?case using stable [OF _ Unlock.prems(2)] unlocks by auto
qed

lemma pool_step_obeys:
  assumes step: "pool_step H c c'"
    and obeys: "\<And>i. obeys H i (R i) (G i) (Q i) (progs c i) (owner c, services c)"
    and refl: "\<And>i x. R i x x" and G_refl: "\<And>i x. G i x x"
    and trans: "\<And>i a b d. R i a b \<Longrightarrow> R i b d \<Longrightarrow> R i a d"
    and compat: "\<And>i j a b. i \<noteq> j \<Longrightarrow> G i a b \<Longrightarrow> R j a b"
  shows "(\<exists>i. G i (owner c, services c) (owner c', services c')) \<and>
    (\<forall>j. obeys H j (R j) (G j) (Q j) (progs c' j) (owner c', services c'))"
proof -
  have others: "obeys H j (R j) (G j) (Q j) (progs c j) d" if "i \<noteq> j" "G i (owner c, services c) d" for i j d
    by (rule obeys_rely [OF obeys compat [OF that] trans])
  from step show ?thesis
  proof cases
    case (step_call i op k v s')
    have "G i (owner c, services c) (owner c, s') \<and> obeys H i (R i) (G i) (Q i) (k v) (owner c, s')"
      using obeys [of i] refl [of i] step_call by simp blast
    with step_call show ?thesis by (auto intro!: others [of i])
  next
    case (step_lock i l k)
    have "G i (owner c, services c) ((owner c)(l \<mapsto> i), services c) \<and>
      obeys H i (R i) (G i) (Q i) (k (Inr ())) ((owner c)(l \<mapsto> i), services c)"
      using obeys [of i] refl step_lock by simp
    with step_lock show ?thesis by (auto intro!: others [of i])
  next
    case (step_lock_fails i l k e)
    have "obeys H i (R i) (G i) (Q i) (k (Inl e)) (owner c, services c)" using obeys [of i] refl step_lock_fails by simp
    with step_lock_fails show ?thesis by (auto intro: G_refl obeys)
  next
    case (step_unlock i l p)
    have "G i (owner c, services c) (owner c', services c') \<and>
      obeys H i (R i) (G i) (Q i) p (owner c', services c')"
      using obeys [of i] refl step_unlock by simp
    with step_unlock show ?thesis by (auto intro!: others [of i])
  qed
qed

lemma pool_invariant:
  assumes runs: "pool_runs H c c'"
    and obeys: "\<And>i. obeys H i (R i) (G i) (Q i) (progs c i) (owner c, services c)"
    and refl: "\<And>i x. R i x x" and G_refl: "\<And>i x. G i x x"
    and trans: "\<And>i a b d. R i a b \<Longrightarrow> R i b d \<Longrightarrow> R i a d"
    and compat: "\<And>i j a b. i \<noteq> j \<Longrightarrow> G i a b \<Longrightarrow> R j a b"
    and keeps: "\<And>i a b. G i a b \<Longrightarrow> I a \<Longrightarrow> I b"
    and init: "I (owner c, services c)"
  shows "I (owner c', services c')"
proof -
  have "I (owner c', services c') \<and> (\<forall>i. obeys H i (R i) (G i) (Q i) (progs c' i) (owner c', services c'))"
    using runs
  proof induction
    case runs_refl
    show ?case using init obeys by simp
  next
    case (runs_step c' c'')
    then have IH: "I (owner c', services c')" "\<And>i. obeys H i (R i) (G i) (Q i) (progs c' i) (owner c', services c')"
      by auto
    from runs_step.hyps(2) IH(2) have "(\<exists>i. G i (owner c', services c') (owner c'', services c'')) \<and>
      (\<forall>j. obeys H j (R j) (G j) (Q j) (progs c'' j) (owner c'', services c''))"
      by (rule pool_step_obeys) (fact refl G_refl trans compat)+
    then show ?case using keeps IH(1) by blast
  qed
  then show ?thesis ..
qed

end
