(* ===== verification/Job_Services.thy ===== *)
theory Job_Services
  imports Async_Programs Execution_Journal "HOL-Library.Char_ord" "HOL-Library.List_Lexorder" "HOL-Library.Product_Lexorder"
begin

text \<open>
  The services the job broker calls: sorted sets of Redis, the cache, the job queue, the clock and the
  rows of projects, tenants and trigger sources. The sorted sets are a parameter: \<open>sorted_sets\<close> states
  what Redis documents of \<open>ZADD\<close>, \<open>ZREM\<close>, \<open>ZREMRANGEBYSCORE\<close>, \<open>ZSCORE\<close>, \<open>ZCARD\<close> and \<open>ZRANGE key 0 0\<close>
  (the member with the lowest score, the smaller text among equals). \<open>list_sets\<close> is an instance.

  \<open>may_answer\<close> is what a call may do while other programs run: the clock and the job queue may have
  changed, sets may have expired, and the call may fail, before or after its effect.
\<close>

record 's redis =
  zadd :: "string \<Rightarrow> int \<Rightarrow> string \<Rightarrow> 's \<Rightarrow> 's"
  zadd_nx :: "string \<Rightarrow> int \<Rightarrow> string \<Rightarrow> 's \<Rightarrow> 's"
  zrem :: "string \<Rightarrow> string \<Rightarrow> 's \<Rightarrow> 's"
  zremrangebyscore :: "string \<Rightarrow> int \<Rightarrow> 's \<Rightarrow> 's"
  zscore :: "string \<Rightarrow> string \<Rightarrow> 's \<Rightarrow> int option"
  zcard :: "string \<Rightarrow> 's \<Rightarrow> nat"
  zhead :: "string \<Rightarrow> 's \<Rightarrow> string option"
  zexpire :: "string \<Rightarrow> int \<Rightarrow> 's \<Rightarrow> 's"

definition members :: "'s redis \<Rightarrow> string \<Rightarrow> 's \<Rightarrow> string set" where
  "members R k s = {m. zscore R k m s \<noteq> None}"

locale sorted_sets =
  fixes R :: "'s redis"
  assumes zscore_zadd: "zscore R k m (zadd R k' x m' s) = (if k = k' \<and> m = m' then Some x else zscore R k m s)"
    and zscore_zadd_nx: "zscore R k m (zadd_nx R k' x m' s) =
      (if k = k' \<and> m = m' \<and> zscore R k m s = None then Some x else zscore R k m s)"
    and zscore_zrem: "zscore R k m (zrem R k' m' s) = (if k = k' \<and> m = m' then None else zscore R k m s)"
    and zscore_prune: "zscore R k m (zremrangebyscore R k' x s) =
      (if k = k' \<and> (\<exists>y \<le> x. zscore R k m s = Some y) then None else zscore R k m s)"
    and zscore_expire: "zscore R k m (zexpire R k' t s) = zscore R k m s"
    and finite_members: "finite (members R k s)"
    and zcard_members: "zcard R k s = card (members R k s)"
    and zhead_None: "zhead R k s = None \<longleftrightarrow> members R k s = {}"
    and zhead_least: "zhead R k s = Some m \<Longrightarrow> m \<in> members R k s \<and>
      (\<forall>m' \<in> members R k s. (the (zscore R k m s), m) \<le> (the (zscore R k m' s), m'))"
begin

lemma members_zadd: "members R k (zadd R k' x m' s) = (if k = k' then insert m' (members R k s) else members R k s)"
  by (auto simp: members_def zscore_zadd split: if_splits)

lemma members_zadd_nx: "members R k (zadd_nx R k' x m' s) = (if k = k' then insert m' (members R k s) else members R k s)"
  by (auto simp: members_def zscore_zadd_nx split: if_splits)

lemma members_zrem: "members R k (zrem R k' m' s) = (if k = k' then members R k s - {m'} else members R k s)"
  by (auto simp: members_def zscore_zrem split: if_splits)

lemma members_prune: "members R k (zremrangebyscore R k' x s) \<subseteq> members R k s"
  by (auto simp: members_def zscore_prune split: if_splits)

lemma members_prune_other: "k \<noteq> k' \<Longrightarrow> members R k (zremrangebyscore R k' x s) = members R k s"
  by (auto simp: members_def zscore_prune)

lemma members_expire: "members R k (zexpire R k' t s) = members R k s"
  by (simp add: members_def zscore_expire)

lemmas members_simps = members_zadd members_zadd_nx members_zrem members_expire

lemma zhead_eq:
  assumes "m \<in> members R k s"
    and "\<And>m'. m' \<in> members R k s \<Longrightarrow> m' \<noteq> m \<Longrightarrow> (the (zscore R k m s), m) < (the (zscore R k m' s), m')"
  shows "zhead R k s = Some m"
proof (cases "zhead R k s")
  case None
  then show ?thesis using assms(1) zhead_None by auto
next
  case (Some h)
  then have "h \<in> members R k s" "(the (zscore R k h s), h) \<le> (the (zscore R k m s), m)"
    using zhead_least assms(1) by blast+
  then have "h = m" using assms(2) [of h] by (cases "h = m") auto
  with Some show ?thesis by simp
qed

end

subsection \<open>An instance\<close>

type_synonym set_lists = "string \<Rightarrow> (string \<times> int) list"

definition lists_head :: "(string \<times> int) list \<Rightarrow> string option" where
  "lists_head xs = (if xs = [] then None else
     Some (snd (Min (set (map (\<lambda>m. (the (map_of xs m), m)) (map fst xs))))))"

definition list_sets :: "set_lists redis" where
  "list_sets = \<lparr>
     zadd = (\<lambda>k x m s. s(k := AList.update m x (s k))),
     zadd_nx = (\<lambda>k x m s. if map_of (s k) m = None then s(k := AList.update m x (s k)) else s),
     zrem = (\<lambda>k m s. s(k := filter (\<lambda>(m', _). m' \<noteq> m) (s k))),
     zremrangebyscore = (\<lambda>k x s. s(k := filter (\<lambda>(m, _). x < the (map_of (s k) m)) (s k))),
     zscore = (\<lambda>k m s. map_of (s k) m),
     zcard = (\<lambda>k s. card (set (map fst (s k)))),
     zhead = (\<lambda>k s. lists_head (s k)),
     zexpire = (\<lambda>k t s. s)\<rparr>"

lemma map_of_filter_fst: "map_of (filter (\<lambda>(m, _). P m) xs) m = (if P m then map_of xs m else None)"
  by (induction xs) auto

lemma members_list_sets: "members list_sets k s = set (map fst (s k))"
  by (auto simp: members_def list_sets_def map_of_eq_None_keys)

interpretation rs: sorted_sets list_sets
proof
  fix k m and s :: set_lists
  show "zhead list_sets k s = None \<longleftrightarrow> members list_sets k s = {}"
    by (simp add: members_list_sets) (simp add: list_sets_def lists_head_def)
  assume "zhead list_sets k s = Some m"
  then have ne: "s k \<noteq> []" and m: "m = snd (Min (set (map (\<lambda>m. (the (map_of (s k) m), m)) (map fst (s k)))))"
    by (auto simp: list_sets_def lists_head_def split: if_splits)
  let ?S = "set (map (\<lambda>m. (the (map_of (s k) m), m)) (map fst (s k)))"
  have "Min ?S \<in> ?S" using ne by (intro Min_in) auto
  then obtain m' where "m' \<in> set (map fst (s k))" "Min ?S = (the (map_of (s k) m'), m')" by fastforce
  then have min: "Min ?S = (the (map_of (s k) m), m)" "m \<in> set (map fst (s k))" using m by simp_all
  have "(the (map_of (s k) m), m) \<le> (the (map_of (s k) m'), m')" if "m' \<in> set (map fst (s k))" for m'
    unfolding min(1) [symmetric] using that by (intro Min_le) auto
  then show "m \<in> members list_sets k s \<and> (\<forall>m' \<in> members list_sets k s.
      (the (zscore list_sets k m s), m) \<le> (the (zscore list_sets k m' s), m'))"
    using min(2) unfolding members_list_sets by (simp only: list_sets_def redis.simps) blast
next
  fix k k' m and x :: int and s :: set_lists
  have "map_of (filter (\<lambda>(m, _). x < the (map_of (s k) m)) (s k)) m =
      (if x < the (map_of (s k) m) then map_of (s k) m else None)"
    by (rule map_of_filter_fst)
  then show "zscore list_sets k m (zremrangebyscore list_sets k' x s) =
      (if k = k' \<and> (\<exists>y \<le> x. zscore list_sets k m s = Some y) then None else zscore list_sets k m s)"
    by (cases "map_of (s k) m") (auto simp: list_sets_def)
qed (simp_all add: members_list_sets, auto simp: list_sets_def update_conv' map_of_filter_fst)

subsection \<open>Calls and answers\<close>

datatype reply = Nothing | Truth bool | Number int | Maybe_Number "int option" | Text "string option"

datatype job_call =
    Date_Now
  | Zadd string int string
  | Zadd_Nx string int string
  | Zrem string string
  | Zremrangebyscore string int
  | Zscore string string
  | Zcard string
  | Zrange_0_0 string
  | Expire string int
  | Acquire_Script string int int int string \<comment> \<open>key, time, timeout, limit, member\<close>
  | Open_Queue string
  | Get_Job string string
  | Get_State string string
  | Cache_Get string
  | Cache_Put string int int
  | Project_Quota string
  | Tenant_Row string
  | Tenant_Active string
  | Cancel_Queued string string
  | Find_Source string
  | Remove_Repeating string

record 's job_world =
  sets :: 's
  clock :: int
  queues :: "string \<Rightarrow> string \<Rightarrow> string option"
  cached :: "string \<Rightarrow> int option"
  project_quotas :: "string \<Rightarrow> int option option"
  tenant_rows :: "string \<Rightarrow> int option option"
  suspended :: "string \<Rightarrow> bool"
  sources :: "string \<Rightarrow> bool"
  run_status :: "string \<times> string \<Rightarrow> ExecutionStatus option"
  repeating :: "string \<Rightarrow> bool"

text \<open>The two Lua scripts differ only in the expiry they set; Redis runs a script as one step.\<close>

definition acquire_script :: "'s redis \<Rightarrow> string \<Rightarrow> int \<Rightarrow> int \<Rightarrow> int \<Rightarrow> string \<Rightarrow> 's \<Rightarrow> int \<times> 's" where
  "acquire_script R setKey currentTime timeoutMs maxJobs member s =
     (let s1 = zremrangebyscore R setKey (currentTime - timeoutMs) s in
      if zscore R setKey member s1 \<noteq> None then (0, s1)
      else if int (zcard R setKey s1) \<ge> maxJobs then (1, s1)
      else (0, zexpire R setKey timeoutMs (zadd R setKey currentTime member s1)))"

fun perform :: "'s redis \<Rightarrow> job_call \<Rightarrow> 's job_world \<Rightarrow> reply result \<times> 's job_world" where
  "perform R Date_Now w = (Inr (Number (clock w)), w)"
| "perform R (Zadd k x m) w = (Inr Nothing, w\<lparr>sets := zadd R k x m (sets w)\<rparr>)"
| "perform R (Zadd_Nx k x m) w = (Inr Nothing, w\<lparr>sets := zadd_nx R k x m (sets w)\<rparr>)"
| "perform R (Zrem k m) w = (Inr Nothing, w\<lparr>sets := zrem R k m (sets w)\<rparr>)"
| "perform R (Zremrangebyscore k x) w = (Inr Nothing, w\<lparr>sets := zremrangebyscore R k x (sets w)\<rparr>)"
| "perform R (Zscore k m) w = (Inr (Maybe_Number (zscore R k m (sets w))), w)"
| "perform R (Zcard k) w = (Inr (Number (int (zcard R k (sets w)))), w)"
| "perform R (Zrange_0_0 k) w = (Inr (Text (zhead R k (sets w))), w)"
| "perform R (Expire k t) w = (Inr Nothing, w\<lparr>sets := zexpire R k t (sets w)\<rparr>)"
| "perform R (Acquire_Script k now timeout limit m) w =
     (case acquire_script R k now timeout limit m (sets w) of (x, s) \<Rightarrow> (Inr (Number x), w\<lparr>sets := s\<rparr>))"
| "perform R (Open_Queue q) w = (Inr Nothing, w)"
| "perform R (Get_Job q j) w = (Inr (Truth (queues w q j \<noteq> None)), w)"
| "perform R (Get_State q j) w = (Inr (Text (queues w q j)), w)"
| "perform R (Cache_Get k) w = (Inr (Maybe_Number (cached w k)), w)"
| "perform R (Cache_Put k x t) w = (Inr Nothing, w\<lparr>cached := (cached w)(k \<mapsto> x)\<rparr>)"
| "perform R (Project_Quota p) w = (case project_quotas w p of
     None \<Rightarrow> (Inl (EntityNotFound p ''project''), w) | Some q \<Rightarrow> (Inr (Maybe_Number q), w))"
| "perform R (Tenant_Row t) w = (Inr (Maybe_Number (case tenant_rows w t of None \<Rightarrow> None | Some l \<Rightarrow> l)), w)"
| "perform R (Tenant_Active t) w = (Inr (Truth (\<not> suspended w t)), w)"
| "perform R (Cancel_Queued r p) w = (Inr Nothing, if run_status w (r, p) = Some RunQUEUED
     then w\<lparr>run_status := (run_status w)((r, p) \<mapsto> RunCANCELED)\<rparr> else w)"
| "perform R (Find_Source v) w = (Inr (Truth (sources w v)), w)"
| "perform R (Remove_Repeating v) w = (Inr Nothing, w\<lparr>repeating := (repeating w)(v := False)\<rparr>)"

text \<open>What a call may do while other programs and other processes run.\<close>

definition expired :: "'s redis \<Rightarrow> 's \<Rightarrow> 's \<Rightarrow> bool" where
  "expired R s s' \<longleftrightarrow> (\<forall>k. (\<forall>m. zscore R k m s' = zscore R k m s) \<or> members R k s' = {})"

definition may_answer :: "'s redis \<Rightarrow> job_call \<Rightarrow> 's job_world \<Rightarrow> reply result \<Rightarrow> 's job_world \<Rightarrow> bool" where
  "may_answer R op w v w' \<longleftrightarrow> (\<exists>w0. expired R (sets w) (sets w0) \<and>
     ((v, w') = perform R op w0 \<or> (\<exists>e. v = Inl e \<and> (w' = w0 \<or> w' = snd (perform R op w0)))))"

lemma may_answer_cases [consumes 1, case_names answer]:
  assumes "may_answer R op w v w'"
  obtains w0 where "expired R (sets w) (sets w0)" "w' = w0 \<or> w' = snd (perform R op w0)"
    "\<And>x. v = Inr x \<Longrightarrow> (Inr x, w') = perform R op w0"
  using assms unfolding may_answer_def by (metis Inl_Inr_False snd_conv)

lemma expired_members: "expired R s s' \<Longrightarrow> members R k s' \<subseteq> members R k s"
  unfolding expired_def members_def by (metis (mono_tags, lifting) empty_iff mem_Collect_eq subsetI)

end
