(* ===== verification/Concurrency_Gate.thy ===== *)
theory Concurrency_Gate
  imports Job_Services
begin

text \<open>
  The gate that limits and orders the runs of a workflow (\<open>workflow-concurrency-gate.ts\<close>) over the
  store of \<open>workflow-concurrency-interceptor.ts\<close>. A workflow has a set of active jobs with the time
  they were admitted, and for every order key a queue of jobs with the time of their ticket. The hash
  of an order key (SHA-256, hexadecimal) is a parameter.
\<close>

record ticket =
  maxConcurrentRuns :: int
  orderKey :: "string option"
  enqueuedAt :: int

type_synonym 'a job_async = "(job_call, reply, 'a) async"

definition KEY_TTL_SECONDS :: int where "KEY_TTL_SECONDS = 7 * 24 * 60 * 60"
definition MAX_STALE_HEADS_PER_CHECK :: nat where "MAX_STALE_HEADS_PER_CHECK = 5"
definition QUEUED_RUN_RECHECK_MS :: int where "QUEUED_RUN_RECHECK_MS = 3000"

subsection \<open>Reading answers\<close>

fun as_bool :: "reply \<Rightarrow> bool" where
  "as_bool (Truth b) = b"
| "as_bool _ = False"

fun as_int :: "reply \<Rightarrow> int" where
  "as_int (Number x) = x"
| "as_int _ = 0"

fun as_int_option :: "reply \<Rightarrow> int option" where
  "as_int_option (Maybe_Number x) = x"
| "as_int_option _ = None"

fun as_text :: "reply \<Rightarrow> string option" where
  "as_text (Text t) = t"
| "as_text _ = None"

definition effect :: "job_call \<Rightarrow> unit job_async" where
  "effect op = acall op (\<lambda>_. ())"

definition date_now :: "int job_async" where
  "date_now = acall Date_Now as_int"

subsection \<open>The store\<close>

definition addToQueue :: "string \<Rightarrow> string \<Rightarrow> int \<Rightarrow> unit job_async" where
  "addToQueue key member score = athen (effect (Zadd_Nx key score member)) (effect (Expire key KEY_TTL_SECONDS))"

definition queueHead :: "string \<Rightarrow> string option job_async" where
  "queueHead key = acall (Zrange_0_0 key) as_text"

definition removeFromQueue :: "string \<Rightarrow> string \<Rightarrow> unit job_async" where
  "removeFromQueue key member = effect (Zrem key member)"

definition pruneActive :: "string \<Rightarrow> int \<Rightarrow> unit job_async" where
  "pruneActive key before = effect (Zremrangebyscore key before)"

definition isActive :: "string \<Rightarrow> string \<Rightarrow> bool job_async" where
  "isActive key member = acall (Zscore key member) (\<lambda>v. as_int_option v \<noteq> None)"

definition activeCount :: "string \<Rightarrow> int job_async" where
  "activeCount key = acall (Zcard key) as_int"

definition markActive :: "string \<Rightarrow> string \<Rightarrow> int \<Rightarrow> unit job_async" where
  "markActive key member score = athen (effect (Zadd key score member)) (effect (Expire key KEY_TTL_SECONDS))"

definition removeActive :: "string \<Rightarrow> string \<Rightarrow> unit job_async" where
  "removeActive key member = effect (Zrem key member)"

subsection \<open>The gate\<close>

definition key_prefix :: string where "key_prefix = ''workflow-concurrency:v1:''"

definition lock_key :: "string \<Rightarrow> string" where
  "lock_key flow = key_prefix @ flow @ '':lock''"

definition active_key :: "string \<Rightarrow> string" where
  "active_key flow = key_prefix @ flow @ '':active''"

definition order_key :: "(string \<Rightarrow> string) \<Rightarrow> string \<Rightarrow> string \<Rightarrow> string" where
  "order_key sha flow key = key_prefix @ flow @ '':order:'' @ sha key"

fun live_head_loop :: "(string \<Rightarrow> bool job_async) \<Rightarrow> string \<Rightarrow> string \<Rightarrow> nat \<Rightarrow> string option job_async" where
  "live_head_loop isJobAlive key self 0 = queueHead key"
| "live_head_loop isJobAlive key self (Suc n) = abind (queueHead key) (\<lambda>head. case head of
     None \<Rightarrow> aret None
   | Some h \<Rightarrow> if h = self then aret head
       else abind (isJobAlive h) (\<lambda>alive. if alive then aret head
         else athen (removeFromQueue key h) (live_head_loop isJobAlive key self n)))"

definition liveQueueHead :: "(string \<Rightarrow> bool job_async) \<Rightarrow> string \<Rightarrow> string \<Rightarrow> string option job_async" where
  "liveQueueHead isJobAlive key self = live_head_loop isJobAlive key self MAX_STALE_HEADS_PER_CHECK"

definition gate_enqueue :: "(string \<Rightarrow> string) \<Rightarrow> string \<Rightarrow> string \<Rightarrow> ticket \<Rightarrow> unit job_async" where
  "gate_enqueue sha flow jobId t = (case orderKey t of
     None \<Rightarrow> aret ()
   | Some k \<Rightarrow> addToQueue (order_key sha flow k) jobId (enqueuedAt t))"

definition first_in_order :: "(string \<Rightarrow> string) \<Rightarrow> (string \<Rightarrow> bool job_async) \<Rightarrow> string \<Rightarrow> string \<Rightarrow> ticket
    \<Rightarrow> bool job_async" where
  "first_in_order sha isJobAlive flow jobId t = (case orderKey t of
     None \<Rightarrow> aret True
   | Some k \<Rightarrow> athen (addToQueue (order_key sha flow k) jobId (enqueuedAt t))
       (abind (liveQueueHead isJobAlive (order_key sha flow k) jobId) (\<lambda>head. aret (head = Some jobId))))"

definition take_slot :: "int \<Rightarrow> string \<Rightarrow> string \<Rightarrow> ticket \<Rightarrow> bool job_async" where
  "take_slot activeTtlMs flow jobId t =
     (if maxConcurrentRuns t \<le> 0 then aret True
      else abind date_now (\<lambda>timestamp.
        athen (pruneActive (active_key flow) (timestamp - activeTtlMs))
        (abind (isActive (active_key flow) jobId) (\<lambda>active.
          if active then aret True
          else abind (activeCount (active_key flow)) (\<lambda>count.
            if count \<ge> maxConcurrentRuns t then aret False
            else athen (markActive (active_key flow) jobId timestamp) (aret True))))))"

definition gate_admit :: "(string \<Rightarrow> string) \<Rightarrow> (string \<Rightarrow> bool job_async) \<Rightarrow> int \<Rightarrow> string \<Rightarrow> string \<Rightarrow> ticket
    \<Rightarrow> bool job_async" where
  "gate_admit sha isJobAlive activeTtlMs flow jobId t = runExclusive (lock_key flow)
     (abind (first_in_order sha isJobAlive flow jobId t) (\<lambda>first.
        if first then take_slot activeTtlMs flow jobId t else aret False))"

definition gate_release :: "(string \<Rightarrow> string) \<Rightarrow> string \<Rightarrow> string \<Rightarrow> ticket \<Rightarrow> unit job_async" where
  "gate_release sha flow jobId t =
     athen (removeActive (active_key flow) jobId)
       (case orderKey t of None \<Rightarrow> aret ()
        | Some k \<Rightarrow> removeFromQueue (order_key sha flow k) jobId)"

subsection \<open>Whether a job is alive\<close>

definition DEAD_JOB_STATES :: "string list" where
  "DEAD_JOB_STATES = [''completed'', ''failed'', ''unknown'']"

text \<open>The answer of \<open>getState\<close> for a job that is gone meanwhile is \<open>unknown\<close>.\<close>

fun alive_in :: "string list \<Rightarrow> string \<Rightarrow> bool job_async" where
  "alive_in [] jobId = aret False"
| "alive_in (name # names) jobId =
     abind (atry (effect (Open_Queue name))) (\<lambda>queue. case queue of
       Inl _ \<Rightarrow> alive_in names jobId
     | Inr _ \<Rightarrow> abind (acall (Get_Job name jobId) as_bool) (\<lambda>found.
         if found then acall (Get_State name jobId)
           (\<lambda>v. (case as_text v of None \<Rightarrow> ''unknown'' | Some s \<Rightarrow> s) \<notin> set DEAD_JOB_STATES)
         else alive_in names jobId))"

definition WORKER_JOBS :: string where "WORKER_JOBS = ''workerJobs''"

definition isJobAlive :: "string option \<Rightarrow> string \<Rightarrow> bool job_async" where
  "isJobAlive queueName jobId = alive_in (remdups
     (case queueName of None \<Rightarrow> [WORKER_JOBS] | Some q \<Rightarrow> [q, WORKER_JOBS])) jobId"

end
