(* ===== verification/Run_Admission.thy ===== *)
theory Run_Admission
  imports Concurrency_Gate
begin

text \<open>
  Admission of jobs to the workers: the interceptors that the job broker asks before it hands out a job
  (\<open>job-broker.ts\<close>), each of which may allow, delay or discard it, and that release what they hold when
  another refuses the job or the job ends. The limits of the installation are a record of settings.
\<close>

datatype WorkerJobType =
    RENEW_WEBHOOK | EXECUTE_POLLING | EXECUTE_WEBHOOK | EXECUTE_WORKFLOW | EXECUTE_VALIDATION
  | EXECUTE_RESOLVE_CONNECTION_IDENTIFIER | EXECUTE_TRIGGER_HOOK | EXECUTE_PROPERTY
  | EXECUTE_EXTRACT_CONNECTOR_INFORMATION | EXECUTE_TOKEN_REFRESH | EXECUTE_ACTION

datatype RunEnvironment = ENV_TESTING | ENV_PRODUCTION

record job_data =
  jobType :: WorkerJobType
  environment :: "RunEnvironment option"
  jobProject :: string
  jobTenant :: string
  jobWorkflow :: string
  jobRun :: string
  jobVersion :: string
  concurrency :: "ticket option"

record admission_settings =
  projectLimiterEnabled :: bool
  defaultConcurrentJobs :: int
  workflowTimeoutSeconds :: int
  concurrentRuns :: "int option" \<comment> \<open>set explicitly or not\<close>
  systemConcurrentExecutions :: "int option"

datatype verdict = ALLOW | REJECT int "int option" | DISCARD

definition job_ttl_ms :: "admission_settings \<Rightarrow> int" where
  "job_ttl_ms cfg = (workflowTimeoutSeconds cfg + 60) * 1000"

subsection \<open>Suspended tenants\<close>

definition isSuspendable :: "job_data \<Rightarrow> bool" where
  "isSuspendable jd \<longleftrightarrow> jobType jd \<in> {EXECUTE_WORKFLOW, EXECUTE_WEBHOOK, EXECUTE_POLLING}"

definition cancelQueuedRun :: "job_data \<Rightarrow> unit job_async" where
  "cancelQueuedRun jd = (if jobType jd \<noteq> EXECUTE_WORKFLOW then aret ()
     else athen (atry (effect (Cancel_Queued (jobRun jd) (jobProject jd)))) (aret ()))"

definition suspension_preDispatch :: "job_data \<Rightarrow> verdict job_async" where
  "suspension_preDispatch jd = (if \<not> isSuspendable jd then aret ALLOW
     else abind (acall (Tenant_Active (jobTenant jd)) as_bool) (\<lambda>active.
       if active then aret ALLOW else athen (cancelQueuedRun jd) (aret DISCARD)))"

subsection \<open>Limits per project and tenant\<close>

definition isLimitableJob :: "job_data \<Rightarrow> bool" where
  "isLimitableJob jd \<longleftrightarrow> jobType jd = EXECUTE_WORKFLOW \<and> environment jd \<noteq> Some ENV_TESTING"

definition project_pool_key :: "string \<Rightarrow> string" where
  "project_pool_key p = ''active_jobs_set:pool:'' @ p"

definition tenant_pool_key :: "string \<Rightarrow> string" where
  "tenant_pool_key t = ''tenant-quota:concurrency-pool:v1:'' @ t"

definition project_limit_key :: "string \<Rightarrow> string" where
  "project_limit_key p = ''project-quota:concurrency:v1:'' @ p"

definition tenant_limit_key :: "string \<Rightarrow> string" where
  "tenant_limit_key t = ''tenant-quota:concurrency-limit:v1:'' @ t"

definition pool_member :: "job_data \<Rightarrow> string \<Rightarrow> string" where
  "pool_member jd jobId = jobProject jd @ '':'' @ jobId"

definition stricter :: "int option \<Rightarrow> int option \<Rightarrow> int option" where
  "stricter first second = (case first of None \<Rightarrow> second
     | Some a \<Rightarrow> (case second of None \<Rightarrow> first | Some b \<Rightarrow> Some (min a b)))"

definition getMaxConcurrentJobs :: "admission_settings \<Rightarrow> string \<Rightarrow> int job_async" where
  "getMaxConcurrentJobs cfg p = abind (acall (Cache_Get (project_limit_key p)) as_int_option) (\<lambda>found. case found of
     Some l \<Rightarrow> aret l
   | None \<Rightarrow> abind (atry (acall (Project_Quota p) as_int_option)) (\<lambda>project.
       let limit = (case project of Inr (Some q) \<Rightarrow> min q (defaultConcurrentJobs cfg) | _ \<Rightarrow> defaultConcurrentJobs cfg) in
       athen (effect (Cache_Put (project_limit_key p) limit 60)) (aret limit)))"

definition getConcurrentExecutionsLimit :: "admission_settings \<Rightarrow> string \<Rightarrow> int option job_async" where
  "getConcurrentExecutionsLimit cfg t = abind (acall (Cache_Get (tenant_limit_key t)) as_int_option) (\<lambda>found. case found of
     Some l \<Rightarrow> aret (if l = -1 then None else Some l)
   | None \<Rightarrow> abind (acall (Tenant_Row t) as_int_option) (\<lambda>row.
       let limit = stricter row (systemConcurrentExecutions cfg) in
       athen (effect (Cache_Put (tenant_limit_key t) (case limit of None \<Rightarrow> -1 | Some l \<Rightarrow> l) 60)) (aret limit)))"

definition acquireInPool :: "admission_settings \<Rightarrow> string \<Rightarrow> string \<Rightarrow> int \<Rightarrow> bool job_async" where
  "acquireInPool cfg setKey member maxJobs = abind date_now (\<lambda>now.
     acall (Acquire_Script setKey now (job_ttl_ms cfg) maxJobs member) (\<lambda>v. as_int v = 0))"

definition releaseFromPool :: "string \<Rightarrow> string \<Rightarrow> unit job_async" where
  "releaseFromPool setKey member = effect (Zrem setKey member)"

definition rejectJob :: "nat \<Rightarrow> verdict" where
  "rejectJob attemptsMade = REJECT (min 600000 (20000 * 2 ^ attemptsMade)) (Some 6)"

definition tryAcquireSlot :: "admission_settings \<Rightarrow> string \<Rightarrow> job_data \<Rightarrow> bool job_async" where
  "tryAcquireSlot cfg jobId jd = abind (getMaxConcurrentJobs cfg (jobProject jd)) (\<lambda>maxJobs.
     acquireInPool cfg (project_pool_key (jobProject jd)) (pool_member jd jobId) maxJobs)"

definition tryAcquireTenantSlot :: "admission_settings \<Rightarrow> string \<Rightarrow> job_data \<Rightarrow> int \<Rightarrow> bool job_async" where
  "tryAcquireTenantSlot cfg jobId jd maxJobs =
     acquireInPool cfg (tenant_pool_key (jobTenant jd)) (pool_member jd jobId) maxJobs"

definition releaseSlot :: "string \<Rightarrow> job_data \<Rightarrow> unit job_async" where
  "releaseSlot jobId jd = releaseFromPool (project_pool_key (jobProject jd)) (pool_member jd jobId)"

definition releaseTenantSlot :: "string \<Rightarrow> job_data \<Rightarrow> unit job_async" where
  "releaseTenantSlot jobId jd = releaseFromPool (tenant_pool_key (jobTenant jd)) (pool_member jd jobId)"

definition limiter_preDispatch :: "admission_settings \<Rightarrow> string \<Rightarrow> job_data \<Rightarrow> nat \<Rightarrow> verdict job_async" where
  "limiter_preDispatch cfg jobId jd attemptsMade =
     (if \<not> isLimitableJob jd then aret ALLOW
      else abind (if projectLimiterEnabled cfg then tryAcquireSlot cfg jobId jd else aret True) (\<lambda>projectAllowed.
        if \<not> projectAllowed then aret (rejectJob attemptsMade)
        else abind (getConcurrentExecutionsLimit cfg (jobTenant jd)) (\<lambda>tenantLimit. case tenantLimit of
          None \<Rightarrow> aret ALLOW
        | Some limit \<Rightarrow> abind (tryAcquireTenantSlot cfg jobId jd limit) (\<lambda>tenantAllowed.
            if tenantAllowed then aret ALLOW
            else athen (if projectLimiterEnabled cfg then releaseSlot jobId jd else aret ())
              (aret (rejectJob attemptsMade))))))"

definition limiter_onJobFinished :: "admission_settings \<Rightarrow> string \<Rightarrow> job_data \<Rightarrow> unit job_async" where
  "limiter_onJobFinished cfg jobId jd =
     (if \<not> isLimitableJob jd then aret ()
      else athen (if projectLimiterEnabled cfg then releaseSlot jobId jd else aret ())
        (abind (getConcurrentExecutionsLimit cfg (jobTenant jd)) (\<lambda>tenantLimit.
          case tenantLimit of None \<Rightarrow> aret () | Some _ \<Rightarrow> releaseTenantSlot jobId jd)))"

subsection \<open>Polls of workflows that are gone\<close>

definition zombie_preDispatch :: "job_data \<Rightarrow> verdict job_async" where
  "zombie_preDispatch jd = (if jobType jd \<notin> {EXECUTE_POLLING, RENEW_WEBHOOK} then aret ALLOW
     else abind (acall (Find_Source (jobVersion jd)) as_bool) (\<lambda>found.
       if found then aret ALLOW else athen (effect (Remove_Repeating (jobVersion jd))) (aret DISCARD)))"

subsection \<open>The limit of the installation\<close>

definition ACTIVE_RUNS_KEY :: string where "ACTIVE_RUNS_KEY = ''instance-concurrency:v1:active-runs''"

definition isCounted :: "job_data \<Rightarrow> bool" where
  "isCounted jd \<longleftrightarrow> jobType jd = EXECUTE_WORKFLOW \<and> environment jd \<noteq> Some ENV_TESTING"

definition instance_tryAcquire :: "admission_settings \<Rightarrow> string \<Rightarrow> int \<Rightarrow> bool job_async" where
  "instance_tryAcquire cfg jobId limit = abind date_now (\<lambda>now.
     acall (Acquire_Script ACTIVE_RUNS_KEY now (job_ttl_ms cfg) limit jobId) (\<lambda>v. as_int v = 0))"

definition instance_preDispatch :: "admission_settings \<Rightarrow> string \<Rightarrow> job_data \<Rightarrow> nat \<Rightarrow> verdict job_async" where
  "instance_preDispatch cfg jobId jd attemptsMade = (case concurrentRuns cfg of
     None \<Rightarrow> aret ALLOW
   | Some limit \<Rightarrow> if \<not> isCounted jd then aret ALLOW
       else abind (atry (instance_tryAcquire cfg jobId limit)) (\<lambda>allowed. case allowed of
         Inl _ \<Rightarrow> aret ALLOW
       | Inr True \<Rightarrow> aret ALLOW
       | Inr False \<Rightarrow> aret (REJECT (min 60000 (5000 * 2 ^ min attemptsMade 5)) None)))"

definition instance_onJobFinished :: "string \<Rightarrow> job_data \<Rightarrow> unit job_async" where
  "instance_onJobFinished jobId jd = (if isCounted jd then effect (Zrem ACTIVE_RUNS_KEY jobId) else aret ())"

subsection \<open>The gate of the workflow\<close>

definition gate_ticket :: "job_data \<Rightarrow> ticket option" where
  "gate_ticket jd = (if jobType jd \<noteq> EXECUTE_WORKFLOW \<or> environment jd = Some ENV_TESTING then None
     else case concurrency jd of None \<Rightarrow> None
       | Some t \<Rightarrow> if maxConcurrentRuns t > 0 \<or> orderKey t \<noteq> None then Some t else None)"

definition concurrency_preDispatch :: "(string \<Rightarrow> string) \<Rightarrow> string option \<Rightarrow> admission_settings \<Rightarrow> string \<Rightarrow> job_data
    \<Rightarrow> verdict job_async" where
  "concurrency_preDispatch sha queue cfg jobId jd = (case gate_ticket jd of
     None \<Rightarrow> aret ALLOW
   | Some t \<Rightarrow> abind (gate_admit sha (isJobAlive queue) (job_ttl_ms cfg) (jobWorkflow jd) jobId t) (\<lambda>admitted.
       aret (if admitted then ALLOW else REJECT QUEUED_RUN_RECHECK_MS None)))"

definition concurrency_onJobFinished :: "(string \<Rightarrow> string) \<Rightarrow> string \<Rightarrow> job_data \<Rightarrow> unit job_async" where
  "concurrency_onJobFinished sha jobId jd = (case gate_ticket jd of
     None \<Rightarrow> aret () | Some t \<Rightarrow> gate_release sha (jobWorkflow jd) jobId t)"

definition concurrency_register :: "(string \<Rightarrow> string) \<Rightarrow> string \<Rightarrow> job_data \<Rightarrow> unit job_async" where
  "concurrency_register sha jobId jd = (case gate_ticket jd of
     None \<Rightarrow> aret () | Some t \<Rightarrow> gate_enqueue sha (jobWorkflow jd) jobId t)"

subsection \<open>The chain\<close>

datatype interceptor = TenantSuspension | RateLimiter | ZombiePolling | InstanceConcurrency | WorkflowConcurrency

definition interceptors :: "interceptor list" where
  "interceptors = [TenantSuspension, RateLimiter, ZombiePolling, InstanceConcurrency, WorkflowConcurrency]"

record admission =
  settings :: admission_settings
  digest :: "string \<Rightarrow> string"
  queueName :: "string option"
  jobId :: string
  jobData :: job_data
  attemptsMade :: nat

fun preDispatch :: "admission \<Rightarrow> interceptor \<Rightarrow> verdict job_async" where
  "preDispatch a TenantSuspension = suspension_preDispatch (jobData a)"
| "preDispatch a RateLimiter = limiter_preDispatch (settings a) (jobId a) (jobData a) (attemptsMade a)"
| "preDispatch a ZombiePolling = zombie_preDispatch (jobData a)"
| "preDispatch a InstanceConcurrency = instance_preDispatch (settings a) (jobId a) (jobData a) (attemptsMade a)"
| "preDispatch a WorkflowConcurrency =
     concurrency_preDispatch (digest a) (queueName a) (settings a) (jobId a) (jobData a)"

fun onJobFinished :: "admission \<Rightarrow> interceptor \<Rightarrow> unit job_async" where
  "onJobFinished a TenantSuspension = aret ()"
| "onJobFinished a RateLimiter = limiter_onJobFinished (settings a) (jobId a) (jobData a)"
| "onJobFinished a ZombiePolling = aret ()"
| "onJobFinished a InstanceConcurrency = instance_onJobFinished (jobId a) (jobData a)"
| "onJobFinished a WorkflowConcurrency = concurrency_onJobFinished (digest a) (jobId a) (jobData a)"

definition clean_up :: "admission \<Rightarrow> interceptor list \<Rightarrow> unit job_async" where
  "clean_up a passed = aeach (\<lambda>i. athen (atry (onJobFinished a i)) (aret ())) passed"

fun intercept :: "admission \<Rightarrow> interceptor list \<Rightarrow> interceptor list \<Rightarrow> verdict job_async" where
  "intercept a passed [] = aret ALLOW"
| "intercept a passed (i # is) = abind (preDispatch a i) (\<lambda>v. case v of
     ALLOW \<Rightarrow> intercept a (passed @ [i]) is
   | _ \<Rightarrow> athen (clean_up a passed) (aret v))"

definition runInterceptors :: "admission \<Rightarrow> verdict job_async" where
  "runInterceptors a = intercept a [] interceptors"

text \<open>The end of a job, and a job that goes back to the queue.\<close>

definition job_finished :: "admission \<Rightarrow> unit job_async" where
  "job_finished a = clean_up a interceptors"

end
