(* ===== verification/Gate_Laws.thy ===== *)
theory Gate_Laws
  imports Concurrency_Gate
begin

text \<open>
  The limit on concurrent runs under every interleaving. The programs of the pool are calls of the gate
  for any workflows and jobs. For one workflow the number of active jobs is watched: only the holder of
  the lock of the workflow adds to them, and between its count and its mark the set can only shrink.
\<close>

datatype gate_call =
    Enqueue string string ticket
  | Admit "string option" int string string ticket
  | Release string string ticket

fun gate_prog :: "(string \<Rightarrow> string) \<Rightarrow> gate_call \<Rightarrow> bool job_async" where
  "gate_prog sha (Enqueue flow job t) = athen (gate_enqueue sha flow job t) (aret True)"
| "gate_prog sha (Admit queue ttl flow job t) = gate_admit sha (isJobAlive queue) ttl flow job t"
| "gate_prog sha (Release flow job t) = athen (gate_release sha flow job t) (aret True)"

definition hex_digest :: "(string \<Rightarrow> string) \<Rightarrow> bool" where
  "hex_digest sha \<longleftrightarrow> (\<forall>x. set (sha x) \<subseteq> set ''0123456789abcdef'')"

subsection \<open>Keys\<close>

lemma active_key_inj: "active_key a = active_key b \<longleftrightarrow> a = b"
  by (simp add: active_key_def)

lemma lock_key_inj: "lock_key a = lock_key b \<longleftrightarrow> a = b"
  by (simp add: lock_key_def)

lemma order_key_not_active:
  assumes "hex_digest sha"
  shows "order_key sha a k \<noteq> active_key b"
proof
  assume "order_key sha a k = active_key b"
  then have "rev (sha k) @ rev '':order:'' @ rev a = rev '':active'' @ rev b"
    unfolding order_key_def active_key_def by (metis append_assoc rev_append same_append_eq)
  then have "takeWhile (\<lambda>c. c \<noteq> CHR '':'') (rev (sha k) @ CHR '':'' # rev '':order'' @ rev a) = rev ''active''"
    by simp
  moreover have "takeWhile (\<lambda>c. c \<noteq> CHR '':'') (rev (sha k) @ CHR '':'' # rev '':order'' @ rev a) = rev (sha k)"
    using assms by (subst takeWhile_append2) (auto simp: hex_digest_def)
  ultimately have "rev (sha k) = rev ''active''" by (simp only:)
  then have "CHR ''t'' \<in> set (sha k)" by simp
  moreover have "set (sha k) \<subseteq> set ''0123456789abcdef''" using assms by (simp add: hex_digest_def)
  ultimately show False by auto
qed

subsection \<open>Harmless calls\<close>

fun adds_to :: "string \<Rightarrow> job_call \<Rightarrow> bool" where
  "adds_to key (Zadd k x m) = (k = key)"
| "adds_to key (Zadd_Nx k x m) = (k = key)"
| "adds_to key (Acquire_Script k now timeout limit m) = (k = key)"
| "adds_to key _ = False"

context sorted_sets
begin

lemma perform_members: "\<not> adds_to key op \<Longrightarrow> members R key (sets (snd (perform R op w))) \<subseteq> members R key (sets w)"
  by (cases op) (use members_prune in \<open>auto simp: members_simps acquire_script_def Let_def members_prune_other
      split: option.splits if_splits\<close>)

lemma may_answer_members:
  assumes "may_answer R op w v w'" and "\<not> adds_to key op"
  shows "members R key (sets w') \<subseteq> members R key (sets w)"
  using assms(1)
proof (cases rule: may_answer_cases)
  case (answer w0)
  then show ?thesis using perform_members [OF assms(2), of w0] expired_members [of R "sets w" "sets w0" key] by auto
qed

end

subsection \<open>The limit\<close>

definition watched :: "'s redis \<Rightarrow> string \<Rightarrow> 's job_world shared \<Rightarrow> string set" where
  "watched R flow c = members R (active_key flow) (sets (snd c))"

definition gate_rely :: "'s redis \<Rightarrow> string \<Rightarrow> nat \<Rightarrow> 's job_world shared \<Rightarrow> 's job_world shared \<Rightarrow> bool" where
  "gate_rely R flow i c c' \<longleftrightarrow> (fst c (lock_key flow) = Some i \<longrightarrow>
     fst c' (lock_key flow) = Some i \<and> watched R flow c' \<subseteq> watched R flow c)"

definition gate_guarantee :: "'s redis \<Rightarrow> string \<Rightarrow> int \<Rightarrow> nat \<Rightarrow> 's job_world shared \<Rightarrow> 's job_world shared \<Rightarrow> bool" where
  "gate_guarantee R flow M i c c' \<longleftrightarrow>
     (fst c (lock_key flow) = Some i \<or> watched R flow c' \<subseteq> watched R flow c) \<and>
     (\<forall>j. j \<noteq> i \<and> fst c (lock_key flow) = Some j \<longrightarrow> fst c' (lock_key flow) = Some j) \<and>
     (int (card (watched R flow c)) \<le> M \<longrightarrow> int (card (watched R flow c')) \<le> M)"

fun within_limit :: "string \<Rightarrow> int \<Rightarrow> gate_call \<Rightarrow> bool" where
  "within_limit flow M (Admit queue ttl flow' job t) = (flow' = flow \<longrightarrow> maxConcurrentRuns t \<le> M)"
| "within_limit flow M _ = True"

lemma released_other: "l \<noteq> l' \<Longrightarrow> released i l ow l' = ow l'"
  by (simp add: released_def)

lemma released_keeps: "j \<noteq> i \<Longrightarrow> ow l' = Some j \<Longrightarrow> released i l ow l' = Some j"
  by (auto simp: released_def)

context sorted_sets
begin

lemma shrink_guarantee:
  assumes "members R (active_key flow) (sets s') \<subseteq> members R (active_key flow) (sets s)"
  shows "gate_guarantee R flow M i (ow, s) (ow, s')"
proof -
  have "card (members R (active_key flow) (sets s')) \<le> card (members R (active_key flow) (sets s))"
    by (rule card_mono [OF finite_members assms])
  with assms show ?thesis by (auto simp: gate_guarantee_def watched_def)
qed

lemma harmless_guarantee:
  "may_answer R op s v s' \<Longrightarrow> \<not> adds_to (active_key flow) op \<Longrightarrow> gate_guarantee R flow M i (ow, s) (ow, s')"
  by (rule shrink_guarantee, rule may_answer_members)

lemma lock_guarantee:
  "ow l = None \<Longrightarrow> gate_guarantee R flow M i (ow, s) (ow(l \<mapsto> i), s)"
  "gate_guarantee R flow M i (ow, s) (released i l ow, s)"
  by (auto simp: gate_guarantee_def watched_def released_keeps)

lemma harmless_obeys:
  assumes "all_calls (\<lambda>op. \<not> adds_to (active_key flow) op) (\<lambda>_. True) p"
  shows "obeys (may_answer R) i (gate_rely R flow i) (gate_guarantee R flow M i) (\<lambda>_ _. True) p c"
  by (rule obeys_all_calls [OF assms, where J = "\<lambda>_. True"])
     (auto intro: harmless_guarantee lock_guarantee)

lemma harmless_with_lock:
  assumes "all_calls (\<lambda>op. \<not> adds_to (active_key flow) op) (\<lambda>_. False) p" and "fst c (lock_key flow) = Some i"
  shows "obeys (may_answer R) i (gate_rely R flow i) (gate_guarantee R flow M i)
    (\<lambda>_ c. fst c (lock_key flow) = Some i) p c"
  by (rule obeys_all_calls [OF assms(1), where J = "\<lambda>c. fst c (lock_key flow) = Some i"])
     (use assms(2) in \<open>auto intro: harmless_guarantee simp: gate_rely_def\<close>)

lemma mark_obeys:
  assumes own: "fst c (lock_key flow) = Some i" and room: "int (card (watched R flow c)) + 1 \<le> M"
  shows "obeys (may_answer R) i (gate_rely R flow i) (gate_guarantee R flow M i)
    (\<lambda>_ c. fst c (lock_key flow) = Some i) (markActive (active_key flow) job time) c"
proof -
  let ?A = "\<lambda>s. members R (active_key flow) (sets s)"
  have mark: "gate_guarantee R flow M i (ow, s) (ow, s')"
    if "gate_rely R flow i c (ow, s)" "may_answer R (Zadd (active_key flow) time job) s v s'" for ow s v s'
  proof -
    from that(2) have "?A s' \<subseteq> insert job (?A s)"
    proof (cases rule: may_answer_cases)
      case (answer w0)
      then show ?thesis using expired_members [of R "sets s" "sets w0" "active_key flow"]
        by (auto simp: members_zadd)
    qed
    moreover have "?A s \<subseteq> watched R flow c" using that(1) own by (simp add: gate_rely_def watched_def)
    ultimately have "?A s' \<subseteq> insert job (watched R flow c)" by blast
    then have "card (?A s') \<le> card (insert job (watched R flow c))"
      by (intro card_mono) (simp_all add: watched_def finite_members)
    also have "\<dots> \<le> Suc (card (watched R flow c))" by (rule card_insert_le_m1) auto
    finally have "int (card (?A s')) \<le> M" using room by simp
    moreover have "ow (lock_key flow) = Some i" using that(1) own by (simp add: gate_rely_def)
    ultimately show ?thesis by (simp add: gate_guarantee_def watched_def)
  qed
  have keep: "fst c' (lock_key flow) = Some i" if "gate_rely R flow i c c'" for c'
    using that own by (simp add: gate_rely_def)
  show ?thesis
    unfolding markActive_def athen_def abind_def effect_def acall_def
    by (auto simp: gate_rely_def own intro: mark harmless_guarantee split: sum.split)
qed

lemma gate_rely_refl: "gate_rely R flow i x x"
  by (simp add: gate_rely_def)

lemma gate_rely_trans: "gate_rely R flow i a b \<Longrightarrow> gate_rely R flow i b d \<Longrightarrow> gate_rely R flow i a d"
  by (auto simp: gate_rely_def)

lemma gate_rely_own:
  "gate_rely R flow i (a, b) (a', b') \<Longrightarrow> a (lock_key flow) = Some i \<Longrightarrow> a' (lock_key flow) = Some i"
  by (simp add: gate_rely_def)

lemma count_obeys:
  assumes "fst c (lock_key flow) = Some i"
  shows "obeys (may_answer R) i (gate_rely R flow i) (gate_guarantee R flow M i)
    (\<lambda>r c. fst c (lock_key flow) = Some i \<and> (\<forall>n. r = Inr n \<longrightarrow> int (card (watched R flow c)) \<le> n))
    (activeCount (active_key flow)) c"
proof -
  have count: "int (card (watched R flow c')) \<le> as_int n"
    if answer: "may_answer R (Zcard (active_key flow)) s (Inr n) s'" and own: "ow (lock_key flow) = Some i"
      and rely: "gate_rely R flow i (ow, s') c'" for s s' n ow c'
    using answer
  proof (cases rule: may_answer_cases)
    case (answer w0)
    then have "n = Number (int (card (members R (active_key flow) (sets s'))))" by (auto simp: zcard_members)
    moreover have "watched R flow c' \<subseteq> members R (active_key flow) (sets s')"
      using rely own by (simp add: gate_rely_def watched_def)
    ultimately show ?thesis by (simp add: card_mono finite_members)
  qed
  show ?thesis
    unfolding activeCount_def acall_def
    using assms
    by (auto simp: gate_rely_def map_sum_eq_Inr intro: harmless_guarantee count [unfolded gate_rely_def])
qed

lemma take_slot_obeys:
  assumes "fst c (lock_key flow) = Some i" and "maxConcurrentRuns t \<le> M"
  shows "obeys (may_answer R) i (gate_rely R flow i) (gate_guarantee R flow M i)
    (\<lambda>_ c. fst c (lock_key flow) = Some i) (take_slot ttl flow job t) c"
proof -
  let ?obeys = "obeys (may_answer R) i (gate_rely R flow i) (gate_guarantee R flow M i)"
  let ?own = "\<lambda>c. fst c (lock_key flow) = Some i"
  have ret: "?obeys (\<lambda>_. ?own) (aret r) c" if "?own c" for r :: bool and c
    using that by (simp add: aret_def gate_rely_def)
  have calm: "?obeys (\<lambda>_. ?own) p c"
    if "?own c" "all_calls (\<lambda>op. \<not> adds_to (active_key flow) op) (\<lambda>_. False) p" for p :: "'b job_async" and c
    by (rule harmless_with_lock [OF that(2,1)])
  have mark: "?obeys (\<lambda>_. ?own) (athen (markActive (active_key flow) job time) (aret True)) c"
    if "?own c \<and> int (card (watched R flow c)) \<le> n" "\<not> n \<ge> maxConcurrentRuns t" for c n time
    unfolding athen_def
    by (rule obeys_abind [OF mark_obeys _ _ gate_rely_refl]) (use that assms(2) in \<open>auto simp: aret_def gate_rely_def\<close>)
  have count: "?obeys (\<lambda>_. ?own) (abind (activeCount (active_key flow)) (\<lambda>n. if n \<ge> maxConcurrentRuns t
      then aret False else athen (markActive (active_key flow) job time) (aret True))) c"
    if "?own c" for c time
    by (rule obeys_abind [OF count_obeys [OF that] _ _ gate_rely_refl]) (auto intro: ret mark dest: gate_rely_own)
  have check: "?obeys (\<lambda>_. ?own) (abind (isActive (active_key flow) job) (\<lambda>active. if active then aret True else
      abind (activeCount (active_key flow)) (\<lambda>n. if n \<ge> maxConcurrentRuns t
      then aret False else athen (markActive (active_key flow) job time) (aret True)))) c"
    if "?own c" for c time
    by (rule obeys_abind [OF calm [OF that] _ _ gate_rely_refl])
       (auto intro: ret count calls_rules dest: gate_rely_own simp: isActive_def)
  show ?thesis
  proof (cases "maxConcurrentRuns t \<le> 0")
    case True
    then show ?thesis using assms(1) by (simp add: take_slot_def aret_def gate_rely_def)
  next
    case False
    then have eq: "take_slot ttl flow job t = abind date_now (\<lambda>time. abind (pruneActive (active_key flow) (time - ttl)) (\<lambda>_.
        abind (isActive (active_key flow) job) (\<lambda>active. if active then aret True else
        abind (activeCount (active_key flow)) (\<lambda>n. if n \<ge> maxConcurrentRuns t
        then aret False else athen (markActive (active_key flow) job time) (aret True)))))"
      by (simp add: take_slot_def athen_def)
    have prune: "?obeys (\<lambda>_. ?own) (abind (pruneActive (active_key flow) (time - ttl)) (\<lambda>_.
        abind (isActive (active_key flow) job) (\<lambda>active. if active then aret True else
        abind (activeCount (active_key flow)) (\<lambda>n. if n \<ge> maxConcurrentRuns t
        then aret False else athen (markActive (active_key flow) job time) (aret True))))) c"
      if "?own c" for c time
      by (rule obeys_abind [OF calm [OF that] check _ gate_rely_refl])
         (auto intro: calls_rules dest: gate_rely_own simp: pruneActive_def effect_def)
    show ?thesis unfolding eq
      by (rule obeys_abind [OF calm [OF assms(1)] prune _ gate_rely_refl])
         (auto intro: calls_rules dest: gate_rely_own simp: date_now_def)
  qed
qed

lemma runExclusive_obeys:
  assumes body: "\<And>c. fst c (lock_key flow) = Some i \<Longrightarrow>
    obeys (may_answer R) i (gate_rely R flow i) (gate_guarantee R flow M i)
      (\<lambda>_ c. fst c (lock_key flow) = Some i) p c"
  shows "obeys (may_answer R) i (gate_rely R flow i) (gate_guarantee R flow M i) (\<lambda>_ _. True)
    (runExclusive (lock_key flow) p) c"
proof -
  have "obeys (may_answer R) i (gate_rely R flow i) (gate_guarantee R flow M i) (\<lambda>_ _. True)
      (pbind p (\<lambda>r. Unlock (lock_key flow) (Ret r))) d" if "fst d (lock_key flow) = Some i" for d
    by (rule obeys_pbind [OF body [OF that] _ gate_rely_refl]) (simp add: lock_guarantee)
  then show ?thesis by (simp add: runExclusive_def lock_guarantee)
qed

lemma isJobAlive_calm: "all_calls (\<lambda>op. \<not> adds_to key op) L (isJobAlive queue job)"
proof -
  have "all_calls (\<lambda>op. \<not> adds_to key op) L (alive_in names job)" for names
    by (induction names) (auto intro!: calls_rules simp: effect_def split: sum.split)
  then show ?thesis by (simp add: isJobAlive_def)
qed

lemma first_in_order_calm_at:
  assumes "\<And>k. order_key sha flow' k \<noteq> key"
  shows "all_calls (\<lambda>op. \<not> adds_to key op) L (first_in_order sha (isJobAlive queue) flow' job t)"
proof -
  have "all_calls (\<lambda>op. \<not> adds_to key op) L (live_head_loop (isJobAlive queue) q job n)" for q n
    by (induction n) (auto intro!: calls_rules isJobAlive_calm simp: queueHead_def removeFromQueue_def effect_def
        split: option.split)
  then show ?thesis
    by (auto intro!: calls_rules simp: first_in_order_def addToQueue_def effect_def liveQueueHead_def assms
        split: option.split)
qed

lemmas first_in_order_calm = first_in_order_calm_at [OF order_key_not_active]

lemma take_slot_calm_at:
  "active_key flow' \<noteq> key \<Longrightarrow> all_calls (\<lambda>op. \<not> adds_to key op) L (take_slot ttl flow' job t)"
  by (auto intro!: calls_rules simp: take_slot_def date_now_def pruneActive_def isActive_def activeCount_def
      markActive_def effect_def)

lemma take_slot_calm:
  "flow' \<noteq> flow \<Longrightarrow> all_calls (\<lambda>op. \<not> adds_to (active_key flow) op) L (take_slot ttl flow' job t)"
  by (rule take_slot_calm_at) (simp add: active_key_inj)

lemma gate_prog_obeys:
  assumes hex: "hex_digest sha" and "within_limit flow M call"
  shows "obeys (may_answer R) i (gate_rely R flow i) (gate_guarantee R flow M i) (\<lambda>_ _. True)
    (gate_prog sha call) c"
proof (cases call)
  case (Enqueue flow' job t)
  then show ?thesis
    by (intro harmless_obeys) (auto intro!: calls_rules simp: gate_enqueue_def addToQueue_def effect_def
        order_key_not_active [OF hex] split: option.split)
next
  case (Release flow' job t)
  then show ?thesis
    by (intro harmless_obeys) (auto intro!: calls_rules simp: gate_release_def removeActive_def removeFromQueue_def
        effect_def split: option.split)
next
  case (Admit queue ttl flow' job t)
  show ?thesis
  proof (cases "flow' = flow")
    case True
    have "obeys (may_answer R) i (gate_rely R flow i) (gate_guarantee R flow M i)
        (\<lambda>_ c. fst c (lock_key flow) = Some i)
        (abind (first_in_order sha (isJobAlive queue) flow job t) (\<lambda>first.
          if first then take_slot ttl flow job t else aret False)) c"
      if "fst c (lock_key flow) = Some i" for c
      by (rule obeys_abind [OF harmless_with_lock [OF first_in_order_calm [OF hex] that] _ _ gate_rely_refl])
         (use assms(2) Admit True in \<open>auto intro: take_slot_obeys dest: gate_rely_own simp: aret_def\<close>)
    then show ?thesis unfolding Admit True by (simp add: gate_admit_def runExclusive_obeys)
  next
    case False
    then show ?thesis unfolding Admit
      by (intro harmless_obeys) (auto intro!: calls_rules first_in_order_calm hex take_slot_calm simp: gate_admit_def)
  qed
qed

lemma active_within_limit:
  assumes runs: "pool_runs (may_answer R) c c'" and hex: "hex_digest sha"
    and progs: "\<And>i. progs c i = gate_prog sha (calls i)"
    and limit: "\<And>i. within_limit flow M (calls i)"
    and init: "int (zcard R (active_key flow) (sets (services c))) \<le> M"
  shows "int (zcard R (active_key flow) (sets (services c'))) \<le> M"
proof -
  have "int (card (watched R flow (owner c', services c'))) \<le> M"
    using runs
  proof (rule pool_invariant [where R = "gate_rely R flow" and G = "gate_guarantee R flow M"
        and Q = "\<lambda>_ _ _. True" and I = "\<lambda>d. int (card (watched R flow d)) \<le> M"])
    show "obeys (may_answer R) i (gate_rely R flow i) (gate_guarantee R flow M i) (\<lambda>_ _. True)
        (progs c i) (owner c, services c)" for i
      unfolding progs by (rule gate_prog_obeys [OF hex limit])
  qed (use init in \<open>auto simp: gate_rely_def gate_guarantee_def watched_def zcard_members\<close>)
  then show ?thesis by (simp add: watched_def zcard_members)
qed

end

end
