(* ===== verification/Gate_Order.thy ===== *)
theory Gate_Order
  imports Gate_Laws
begin

text \<open>
  The gate as a function of one call at a time: a job passes exactly when no more than five jobs are
  ahead of it in its order, all of them dead, and the workflow has a free slot. The jobs ahead are those
  with an earlier ticket, or with the same time and a smaller identifier.
\<close>

definition ahead :: "'s redis \<Rightarrow> string \<Rightarrow> string \<Rightarrow> 's \<Rightarrow> string set" where
  "ahead R key job s = {m \<in> members R key s. (the (zscore R key m s), m) < (the (zscore R key job s), job)}"

fun alive_at :: "'s job_world \<Rightarrow> string list \<Rightarrow> string \<Rightarrow> bool" where
  "alive_at w [] job = False"
| "alive_at w (name # names) job = (case queues w name job of
     None \<Rightarrow> alive_at w names job
   | Some st \<Rightarrow> st \<notin> set DEAD_JOB_STATES)"

definition alive :: "string option \<Rightarrow> 's job_world \<Rightarrow> string \<Rightarrow> bool" where
  "alive queue w job = alive_at w (remdups (case queue of None \<Rightarrow> [WORKER_JOBS] | Some q \<Rightarrow> [q, WORKER_JOBS])) job"

definition free_slot :: "'s redis \<Rightarrow> int \<Rightarrow> string \<Rightarrow> string \<Rightarrow> ticket \<Rightarrow> 's job_world \<Rightarrow> bool" where
  "free_slot R ttl flow job t w \<longleftrightarrow> maxConcurrentRuns t \<le> 0 \<or>
     (let active = members R (active_key flow) (zremrangebyscore R (active_key flow) (clock w - ttl) (sets w)) in
      job \<in> active \<or> int (card active) < maxConcurrentRuns t)"

lemma run_effect: "run (perform R) (effect op) w = (case perform R op w of (v, w') \<Rightarrow> (map_sum id (\<lambda>_. ()) v, w'))"
  by (simp add: effect_def run_acall)

lemmas store_defs = addToQueue_def queueHead_def removeFromQueue_def pruneActive_def isActive_def
  activeCount_def markActive_def removeActive_def date_now_def

lemma run_isJobAlive: "run (perform R) (isJobAlive queue job) w = (Inr (alive queue w job), w)"
proof -
  have "run (perform R) (alive_in names job) w = (Inr (alive_at w names job), w)" for names
    by (induction names) (auto simp: run_simps run_effect split: option.split)
  then show ?thesis by (simp add: isJobAlive_def alive_def)
qed

context sorted_sets
begin

lemma finite_ahead: "finite (ahead R key job s)"
  by (rule finite_subset [OF _ finite_members [of key s]]) (auto simp: ahead_def)

lemma head_ahead:
  assumes "job \<in> members R key s" and "zhead R key s = Some h"
  shows "h = job \<and> ahead R key job s = {} \<or> h \<noteq> job \<and> h \<in> ahead R key job s"
proof -
  have least: "h \<in> members R key s" "(the (zscore R key h s), h) \<le> (the (zscore R key m s), m)"
    if "m \<in> members R key s" for m
    using zhead_least [OF assms(2)] that by auto
  show ?thesis
  proof (cases "h = job")
    case True
    then show ?thesis using least(2) by (force simp: ahead_def not_less [symmetric])
  next
    case False
    then have "(the (zscore R key h s), h) \<noteq> (the (zscore R key job s), job)" by simp
    then have "(the (zscore R key h s), h) < (the (zscore R key job s), job)"
      using least(2) [OF assms(1)] by (rule order.not_eq_order_implies_strict)
    then show ?thesis using False least(1) [OF assms(1)] by (simp add: ahead_def)
  qed
qed

lemma ahead_zrem:
  assumes "h \<noteq> job"
  shows "ahead R key job (zrem R key h s) = ahead R key job s - {h}"
  using assms by (auto simp: ahead_def members_zrem zscore_zrem)

text \<open>The loop over the heads: it answers the job exactly when all jobs ahead are dead and few enough.\<close>

lemma live_head_loop_exact:
  assumes "job \<in> members R key (sets w)"
  shows "\<exists>head s'. run (perform R) (live_head_loop (isJobAlive queue) key job n) w = (Inr head, w\<lparr>sets := s'\<rparr>) \<and>
    (head = Some job \<longleftrightarrow> card (ahead R key job (sets w)) \<le> n \<and> (\<forall>m \<in> ahead R key job (sets w). \<not> alive queue w m)) \<and>
    ((\<forall>m \<in> ahead R key job (sets w). \<not> alive queue w m) \<longrightarrow>
      card (ahead R key job s') = card (ahead R key job (sets w)) - n) \<and>
    (\<exists>gone \<subseteq> ahead R key job (sets w). (\<forall>m \<in> gone. \<not> alive queue w m) \<and>
      (\<forall>k m. zscore R k m s' = (if k = key \<and> m \<in> gone then None else zscore R k m (sets w))))"
  using assms
proof (induction n arbitrary: w)
  case 0
  obtain h where h: "zhead R key (sets w) = Some h" using 0 zhead_None by fastforce
  show ?case using head_ahead [OF 0 h] finite_ahead [of key job "sets w"]
    by (auto simp: queueHead_def run_simps h intro!: exI [of _ "sets w"] exI [of _ "{}"])
next
  case (Suc n)
  obtain h where h: "zhead R key (sets w) = Some h" using Suc.prems zhead_None by fastforce
  consider (self) "h = job" "ahead R key job (sets w) = {}"
    | (alive) "h \<noteq> job" "h \<in> ahead R key job (sets w)" "alive queue w h"
    | (dead) "h \<noteq> job" "h \<in> ahead R key job (sets w)" "\<not> alive queue w h"
    using head_ahead [OF Suc.prems h] by blast
  then show ?case
  proof cases
    case self
    then show ?thesis
      by (auto simp: queueHead_def run_simps h intro!: exI [of _ "sets w"] exI [of _ "{}"])
  next
    case alive
    then show ?thesis
      by (auto simp: queueHead_def run_simps run_isJobAlive h intro!: exI [of _ "sets w"] exI [of _ "{}"])
  next
    case dead
    let ?w = "w\<lparr>sets := zrem R key h (sets w)\<rparr>"
    have run: "run (perform R) (live_head_loop (isJobAlive queue) key job (Suc n)) w =
        run (perform R) (live_head_loop (isJobAlive queue) key job n) ?w"
      using dead by (simp add: queueHead_def removeFromQueue_def run_simps run_isJobAlive run_effect h)
    have ahead: "ahead R key job (sets ?w) = ahead R key job (sets w) - {h}"
      using dead by (simp add: ahead_zrem)
    have alive: "alive queue ?w m = alive queue w m" for m
    proof -
      have "alive_at ?w names m = alive_at w names m" for names
        by (induction names) (auto split: option.split)
      then show ?thesis by (simp add: alive_def)
    qed
    have card: "card (ahead R key job (sets w)) = Suc (card (ahead R key job (sets ?w)))"
      unfolding ahead using finite_ahead dead(2) by (metis card_Suc_Diff1)
    have "job \<in> members R key (sets ?w)" using Suc.prems dead by (simp add: members_zrem)
    from Suc.IH [OF this] obtain head s' gone where IH:
      "run (perform R) (live_head_loop (isJobAlive queue) key job n) ?w = (Inr head, ?w\<lparr>sets := s'\<rparr>)"
      "head = Some job \<longleftrightarrow> card (ahead R key job (sets ?w)) \<le> n \<and> (\<forall>m \<in> ahead R key job (sets ?w). \<not> alive queue w m)"
      "(\<forall>m \<in> ahead R key job (sets ?w). \<not> alive queue w m) \<longrightarrow>
        card (ahead R key job s') = card (ahead R key job (sets ?w)) - n"
      "gone \<subseteq> ahead R key job (sets ?w)" "\<forall>m \<in> gone. \<not> alive queue w m"
      "\<forall>k m. zscore R k m s' = (if k = key \<and> m \<in> gone then None else zscore R k m (sets ?w))"
      unfolding alive by blast
    have "run (perform R) (live_head_loop (isJobAlive queue) key job (Suc n)) w = (Inr head, w\<lparr>sets := s'\<rparr>)"
      using IH(1) unfolding run by simp
    moreover have "\<exists>gone \<subseteq> ahead R key job (sets w). (\<forall>m \<in> gone. \<not> alive queue w m) \<and>
      (\<forall>k m. zscore R k m s' = (if k = key \<and> m \<in> gone then None else zscore R k m (sets w)))"
      by (rule exI [of _ "insert h gone"]) (use IH(4-6) dead ahead in \<open>auto simp: zscore_zrem\<close>)
    moreover have "head = Some job \<longleftrightarrow> card (ahead R key job (sets w)) \<le> Suc n \<and>
        (\<forall>m \<in> ahead R key job (sets w). \<not> alive queue w m)"
      using IH(2) dead(3) unfolding card by (auto simp: ahead_zrem [OF dead(1)])
    moreover have "(\<forall>m \<in> ahead R key job (sets w). \<not> alive queue w m) \<longrightarrow>
        card (ahead R key job s') = card (ahead R key job (sets w)) - Suc n"
      using IH(3) unfolding card by (auto simp: ahead_zrem [OF dead(1)])
    ultimately show ?thesis by blast
  qed
qed

lemma ahead_cong: "(\<And>m. zscore R key m s = zscore R key m s') \<Longrightarrow> ahead R key job s = ahead R key job s'"
  by (simp add: ahead_def members_def)

lemma free_slot_cong:
  assumes "\<And>m. zscore R (active_key flow) m (sets w) = zscore R (active_key flow) m (sets w')" "clock w = clock w'"
  shows "free_slot R ttl flow job t w = free_slot R ttl flow job t w'"
proof -
  have "members R (active_key flow) (zremrangebyscore R (active_key flow) (clock w - ttl) (sets w)) =
      members R (active_key flow) (zremrangebyscore R (active_key flow) (clock w' - ttl) (sets w'))"
    using assms by (simp add: members_def zscore_prune)
  then show ?thesis by (simp add: free_slot_def)
qed

lemma take_slot_exact: "fst (run (perform R) (take_slot ttl flow job t) w) = Inr (free_slot R ttl flow job t w)"
  by (simp add: take_slot_def free_slot_def store_defs run_simps run_effect Let_def zcard_members)
     (simp add: members_def)

abbreviation registered :: "string \<Rightarrow> string \<Rightarrow> int \<Rightarrow> 's \<Rightarrow> 's" where
  "registered key job time s \<equiv> zadd_nx R key time job s"

lemma first_in_order_exact:
  assumes "orderKey t = Some k" and "key = order_key sha flow k"
    and "before = ahead R key job (registered key job (enqueuedAt t) (sets w))"
  shows "\<exists>s'. run (perform R) (first_in_order sha (isJobAlive queue) flow job t) w =
      (Inr (card before \<le> 5 \<and> (\<forall>m \<in> before. \<not> alive queue w m)), w\<lparr>sets := s'\<rparr>) \<and>
    (\<forall>k' m. k' \<noteq> key \<longrightarrow> zscore R k' m s' = zscore R k' m (sets w)) \<and>
    ((\<forall>m \<in> before. \<not> alive queue w m) \<longrightarrow>
      card (ahead R key job s') = card before - 5 \<and> ahead R key job s' \<subseteq> before \<and> job \<in> members R key s')"
proof -
  let ?w = "w\<lparr>sets := zexpire R key KEY_TTL_SECONDS (registered key job (enqueuedAt t) (sets w))\<rparr>"
  have in_queue: "job \<in> members R key (sets ?w)" by (simp add: members_expire members_zadd_nx)
  have before: "before = ahead R key job (sets ?w)"
    unfolding assms(3) by (rule ahead_cong) (simp add: zscore_expire)
  have alive: "alive queue ?w m = alive queue w m" for m
  proof -
    have "alive_at ?w names m = alive_at w names m" for names by (induction names) (auto split: option.split)
    then show ?thesis by (simp add: alive_def)
  qed
  from live_head_loop_exact [OF in_queue, of queue 5, folded before, unfolded alive] obtain head s' gone where loop:
    "run (perform R) (live_head_loop (isJobAlive queue) key job 5) ?w = (Inr head, ?w\<lparr>sets := s'\<rparr>)"
    "head = Some job \<longleftrightarrow> card before \<le> 5 \<and> (\<forall>m \<in> before. \<not> alive queue w m)"
    "(\<forall>m \<in> before. \<not> alive queue w m) \<longrightarrow> card (ahead R key job s') = card before - 5"
    "gone \<subseteq> before" "\<forall>k m. zscore R k m s' = (if k = key \<and> m \<in> gone then None else zscore R k m (sets ?w))"
    by blast
  have "run (perform R) (first_in_order sha (isJobAlive queue) flow job t) w =
      (Inr (card before \<le> 5 \<and> (\<forall>m \<in> before. \<not> alive queue w m)), w\<lparr>sets := s'\<rparr>)"
    using assms(1,2) loop(1,2)
    by (simp add: first_in_order_def addToQueue_def liveQueueHead_def MAX_STALE_HEADS_PER_CHECK_def run_simps run_effect)
  moreover have "\<forall>k' m. k' \<noteq> key \<longrightarrow> zscore R k' m s' = zscore R k' m (sets w)"
    using loop(5) by (simp add: zscore_expire zscore_zadd_nx)
  moreover have "job \<notin> gone" using loop(4) unfolding before by (auto simp: ahead_def)
  then have "ahead R key job s' \<subseteq> before" "job \<in> members R key s'"
    using loop(5) in_queue unfolding before by (auto simp: ahead_def members_def)
  ultimately show ?thesis using loop(3) by blast
qed

lemma admit_answer:
  assumes "hex_digest sha"
  shows "fst (run (perform R) (gate_admit sha (isJobAlive queue) ttl flow job t) w) = Inr (
    (\<forall>k. orderKey t = Some k \<longrightarrow> (let key = order_key sha flow k;
        before = ahead R key job (registered key job (enqueuedAt t) (sets w)) in
      card before \<le> 5 \<and> (\<forall>m \<in> before. \<not> alive queue w m))) \<and> free_slot R ttl flow job t w)"
proof (cases "orderKey t")
  case None
  then show ?thesis by (simp add: gate_admit_def first_in_order_def take_slot_exact)
next
  case (Some k)
  let ?key = "order_key sha flow k"
  from first_in_order_exact [OF Some refl refl, where sha = sha and flow = flow and job = job and w = w and queue = queue] obtain s' where first:
    "run (perform R) (first_in_order sha (isJobAlive queue) flow job t) w =
      (Inr (card (ahead R ?key job (registered ?key job (enqueuedAt t) (sets w))) \<le> 5 \<and>
        (\<forall>m \<in> ahead R ?key job (registered ?key job (enqueuedAt t) (sets w)). \<not> alive queue w m)),
       w\<lparr>sets := s'\<rparr>)"
    "\<forall>k' m. k' \<noteq> ?key \<longrightarrow> zscore R k' m s' = zscore R k' m (sets w)"
    by blast
  have "free_slot R ttl flow job t (w\<lparr>sets := s'\<rparr>) = free_slot R ttl flow job t w"
    by (rule free_slot_cong) (simp_all add: first(2) order_key_not_active [OF assms, symmetric])
  then show ?thesis using Some first(1)
    by (auto simp: gate_admit_def run_simps Let_def take_slot_exact)
qed

text \<open>A call that finds more than five dead jobs ahead removes five of them.\<close>

lemma admit_progress:
  assumes hex: "hex_digest sha" and k: "orderKey t = Some k" and key: "key = order_key sha flow k"
    and before: "before = ahead R key job (registered key job (enqueuedAt t) (sets w))"
    and dead: "\<forall>m \<in> before. \<not> alive queue w m" and many: "card before > 5"
    and w': "w' = snd (run (perform R) (gate_admit sha (isJobAlive queue) ttl flow job t) w)"
  shows "card (ahead R key job (registered key job (enqueuedAt t) (sets w'))) = card before - 5 \<and>
    (\<forall>m \<in> ahead R key job (registered key job (enqueuedAt t) (sets w')). \<not> alive queue w' m) \<and>
    free_slot R ttl flow job t w' = free_slot R ttl flow job t w"
proof -
  from first_in_order_exact [OF k key before, where queue = queue] obtain s' where first:
    "run (perform R) (first_in_order sha (isJobAlive queue) flow job t) w =
      (Inr (card before \<le> 5 \<and> (\<forall>m \<in> before. \<not> alive queue w m)), w\<lparr>sets := s'\<rparr>)"
    "\<forall>k' m. k' \<noteq> key \<longrightarrow> zscore R k' m s' = zscore R k' m (sets w)"
    "card (ahead R key job s') = card before - 5" "ahead R key job s' \<subseteq> before" "job \<in> members R key s'"
    using dead by blast
  have w'_eq: "w' = w\<lparr>sets := s'\<rparr>"
    unfolding w' using first(1) many by (simp add: gate_admit_def run_simps)
  have "ahead R key job (registered key job (enqueuedAt t) s') = ahead R key job s'"
    using first(5) by (intro ahead_cong) (auto simp: zscore_zadd_nx members_def)
  moreover have "alive queue w' m = alive queue w m" for m
  proof -
    have "alive_at w' names m = alive_at w names m" for names
      unfolding w'_eq by (induction names) (auto split: option.split)
    then show ?thesis by (simp add: alive_def)
  qed
  moreover have "free_slot R ttl flow job t w' = free_slot R ttl flow job t w"
    unfolding w'_eq
    by (rule free_slot_cong) (simp_all add: first(2) key order_key_not_active [OF hex, symmetric])
  ultimately show ?thesis using first(3,4) dead by (auto simp: w'_eq)
qed

lemma dead_jobs_pass:
  assumes hex: "hex_digest sha" and k: "orderKey t = Some k" and key: "key = order_key sha flow k"
    and "\<forall>m \<in> ahead R key job (registered key job (enqueuedAt t) (sets w)). \<not> alive queue w m"
    and "free_slot R ttl flow job t w"
    and admit: "admit = gate_admit sha (isJobAlive queue) ttl flow job t"
  shows "\<exists>n \<le> card (ahead R key job (registered key job (enqueuedAt t) (sets w))) div 5.
    fst (run (perform R) admit (((\<lambda>w. snd (run (perform R) admit w)) ^^ n) w)) = Inr True"
  using assms(4,5)
proof (induction "card (ahead R key job (registered key job (enqueuedAt t) (sets w)))" arbitrary: w rule: less_induct)
  case less
  let ?before = "\<lambda>w. ahead R key job (registered key job (enqueuedAt t) (sets w))"
  let ?next = "\<lambda>w. snd (run (perform R) admit w)"
  show ?case
  proof (cases "card (?before w) \<le> 5")
    case True
    then have "fst (run (perform R) admit w) = Inr True"
      using admit_answer [OF hex, where queue = queue and ttl = ttl and flow = flow and job = job and t = t and w = w] k key less.prems unfolding admit by (auto simp: Let_def)
    then show ?thesis by (intro exI [of _ 0]) simp
  next
    case False
    from admit_progress [OF hex k key refl less.prems(1) _ refl, where ttl = ttl] False
    have after: "card (?before (?next w)) = card (?before w) - 5"
      "\<forall>m \<in> ?before (?next w). \<not> alive queue (?next w) m" "free_slot R ttl flow job t (?next w)"
      using less.prems(2) unfolding admit by auto
    obtain n where n: "n \<le> card (?before (?next w)) div 5"
      "fst (run (perform R) admit ((?next ^^ n) (?next w))) = Inr True"
      using less.hyps [of "?next w"] after False by auto
    have "Suc n \<le> card (?before w) div 5" using n(1) after(1) False by (simp add: le_div_geq)
    moreover have "fst (run (perform R) admit ((?next ^^ Suc n) w)) = Inr True"
      using n(2) by (simp only: funpow_Suc_right comp_apply)
    ultimately show ?thesis by blast
  qed
qed

end

end
