(* ===== verification/Admission_Laws.thy ===== *)
theory Admission_Laws
  imports Run_Admission Gate_Order
begin

text \<open>
  What the interceptors hold. A job has up to four slots: in the pools of its project, of its tenant, of
  the installation and of its workflow. The triple \<open>returns P p Q\<close> says that from every state satisfying
  \<open>P\<close> the program returns a value (it does not throw) with \<open>Q\<close> of the value and the new state, when no
  call fails.
\<close>

definition returns :: "'s redis \<Rightarrow> ('s job_world \<Rightarrow> bool) \<Rightarrow> 'a job_async \<Rightarrow> ('a \<Rightarrow> 's job_world \<Rightarrow> bool) \<Rightarrow> bool" where
  "returns R P p Q \<longleftrightarrow> (\<forall>w. P w \<longrightarrow> (\<exists>x w'. run (perform R) p w = (Inr x, w') \<and> Q x w'))"

named_theorems returns_rules \<open>rules for programs that return\<close>

lemma returns_aret [returns_rules]: "(\<And>w. P w \<Longrightarrow> Q x w) \<Longrightarrow> returns R P (aret x) Q"
  by (simp add: returns_def)

lemma returns_abind:
  assumes "returns R P p M" and "\<And>x. returns R (M x) (f x) Q"
  shows "returns R P (abind p f) Q"
  using assms unfolding returns_def run_abind by fastforce

lemma returns_athen: "returns R P p (\<lambda>_. M) \<Longrightarrow> returns R M q Q \<Longrightarrow> returns R P (athen p q) Q"
  unfolding athen_def by (rule returns_abind)

lemma returns_atry_then:
  "returns R P p (\<lambda>_. Q ()) \<Longrightarrow> returns R P (athen (atry p) (aret ())) Q"
  by (fastforce simp: returns_def run_simps)

lemma returns_effect:
  "(\<And>w. P w \<Longrightarrow> \<exists>v. fst (perform R op w) = Inr v \<and> Q () (snd (perform R op w))) \<Longrightarrow> returns R P (effect op) Q"
  by (fastforce simp: returns_def run_effect split: prod.split)

lemma returns_acall:
  "(\<And>w. P w \<Longrightarrow> \<exists>v. perform R op w = (Inr v, snd (perform R op w)) \<and> Q (f v) (snd (perform R op w))) \<Longrightarrow>
    returns R P (acall op f) Q"
  by (fastforce simp: returns_def run_acall split: prod.split)

lemma returns_weaken: "returns R P p M \<Longrightarrow> (\<And>x w. M x w \<Longrightarrow> Q x w) \<Longrightarrow> returns R P p Q"
  by (fastforce simp: returns_def)

lemma returns_strengthen: "returns R P' p Q \<Longrightarrow> (\<And>w. P w \<Longrightarrow> P' w) \<Longrightarrow> returns R P p Q"
  by (fastforce simp: returns_def)

subsection \<open>Slots\<close>

definition project_slot :: "'s redis \<Rightarrow> admission \<Rightarrow> 's job_world \<Rightarrow> bool" where
  "project_slot R a w \<longleftrightarrow>
     pool_member (jobData a) (jobId a) \<in> members R (project_pool_key (jobProject (jobData a))) (sets w)"

definition tenant_slot :: "'s redis \<Rightarrow> admission \<Rightarrow> 's job_world \<Rightarrow> bool" where
  "tenant_slot R a w \<longleftrightarrow>
     pool_member (jobData a) (jobId a) \<in> members R (tenant_pool_key (jobTenant (jobData a))) (sets w)"

definition instance_slot :: "'s redis \<Rightarrow> admission \<Rightarrow> 's job_world \<Rightarrow> bool" where
  "instance_slot R a w \<longleftrightarrow> jobId a \<in> members R ACTIVE_RUNS_KEY (sets w)"

definition workflow_slot :: "'s redis \<Rightarrow> admission \<Rightarrow> 's job_world \<Rightarrow> bool" where
  "workflow_slot R a w \<longleftrightarrow> jobId a \<in> members R (active_key (jobWorkflow (jobData a))) (sets w)"

definition tenant_limit :: "admission_settings \<Rightarrow> string \<Rightarrow> 's job_world \<Rightarrow> int option" where
  "tenant_limit cfg t w = (case cached w (tenant_limit_key t) of
     Some l \<Rightarrow> if l = -1 then None else Some l
   | None \<Rightarrow> stricter (case tenant_rows w t of None \<Rightarrow> None | Some l \<Rightarrow> l) (systemConcurrentExecutions cfg))"

text \<open>The slots a job may hold after the interceptors in \<open>passed\<close> have let it through.\<close>

definition held_by :: "'s redis \<Rightarrow> admission \<Rightarrow> interceptor set \<Rightarrow> 's job_world \<Rightarrow> bool" where
  "held_by R a passed w \<longleftrightarrow>
     (project_slot R a w \<longrightarrow> RateLimiter \<in> passed \<and> isLimitableJob (jobData a) \<and> projectLimiterEnabled (settings a)) \<and>
     (tenant_slot R a w \<longrightarrow> RateLimiter \<in> passed \<and> isLimitableJob (jobData a) \<and>
       tenant_limit (settings a) (jobTenant (jobData a)) w \<noteq> None) \<and>
     (instance_slot R a w \<longrightarrow> InstanceConcurrency \<in> passed \<and> isCounted (jobData a)) \<and>
     (workflow_slot R a w \<longrightarrow> WorkflowConcurrency \<in> passed \<and> gate_ticket (jobData a) \<noteq> None)"

lemmas slot_defs = project_slot_def tenant_slot_def instance_slot_def workflow_slot_def

lemma key_apart [simp]:
  "project_pool_key p \<noteq> tenant_pool_key t" "tenant_pool_key t \<noteq> project_pool_key p"
  "project_pool_key p \<noteq> ACTIVE_RUNS_KEY" "ACTIVE_RUNS_KEY \<noteq> project_pool_key p"
  "tenant_pool_key p \<noteq> ACTIVE_RUNS_KEY" "ACTIVE_RUNS_KEY \<noteq> tenant_pool_key p"
  "project_pool_key p \<noteq> active_key f" "active_key f \<noteq> project_pool_key p"
  "tenant_pool_key p \<noteq> active_key f" "active_key f \<noteq> tenant_pool_key p"
  "ACTIVE_RUNS_KEY \<noteq> active_key f" "active_key f \<noteq> ACTIVE_RUNS_KEY"
  "order_key sha f k \<noteq> project_pool_key p" "order_key sha f k \<noteq> tenant_pool_key p"
  "order_key sha f k \<noteq> ACTIVE_RUNS_KEY" "project_limit_key p \<noteq> tenant_limit_key t"
  by (auto simp: project_pool_key_def tenant_pool_key_def ACTIVE_RUNS_KEY_def active_key_def key_prefix_def
      order_key_def project_limit_key_def tenant_limit_key_def)

definition held_others :: "'s redis \<Rightarrow> admission \<Rightarrow> interceptor set \<Rightarrow> 's job_world \<Rightarrow> bool" where
  "held_others R a passed w \<longleftrightarrow>
     (project_slot R a w \<longrightarrow> RateLimiter \<in> passed \<and> isLimitableJob (jobData a) \<and> projectLimiterEnabled (settings a)) \<and>
     (instance_slot R a w \<longrightarrow> InstanceConcurrency \<in> passed \<and> isCounted (jobData a)) \<and>
     (workflow_slot R a w \<longrightarrow> WorkflowConcurrency \<in> passed \<and> gate_ticket (jobData a) \<noteq> None)"

lemma held_by_cong:
  assumes "\<And>k m. k \<in> {project_pool_key (jobProject (jobData a)), tenant_pool_key (jobTenant (jobData a)),
      ACTIVE_RUNS_KEY, active_key (jobWorkflow (jobData a))} \<Longrightarrow> zscore R k m (sets w') = zscore R k m (sets w)"
    and "tenant_limit (settings a) (jobTenant (jobData a)) w' = tenant_limit (settings a) (jobTenant (jobData a)) w"
  shows "held_by R a passed w' = held_by R a passed w"
  using assms by (simp add: held_by_def slot_defs members_def)

lemma tenant_limit_sets [simp]: "tenant_limit cfg t (w\<lparr>sets := s\<rparr>) = tenant_limit cfg t w"
  by (simp add: tenant_limit_def split: option.split)

lemma held_by_none: "held_by R a {} w \<longleftrightarrow>
  \<not> project_slot R a w \<and> \<not> tenant_slot R a w \<and> \<not> instance_slot R a w \<and> \<not> workflow_slot R a w"
  by (simp add: held_by_def)

context sorted_sets
begin

lemma acquire_slots:
  assumes "acquire_script R key now ttl limit member s = (x, s')"
  shows "k \<noteq> key \<Longrightarrow> members R k s' = members R k s"
    and "members R key s' \<subseteq> insert member (members R key s)"
    and "x \<noteq> 0 \<Longrightarrow> member \<notin> members R key s'"
    and "x = 0 \<Longrightarrow> member \<in> members R key s'"
    and "x = 0 \<Longrightarrow> member \<notin> members R key (zremrangebyscore R key (now - ttl) s) \<Longrightarrow> int (card (members R key s')) \<le> limit"
proof -
  let ?s = "zremrangebyscore R key (now - ttl) s"
  have pruned: "members R key ?s \<subseteq> members R key s" by (rule members_prune)
  note cases = assms [unfolded acquire_script_def Let_def]
  show "k \<noteq> key \<Longrightarrow> members R k s' = members R k s"
    using cases by (auto simp: members_simps members_prune_other split: if_splits)
  show "members R key s' \<subseteq> insert member (members R key s)"
    using cases pruned by (auto simp: members_simps split: if_splits)
  show "x \<noteq> 0 \<Longrightarrow> member \<notin> members R key s'"
    using cases by (auto simp: members_def split: if_splits)
  show "x = 0 \<Longrightarrow> member \<in> members R key s'"
    using cases by (auto simp: members_simps split: if_splits) (auto simp: members_def)
  assume "x = 0" "member \<notin> members R key ?s"
  then have "s' = zexpire R key ttl (zadd R key now member ?s)" "int (card (members R key ?s)) < limit"
    using cases by (auto simp: members_def zcard_members split: if_splits)
  then show "int (card (members R key s')) \<le> limit"
    using \<open>member \<notin> members R key ?s\<close> finite_members by (simp add: members_simps)
qed

subsubsection \<open>Limits\<close>

lemma returns_max_jobs:
  "returns R (held_by R a passed) (getMaxConcurrentJobs cfg p) (\<lambda>_. held_by R a passed)"
proof -
  have keep: "held_by R a passed (w\<lparr>cached := (cached w)(project_limit_key p \<mapsto> l)\<rparr>) = held_by R a passed w" for w :: "'s job_world" and l
    by (rule held_by_cong) (simp_all add: tenant_limit_def key_apart(16) [symmetric] split: option.split)
  show ?thesis
    by (auto simp: returns_def getMaxConcurrentJobs_def run_simps run_effect Let_def keep split: option.splits sum.splits)
qed

lemma returns_tenant_limit:
  "returns R (\<lambda>w. held_by R a passed w \<and> (free \<longrightarrow> \<not> tenant_slot R a w) \<and>
      (clear \<longrightarrow> \<not> project_slot R a w))
    (getConcurrentExecutionsLimit (settings a) (jobTenant (jobData a)))
    (\<lambda>l w. held_others R a passed w \<and> (free \<longrightarrow> \<not> tenant_slot R a w) \<and> (clear \<longrightarrow> \<not> project_slot R a w) \<and>
      (tenant_slot R a w \<longrightarrow> RateLimiter \<in> passed \<and> isLimitableJob (jobData a) \<and> l \<noteq> None) \<and>
      (l \<noteq> Some (-1) \<longrightarrow> tenant_limit (settings a) (jobTenant (jobData a)) w = l))"
proof -
  have "project_slot R a (w\<lparr>cached := c\<rparr>) = project_slot R a w" "tenant_slot R a (w\<lparr>cached := c\<rparr>) = tenant_slot R a w"
    "instance_slot R a (w\<lparr>cached := c\<rparr>) = instance_slot R a w" "workflow_slot R a (w\<lparr>cached := c\<rparr>) = workflow_slot R a w"
    for w :: "'s job_world" and c
    by (simp_all add: slot_defs)
  then show ?thesis
    by (auto simp: returns_def getConcurrentExecutionsLimit_def run_simps run_effect Let_def held_by_def
        held_others_def tenant_limit_def split: option.splits)
qed

lemma returns_acquire:
  assumes "\<And>w s'. P w \<Longrightarrow> acquire_script R key (clock w) (job_ttl_ms cfg) limit member (sets w) = (0, s') \<Longrightarrow> Q True (w\<lparr>sets := s'\<rparr>)"
    and "\<And>w s' x. P w \<Longrightarrow> x \<noteq> 0 \<Longrightarrow> acquire_script R key (clock w) (job_ttl_ms cfg) limit member (sets w) = (x, s') \<Longrightarrow> Q False (w\<lparr>sets := s'\<rparr>)"
  shows "returns R P (acquireInPool cfg key member limit) Q"
  unfolding returns_def
proof (intro allI impI)
  fix w
  assume P: "P w"
  obtain x s' where eq: "acquire_script R key (clock w) (job_ttl_ms cfg) limit member (sets w) = (x, s')" by force
  show "\<exists>x w'. run (perform R) (acquireInPool cfg key member limit) w = (Inr x, w') \<and> Q x w'"
    using assms(1) [OF P] assms(2) [OF P _ eq] eq
    by (cases "x = 0") (auto simp: acquireInPool_def date_now_def run_simps)
qed

lemma not_in_pruned: "m \<notin> members R k s \<Longrightarrow> m \<notin> members R k (zremrangebyscore R k x s)"
  using members_prune by blast

lemma returns_limiter:
  assumes "RateLimiter \<notin> passed"
  shows "returns R (held_by R a passed) (preDispatch a RateLimiter)
    (\<lambda>v. held_by R a (if v = ALLOW then insert RateLimiter passed else passed))"
proof (cases "isLimitableJob (jobData a)")
  case False
  then show ?thesis by (auto simp: limiter_preDispatch_def held_by_def intro: returns_rules)
next
  case True
  let ?pk = "project_pool_key (jobProject (jobData a))" and ?tk = "tenant_pool_key (jobTenant (jobData a))"
  let ?m = "pool_member (jobData a) (jobId a)"
  have project: "returns R (held_by R a passed)
      (if projectLimiterEnabled (settings a) then tryAcquireSlot (settings a) (jobId a) (jobData a) else aret True)
      (\<lambda>allowed w. held_by R a (if allowed then insert RateLimiter passed else passed) w \<and> (True \<longrightarrow> \<not> tenant_slot R a w) \<and>
        (False \<longrightarrow> \<not> project_slot R a w))"
  proof (cases "projectLimiterEnabled (settings a)")
    case off: False
    then show ?thesis using assms by (auto simp: held_by_def intro!: returns_aret)
  next
    case on: True
    show ?thesis
      unfolding if_P [OF on] tryAcquireSlot_def
      by (rule returns_abind [OF returns_max_jobs], rule returns_acquire)
        (use True on assms in \<open>auto simp: held_by_def slot_defs acquire_slots dest: acquire_slots(2-4)\<close>)
  qed
  have tenant: "returns R (\<lambda>w. held_others R a (insert RateLimiter passed) w \<and> \<not> tenant_slot R a w \<and>
      (limit \<noteq> -1 \<longrightarrow> tenant_limit (settings a) (jobTenant (jobData a)) w = Some limit))
      (tryAcquireTenantSlot (settings a) (jobId a) (jobData a) limit)
      (\<lambda>allowed. if allowed then held_by R a (insert RateLimiter passed)
        else (\<lambda>w. held_others R a (insert RateLimiter passed) w \<and> \<not> tenant_slot R a w))" for limit
    unfolding tryAcquireTenantSlot_def
  proof (rule returns_acquire)
    fix w s'
    assume w: "held_others R a (insert RateLimiter passed) w \<and> \<not> tenant_slot R a w \<and>
        (limit \<noteq> -1 \<longrightarrow> tenant_limit (settings a) (jobTenant (jobData a)) w = Some limit)"
      and acquired: "acquire_script R ?tk (clock w) (job_ttl_ms (settings a)) limit ?m (sets w) = (0, s')"
    have "?m \<notin> members R ?tk (zremrangebyscore R ?tk (clock w - job_ttl_ms (settings a)) (sets w))"
      using w by (intro not_in_pruned) (simp add: tenant_slot_def)
    then have "int (card (members R ?tk s')) \<le> limit" using acquire_slots(5) [OF acquired] by simp
    then have "limit \<noteq> -1" by linarith
    then show "(if True then held_by R a (insert RateLimiter passed)
        else (\<lambda>w. held_others R a (insert RateLimiter passed) w \<and> \<not> tenant_slot R a w)) (w\<lparr>sets := s'\<rparr>)"
      using w True acquire_slots(1) [OF acquired]
      by (simp add: held_by_def held_others_def slot_defs)
  qed (auto simp: held_others_def slot_defs acquire_slots dest: acquire_slots(2,3))
  have release: "returns R (\<lambda>w. held_others R a (insert RateLimiter passed) w \<and> \<not> tenant_slot R a w)
      (if projectLimiterEnabled (settings a) then releaseSlot (jobId a) (jobData a) else aret ())
      (\<lambda>_. held_by R a passed)"
    using assms by (auto simp: releaseSlot_def releaseFromPool_def held_by_def held_others_def slot_defs members_zrem
        intro!: returns_effect returns_aret)
  have refuse: "returns R (\<lambda>w. held_others R a (insert RateLimiter passed) w \<and> \<not> tenant_slot R a w)
      (athen (if projectLimiterEnabled (settings a) then releaseSlot (jobId a) (jobData a) else aret ())
        (aret (rejectJob (attemptsMade a))))
      (\<lambda>v. held_by R a (if v = ALLOW then insert RateLimiter passed else passed))"
    by (rule returns_athen [OF release]) (auto simp: rejectJob_def intro: returns_aret)
  have decide: "returns R (\<lambda>w. held_others R a (insert RateLimiter passed) w \<and> (True \<longrightarrow> \<not> tenant_slot R a w) \<and>
        (False \<longrightarrow> \<not> project_slot R a w) \<and>
        (tenant_slot R a w \<longrightarrow> RateLimiter \<in> insert RateLimiter passed \<and> isLimitableJob (jobData a) \<and> l \<noteq> None) \<and>
        (l \<noteq> Some (-1) \<longrightarrow> tenant_limit (settings a) (jobTenant (jobData a)) w = l))
      (case l of None \<Rightarrow> aret ALLOW
       | Some limit \<Rightarrow> abind (tryAcquireTenantSlot (settings a) (jobId a) (jobData a) limit) (\<lambda>tenantAllowed.
           if tenantAllowed then aret ALLOW
           else athen (if projectLimiterEnabled (settings a) then releaseSlot (jobId a) (jobData a) else aret ())
             (aret (rejectJob (attemptsMade a)))))
      (\<lambda>v. held_by R a (if v = ALLOW then insert RateLimiter passed else passed))" for l
  proof (cases l)
    case None
    then show ?thesis by (auto simp: held_by_def held_others_def intro!: returns_aret)
  next
    case (Some limit)
    show ?thesis unfolding Some option.case
    proof (rule returns_abind)
      show "returns R (\<lambda>w. held_others R a (insert RateLimiter passed) w \<and> (True \<longrightarrow> \<not> tenant_slot R a w) \<and>
          (False \<longrightarrow> \<not> project_slot R a w) \<and>
          (tenant_slot R a w \<longrightarrow> RateLimiter \<in> insert RateLimiter passed \<and> isLimitableJob (jobData a) \<and> Some limit \<noteq> None) \<and>
          (Some limit \<noteq> Some (-1) \<longrightarrow> tenant_limit (settings a) (jobTenant (jobData a)) w = Some limit))
        (tryAcquireTenantSlot (settings a) (jobId a) (jobData a) limit)
        (\<lambda>allowed. if allowed then held_by R a (insert RateLimiter passed)
          else (\<lambda>w. held_others R a (insert RateLimiter passed) w \<and> \<not> tenant_slot R a w))"
        by (rule returns_strengthen [OF tenant]) auto
    qed (use refuse in \<open>simp add: returns_aret\<close>)
  qed
  show ?thesis
    using True unfolding preDispatch.simps limiter_preDispatch_def
    apply (simp split del: if_split)
    apply (rule returns_abind [OF project])
    subgoal for allowed
      by (cases allowed) (use returns_abind [OF returns_tenant_limit decide] in \<open>auto simp: rejectJob_def intro!: returns_aret\<close>)
    done
qed

subsubsection \<open>The other interceptors\<close>

lemma tenant_limit_worlds [simp]:
  "tenant_limit cfg t (w\<lparr>run_status := r\<rparr>) = tenant_limit cfg t w"
  "tenant_limit cfg t (w\<lparr>repeating := p\<rparr>) = tenant_limit cfg t w"
  by (simp_all add: tenant_limit_def split: option.split)

lemma held_by_worlds [simp]:
  "held_by R a passed (w\<lparr>run_status := r\<rparr>) = held_by R a passed w"
  "held_by R a passed (w\<lparr>repeating := p\<rparr>) = held_by R a passed w"
  by (simp_all add: held_by_def slot_defs)

lemma held_by_more: "held_by R a passed w \<Longrightarrow> passed \<subseteq> passed' \<Longrightarrow> held_by R a passed' w"
  by (auto simp: held_by_def)

lemma returns_suspension:
  "returns R (held_by R a passed) (preDispatch a TenantSuspension)
    (\<lambda>v. held_by R a (if v = ALLOW then insert TenantSuspension passed else passed))"
  by (auto simp: returns_def suspension_preDispatch_def cancelQueuedRun_def run_simps run_effect intro: held_by_more
      split: if_splits)

lemma returns_zombie:
  "returns R (held_by R a passed) (preDispatch a ZombiePolling)
    (\<lambda>v. held_by R a (if v = ALLOW then insert ZombiePolling passed else passed))"
  by (auto simp: returns_def zombie_preDispatch_def run_simps run_effect intro: held_by_more split: if_splits)

lemma instance_tryAcquire_pool: "instance_tryAcquire cfg job limit = acquireInPool cfg ACTIVE_RUNS_KEY job limit"
  by (simp add: instance_tryAcquire_def acquireInPool_def)

lemma returns_instance:
  assumes "InstanceConcurrency \<notin> passed"
  shows "returns R (held_by R a passed) (preDispatch a InstanceConcurrency)
    (\<lambda>v. held_by R a (if v = ALLOW then insert InstanceConcurrency passed else passed))"
proof (cases "concurrentRuns (settings a) = None \<or> \<not> isCounted (jobData a)")
  case True
  then show ?thesis
    by (auto simp: instance_preDispatch_def intro!: returns_aret split: option.split intro: held_by_more)
next
  case False
  then obtain limit where limit: "concurrentRuns (settings a) = Some limit" "isCounted (jobData a)" by auto
  have acquire: "returns R (held_by R a passed) (instance_tryAcquire (settings a) (jobId a) limit)
      (\<lambda>allowed. held_by R a (if allowed then insert InstanceConcurrency passed else passed))"
    unfolding instance_tryAcquire_pool
    by (rule returns_acquire)
      (use limit(2) assms in \<open>auto simp: held_by_def slot_defs acquire_slots dest: acquire_slots(2-4)\<close>)
  have "\<exists>x w'. run (perform R) (instance_tryAcquire (settings a) (jobId a) limit) w = (Inr x, w') \<and>
      held_by R a (if x then insert InstanceConcurrency passed else passed) w'" if "held_by R a passed w" for w
    using acquire that by (simp add: returns_def)
  then show ?thesis
    by (fastforce simp: returns_def instance_preDispatch_def limit run_simps split: bool.split)
qed

lemma returns_gate:
  assumes "WorkflowConcurrency \<notin> passed" and hex: "hex_digest (digest a)"
  shows "returns R (held_by R a passed) (preDispatch a WorkflowConcurrency)
    (\<lambda>v. held_by R a (if v = ALLOW then insert WorkflowConcurrency passed else passed))"
proof (cases "gate_ticket (jobData a)")
  case None
  then show ?thesis by (auto simp: concurrency_preDispatch_def intro!: returns_aret intro: held_by_more)
next
  case (Some t)
  let ?flow = "jobWorkflow (jobData a)"
  have first: "returns R (held_by R a passed) (first_in_order (digest a) (isJobAlive (queueName a)) ?flow (jobId a) t)
      (\<lambda>_. held_by R a passed)"
  proof (cases "orderKey t")
    case None
    then show ?thesis by (simp add: first_in_order_def returns_aret)
  next
    case (Some k)
    have "\<exists>x w'. run (perform R) (first_in_order (digest a) (isJobAlive (queueName a)) ?flow (jobId a) t) w = (Inr x, w') \<and>
        held_by R a passed w'" if w: "held_by R a passed w" for w
    proof -
      from first_in_order_exact [OF Some refl refl, where sha = "digest a" and flow = ?flow and job = "jobId a" and w = w
          and queue = "queueName a"] obtain x s' where
        "run (perform R) (first_in_order (digest a) (isJobAlive (queueName a)) ?flow (jobId a) t) w = (Inr x, w\<lparr>sets := s'\<rparr>)"
        "\<forall>k' m. k' \<noteq> order_key (digest a) ?flow k \<longrightarrow> zscore R k' m s' = zscore R k' m (sets w)"
        by blast
      moreover from this(2) have "held_by R a passed (w\<lparr>sets := s'\<rparr>) = held_by R a passed w"
        by (intro held_by_cong) (auto simp: order_key_not_active [OF hex, symmetric] key_apart(13-15) [symmetric])
      ultimately show ?thesis using w by simp
    qed
    then show ?thesis by (simp add: returns_def)
  qed
  have slot: "returns R (held_by R a passed) (take_slot (job_ttl_ms (settings a)) ?flow (jobId a) t)
      (\<lambda>admitted. held_by R a (if admitted then insert WorkflowConcurrency passed else passed))"
  proof -
    have pruned: "held_by R a passed (w\<lparr>sets := zremrangebyscore R (active_key ?flow) x (sets w)\<rparr>)"
      if "held_by R a passed w" for w x
      using that members_prune [of "active_key ?flow" "active_key ?flow" x "sets w"]
      by (auto simp: held_by_def slot_defs members_prune_other)
    have marked: "held_by R a (insert WorkflowConcurrency passed)
        (w\<lparr>sets := zexpire R k ttl (zadd R (active_key ?flow) y (jobId a)
          (zremrangebyscore R (active_key ?flow) x (sets w)))\<rparr>)"
      if "held_by R a passed w" for w x y k ttl
      using pruned [OF that, of x] Some by (auto simp: held_by_def slot_defs members_simps members_prune_other)
    show ?thesis
      by (auto simp: returns_def take_slot_def store_defs run_simps run_effect intro: held_by_more pruned marked)
  qed
  have admit: "returns R (held_by R a passed)
      (abind (first_in_order (digest a) (isJobAlive (queueName a)) ?flow (jobId a) t) (\<lambda>first.
        if first then take_slot (job_ttl_ms (settings a)) ?flow (jobId a) t else aret False))
      (\<lambda>admitted. held_by R a (if admitted then insert WorkflowConcurrency passed else passed))"
    by (rule returns_abind [OF first]) (use slot in \<open>auto intro: returns_aret\<close>)
  then have "returns R (held_by R a passed)
      (gate_admit (digest a) (isJobAlive (queueName a)) (job_ttl_ms (settings a)) ?flow (jobId a) t)
      (\<lambda>admitted. held_by R a (if admitted then insert WorkflowConcurrency passed else passed))"
    by (simp add: returns_def gate_admit_def)
  then show ?thesis
    unfolding preDispatch.simps concurrency_preDispatch_def Some option.case
    by (rule returns_abind) (auto intro!: returns_aret)
qed

lemma returns_preDispatch:
  assumes "i \<notin> passed" and "hex_digest (digest a)"
  shows "returns R (held_by R a passed) (preDispatch a i) (\<lambda>v. held_by R a (if v = ALLOW then insert i passed else passed))"
  by (cases i) (use assms in \<open>auto intro: returns_suspension returns_limiter returns_zombie returns_instance returns_gate
      simp del: preDispatch.simps\<close>)

subsubsection \<open>Cleaning up\<close>

lemma returns_finished: "returns R (held_by R a passed) (onJobFinished a i) (\<lambda>_. held_by R a (passed - {i}))"
proof (cases i)
  case RateLimiter
  have project: "returns R (held_by R a passed)
      (if projectLimiterEnabled (settings a) then releaseSlot (jobId a) (jobData a) else aret ())
      (\<lambda>_ w. held_by R a passed w \<and> (False \<longrightarrow> \<not> tenant_slot R a w) \<and> (True \<longrightarrow> \<not> project_slot R a w))"
    by (auto simp: releaseSlot_def releaseFromPool_def held_by_def slot_defs members_zrem intro!: returns_effect returns_aret)
  have tenant: "returns R (\<lambda>w. held_others R a passed w \<and> (False \<longrightarrow> \<not> tenant_slot R a w) \<and>
        (True \<longrightarrow> \<not> project_slot R a w) \<and>
        (tenant_slot R a w \<longrightarrow> RateLimiter \<in> passed \<and> isLimitableJob (jobData a) \<and> l \<noteq> None) \<and>
        (l \<noteq> Some (-1) \<longrightarrow> tenant_limit (settings a) (jobTenant (jobData a)) w = l))
      (case l of None \<Rightarrow> aret () | Some _ \<Rightarrow> releaseTenantSlot (jobId a) (jobData a))
      (\<lambda>_. held_by R a (passed - {RateLimiter}))" for l
    by (auto simp: releaseTenantSlot_def releaseFromPool_def held_by_def held_others_def slot_defs members_zrem
        intro!: returns_effect returns_aret split: option.split)
  show ?thesis
  proof (cases "isLimitableJob (jobData a)")
    case True
    then show ?thesis unfolding RateLimiter onJobFinished.simps limiter_onJobFinished_def
      by (simp split del: if_split) (rule returns_athen [OF project], rule returns_abind [OF returns_tenant_limit tenant])
  next
    case False
    then show ?thesis unfolding RateLimiter
      by (auto simp: limiter_onJobFinished_def held_by_def intro!: returns_aret)
  qed
qed (auto simp: returns_def instance_onJobFinished_def concurrency_onJobFinished_def gate_release_def removeActive_def
    removeFromQueue_def held_by_def slot_defs members_zrem run_simps run_effect split: option.splits)

lemma returns_clean_up: "returns R (held_by R a passed) (clean_up a is) (\<lambda>_. held_by R a (passed - set is))"
proof -
  have "returns R (held_by R a passed) (aeach (\<lambda>i. athen (atry (onJobFinished a i)) (aret ())) is)
      (\<lambda>_. held_by R a (passed - set is))" for passed
  proof (induction "is" arbitrary: passed)
    case Nil
    then show ?case by (simp add: returns_aret)
  next
    case (Cons i "is")
    have "passed - set (i # is) = passed - {i} - set is" by auto
    then show ?case unfolding aeach.simps
      using returns_athen [OF returns_atry_then [OF returns_finished] Cons.IH] by simp
  qed
  then show ?thesis by (simp add: clean_up_def)
qed

lemma returns_intercept:
  assumes "distinct (passed @ is)" and hex: "hex_digest (digest a)"
  shows "returns R (held_by R a (set passed)) (intercept a passed is)
    (\<lambda>v. held_by R a (if v = ALLOW then set passed \<union> set is else {}))"
  using assms(1)
proof (induction "is" arbitrary: passed)
  case Nil
  then show ?case by (simp add: returns_aret)
next
  case (Cons i "is")
  have refuse: "returns R (held_by R a (set passed)) (athen (clean_up a passed) (aret v))
      (\<lambda>v. held_by R a (if v = ALLOW then set passed \<union> set (i # is) else {}))" if "v \<noteq> ALLOW" for v
    by (rule returns_athen [OF returns_clean_up]) (use that in \<open>auto intro: returns_aret\<close>)
  have go_on: "returns R (held_by R a (insert i (set passed))) (intercept a (passed @ [i]) is)
      (\<lambda>v. held_by R a (if v = ALLOW then set passed \<union> set (i # is) else {}))"
  proof -
    have eq: "insert i (set passed) \<union> set is = set passed \<union> set (i # is)" by auto
    have "returns R (held_by R a (insert i (set passed))) (intercept a (passed @ [i]) is)
        (\<lambda>v. held_by R a (if v = ALLOW then insert i (set passed) \<union> set is else {}))"
      using Cons.IH [of "passed @ [i]"] Cons.prems by (simp cong: if_cong)
    then show ?thesis unfolding eq .
  qed
  have "i \<notin> set passed" using Cons.prems by simp
  then show ?case unfolding intercept.simps
    by (rule returns_abind [OF returns_preDispatch [OF _ hex]]) (auto intro: refuse go_on split: verdict.split)
qed

lemma refused_holds_none:
  assumes "hex_digest (digest a)" and "held_by R a {} w" and "run (perform R) (runInterceptors a) w = (Inr v, w')"
    and "v \<noteq> ALLOW"
  shows "held_by R a {} w'"
  using returns_intercept [of "[]" interceptors a] assms
  by (auto simp: returns_def runInterceptors_def interceptors_def)

lemma finished_holds_none:
  assumes "held_by R a (set interceptors) w"
  shows "\<exists>w'. run (perform R) (job_finished a) w = (Inr (), w') \<and> held_by R a {} w'"
  using returns_clean_up [of a "set interceptors" interceptors] assms by (auto simp: returns_def job_finished_def)

end

end
