(* ===== verification/Admission_Limits.thy ===== *)
theory Admission_Limits
  imports Admission_Laws
begin

text \<open>
  The limits under every interleaving of the broker's work: any number of jobs being registered,
  dispatched and finished at once, with any clock, any answers about other jobs, failing calls and
  expiring sets. \<open>workflow_limit\<close> and \<open>instance_limit\<close> watch one set each.
\<close>

datatype broker_call = Register admission | Dispatch admission | Finish admission

fun broker_prog :: "broker_call \<Rightarrow> verdict job_async" where
  "broker_prog (Register a) = athen (concurrency_register (digest a) (jobId a) (jobData a)) (aret ALLOW)"
| "broker_prog (Dispatch a) = runInterceptors a"
| "broker_prog (Finish a) = athen (job_finished a) (aret ALLOW)"

fun admission_of :: "broker_call \<Rightarrow> admission" where
  "admission_of (Register a) = a"
| "admission_of (Dispatch a) = a"
| "admission_of (Finish a) = a"

subsection \<open>Calls that leave a set alone\<close>

lemmas prog_defs = suspension_preDispatch_def cancelQueuedRun_def limiter_preDispatch_def tryAcquireSlot_def
  tryAcquireTenantSlot_def acquireInPool_def getMaxConcurrentJobs_def getConcurrentExecutionsLimit_def
  releaseSlot_def releaseTenantSlot_def releaseFromPool_def zombie_preDispatch_def
  limiter_onJobFinished_def instance_onJobFinished_def effect_def

lemma calm_preDispatch:
  assumes "i \<noteq> InstanceConcurrency" "i \<noteq> WorkflowConcurrency"
    and "\<And>k now ttl l m. k \<in> {project_pool_key (jobProject (jobData a)), tenant_pool_key (jobTenant (jobData a))} \<Longrightarrow>
      P (Acquire_Script k now ttl l m)"
    and "\<And>op. (\<forall>k. \<not> adds_to k op) \<Longrightarrow> P op"
  shows "all_calls P L (preDispatch a i)"
  by (cases i) (use assms in \<open>auto intro!: calls_rules simp: prog_defs date_now_def Let_def split: option.split\<close>)

lemma calm_finished:
  assumes "\<And>op. (\<forall>k. \<not> adds_to k op) \<Longrightarrow> P op"
  shows "all_calls P L (onJobFinished a i)"
  by (cases i) (use assms in \<open>auto intro!: calls_rules simp: prog_defs concurrency_onJobFinished_def gate_release_def
      removeActive_def removeFromQueue_def Let_def split: option.split\<close>)

lemma calm_clean_up:
  assumes "\<And>op. (\<forall>k. \<not> adds_to k op) \<Longrightarrow> P op"
  shows "all_calls P L (clean_up a passed)"
  unfolding clean_up_def by (intro calls_rules calm_finished assms)

lemma calm_instance:
  assumes "\<And>now ttl m l. concurrentRuns (settings a) = Some l \<Longrightarrow> P (Acquire_Script ACTIVE_RUNS_KEY now ttl l m)"
    and "\<And>op. (\<forall>k. \<not> adds_to k op) \<Longrightarrow> P op"
  shows "all_calls P L (preDispatch a InstanceConcurrency)"
  using assms by (auto intro!: calls_rules simp: instance_preDispatch_def instance_tryAcquire_def date_now_def
      split: option.split sum.split bool.split)

text \<open>The programs of the broker give back the locks they take.\<close>

lemma broker_brackets: "brackets {} (broker_prog call)"
proof -
  have flat: "all_calls (\<lambda>_. True) (\<lambda>_. False) (clean_up a passed)" for a passed
    by (rule calm_clean_up) simp
  have live: "all_calls (\<lambda>_. True) (\<lambda>_. False) (live_head_loop (isJobAlive queue) key self n)" for queue key self n
  proof -
    have "all_calls (\<lambda>_. True) (\<lambda>_. False) (alive_in names job)" for names job
      by (induction names) (auto intro!: calls_rules simp: effect_def split: sum.split)
    then show ?thesis
      by (induction n) (auto intro!: calls_rules simp: isJobAlive_def queueHead_def removeFromQueue_def effect_def
          simp del: alive_in.simps split: option.split)
  qed
  have gate: "brackets {} (gate_admit sha (isJobAlive queue) ttl flow job t)" for sha queue ttl flow job t
    unfolding gate_admit_def
    by (auto intro!: brackets_rules calls_rules live simp: first_in_order_def liveQueueHead_def addToQueue_def
        take_slot_def pruneActive_def isActive_def activeCount_def markActive_def date_now_def effect_def split: option.split)
  have pre: "brackets {} (preDispatch a i)" for a i
  proof (cases "i = WorkflowConcurrency")
    case True
    then show ?thesis
      by (auto intro!: brackets_abind gate simp: concurrency_preDispatch_def aret_def split: option.split)
  next
    case False
    then show ?thesis
      by (intro brackets_flat, cases "i = InstanceConcurrency") (auto intro: calm_preDispatch calm_instance simp del: preDispatch.simps)
  qed
  have "brackets {} (intercept a passed is)" for a passed "is"
    by (induction "is" arbitrary: passed)
      (auto intro!: brackets_abind pre brackets_athen brackets_flat [OF flat] simp: aret_def simp del: preDispatch.simps split: verdict.split)
  moreover have "brackets {} (concurrency_register sha job jd)" for sha job jd
    by (intro brackets_flat) (auto intro!: calls_rules simp: concurrency_register_def gate_enqueue_def addToQueue_def
        effect_def split: option.split)
  ultimately show ?thesis
    by (cases call) (auto intro!: brackets_athen brackets_flat [OF flat] simp: runInterceptors_def job_finished_def aret_def)
qed

subsection \<open>The limit of a workflow\<close>

definition ticket_within :: "string \<Rightarrow> int \<Rightarrow> admission \<Rightarrow> bool" where
  "ticket_within flow M a \<longleftrightarrow> (jobWorkflow (jobData a) = flow \<longrightarrow>
     (case gate_ticket (jobData a) of None \<Rightarrow> True | Some t \<Rightarrow> maxConcurrentRuns t \<le> M))"

context sorted_sets
begin

lemma gate_obeys_ret: "obeys (may_answer R) i (gate_rely R flow i) (gate_guarantee R flow M i) (\<lambda>_ _. True) (Ret x) c"
  by simp

lemma preDispatch_obeys:
  assumes "hex_digest (digest a)" and "ticket_within flow M a"
  shows "obeys (may_answer R) j (gate_rely R flow j) (gate_guarantee R flow M j) (\<lambda>_ _. True) (preDispatch a i) c"
proof (cases "i = WorkflowConcurrency")
  case True
  show ?thesis
  proof (cases "gate_ticket (jobData a)")
    case None
    then show ?thesis by (simp add: True concurrency_preDispatch_def aret_def)
  next
    case (Some t)
    have "obeys (may_answer R) j (gate_rely R flow j) (gate_guarantee R flow M j) (\<lambda>_ _. True)
        (gate_prog (digest a) (Admit (queueName a) (job_ttl_ms (settings a)) (jobWorkflow (jobData a)) (jobId a) t)) c"
      by (rule gate_prog_obeys) (use assms Some in \<open>auto simp: ticket_within_def\<close>)
    then show ?thesis unfolding True preDispatch.simps concurrency_preDispatch_def Some option.case gate_prog.simps
      by (rule obeys_abind) (simp_all add: aret_def gate_rely_refl)
  qed
next
  case False
  then show ?thesis
    by (intro harmless_obeys, cases "i = InstanceConcurrency") (auto intro: calm_preDispatch calm_instance simp del: preDispatch.simps)
qed

lemma broker_obeys:
  assumes hex: "hex_digest (digest (admission_of call))" and limit: "ticket_within flow M (admission_of call)"
  shows "obeys (may_answer R) j (gate_rely R flow j) (gate_guarantee R flow M j) (\<lambda>_ _. True) (broker_prog call) c"
proof (cases call)
  case (Register a)
  then show ?thesis using hex
    by (intro harmless_obeys) (auto intro!: calls_rules simp: concurrency_register_def gate_enqueue_def addToQueue_def
        effect_def order_key_not_active split: option.split)
next
  case (Finish a)
  then show ?thesis by (intro harmless_obeys) (auto intro!: calls_rules calm_clean_up simp: job_finished_def)
next
  case (Dispatch a)
  have refuse: "obeys (may_answer R) j (gate_rely R flow j) (gate_guarantee R flow M j) (\<lambda>_ _. True)
      (athen (clean_up a passed) (aret v)) c" for passed v c
    by (intro harmless_obeys calls_rules calm_clean_up) simp
  have "obeys (may_answer R) j (gate_rely R flow j) (gate_guarantee R flow M j) (\<lambda>_ _. True) (intercept a passed is) c"
    for passed "is" c
  proof (induction "is" arbitrary: passed c)
    case Nil
    then show ?case by (simp add: aret_def)
  next
    case (Cons i "is" passed c)
    have "obeys (may_answer R) j (gate_rely R flow j) (gate_guarantee R flow M j) (\<lambda>_ _. True) (preDispatch a i) c"
      using preDispatch_obeys hex limit Dispatch by simp
    then show ?case unfolding intercept.simps
      by (rule obeys_abind) (auto intro: refuse Cons.IH gate_rely_refl split: verdict.split)
  qed
  then show ?thesis by (simp add: Dispatch runInterceptors_def)
qed

lemma workflow_limit:
  assumes runs: "pool_runs (may_answer R) c c'"
    and progs: "\<And>i. progs c i = broker_prog (calls i)"
    and hex: "\<And>i. hex_digest (digest (admission_of (calls i)))"
    and limit: "\<And>i. ticket_within flow M (admission_of (calls i))"
    and init: "int (zcard R (active_key flow) (sets (services c))) \<le> M"
  shows "int (zcard R (active_key flow) (sets (services c'))) \<le> M"
proof -
  have "int (card (watched R flow (owner c', services c'))) \<le> M"
    using runs
  proof (rule pool_invariant [where R = "gate_rely R flow" and G = "gate_guarantee R flow M"
        and Q = "\<lambda>_ _ _. True" and I = "\<lambda>d. int (card (watched R flow d)) \<le> M"])
    show "obeys (may_answer R) i (gate_rely R flow i) (gate_guarantee R flow M i) (\<lambda>_ _. True)
        (progs c i) (owner c, services c)" for i
      unfolding progs by (rule broker_obeys [OF hex limit])
  qed (use init in \<open>auto simp: gate_rely_def gate_guarantee_def watched_def zcard_members\<close>)
  then show ?thesis by (simp add: watched_def zcard_members)
qed

subsection \<open>The limit of the installation\<close>

lemma script_within:
  assumes "may_answer R (Acquire_Script key now ttl limit m) w v w'" and "int (card (members R key (sets w))) \<le> limit"
  shows "int (card (members R key (sets w'))) \<le> limit"
  using assms(1)
proof (cases rule: may_answer_cases)
  case (answer w0)
  have w0: "card (members R key (sets w0)) \<le> card (members R key (sets w))"
    by (intro card_mono finite_members expired_members answer)
  obtain x s' where s': "acquire_script R key now ttl limit m (sets w0) = (x, s')" by force
  let ?s = "zremrangebyscore R key (now - ttl) (sets w0)"
  have "int (card (members R key s')) \<le> limit"
  proof (cases "x = 0 \<and> m \<notin> members R key ?s")
    case True
    then show ?thesis using acquire_slots(5) [OF s'] by simp
  next
    case False
    then have "s' = ?s" using s' by (auto simp: acquire_script_def Let_def members_def split: if_splits)
    then have "card (members R key s') \<le> card (members R key (sets w0))"
      by (simp add: card_mono finite_members members_prune)
    then show ?thesis using w0 assms(2) by linarith
  qed
  then show ?thesis using answer(2) w0 assms(2) s' by auto
qed

definition instance_call :: "int \<Rightarrow> job_call \<Rightarrow> bool" where
  "instance_call M op \<longleftrightarrow> \<not> adds_to ACTIVE_RUNS_KEY op \<or> (\<exists>now ttl m. op = Acquire_Script ACTIVE_RUNS_KEY now ttl M m)"

lemma instance_limit:
  assumes runs: "pool_runs (may_answer R) c c'"
    and progs: "\<And>i. progs c i = broker_prog (calls i)"
    and limit: "\<And>i. concurrentRuns (settings (admission_of (calls i))) \<in> {None, Some M}"
    and init: "int (zcard R ACTIVE_RUNS_KEY (sets (services c))) \<le> M"
  shows "int (zcard R ACTIVE_RUNS_KEY (sets (services c'))) \<le> M"
proof -
  let ?P = "instance_call M"
  have harmless: "\<forall>k. \<not> adds_to k op \<Longrightarrow> ?P op" for op by (simp add: instance_call_def)
  let ?I = "\<lambda>c. int (card (members R ACTIVE_RUNS_KEY (sets (snd c)))) \<le> M"
  let ?G = "\<lambda>a b. ?I a \<longrightarrow> ?I b"
  have calls: "all_calls ?P (\<lambda>_. True) (broker_prog (calls i))" for i
  proof -
    have calm: "all_calls ?P (\<lambda>_. True) (p :: 'b job_async)"
      if "all_calls (\<lambda>op. \<not> adds_to ACTIVE_RUNS_KEY op) (\<lambda>_. True) p" for p
      by (rule all_calls_mono [OF that]) (auto simp: instance_call_def)
    have gate: "all_calls ?P (\<lambda>_. True) (gate_admit sha (isJobAlive queue) ttl flow job t)" for sha queue ttl flow job t
      by (rule calm) (auto intro!: calls_rules first_in_order_calm_at take_slot_calm_at simp: gate_admit_def)
    have pre: "all_calls ?P (\<lambda>_. True) (preDispatch a j)" if "calls i = Dispatch a" for a j
    proof (cases "j = WorkflowConcurrency")
      case True
      then show ?thesis by (auto intro!: calls_rules gate simp: concurrency_preDispatch_def split: option.split)
    next
      case False
      have "concurrentRuns (settings a) \<in> {None, Some M}" using limit [of i] that by simp
      then show ?thesis using False
        by (cases "j = InstanceConcurrency")
          (auto intro: calm_preDispatch calm_instance harmless simp: instance_call_def simp del: preDispatch.simps)
    qed
    have chain: "all_calls ?P (\<lambda>_. True) (intercept a passed is)" if "calls i = Dispatch a" for a passed "is"
      by (induction "is" arbitrary: passed)
        (auto intro!: calls_rules pre [OF that] calm_clean_up harmless split: verdict.split)
    have register: "all_calls ?P (\<lambda>_. True) (concurrency_register sha job jd)" for sha job jd
      by (auto intro!: calls_rules simp: instance_call_def concurrency_register_def gate_enqueue_def addToQueue_def
          effect_def split: option.split)
    show ?thesis
      by (cases "calls i") (auto intro!: calls_rules register chain calm_clean_up harmless
          simp: runInterceptors_def job_finished_def)
  qed
  have "?I (owner c', services c')"
    using runs
  proof (rule pool_invariant [where R = "\<lambda>_ _ _. True" and G = "\<lambda>_. ?G" and Q = "\<lambda>_ _ _. True"])
    show "obeys (may_answer R) i (\<lambda>_ _. True) ?G (\<lambda>_ _. True) (progs c i) (owner c, services c)" for i
      unfolding progs
    proof (rule obeys_all_calls [OF calls, where J = "\<lambda>_. True"])
      fix op ow s v s'
      assume "?P op" "may_answer R op s v s'"
      then have "?G (ow, s) (ow, s')"
        using script_within card_mono [OF finite_members may_answer_members] unfolding instance_call_def by fastforce
      then show "?G (ow, s) (ow, s') \<and> True" by simp
    qed auto
  qed (use init in \<open>auto simp: zcard_members\<close>)
  then show ?thesis by (simp add: zcard_members)
qed

end

end
