(* ===== verification/Poll_Cursor_Guard.thy ===== *)
theory Poll_Cursor_Guard
  imports Async_Programs Action_Cloning
begin

text \<open>
  The guard of polling triggers (\<open>poll-cursor-guard.ts\<close>). A poll keeps its cursor in store entries under
  the prefix of its workflow; before a poll the guard saves them in one more entry, the snapshot, and
  a poll that does not hand over its events is rolled back to it. The store is the rows of one project;
  texts are cleaned of NUL characters when they are written.
\<close>

datatype SnapshotPhase = POLLING | SUBMITTING

record poll_snapshot =
  snapJob :: string
  startedAt :: rat
  phase :: SnapshotPhase
  snapEntries :: "(string \<times> json) list"

datatype store_call =
    Store_Now
  | Get_Entry string
  | Find_Entries string
  | Upsert_Entry string json
  | Delete_Entry string

datatype store_reply = Done | Time rat | Value "json option" | Rows "(string \<times> json) list"

record store_world =
  entries :: "(string \<times> json) list"
  store_clock :: rat

type_synonym 'a store_async = "(store_call, store_reply, 'a) async"

definition sanitize :: "json \<Rightarrow> json" where
  "sanitize = applyFunctionToValuesSync (filter (\<lambda>c. c \<noteq> CHR 0x00))"

fun store_perform :: "store_call \<Rightarrow> store_world \<Rightarrow> store_reply result \<times> store_world" where
  "store_perform Store_Now w = (Inr (Time (store_clock w)), w)"
| "store_perform (Get_Entry k) w = (Inr (Value (map_of (entries w) k)), w)"
| "store_perform (Find_Entries p) w = (Inr (Rows (filter (\<lambda>(k, _). starts_with k p) (entries w))), w)"
| "store_perform (Upsert_Entry k v) w = (Inr Done, w\<lparr>entries := AList.update k (sanitize v) (entries w)\<rparr>)"
| "store_perform (Delete_Entry k) w = (Inr Done, w\<lparr>entries := AList.delete k (entries w)\<rparr>)"

fun as_time :: "store_reply \<Rightarrow> rat" where
  "as_time (Time t) = t"
| "as_time _ = 0"

fun as_value :: "store_reply \<Rightarrow> json option" where
  "as_value (Value v) = v"
| "as_value _ = None"

fun as_rows :: "store_reply \<Rightarrow> (string \<times> json) list" where
  "as_rows (Rows r) = r"
| "as_rows _ = []"

subsection \<open>The snapshot\<close>

definition IN_FLIGHT_WINDOW_MS :: rat where "IN_FLIGHT_WINDOW_MS = 3 * 60 * 1000"

definition snapshotKey :: "string \<Rightarrow> string" where
  "snapshotKey flow = ''poll-snapshot/'' @ flow"

definition triggerStorePrefix :: "string \<Rightarrow> string" where
  "triggerStorePrefix flow = ''workflow_'' @ flow @ ''/''"

definition poll_lock :: "string \<Rightarrow> string" where
  "poll_lock flow = ''poll-cursor:'' @ flow"

fun show_phase :: "SnapshotPhase \<Rightarrow> string" where
  "show_phase POLLING = ''POLLING''"
| "show_phase SUBMITTING = ''SUBMITTING''"

definition snapshot_json :: "poll_snapshot \<Rightarrow> json" where
  "snapshot_json s = JObj [(''jobId'', JStr (snapJob s)), (''startedAt'', JNum (startedAt s)),
     (''phase'', JStr (show_phase (phase s))), (''entries'', JObj (snapEntries s))]"

definition object_entries :: "json \<Rightarrow> (string \<times> json) list option" where
  "object_entries v = (case v of JObj r \<Rightarrow> Some r
     | JArr xs \<Rightarrow> Some (zip (map show_nat [0..<length xs]) xs) | _ \<Rightarrow> None)"

definition parseSnapshot :: "json \<Rightarrow> poll_snapshot result" where
  "parseSnapshot value = (case value of
     JObj r \<Rightarrow> (case (map_of r ''jobId'', map_of r ''startedAt'', map_of r ''phase'', map_of r ''entries'') of
         (Some (JStr j), Some (JNum t), Some p, Some e) \<Rightarrow> (case object_entries e of
             Some rows \<Rightarrow> Inr \<lparr>snapJob = j, startedAt = t,
                phase = (if p = JStr ''SUBMITTING'' then SUBMITTING else POLLING), snapEntries = rows\<rparr>
           | None \<Rightarrow> Inl (PlainError ''poll snapshot is malformed''))
       | _ \<Rightarrow> Inl (PlainError ''poll snapshot is malformed''))
   | _ \<Rightarrow> Inl (PlainError ''poll snapshot is malformed''))"

definition readSnapshot :: "string \<Rightarrow> poll_snapshot option store_async" where
  "readSnapshot flow = abind (acall (Get_Entry (snapshotKey flow)) as_value) (\<lambda>entry. case entry of
     None \<Rightarrow> aret None
   | Some value \<Rightarrow> aret (case parseSnapshot value of Inl _ \<Rightarrow> None | Inr s \<Rightarrow> Some s))"

definition writeSnapshot :: "string \<Rightarrow> poll_snapshot \<Rightarrow> unit store_async" where
  "writeSnapshot flow s = acall (Upsert_Entry (snapshotKey flow) (snapshot_json s)) (\<lambda>_. ())"

definition deleteSnapshot :: "string \<Rightarrow> unit store_async" where
  "deleteSnapshot flow = acall (Delete_Entry (snapshotKey flow)) (\<lambda>_. ())"

definition currentEntries :: "string \<Rightarrow> (string \<times> json) list store_async" where
  "currentEntries flow = acall (Find_Entries (triggerStorePrefix flow)) as_rows"

definition restore :: "string \<Rightarrow> poll_snapshot \<Rightarrow> unit store_async" where
  "restore flow s = abind (currentEntries flow) (\<lambda>current.
     athen (aeach (\<lambda>key. acall (Delete_Entry key) (\<lambda>_. ()))
         (filter (\<lambda>key. \<not> js_has (snapEntries s) key) (map fst current)))
     (athen (aeach (\<lambda>(key, value). acall (Upsert_Entry key value) (\<lambda>_. ())) (snapEntries s))
       (deleteSnapshot flow)))"

subsection \<open>The operations\<close>

definition poll_begin :: "string \<Rightarrow> string \<Rightarrow> unit store_async" where
  "poll_begin flow job = runExclusive (poll_lock flow)
     (abind (readSnapshot flow) (\<lambda>existing.
      abind (acall Store_Now as_time) (\<lambda>now.
        let busy = (case existing of None \<Rightarrow> False
              | Some s \<Rightarrow> snapJob s \<noteq> job \<and> now - startedAt s < IN_FLIGHT_WINDOW_MS) in
        if busy then aret ()
        else athen (case existing of None \<Rightarrow> aret () | Some s \<Rightarrow> restore flow s)
          (abind (currentEntries flow) (\<lambda>rows.
            if rows = [] then aret ()
            else abind (acall Store_Now as_time) (\<lambda>now.
              writeSnapshot flow \<lparr>snapJob = job, startedAt = now, phase = POLLING, snapEntries = rows\<rparr>))))))"

definition markSubmitting :: "string \<Rightarrow> unit store_async" where
  "markSubmitting flow = abind (readSnapshot flow) (\<lambda>found. if found = None then aret ()
     else runExclusive (poll_lock flow) (abind (readSnapshot flow) (\<lambda>existing. case existing of
         None \<Rightarrow> aret ()
       | Some s \<Rightarrow> writeSnapshot flow (s\<lparr>phase := SUBMITTING\<rparr>))))"

definition poll_commit :: "string \<Rightarrow> unit store_async" where
  "poll_commit flow = abind (readSnapshot flow) (\<lambda>found. if found = None then aret ()
     else runExclusive (poll_lock flow) (deleteSnapshot flow))"

definition settle :: "string \<Rightarrow> string \<Rightarrow> bool \<Rightarrow> unit store_async" where
  "settle flow job failed = runExclusive (poll_lock flow) (abind (readSnapshot flow) (\<lambda>existing. case existing of
     None \<Rightarrow> aret ()
   | Some s \<Rightarrow> if snapJob s \<noteq> job then aret ()
       else if failed \<or> phase s = SUBMITTING then restore flow s
       else deleteSnapshot flow))"

definition discard :: "string \<Rightarrow> unit store_async" where
  "discard flow = runExclusive (poll_lock flow) (deleteSnapshot flow)"

end
