(* ===== verification/Poll_Cursor_Laws.thy ===== *)
theory Poll_Cursor_Laws
  imports Poll_Cursor_Guard
begin

text \<open>
  What the guard keeps. A store is sane when no key occurs twice and its texts hold no NUL character.
  While a poll is under way the trigger writes and deletes entries, the poll may be marked as submitting,
  and time passes; none of this touches the snapshot.
\<close>

definition clean :: "json \<Rightarrow> bool" where
  "clean v \<longleftrightarrow> sanitize v = v"

definition sane :: "store_world \<Rightarrow> bool" where
  "sane w \<longleftrightarrow> distinct (map fst (entries w)) \<and> (\<forall>k v. map_of (entries w) k = Some v \<longrightarrow> clean v)"

definition trigger_rows :: "string \<Rightarrow> store_world \<Rightarrow> (string \<times> json) list" where
  "trigger_rows flow w = filter (\<lambda>(k, _). starts_with k (triggerStorePrefix flow)) (entries w)"

lemma sanitize_idem: "clean (sanitize v)"
proof -
  have "applyFunctionToValuesSync (filter (\<lambda>c. c \<noteq> CHR 0x00)) (applyFunctionToValuesSync (filter (\<lambda>c. c \<noteq> CHR 0x00)) v) =
      applyFunctionToValuesSync (filter (\<lambda>c. c \<noteq> CHR 0x00)) v"
    by (induction "filter (\<lambda>c. c \<noteq> CHR 0x00)" v rule: applyFunctionToValuesSync.induct) auto
  then show ?thesis by (simp add: clean_def sanitize_def)
qed

lemma clean_obj: "clean (JObj r) \<longleftrightarrow> (\<forall>v \<in> snd ` set r. clean v)"
proof -
  have "map (\<lambda>(k, v). (k, sanitize v)) r = r \<longleftrightarrow> (\<forall>x \<in> set r. (\<lambda>(k, v). (k, sanitize v)) x = x)"
    by (induction r) auto
  then show ?thesis by (auto simp: clean_def sanitize_def)
qed

subsection \<open>Restoring\<close>

lemma sane_upsert: "sane w \<Longrightarrow> sane (w\<lparr>entries := AList.update k (sanitize v) (entries w)\<rparr>)"
  by (auto simp: sane_def distinct_keys_update update_conv' sanitize_idem)

lemma sane_delete: "sane w \<Longrightarrow> sane (w\<lparr>entries := AList.delete k (entries w)\<rparr>)"
  by (auto simp: sane_def delete_conv' AList.distinct_delete split: if_splits)

lemma snapshot_key_apart [simp]: "\<not> starts_with (snapshotKey flow) (triggerStorePrefix flow')"
  by (simp add: snapshotKey_def triggerStorePrefix_def)

lemma map_of_trigger_rows:
  "map_of (trigger_rows flow w) k = (if starts_with k (triggerStorePrefix flow) then map_of (entries w) k else None)"
proof -
  have "map_of (filter (\<lambda>(k, _). P k) xs) k = (if P k then map_of xs k else None)" for P and xs :: "(string \<times> json) list"
    by (induction xs) auto
  then show ?thesis by (simp add: trigger_rows_def)
qed

lemma trigger_rows_keys: "k \<in> set (map fst (trigger_rows flow w)) \<Longrightarrow> starts_with k (triggerStorePrefix flow)"
  by (auto simp: trigger_rows_def)

lemma sane_trigger_rows:
  assumes "sane w"
  shows "distinct (map fst (trigger_rows flow w))" "v \<in> snd ` set (trigger_rows flow w) \<Longrightarrow> clean v"
proof -
  show "distinct (map fst (trigger_rows flow w))"
    using assms by (auto simp: trigger_rows_def sane_def intro: distinct_map_filter)
  assume "v \<in> snd ` set (trigger_rows flow w)"
  then obtain k where "(k, v) \<in> set (entries w)" by (auto simp: trigger_rows_def)
  then show "clean v" using assms by (auto simp: sane_def)
qed

lemma prefix_not_inherited: "starts_with k (triggerStorePrefix flow) \<Longrightarrow> k \<notin> set object_prototype_keys"
  by (auto simp: triggerStorePrefix_def object_prototype_keys_def)

lemma run_deletes:
  "run store_perform (aeach (\<lambda>key. acall (Delete_Entry key) (\<lambda>_. ())) ks) w =
    (Inr (), w\<lparr>entries := fold AList.delete ks (entries w)\<rparr>)"
  by (induction ks arbitrary: w) (simp_all add: run_simps)

lemma run_upserts:
  "run store_perform (aeach (\<lambda>(key, value). acall (Upsert_Entry key value) (\<lambda>_. ())) kvs) w =
    (Inr (), w\<lparr>entries := fold (\<lambda>(k, v). AList.update k (sanitize v)) kvs (entries w)\<rparr>)"
  by (induction kvs arbitrary: w) (auto simp: run_simps)

lemma map_of_deletes: "map_of (fold AList.delete ks r) k = (if k \<in> set ks then None else map_of r k)"
  by (induction ks arbitrary: r) (auto simp: delete_conv')

lemma map_of_upserts:
  assumes "distinct (map fst kvs)" and "\<And>v. v \<in> snd ` set kvs \<Longrightarrow> clean v"
  shows "map_of (fold (\<lambda>(k, v). AList.update k (sanitize v)) kvs r) k = (case map_of kvs k of Some v \<Rightarrow> Some v | None \<Rightarrow> map_of r k)"
  using assms
proof (induction kvs arbitrary: r)
  case (Cons kv kvs)
  obtain a b where kv: "kv = (a, b)" by force
  have "map_of kvs a = None" using Cons.prems(1) by (simp add: kv map_of_eq_None_keys)
  moreover have "sanitize b = b" using Cons.prems(2) [of b] by (simp add: kv clean_def)
  moreover have "map_of (fold (\<lambda>(k, v). AList.update k (sanitize v)) kvs r') k =
      (case map_of kvs k of Some v \<Rightarrow> Some v | None \<Rightarrow> map_of r' k)" for r'
    by (rule Cons.IH) (use Cons.prems in auto)
  ultimately show ?case by (simp add: kv update_conv' split: option.split)
qed simp

lemma sane_deletes: "sane w \<Longrightarrow> sane (w\<lparr>entries := fold AList.delete ks (entries w)\<rparr>)"
proof (induction ks arbitrary: w)
  case (Cons k ks)
  then show ?case using Cons.IH [OF sane_delete [OF Cons.prems, of k]] by simp
qed simp

lemma sane_upserts: "sane w \<Longrightarrow> sane (w\<lparr>entries := fold (\<lambda>(k, v). AList.update k (sanitize v)) kvs (entries w)\<rparr>)"
proof (induction kvs arbitrary: w)
  case (Cons kv kvs)
  then show ?case using Cons.IH [OF sane_upsert [OF Cons.prems]] by (cases kv) simp
qed simp

definition good_snapshot :: "string \<Rightarrow> (string \<times> json) list \<Rightarrow> bool" where
  "good_snapshot flow rows \<longleftrightarrow> distinct (map fst rows) \<and> (\<forall>v \<in> snd ` set rows. clean v) \<and>
     (\<forall>k \<in> set (map fst rows). starts_with k (triggerStorePrefix flow))"

lemma run_restore:
  assumes "good_snapshot flow (snapEntries s)" and "sane w"
  shows "\<exists>w'. run store_perform (restore flow s) w = (Inr (), w') \<and> sane w' \<and> store_clock w' = store_clock w \<and>
    (\<forall>k. map_of (entries w') k = (if k = snapshotKey flow then None
      else if starts_with k (triggerStorePrefix flow) then map_of (snapEntries s) k else map_of (entries w) k))"
proof -
  let ?p = "triggerStorePrefix flow" and ?rows = "snapEntries s"
  let ?stale = "filter (\<lambda>key. \<not> js_has ?rows key) (map fst (trigger_rows flow w))"
  let ?w1 = "w\<lparr>entries := fold AList.delete ?stale (entries w)\<rparr>"
  let ?w2 = "?w1\<lparr>entries := fold (\<lambda>(k, v). AList.update k (sanitize v)) ?rows (entries ?w1)\<rparr>"
  let ?w3 = "?w2\<lparr>entries := AList.delete (snapshotKey flow) (entries ?w2)\<rparr>"
  have run: "run store_perform (restore flow s) w = (Inr (), ?w3)"
    by (simp add: restore_def currentEntries_def deleteSnapshot_def run_simps run_deletes run_upserts trigger_rows_def)
  have "sane ?w3" by (intro sane_delete sane_upserts sane_deletes assms)
  have good: "distinct (map fst ?rows)" "\<And>v. v \<in> snd ` set ?rows \<Longrightarrow> clean v"
    "\<And>k. k \<in> set (map fst ?rows) \<Longrightarrow> starts_with k ?p"
    using assms(1) by (auto simp: good_snapshot_def)
  have "map_of (entries ?w3) k = (if k = snapshotKey flow then None
      else if starts_with k ?p then map_of ?rows k else map_of (entries w) k)" for k
  proof (cases "map_of ?rows k")
    case (Some v)
    then have "k \<in> set (map fst ?rows)" by (metis map_of_eq_None_keys option.distinct(1))
    then have "starts_with k ?p" by (rule good)
    then have "k \<noteq> snapshotKey flow" by auto
    with Some \<open>starts_with k ?p\<close> show ?thesis by (simp add: map_of_upserts [OF good(1,2)])
  next
    case None
    then have absent: "k \<notin> set (map fst ?rows)" by (simp add: map_of_eq_None_keys)
    have "js_has ?rows k = (k \<in> set (map fst ?rows))" if "k \<in> set (map fst (trigger_rows flow w))"
      by (rule js_has_own [OF prefix_not_inherited [OF trigger_rows_keys [OF that]]])
    then have "k \<in> set ?stale \<longleftrightarrow> k \<in> set (map fst (trigger_rows flow w))" using absent by auto
    also have "\<dots> \<longleftrightarrow> map_of (trigger_rows flow w) k \<noteq> None" by (simp add: map_of_eq_None_keys)
    finally have stale: "k \<in> set ?stale \<longleftrightarrow> map_of (trigger_rows flow w) k \<noteq> None" .
    show ?thesis
      using None stale by (simp add: map_of_upserts [OF good(1,2)] map_of_deletes map_of_trigger_rows delete_conv'
        del: set_filter)
  qed
  then show ?thesis using run \<open>sane ?w3\<close> by auto
qed

subsection \<open>A poll under way\<close>

text \<open>What happens between the begin of a poll and its end.\<close>

datatype poll_event = Trigger_Put string json | Trigger_Delete string | Mark_Submitting | Elapse rat

fun happen :: "string \<Rightarrow> poll_event \<Rightarrow> store_world \<Rightarrow> store_world" where
  "happen flow (Trigger_Put k v) w = snd (store_perform (Upsert_Entry k v) w)"
| "happen flow (Trigger_Delete k) w = snd (store_perform (Delete_Entry k) w)"
| "happen flow Mark_Submitting w = snd (run store_perform (markSubmitting flow) w)"
| "happen flow (Elapse d) w = w\<lparr>store_clock := store_clock w + d\<rparr>"

fun spares_snapshot :: "string \<Rightarrow> poll_event \<Rightarrow> bool" where
  "spares_snapshot flow (Trigger_Put k v) = (k \<noteq> snapshotKey flow)"
| "spares_snapshot flow (Trigger_Delete k) = (k \<noteq> snapshotKey flow)"
| "spares_snapshot flow _ = True"

definition stored :: "string \<Rightarrow> poll_snapshot \<Rightarrow> store_world \<Rightarrow> bool" where
  "stored flow s w \<longleftrightarrow> sane w \<and> (\<exists>v. map_of (entries w) (snapshotKey flow) = Some v \<and> parseSnapshot v = Inr s)"

lemma parse_snapshot_json: "parseSnapshot (snapshot_json s) = Inr s"
  by (cases "phase s") (simp_all add: parseSnapshot_def snapshot_json_def object_entries_def)

lemma sanitize_snapshot:
  assumes "good_snapshot flow (snapEntries s)" and "CHR 0x00 \<notin> set (snapJob s)"
  shows "sanitize (snapshot_json s) = snapshot_json s"
proof -
  have "clean (JObj (snapEntries s))" using assms(1) by (auto simp: clean_obj good_snapshot_def)
  moreover have "filter (\<lambda>c. c \<noteq> CHR 0x00) (snapJob s) = snapJob s" using assms(2) by (auto simp: filter_id_conv)
  moreover have "filter (\<lambda>c. c \<noteq> CHR 0x00) (show_phase (phase s)) = show_phase (phase s)" by (cases "phase s") simp_all
  ultimately show ?thesis by (simp add: clean_def sanitize_def snapshot_json_def)
qed

lemma run_readSnapshot:
  "run store_perform (readSnapshot flow) w = (Inr (case map_of (entries w) (snapshotKey flow) of None \<Rightarrow> None
     | Some v \<Rightarrow> (case parseSnapshot v of Inl _ \<Rightarrow> None | Inr s \<Rightarrow> Some s)), w)"
  by (simp add: readSnapshot_def run_simps split: option.split)

lemma run_readSnapshot_stored: "stored flow s w \<Longrightarrow> run store_perform (readSnapshot flow) w = (Inr (Some s), w)"
  by (auto simp: run_readSnapshot stored_def)

lemma stored_write:
  assumes "good_snapshot flow (snapEntries s)" "CHR 0x00 \<notin> set (snapJob s)" "sane w"
  shows "\<exists>w'. run store_perform (writeSnapshot flow s) w = (Inr (), w') \<and> stored flow s w' \<and>
    store_clock w' = store_clock w \<and> (\<forall>k. k \<noteq> snapshotKey flow \<longrightarrow> map_of (entries w') k = map_of (entries w) k)"
proof -
  let ?v = "sanitize (snapshot_json s)"
  have "parseSnapshot ?v = Inr s" by (simp only: sanitize_snapshot [OF assms(1,2)] parse_snapshot_json)
  then have "stored flow s (w\<lparr>entries := AList.update (snapshotKey flow) ?v (entries w)\<rparr>)"
    using sane_upsert [OF assms(3)] by (simp add: stored_def update_conv')
  then show ?thesis by (auto simp: writeSnapshot_def run_simps update_conv')
qed

text \<open>The snapshot stays what it was, up to its phase.\<close>

definition under_way :: "string \<Rightarrow> string \<Rightarrow> (string \<times> json) list \<Rightarrow> rat \<Rightarrow> bool \<Rightarrow> store_world \<Rightarrow> bool" where
  "under_way flow job rows start marked w \<longleftrightarrow> good_snapshot flow rows \<and> CHR 0x00 \<notin> set job \<and>
     stored flow \<lparr>snapJob = job, startedAt = start, phase = (if marked then SUBMITTING else POLLING), snapEntries = rows\<rparr> w"

lemma sane_clock: "sane (w\<lparr>store_clock := t\<rparr>) = sane w"
  by (simp add: sane_def)

lemma under_way_event:
  assumes "under_way flow job rows start marked w" and "spares_snapshot flow e"
  shows "under_way flow job rows start (marked \<or> e = Mark_Submitting) (happen flow e w)"
proof (cases e)
  case Mark_Submitting
  let ?s = "\<lparr>snapJob = job, startedAt = start, phase = (if marked then SUBMITTING else POLLING), snapEntries = rows\<rparr>"
  have stored: "stored flow ?s w" using assms(1) by (simp add: under_way_def)
  then obtain w' where "run store_perform (writeSnapshot flow (?s\<lparr>phase := SUBMITTING\<rparr>)) w = (Inr (), w')"
    "stored flow (?s\<lparr>phase := SUBMITTING\<rparr>) w'"
    using stored_write [of flow "?s\<lparr>phase := SUBMITTING\<rparr>" w] assms(1) by (auto simp: under_way_def stored_def)
  then show ?thesis using assms(1) Mark_Submitting
    by (auto simp: under_way_def markSubmitting_def run_simps run_readSnapshot_stored [OF stored])
qed (use assms in \<open>auto simp: under_way_def stored_def sane_upsert sane_delete update_conv' delete_conv' sane_clock\<close>)

lemma under_way_events:
  "under_way flow job rows start marked w \<Longrightarrow> list_all (spares_snapshot flow) es \<Longrightarrow>
    under_way flow job rows start (marked \<or> Mark_Submitting \<in> set es) (fold (happen flow) es w)"
proof (induction es arbitrary: marked w)
  case (Cons e es)
  then show ?case using Cons.IH [OF under_way_event [OF Cons.prems(1)]] by (simp add: disj_assoc eq_commute [of Mark_Submitting])
qed simp

lemma begin_under_way:
  assumes "sane w" and "map_of (entries w) (snapshotKey flow) = None" and "trigger_rows flow w \<noteq> []"
    and "CHR 0x00 \<notin> set job"
  shows "\<exists>w'. run store_perform (poll_begin flow job) w = (Inr (), w') \<and>
    under_way flow job (trigger_rows flow w) (store_clock w) False w' \<and> store_clock w' = store_clock w"
proof -
  let ?s = "\<lparr>snapJob = job, startedAt = store_clock w, phase = POLLING, snapEntries = trigger_rows flow w\<rparr>"
  have good: "good_snapshot flow (trigger_rows flow w)"
    using sane_trigger_rows [OF assms(1)] trigger_rows_keys by (auto simp: good_snapshot_def)
  then obtain w' where "run store_perform (writeSnapshot flow ?s) w = (Inr (), w')" "stored flow ?s w'"
    "store_clock w' = store_clock w"
    using stored_write [of flow ?s w] assms(1,4) by auto
  then show ?thesis using good assms(2-4)
    by (auto simp: poll_begin_def run_simps run_readSnapshot currentEntries_def trigger_rows_def [symmetric] under_way_def)
qed

lemma settle_rolls_back:
  assumes "under_way flow job rows start marked w" and "failed \<or> marked"
  shows "\<exists>w'. run store_perform (settle flow job failed) w = (Inr (), w') \<and>
    (\<forall>k. map_of (entries w') k = (if k = snapshotKey flow then None
      else if starts_with k (triggerStorePrefix flow) then map_of rows k else map_of (entries w) k))"
proof -
  let ?s = "\<lparr>snapJob = job, startedAt = start, phase = (if marked then SUBMITTING else POLLING), snapEntries = rows\<rparr>"
  have w: "good_snapshot flow rows" "stored flow ?s w" "sane w" using assms(1) by (auto simp: under_way_def stored_def)
  then obtain w1 where w1: "run store_perform (restore flow ?s) w = (Inr (), w1)"
    "\<forall>k. map_of (entries w1) k = (if k = snapshotKey flow then None
      else if starts_with k (triggerStorePrefix flow) then map_of rows k else map_of (entries w) k)"
    using run_restore [of flow ?s w] by auto
  have "run store_perform (settle flow job failed) w = (Inr (), w1)"
    using w1(1) assms(2) by (auto simp: settle_def run_simps run_readSnapshot_stored [OF w(2)])
  with w1(2) show ?thesis by blast
qed

lemma settle_keeps:
  assumes "under_way flow job rows start False w"
  shows "\<exists>w'. run store_perform (settle flow job False) w = (Inr (), w') \<and>
    (\<forall>k. map_of (entries w') k = (if k = snapshotKey flow then None else map_of (entries w) k))"
  using assms by (auto simp: settle_def run_simps under_way_def stored_def run_readSnapshot deleteSnapshot_def delete_conv')

lemma commit_keeps:
  assumes "under_way flow job rows start marked w"
  shows "\<exists>w'. run store_perform (poll_commit flow) w = (Inr (), w') \<and>
    (\<forall>k. map_of (entries w') k = (if k = snapshotKey flow then None else map_of (entries w) k))"
  using assms by (auto simp: poll_commit_def run_simps under_way_def stored_def run_readSnapshot deleteSnapshot_def delete_conv')

lemma begin_rolls_back:
  assumes "under_way flow job rows start marked w"
    and "job' = job \<or> store_clock w - start \<ge> IN_FLIGHT_WINDOW_MS" and "CHR 0x00 \<notin> set job'"
  shows "\<exists>w'. run store_perform (poll_begin flow job') w = (Inr (), w') \<and>
    (\<forall>k. k \<noteq> snapshotKey flow \<longrightarrow> map_of (entries w') k =
      (if starts_with k (triggerStorePrefix flow) then map_of rows k else map_of (entries w) k))"
proof -
  let ?s = "\<lparr>snapJob = job, startedAt = start, phase = (if marked then SUBMITTING else POLLING), snapEntries = rows\<rparr>"
  have w: "good_snapshot flow rows" "stored flow ?s w" "sane w" using assms(1) by (auto simp: under_way_def stored_def)
  then obtain w1 where w1: "run store_perform (restore flow ?s) w = (Inr (), w1)" "sane w1"
    "\<forall>k. map_of (entries w1) k = (if k = snapshotKey flow then None
      else if starts_with k (triggerStorePrefix flow) then map_of rows k else map_of (entries w) k)"
    using run_restore [of flow ?s w] by auto
  let ?new = "\<lparr>snapJob = job', startedAt = store_clock w1, phase = POLLING, snapEntries = trigger_rows flow w1\<rparr>"
  have "good_snapshot flow (trigger_rows flow w1)"
    using sane_trigger_rows [OF w1(2)] trigger_rows_keys by (auto simp: good_snapshot_def)
  then obtain w2 where w2: "run store_perform (writeSnapshot flow ?new) w1 = (Inr (), w2)"
    "\<forall>k. k \<noteq> snapshotKey flow \<longrightarrow> map_of (entries w2) k = map_of (entries w1) k"
    using stored_write [of flow ?new w1] w1(2) assms(3) by auto
  have "\<not> (job \<noteq> job' \<and> store_clock w - start < IN_FLIGHT_WINDOW_MS)" using assms(2) by auto
  then have idle: "(snapJob ?s \<noteq> job' \<and> store_clock w - startedAt ?s < IN_FLIGHT_WINDOW_MS) = False" by simp
  then have "run store_perform (poll_begin flow job') w = (Inr (), if trigger_rows flow w1 = [] then w1 else w2)"
    using w1(1) w2(1)
    by (auto simp: poll_begin_def run_simps run_readSnapshot_stored [OF w(2)] currentEntries_def
        trigger_rows_def [symmetric] Let_def)
  then show ?thesis using w1(3) w2(2) by auto
qed

lemma begin_waits:
  assumes "under_way flow job rows start marked w" and "job' \<noteq> job" and "store_clock w - start < IN_FLIGHT_WINDOW_MS"
  shows "run store_perform (poll_begin flow job') w = (Inr (), w)"
  using assms by (auto simp: poll_begin_def run_simps under_way_def stored_def run_readSnapshot)

end
