(* ===== verification/Server_Properties.thy ===== *)
theory Server_Properties
  imports Admission_Limits Gate_Order Poll_Cursor_Laws
begin

text \<open>
  What the concurrency gate, the admission of jobs and the guard of polling triggers promise. The
  statements about Redis hold for every implementation of its sorted sets (\<open>sorted_sets\<close>) and every
  hash with hexadecimal digits.
\<close>

subsection \<open>Limits\<close>



subsection \<open>Slots\<close>

text \<open>C14: A job that is refused or discarded by any interceptor holds no slot afterwards, neither of its
  project, its tenant, the installation nor its workflow. A job that was let through holds none once it
  has finished, whatever happened meanwhile to other jobs, as long as its tenant did not lose its limit.\<close>

definition holds_no_slot :: "'s redis \<Rightarrow> admission \<Rightarrow> 's job_world \<Rightarrow> bool" where
  "holds_no_slot R a w \<longleftrightarrow>
     \<not> project_slot R a w \<and> \<not> tenant_slot R a w \<and> \<not> instance_slot R a w \<and> \<not> workflow_slot R a w"

definition gains_no_slot :: "'s redis \<Rightarrow> admission \<Rightarrow> 's job_world \<Rightarrow> 's job_world \<Rightarrow> bool" where
  "gains_no_slot R a w w' \<longleftrightarrow> (project_slot R a w' \<longrightarrow> project_slot R a w) \<and> (tenant_slot R a w' \<longrightarrow> tenant_slot R a w) \<and>
     (instance_slot R a w' \<longrightarrow> instance_slot R a w) \<and> (workflow_slot R a w' \<longrightarrow> workflow_slot R a w) \<and>
     (tenant_limit (settings a) (jobTenant (jobData a)) w \<noteq> None \<longrightarrow>
       tenant_limit (settings a) (jobTenant (jobData a)) w' \<noteq> None)"


subsection \<open>The order of the gate\<close>

text \<open>C15: The gate admits a job exactly when at most five jobs are ahead of it in its order, none of
  them alive, and the workflow has a free slot after the outdated ones are dropped, or the job has
  one already.\<close>

theorem admit_exact:
  assumes "sorted_sets R" and "hex_digest sha"
  shows "fst (run (perform R) (gate_admit sha (isJobAlive queue) ttl flow job t) w) = Inr (
    (\<forall>k. orderKey t = Some k \<longrightarrow> (let key = order_key sha flow k;
        before = ahead R key job (zadd_nx R key (enqueuedAt t) job (sets w)) in
      card before \<le> 5 \<and> (\<forall>m \<in> before. \<not> alive queue w m))) \<and> free_slot R ttl flow job t w)"
  by (rule sorted_sets.admit_answer [OF assms])

text \<open>C16: Dead jobs never block their order: a job that has only dead jobs ahead of it, however many, and
  a free slot is admitted after at most one further attempt for every five of them.\<close>

theorem dead_jobs_never_block:
  assumes "sorted_sets R" and "hex_digest sha" and "orderKey t = Some k" and "key = order_key sha flow k"
    and "before = ahead R key job (zadd_nx R key (enqueuedAt t) job (sets w))"
    and "\<forall>m \<in> before. \<not> alive queue w m" and "free_slot R ttl flow job t w"
    and "attempt = gate_admit sha (isJobAlive queue) ttl flow job t"
  shows "\<exists>n \<le> card before div 5. fst (run (perform R) attempt (((\<lambda>w. snd (run (perform R) attempt w)) ^^ n) w)) = Inr True"
  using sorted_sets.dead_jobs_pass [OF assms(1-4) _ assms(7,8)] assms(6) unfolding assms(5) by blast

text \<open>C19: Two jobs of one order can run at the same time: a job whose ticket is earlier, or as early with a
  smaller identifier, is admitted although a job of the same order that came before it still runs.\<close>

theorem late_ticket_overtakes:
  assumes "sorted_sets R" and "orderKey t = Some k" and "orderKey t' = Some k"
    and "members R (order_key sha flow k) (sets w) = {}"
    and "maxConcurrentRuns t = 0" and "maxConcurrentRuns t' = 0"
    and "(enqueuedAt t', job') < (enqueuedAt t, job)"
    and "run (perform R) (gate_admit sha (isJobAlive queue) ttl flow job t) w = (v, w1)"
    and "run (perform R) (gate_admit sha (isJobAlive queue) ttl flow job' t') w1 = (v', w2)"
  shows "v = Inr True \<and> v' = Inr True"
proof -
  let ?key = "order_key sha flow k"
  have admit: "run (perform R) (gate_admit sha (isJobAlive queue) ttl flow j u) x =
      (Inr True, x\<lparr>sets := zexpire R ?key KEY_TTL_SECONDS (zadd_nx R ?key (enqueuedAt u) j (sets x))\<rparr>)"
    if "orderKey u = Some k" "maxConcurrentRuns u = 0"
      "zhead R ?key (zexpire R ?key KEY_TTL_SECONDS (zadd_nx R ?key (enqueuedAt u) j (sets x))) = Some j" for j u x
    using that by (simp add: gate_admit_def first_in_order_def addToQueue_def liveQueueHead_def MAX_STALE_HEADS_PER_CHECK_def
        queueHead_def eval_nat_numeral run_simps run_effect take_slot_def)
  let ?s1 = "zexpire R ?key KEY_TTL_SECONDS (zadd_nx R ?key (enqueuedAt t) job (sets w))"
  let ?s2 = "zexpire R ?key KEY_TTL_SECONDS (zadd_nx R ?key (enqueuedAt t') job' ?s1)"
  note laws = sorted_sets.members_expire [OF assms(1)] sorted_sets.members_zadd_nx [OF assms(1)]
    sorted_sets.zscore_expire [OF assms(1)] sorted_sets.zscore_zadd_nx [OF assms(1)]
  have empty: "zscore R ?key m (sets w) = None" for m using assms(4) by (auto simp: members_def)
  have "zhead R ?key ?s1 = Some job"
    by (rule sorted_sets.zhead_eq [OF assms(1)]) (auto simp: laws assms(4) empty)
  then have first: "v = Inr True" "sets w1 = ?s1" using admit [OF assms(2,5)] assms(8) by auto
  have "zhead R ?key ?s2 = Some job'"
    by (rule sorted_sets.zhead_eq [OF assms(1)]) (use assms(7) in \<open>auto simp: laws assms(4) empty\<close>)
  then show ?thesis using admit [OF assms(3,6)] assms(9) first by auto
qed

subsection \<open>Polls\<close>



text \<open>The first poll of a trigger is not protected: while the trigger has no entries no snapshot is
  taken, so what a failed first poll has written stays.\<close>

lemma first_poll_unprotected:
  assumes "map_of (entries w) (snapshotKey flow) = None" and "trigger_rows flow w = []"
    and "list_all (spares_snapshot flow) es"
    and "w2 = fold (happen flow) es (snd (run store_perform (poll_begin flow job) w))"
  shows "run store_perform (settle flow job True) w2 = (Inr (), w2)"
proof -
  have "snd (run store_perform (poll_begin flow job) w) = w"
    using assms(1,2) by (simp add: poll_begin_def run_simps run_readSnapshot currentEntries_def trigger_rows_def)
  moreover have "map_of (entries (fold (happen flow) es w)) (snapshotKey flow) = None"
    using assms(1,3)
  proof (induction es arbitrary: w)
    case (Cons e es)
    have "map_of (entries (happen flow e w)) (snapshotKey flow) = None"
      by (cases e) (use Cons.prems in \<open>auto simp: update_conv' delete_conv' markSubmitting_def run_simps run_readSnapshot\<close>)
    then show ?case using Cons.IH Cons.prems(2) by simp
  qed simp
  ultimately show ?thesis using assms(4) by (simp add: settle_def run_simps run_readSnapshot)
qed

end
