(* ===== verification/Server_Witnesses.thy ===== *)
theory Server_Witnesses
  imports Server_Properties
begin

text \<open>
  Instances of the properties of the server: a workflow that runs one job at a time in the order of a
  key, its jobs, and the entries of a polling trigger.
\<close>

definition sample_settings :: admission_settings where
  "sample_settings = \<lparr>projectLimiterEnabled = True, defaultConcurrentJobs = 5, workflowTimeoutSeconds = 600,
     concurrentRuns = Some 1, systemConcurrentExecutions = Some 7\<rparr>"

definition sample_ticket :: "int \<Rightarrow> int \<Rightarrow> ticket" where
  "sample_ticket runs time = \<lparr>maxConcurrentRuns = runs, orderKey = Some ''k'', enqueuedAt = time\<rparr>"

definition sample_sha :: "string \<Rightarrow> string" where "sample_sha x = ''a''"

definition sample_job :: "string \<Rightarrow> admission" where
  "sample_job j = \<lparr>settings = sample_settings, digest = sample_sha, queueName = None, jobId = j,
     jobData = \<lparr>jobType = EXECUTE_WORKFLOW, environment = Some ENV_PRODUCTION, jobProject = ''p'', jobTenant = ''t'',
       jobWorkflow = ''f'', jobRun = ''r'', jobVersion = ''v'', concurrency = Some (sample_ticket 1 5)\<rparr>, attemptsMade = 0\<rparr>"

definition sample_redis :: "set_lists job_world" where
  "sample_redis = \<lparr>sets = (\<lambda>_. []), clock = 9000000, queues = (\<lambda>_ _. None), cached = (\<lambda>_. None), project_quotas = (\<lambda>_. None),
     tenant_rows = (\<lambda>_. None), suspended = (\<lambda>_. False), sources = (\<lambda>_. True), run_status = (\<lambda>_. None),
     repeating = (\<lambda>_. False)\<rparr>"

definition sample_dispatch :: "verdict result \<times> set_lists job_world" where
  "sample_dispatch = run (perform list_sets) (broker_prog (Dispatch (sample_job ''a''))) sample_redis"

definition sample_pool :: "(job_call, reply, verdict result, set_lists job_world) pool" where
  "sample_pool = \<lparr>progs = (\<lambda>_. broker_prog (Dispatch (sample_job ''a''))), owner = Map.empty, services = sample_redis\<rparr>"

lemma sample_dispatch_counts:
  "fst sample_dispatch = Inr ALLOW \<and> zcard list_sets (active_key ''f'') (sets (snd sample_dispatch)) = 1 \<and>
    zcard list_sets ACTIVE_RUNS_KEY (sets (snd sample_dispatch)) = 1"
  by code_simp

lemma sample_sha_hex: "hex_digest sample_sha"
  by (simp add: hex_digest_def sample_sha_def)

lemma sample_pool_runs:
  "\<exists>c'. pool_runs (may_answer list_sets) sample_pool c' \<and> services c' = snd sample_dispatch"
proof -
  let ?c = "sample_pool\<lparr>progs := (progs sample_pool)(0 := Ret (fst sample_dispatch)), owner := Map.empty,
    services := snd sample_dispatch\<rparr>"
  have "pool_runs (may_answer list_sets) sample_pool ?c"
  proof (rule solo_runs [where held = "{}" and h = "perform list_sets"])
    show "brackets {} (progs sample_pool 0)" by (simp add: sample_pool_def broker_brackets del: broker_prog.simps)
    show "run (perform list_sets) (progs sample_pool 0) (services sample_pool) = (fst sample_dispatch, snd sample_dispatch)"
      by (simp add: sample_pool_def sample_dispatch_def del: broker_prog.simps)
    show "may_answer list_sets op s (fst (perform list_sets op s)) (snd (perform list_sets op s))" for op s
      unfolding may_answer_def expired_def by (rule exI [of _ s]) simp
  qed (simp add: sample_pool_def)
  then show ?thesis by (intro exI [of _ ?c]) simp
qed



text \<open>A job that passes every interceptor but the last is refused while another job of its workflow runs, and
  gives back its slots.\<close>

definition busy_redis :: "set_lists job_world" where
  "busy_redis = sample_redis\<lparr>sets := (\<lambda>k. if k = active_key ''f'' then [(''a'', 9000000)] else [])\<rparr>"

lemma busy_refused: "fst (run (perform list_sets) (runInterceptors (sample_job ''b'')) busy_redis) = Inr (REJECT 3000 None)"
  by code_simp


lemma admit_exact_witness:
  "fst (run (perform list_sets) (gate_admit sample_sha (isJobAlive None) 1000 ''f'' ''b'' (sample_ticket 1 5)) busy_redis) = Inr False"
proof -
  have "\<not> free_slot list_sets 1000 ''f'' ''b'' (sample_ticket 1 5) busy_redis"
    by (simp add: free_slot_def members_list_sets sample_ticket_def busy_redis_def sample_redis_def)
      (simp add: list_sets_def)
  then show ?thesis
    by (simp add: admit_exact [OF rs.sorted_sets_axioms sample_sha_hex])
qed

definition dead_redis :: "set_lists job_world" where
  "dead_redis = sample_redis\<lparr>sets := (\<lambda>k. if k = order_key sample_sha ''f'' ''k''
     then [(''1'', 1), (''2'', 1), (''3'', 1), (''4'', 1), (''5'', 1), (''6'', 1)] else [])\<rparr>"

lemma dead_jobs_never_block_witness:
  "\<exists>n \<le> card (ahead list_sets (order_key sample_sha ''f'' ''k'') ''b''
      (zadd_nx list_sets (order_key sample_sha ''f'' ''k'') 5 ''b'' (sets dead_redis))) div 5.
    fst (run (perform list_sets) (gate_admit sample_sha (isJobAlive None) 1000 ''f'' ''b'' (sample_ticket 0 5))
      (((\<lambda>w. snd (run (perform list_sets) (gate_admit sample_sha (isJobAlive None) 1000 ''f'' ''b'' (sample_ticket 0 5)) w)) ^^ n)
        dead_redis)) = Inr True"
proof -
  have "\<not> alive None dead_redis m" for m
    by (simp add: alive_def dead_redis_def sample_redis_def)
  then show ?thesis
    using dead_jobs_never_block [OF rs.sorted_sets_axioms sample_sha_hex _ refl refl _ _ refl,
        of "sample_ticket 0 5" "''k''" "''f''" "''b''" dead_redis None 1000]
    by (simp add: sample_ticket_def free_slot_def)
qed

lemma late_ticket_overtakes_witness:
  "\<exists>w1 w2. run (perform list_sets) (gate_admit sample_sha (isJobAlive None) 1000 ''f'' ''b'' (sample_ticket 0 5)) sample_redis
      = (Inr True, w1) \<and>
    run (perform list_sets) (gate_admit sample_sha (isJobAlive None) 1000 ''f'' ''a'' (sample_ticket 0 5)) w1 = (Inr True, w2)"
proof -
  obtain v w1 where first: "run (perform list_sets) (gate_admit sample_sha (isJobAlive None) 1000 ''f'' ''b'' (sample_ticket 0 5))
      sample_redis = (v, w1)" by force
  obtain v' w2 where second: "run (perform list_sets) (gate_admit sample_sha (isJobAlive None) 1000 ''f'' ''a'' (sample_ticket 0 5))
      w1 = (v', w2)" by force
  have "members list_sets (order_key sample_sha ''f'' ''k'') (sets sample_redis) = {}"
    by (simp add: members_list_sets sample_redis_def)
  from late_ticket_overtakes [OF rs.sorted_sets_axioms _ _ this _ _ _ first second]
  have "v = Inr True \<and> v' = Inr True" by (simp add: sample_ticket_def less_char_def)
  with first second show ?thesis by auto
qed

subsection \<open>Polls\<close>

definition sample_store :: store_world where
  "sample_store = \<lparr>entries = [(''workflow_f/last'', JNum 3), (''other'', JNum 1)], store_clock = 0\<rparr>"

definition sample_poll :: "poll_event list" where
  "sample_poll = [Trigger_Put ''workflow_f/last'' (JNum 9), Trigger_Put ''workflow_f/extra'' (JNum 1), Elapse 200000]"

lemma sample_store_ok: "sane sample_store" "map_of (entries sample_store) (snapshotKey ''f'') = None"
  "trigger_rows ''f'' sample_store \<noteq> []" "list_all (spares_snapshot ''f'') sample_poll"
  by (auto simp: sane_def sample_store_def snapshotKey_def trigger_rows_def triggerStorePrefix_def sample_poll_def
      clean_def sanitize_def)



end
