(* ===== verification/Engine_Operation.thy ===== *)
theory Engine_Operation
  imports Engine
begin

text \<open>
  The operation a worker asks of the engine (\<open>operations/workflow.operation.ts\<close>): resolve the inputs,
  restore the state of a resumed run or run the trigger, walk the workflow or the one step under test,
  report. Failures that are not the engine's own become a run that failed at its trigger.

  With it the constants of a run (\<open>EngineConstants.fromExecuteWorkflowInput\<close>), the payload of a job
  (\<open>utils/resolve-job-payload.ts\<close>) and the state a single step is tested in
  (\<open>handler/context/test-execution-context.ts\<close>). Files are read through \<open>operation_services\<close>: what a log
  file holds is taken to be an \<open>ExecutionState\<close>, as the source does by a cast.
\<close>

subsection \<open>Operations\<close>

datatype JobPayload = InlinePayload "json option" | RefPayload string

datatype ResumeReason = ResumeWAITPOINT | ResumeRETRY

record ExecutionState =
  stateSteps :: journal
  stateTags :: "string list"

datatype operation_kind =
    OpBEGIN "JobPayload option" bool                      \<comment> \<open>\<open>triggerPayload\<close>, \<open>executeTrigger\<close>\<close>
  | OpRESUME "JobPayload option" ResumeReason

record workflow_operation =
  opVersion :: WorkflowVersion
  opExecution :: string
  opPublicUrl :: string
  opInternalUrl :: string
  opEnvironment :: string
  opHandler :: "string option"
  opRequest :: "string option"
  opStepToTest :: "string option"
  opSampleData :: "json js_record option"
  opLogsFile :: "string option"

datatype resolved_kind =
    ResolvedBEGIN "json option" bool
  | ResolvedRESUME "json option" ResumeReason ExecutionState

record 'w operation_services =
  downloadFile :: "string \<Rightarrow> 'w \<Rightarrow> json result \<times> 'w"       \<comment> \<open>\<open>engineFileApi.download\<close> and \<open>JSON.parse\<close>\<close>
  downloadLogs :: "string \<Rightarrow> 'w \<Rightarrow> ExecutionState option result \<times> 'w"  \<comment> \<open>the same, and \<open>parsed?.executionState\<close>\<close>
  runTrigger :: "WorkflowVersion \<Rightarrow> json option \<Rightarrow> 'w \<Rightarrow> json list result \<times> 'w"  \<comment> \<open>\<open>triggerRunner.executeTrigger\<close>\<close>
  resolveLoopSettings :: "step \<Rightarrow> WorkflowExecutorContext \<Rightarrow> 'w \<Rightarrow> json option result \<times> 'w"  \<comment> \<open>the resolved \<open>items\<close>\<close>
  settingsJson :: "step \<Rightarrow> json"
  backupRun :: "'w \<Rightarrow> unit result \<times> 'w"                         \<comment> \<open>\<open>executionProgressReporter.backup\<close>\<close>
  bindServices :: "workflow_operation \<Rightarrow> resolved_kind \<Rightarrow> 'w services"  \<comment> \<open>what holds the constants of the run\<close>

datatype EngineResponseStatus = ResponseOK | ResponseLOG_SIZE_EXCEEDED

subsection \<open>Constants\<close>

definition ensureTrailingSlash :: "string \<Rightarrow> string" where
  "ensureTrailingSlash url = (if ends_with url ''/'' then url else url @ ''/'')"

definition trigger_connector_of :: "step \<Rightarrow> string" where
  "trigger_connector_of t = (case t of ConnectorTrigger _ s _ \<Rightarrow> triggerConnectorName s | _ \<Rightarrow> [])"

definition fromExecuteWorkflowInput :: "workflow_operation \<Rightarrow> EngineConstants result" where
  "fromExecuteWorkflowInput op =
     (if \<not> ends_with (opPublicUrl op) ''/api/''
      then Inl (EngineGenericError ''PublicUrlNotEndsWithSlashError'' (''Public URL must end with a slash, got: '' @ opPublicUrl op))
      else if \<not> ends_with (ensureTrailingSlash (opInternalUrl op)) ''/''
      then Inl (EngineGenericError ''InternalApiUrlNotEndsWithSlashError''
             (''Internal API URL must end with a slash, got: '' @ ensureTrailingSlash (opInternalUrl op)))
      else Inr \<lparr>workflowGraph = graph (opVersion op), stepNameToTest = opStepToTest op, maxAttempts = 4, retryExponential = 2,
        retryIntervalMs = 2000, executionId = opExecution op, constWorkflowId = workflowId (opVersion op), actionRunMode = False,
        runEnvironment = Some (opEnvironment op), triggerConnector = trigger_connector_of (trigger (opVersion op)),
        workerHandlerId = opHandler op, httpRequestId = opRequest op\<rparr>)"

definition engine_for :: "'w engine \<Rightarrow> 'w operation_services \<Rightarrow> workflow_operation \<Rightarrow> resolved_kind \<Rightarrow> 'w engine result" where
  "engine_for B S op inp = rbind (fromExecuteWorkflowInput op) (\<lambda>k. Inr (B\<lparr>const := k, svc := bindServices S op inp\<rparr>))"

subsection \<open>Inputs\<close>

definition resolveJobPayload :: "'w operation_services \<Rightarrow> JobPayload option \<Rightarrow> ('w, json option) eff" where
  "resolveJobPayload S payload = (case payload of
      None \<Rightarrow> eret None
    | Some (InlinePayload v) \<Rightarrow> eret v
    | Some (RefPayload f) \<Rightarrow> ebind (ecall (downloadFile S f)) (\<lambda>v. eret (Some v)))"

definition fetchExecutionStateFromLogs :: "'w operation_services \<Rightarrow> string option \<Rightarrow> ('w, ExecutionState) eff" where
  "fetchExecutionStateFromLogs S logs = (case logs of
      None \<Rightarrow> ethrow (EngineGenericError ''ResumeLogsFileMissing'' ''logsFileId is missing for RESUME operation'')
    | Some f \<Rightarrow> ebind (ecall (downloadLogs S f)) (\<lambda>found. case found of
        None \<Rightarrow> ethrow (EngineGenericError ''ExecutionStateMissing'' ''executionState is missing in logs file'')
      | Some s \<Rightarrow> eret s))"

definition resolveExecuteWorkflowOperation ::
  "'w operation_services \<Rightarrow> workflow_operation \<Rightarrow> operation_kind \<Rightarrow> ('w, resolved_kind) eff" where
  "resolveExecuteWorkflowOperation S op kind = (case kind of
      OpBEGIN payload begins \<Rightarrow> ebind (resolveJobPayload S payload) (\<lambda>v. eret (ResolvedBEGIN v begins))
    | OpRESUME payload rsn \<Rightarrow> ebind (fetchExecutionStateFromLogs S (opLogsFile op)) (\<lambda>st.
        if stateSteps st = []
        then ethrow (EngineGenericError ''EmptyResumeStateError'' ''RESUME operation received with empty execution state'')
        else ebind (resolveJobPayload S payload) (\<lambda>v. eret (ResolvedRESUME v rsn st))))"

subsection \<open>Restoring a run\<close>

definition isStepRestorable :: "bool \<Rightarrow> StepOutputStatus \<Rightarrow> bool" where
  "isStepRestorable isWaitpointResume st \<longleftrightarrow>
     st = StepSUCCEEDED \<or> st = StepPAUSED \<or> isWaitpointResume \<and> st = StepFAILED"

fun insertSuccessStepsOrPausedRecursively :: "bool \<Rightarrow> StepOutput \<Rightarrow> StepOutput option"
  and restorable_steps :: "bool \<Rightarrow> journal \<Rightarrow> journal"
  and restorable_iterations :: "bool \<Rightarrow> journal list \<Rightarrow> journal list" where
  "insertSuccessStepsOrPausedRecursively wp (ActionOutput t b v) =
     (if \<not> isStepRestorable wp (status b) then None else Some (ActionOutput t b v))"
| "insertSuccessStepsOrPausedRecursively wp (LoopOutput b None) =
     (if \<not> isStepRestorable wp (status b) then None else Some (setIterations [] (loop_object (LoopOutput b None))))"
| "insertSuccessStepsOrPausedRecursively wp (LoopOutput b (Some (LoopStepResult v i its))) =
     (if \<not> isStepRestorable wp (status b) then None
      else Some (setIterations (restorable_iterations wp its) (loop_object (LoopOutput b (Some (LoopStepResult v i its))))))"
| "restorable_steps wp [] = []"
| "restorable_steps wp ((n, out) # rest) = (case insertSuccessStepsOrPausedRecursively wp out of
      None \<Rightarrow> restorable_steps wp rest
    | Some out' \<Rightarrow> (n, out') # restorable_steps wp rest)"
| "restorable_iterations wp [] = []"
| "restorable_iterations wp (it # its) = restorable_steps wp it # restorable_iterations wp its"

definition runOrReturnPayload ::
  "'w operation_services \<Rightarrow> WorkflowVersion \<Rightarrow> json option \<Rightarrow> bool \<Rightarrow> ('w, json option) eff" where
  "runOrReturnPayload S wv payload begins =
     (if \<not> begins then eret payload
      else ebind (ecall (runTrigger S wv payload)) (\<lambda>outputs. eret (array_at outputs 0)))"

definition trigger_output :: "step \<Rightarrow> StepOutputStatus \<Rightarrow> json option \<Rightarrow> StepOutput" where
  "trigger_output t st v = createOutput (type_of t) st (Some (JObj [])) v"

definition getWorkflowExecutionState ::
  "'w engine \<Rightarrow> 'w operation_services \<Rightarrow> WorkflowVersion \<Rightarrow> resolved_kind \<Rightarrow> WorkflowExecutorContext \<Rightarrow> ('w, WorkflowExecutorContext) eff" where
  "getWorkflowExecutionState E S wv inp c = (case inp of
      ResolvedBEGIN payload begins \<Rightarrow>
        ebind (runOrReturnPayload S wv payload begins) (\<lambda>v.
        upsert_in E (step_name (trigger wv)) (trigger_output (trigger wv) StepSUCCEEDED v) c)
    | ResolvedRESUME _ rsn st \<Rightarrow>
        efold (\<lambda>c (name, out).
          if isStepRestorable (rsn = ResumeWAITPOINT) (status (output_base out))
          then (case insertSuccessStepsOrPausedRecursively (rsn = ResumeWAITPOINT) out of
                  None \<Rightarrow> eret c | Some out' \<Rightarrow> upsert_in E name out' c)
          else eret c) (addTags (stateTags st) c) (stateSteps st))"

subsection \<open>Failing at the trigger\<close>

definition buildFailedTriggerContext ::
  "'w engine \<Rightarrow> WorkflowVersion \<Rightarrow> resolved_kind \<Rightarrow> WorkflowExecutorContext \<Rightarrow> error \<Rightarrow> ('w, WorkflowExecutorContext) eff" where
  "buildFailedTriggerContext E wv inp base e =
     (let t = trigger wv; message = formatError (lang E) e;
          payload = (case inp of ResolvedBEGIN p _ \<Rightarrow> p | _ \<Rightarrow> None);
          shown = (case payload of None \<Rightarrow> JObj [] | Some JNull \<Rightarrow> JObj [] | Some v \<Rightarrow> v)
      in ebind (upsert_in E (step_name t) (setErrorMessage message (trigger_output t StepFAILED (Some shown))) base) (\<lambda>c.
         eret (setVerdict (VerdictFailed \<lparr>failedName = step_name t, failedDisplayName = displayName (base_of t),
           failedMessage = message\<rparr>) c)))"

fun is_user_error :: "error \<Rightarrow> bool" where
  "is_user_error (UserError _ _) = True"
| "is_user_error _ = False"

definition resolveStateOrThrowOnNonUserError ::
  "'w engine \<Rightarrow> 'w operation_services \<Rightarrow> WorkflowVersion \<Rightarrow> resolved_kind \<Rightarrow> WorkflowExecutorContext \<Rightarrow> ('w, WorkflowExecutorContext) eff" where
  "resolveStateOrThrowOnNonUserError E S wv inp base =
     ebind (ecatch (getWorkflowExecutionState E S wv inp base)) (\<lambda>r. case r of
        Inr c \<Rightarrow> eret c
      | Inl e \<Rightarrow> if is_user_error e then buildFailedTriggerContext E wv inp base e else ethrow e)"

subsection \<open>Testing one step\<close>

text \<open>\<open>items[0]\<close> of whatever the settings resolve to.\<close>

definition first_item :: "json option \<Rightarrow> json option result" where
  "first_item v = (case v of
      None \<Rightarrow> Inl (TypeError ''Cannot read properties of undefined (reading 0)'')
    | Some JNull \<Rightarrow> Inl (TypeError ''Cannot read properties of null (reading 0)'')
    | Some (JArr xs) \<Rightarrow> Inr (array_at xs 0)
    | Some (JStr s) \<Rightarrow> Inr (map_option (\<lambda>c. JStr [c]) (array_at s 0))
    | Some (JObj r) \<Rightarrow> Inr (map_of r ''0'')
    | Some _ \<Rightarrow> Inr None)"

definition sample_of :: "json js_record option \<Rightarrow> string \<Rightarrow> json option" where
  "sample_of samples name = (case Option.bind samples (\<lambda>d. map_of d name) of Some JNull \<Rightarrow> None | v \<Rightarrow> v)"

definition sample_step ::
  "'w engine \<Rightarrow> 'w operation_services \<Rightarrow> json js_record option \<Rightarrow> WorkflowExecutorContext \<Rightarrow> step \<Rightarrow> ('w, WorkflowExecutorContext) eff" where
  "sample_step E S samples c s = (case type_of s of
      LOOP_ON_ITEMS \<Rightarrow> ebind (ecall (resolveLoopSettings S s c)) (\<lambda>items.
        ebind (elift (first_item items)) (\<lambda>x.
        upsert_in E (step_name s) (LoopOutput (new_base StepSUCCEEDED (Some (settingsJson S s))) (Some (LoopStepResult x 1 []))) c))
    | t \<Rightarrow> upsert_in E (step_name s)
        (ActionOutput t (new_base StepSUCCEEDED (Some (if t \<in> {PARALLEL, ROUTER} then settingsJson S s else JObj [])))
          (sample_of samples (step_name s))) c)"

definition stateFromWorkflowVersion ::
  "'w engine \<Rightarrow> 'w operation_services \<Rightarrow> WorkflowVersion \<Rightarrow> string \<Rightarrow> json js_record option \<Rightarrow> ('w, WorkflowExecutorContext) eff" where
  "stateFromWorkflowVersion E S wv excludedStepName samples =
     efold (\<lambda>c s. if step_name s = excludedStepName then eret c else sample_step E S samples c s)
       (emptyContext True False) (getAllSteps (trigger wv))"

subsection \<open>The operation\<close>

definition is_begin :: "resolved_kind \<Rightarrow> bool" where
  "is_begin inp = (case inp of ResolvedBEGIN _ _ \<Rightarrow> True | _ \<Rightarrow> False)"

definition executeSingleStepOrWorkflow ::
  "nat \<Rightarrow> 'w engine \<Rightarrow> 'w operation_services \<Rightarrow> workflow_operation \<Rightarrow> resolved_kind \<Rightarrow> ('w, WorkflowExecutorContext) eff" where
  "executeSingleStepOrWorkflow d E S op inp = (let wv = opVersion op in case stepNameToTest (const E) of
      Some name \<Rightarrow>
        ebind (stateFromWorkflowVersion E S wv name (opSampleData op)) (\<lambda>testContext.
        ebind (elift (getActionOrThrow name (trigger wv))) (\<lambda>s.
        ebind (resolveStateOrThrowOnNonUserError E S wv inp testContext) (\<lambda>c.
        if \<not> is_running c then eret c
        else ebind (report E c None) (\<lambda>_. execute d E (Some s) c))))
    | None \<Rightarrow>
        ebind (resolveStateOrThrowOnNonUserError E S wv inp (emptyContext True True)) (\<lambda>c.
        if \<not> is_running c then eret c
        else executeFromTrigger d E (is_begin inp) wv c))"

definition reportFailedRun ::
  "'w engine \<Rightarrow> 'w operation_services \<Rightarrow> workflow_operation \<Rightarrow> resolved_kind \<Rightarrow> error \<Rightarrow> ('w, EngineResponseStatus) eff" where
  "reportFailedRun E S op inp e =
     ebind (buildFailedTriggerContext E (opVersion op) inp (emptyContext True True) e) (\<lambda>c.
     ebind (report E (finishExecution c) None) (\<lambda>_.
     ebind (ecall (backupRun S)) (\<lambda>_. eret ResponseOK)))"

definition reportFailedTriggerRun ::
  "'w engine \<Rightarrow> 'w operation_services \<Rightarrow> workflow_operation \<Rightarrow> operation_kind \<Rightarrow> error \<Rightarrow> ('w, EngineResponseStatus) eff" where
  "reportFailedTriggerRun B S op kind e =
     (let inp = (case kind of
            OpBEGIN _ begins \<Rightarrow> ResolvedBEGIN None begins
          | OpRESUME _ rsn \<Rightarrow> ResolvedRESUME
              (Some (JObj [(''headers'', JObj []), (''queryParams'', JObj [])])) rsn \<lparr>stateSteps = [], stateTags = []\<rparr>)
      in ebind (elift (engine_for B S op inp)) (\<lambda>E. reportFailedRun E S op inp e))"

definition execute_operation ::
  "nat \<Rightarrow> 'w engine \<Rightarrow> 'w operation_services \<Rightarrow> workflow_operation \<Rightarrow> operation_kind \<Rightarrow> ('w, EngineResponseStatus) eff" where
  "execute_operation d B S op kind =
     ebind (ecatch (resolveExecuteWorkflowOperation S op kind)) (\<lambda>r. case r of
        Inl e \<Rightarrow> if \<not> is_engine_error e then reportFailedTriggerRun B S op kind e else ethrow e
      | Inr inp \<Rightarrow>
          ebind (elift (engine_for B S op inp)) (\<lambda>E.
          ebind (ecatch (executeSingleStepOrWorkflow d E S op inp)) (\<lambda>r. case r of
             Inl e \<Rightarrow> if is_engine_error e then ethrow e else reportFailedRun E S op inp e
           | Inr output \<Rightarrow>
               (let finished = finishExecution output in
                ebind (report E finished None) (\<lambda>_.
                ebind (ecall (backupRun S)) (\<lambda>_.
                eret (if verdict_status (verdict finished) = RunLOG_SIZE_EXCEEDED then ResponseLOG_SIZE_EXCEEDED
                      else ResponseOK)))))))"

end
