(* ===== verification/Operation_Laws.thy ===== *)
theory Operation_Laws
  imports Engine_Operation Engine_Termination Journal_Refinement
begin

text \<open>
  Laws of the operation of a worker: which errors leave it (the judgement \<open>fails\<close>), that it ends, what a
  resumed run starts with, and what the context for the test of one step holds.
\<close>

subsection \<open>Errors that leave a computation\<close>

definition fails :: "('w, 'a) eff \<Rightarrow> (error \<Rightarrow> bool) \<Rightarrow> bool" where
  "fails m P \<longleftrightarrow> (\<forall>w e w'. m w = Some (Inl e, w') \<longrightarrow> P e)"

named_theorems fails_rules \<open>introduction rules for errors that leave a computation\<close>

lemma fails_basic [fails_rules]:
  "fails (eret x) P" "fails (eread f) P" "fails (ecatch m) P" "P e \<Longrightarrow> fails (ethrow e) P"
  by (auto simp: fails_def eret_def eread_def ecatch_def ethrow_def split: prod.splits option.splits)

lemma fails_elift [fails_rules]: "(\<And>e. r = Inl e \<Longrightarrow> P e) \<Longrightarrow> fails (elift r) P"
  by (simp add: fails_def elift_def)

lemma fails_ecall: "(\<And>w e. fst (f w) = Inl e \<Longrightarrow> P e) \<Longrightarrow> fails (ecall f) P"
  by (auto simp: fails_def ecall_def) (metis fst_conv)

lemma fails_ebind: "fails m P \<Longrightarrow> (\<And>x. fails (k x) P) \<Longrightarrow> fails (ebind m k) P"
  unfolding fails_def ebind_def by (auto split: option.splits sum.splits)

lemma fails_ebind_elift [fails_rules]:
  "(\<And>e. r = Inl e \<Longrightarrow> P e) \<Longrightarrow> (\<And>x. r = Inr x \<Longrightarrow> fails (k x) P) \<Longrightarrow> fails (ebind (elift r) k) P"
  by (cases r) (auto simp: fails_def ethrow_def)

text \<open>The reporter and the file store raise only errors of the engine, as their code does.\<close>

definition reports_as_engine :: "'w engine \<Rightarrow> 'w operation_services \<Rightarrow> bool" where
  "reports_as_engine B S \<longleftrightarrow> (\<forall>e.
     (\<forall>c n w. fst (sendUpdate (rt B) c n w) = Inl e \<longrightarrow> is_engine_error e) \<and>
     (\<forall>w. fst (backupRun S w) = Inl e \<longrightarrow> is_engine_error e) \<and>
     (\<forall>s w. fst (uploadSlice (rt B) s w) = Inl e \<longrightarrow> is_engine_error e))"

lemma store_at_top: "currentPath c = [] \<Longrightarrow> \<exists>c'. store_output L name out c = Inr c' \<and>
  c' = c\<lparr>steps := AList.update name out (steps c), logSizeBytes := logSizeBytes c'\<rparr>"
  by (simp add: store_output_def getStepAt_def getStateAtPath_def)

lemma fails_upsert:
  assumes "\<And>e s w. fst (uploadSlice (rt E) s w) = Inl e \<Longrightarrow> is_engine_error e" and "currentPath c = []"
  shows "fails (upsert_in E name out c) is_engine_error"
proof -
  have "fails (maybeSliceOutput (lang E) (penv E) (rt E) api v) is_engine_error" for api v
    unfolding maybeSliceOutput_def
    by (auto split: option.split intro!: fails_basic fails_ebind [OF fails_ecall] assms(1))
  then have "fails (finalize_output (lang E) (penv E) (rt E) c out) is_engine_error"
    unfolding finalize_output_def
    by (cases "withTruncatedInput (lang E) (penv E) out") (auto intro!: fails_basic fails_ebind)
  then show ?thesis
    unfolding ctx_upsertStep_def using store_at_top [OF assms(2)]
    by (intro fails_ebind) (auto intro!: fails_elift, metis Inl_Inr_False)
qed

lemma fails_finish:
  assumes "reports_as_engine B S" and "rt E = rt B"
  shows "fails (ebind (report E c n) (\<lambda>_. ebind (ecall (backupRun S)) (\<lambda>_. eret x))) is_engine_error"
proof -
  have "fst (sendUpdate (rt B) c n w) = Inl e \<Longrightarrow> is_engine_error e" "fst (backupRun S w) = Inl e \<Longrightarrow> is_engine_error e" for c n w e
    using assms(1) unfolding reports_as_engine_def by blast+
  then show ?thesis
    unfolding report_def assms(2) by (intro fails_ebind fails_ecall fails_basic)
qed

lemma fails_failed_run:
  assumes "reports_as_engine B S" and "rt E = rt B"
  shows "fails (reportFailedRun E S op inp e) is_engine_error"
proof -
  have "fails (upsert_in E name out (emptyContext True True)) is_engine_error" for name out
  proof (rule fails_upsert)
    show "fst (uploadSlice (rt E) s w) = Inl e \<Longrightarrow> is_engine_error e" for e s w
      using assms unfolding reports_as_engine_def by metis
  qed (simp add: emptyContext_def)
  then show ?thesis
    unfolding reportFailedRun_def buildFailedTriggerContext_def Let_def
    by (intro fails_ebind [of "ebind m k" for m k] fails_finish [OF assms] fails_ebind fails_basic)
qed

lemma engine_for_eq: "engine_for B S op inp = Inr E \<Longrightarrow> rt E = rt B \<and> lang E = lang B \<and> penv E = penv B"
  by (auto simp: engine_for_def rbind_eq_Inr)

lemma engine_for_error: "engine_for B S op inp = Inl e \<Longrightarrow> is_engine_error e"
  by (auto simp: engine_for_def fromExecuteWorkflowInput_def split: if_splits)

lemma fails_operation:
  assumes "reports_as_engine B S"
  shows "fails (execute_operation d B S op kind) is_engine_error"
proof -
  have bound: "fails (ebind (elift (engine_for B S op inp)) k) is_engine_error"
    if "\<And>E. rt E = rt B \<Longrightarrow> fails (k E) is_engine_error" for inp and k :: "_ \<Rightarrow> ('a, EngineResponseStatus) eff"
    by (rule fails_ebind_elift) (auto dest: engine_for_error engine_for_eq intro: that)
  have trigger: "fails (reportFailedTriggerRun B S op kind e) is_engine_error" for e
    unfolding reportFailedTriggerRun_def Let_def by (intro bound fails_failed_run [OF assms])
  show ?thesis
    unfolding execute_operation_def Let_def
  proof (intro fails_ebind fails_basic)
    fix r
    have "fails (ebind (ecatch (executeSingleStepOrWorkflow d E S op inp)) (\<lambda>r. case r of
             Inl e \<Rightarrow> if is_engine_error e then ethrow e else reportFailedRun E S op inp e
           | Inr output \<Rightarrow> ebind (report E (finishExecution output) None) (\<lambda>_.
                ebind (ecall (backupRun S)) (\<lambda>_.
                eret (if verdict_status (verdict (finishExecution output)) = RunLOG_SIZE_EXCEEDED
                      then ResponseLOG_SIZE_EXCEEDED else ResponseOK))))) is_engine_error" if "rt E = rt B" for E inp
      by (intro fails_ebind fails_basic)
        (auto split: sum.split intro: fails_basic fails_failed_run [OF assms that] fails_finish [OF assms that])
    then show "fails (case r of
        Inl e \<Rightarrow> if \<not> is_engine_error e then reportFailedTriggerRun B S op kind e else ethrow e
      | Inr inp \<Rightarrow> ebind (elift (engine_for B S op inp)) (\<lambda>E.
          ebind (ecatch (executeSingleStepOrWorkflow d E S op inp)) (\<lambda>r. case r of
             Inl e \<Rightarrow> if is_engine_error e then ethrow e else reportFailedRun E S op inp e
           | Inr output \<Rightarrow> ebind (report E (finishExecution output) None) (\<lambda>_.
                ebind (ecall (backupRun S)) (\<lambda>_.
                eret (if verdict_status (verdict (finishExecution output)) = RunLOG_SIZE_EXCEEDED
                      then ResponseLOG_SIZE_EXCEEDED else ResponseOK)))))) is_engine_error"
      by (cases r) (auto intro: trigger fails_basic bound)
  qed
qed

subsection \<open>The operation ends\<close>

lemma slot_child: "Some c \<in> set (slots a) \<Longrightarrow> c \<in> set (child_steps a)"
proof -
  assume slot: "Some c \<in> set (slots a)"
  have "Some c \<in> set cs \<Longrightarrow> Some c \<in> snd ` (\<lambda>(i, c). (f i, c)) ` set (enumerate 0 cs)" for cs and f :: "nat \<Rightarrow> string"
    by (force simp: image_image case_prod_unfold enumerate_eq_zip set_zip in_set_conv_nth)
  then have "nextAction a = Some c \<or> Some c \<in> snd ` set (childrenOf a)"
    using slot by (cases a) auto
  then show ?thesis unfolding child_steps_mem by force
qed

lemma plan_steps_below: "c \<in> set (getAllSteps a) \<Longrightarrow> a \<in> set (plan_steps x) \<Longrightarrow> c \<in> set (plan_steps x)"
proof (induction "length (getAllSteps a)" arbitrary: a rule: less_induct)
  case less
  from less.prems(1) consider "c = a" | b where "Some b \<in> set (slots a)" "c \<in> set (getAllSteps b)"
    unfolding getAllSteps_cases [of c a] by blast
  then show ?case
  proof cases
    case 1
    then show ?thesis using less.prems(2) by simp
  next
    case 2
    then show ?thesis using less.hyps [OF slot_length [OF 2(1)] 2(2)] plan_steps_child [OF less.prems(2) slot_child [OF 2(1)]] by simp
  qed
qed

lemma tested_step_in_plan:
  assumes "getActionOrThrow name t = Inr s" and "isTrigger (type_of t)"
  shows "s \<in> set (plan_steps (nextAction t))"
proof -
  have s: "s \<in> set (getAllSteps t)" "isAction (type_of s)"
    using assms(1) by (auto simp: getActionOrThrow_def getStepOrThrow_def getStep_def rbind_eq_Inr find_Some_iff
        split: option.splits if_splits)
  then have "s \<noteq> t" using assms(2) by (cases "type_of t") (auto simp: isAction_def isTrigger_def)
  moreover have "slots t = [nextAction t]" using assms(2) by (cases t) (auto simp: isTrigger_def)
  ultimately obtain a where "nextAction t = Some a" "s \<in> set (getAllSteps a)"
    using s(1) getAllSteps_cases [of s t] by (metis empty_iff empty_set set_ConsD)
  moreover have "a \<in> set (plan_steps (Some a))" by simp
  ultimately show ?thesis using plan_steps_below by metis
qed

lemma first_in_plan:
  assumes "well_named t" and "t = trigger wv" and "forWorkflow wv = Inr plan" and "nextOf plan (step_name t) = Inr first"
  shows "Option.bind first (stepAt plan) = nextAction t"
proof -
  have nodes: "plan_nodes plan = (step_name t, trigger_node t) # map node_entry (plan_steps (nextAction t))"
    using visitTrigger_nodes [OF assms(1)] assms(2,3)
    by (auto simp: forWorkflow_def compile_def Let_def rbind_eq_Inr)
  then have first: "first = map_option step_name (nextAction t)"
    using assms(4) by (cases "nextAction t") (simp_all add: nextOf_def trigger_node_def nextIds_def)
  show ?thesis
  proof (cases "nextAction t")
    case (Some a)
    have "step_name a \<noteq> step_name t" using assms(1) by (auto simp: well_named_def Some)
    then show ?thesis using nodes by (simp add: first Some stepAt_def node_entry_def action_node_def)
  qed (simp add: first)
qed

lemma ends_operation:
  assumes t: "t = trigger (opVersion op)" "isTrigger (type_of t)" "well_named t" "runnable (nextAction t)"
    and d: "length (plan_steps (nextAction t)) < d"
  shows "ends (execute_operation d B S op kind)"
proof -
  have failed: "ends (buildFailedTriggerContext E wv inp base e)" for E :: "'a engine" and wv inp base e
    unfolding buildFailedTriggerContext_def Let_def by (intro ends_rules)
  have report: "ends (reportFailedRun E S op inp e)" for E :: "'a engine" and inp e
    unfolding reportFailedRun_def report_def by (intro ends_ebind [OF failed] ends_rules)
  have state: "ends (getWorkflowExecutionState E S wv inp c)" for E wv inp c
    unfolding getWorkflowExecutionState_def runOrReturnPayload_def
    by (auto intro!: ends_rules ends_ebind split: resolved_kind.split option.split)
  have resolved: "ends (resolveStateOrThrowOnNonUserError E S wv inp c)" for E wv inp c
    unfolding resolveStateOrThrowOnNonUserError_def
    by (intro ends_ebind ends_ecatch [OF state]) (auto split: sum.split intro: failed ends_rules)
  have sample: "ends (stateFromWorkflowVersion E S wv name sd)" for E wv name sd
    unfolding stateFromWorkflowVersion_def sample_step_def
    by (auto intro!: ends_rules split: step_type.split)
  have walk: "ends (execute d E (nextAction t) c)" for E :: "'a engine" and c
    by (rule ends_execute [OF t(4) d])
  have steps: "ends (execute d E (Some s) c)" if "s \<in> set (plan_steps (nextAction t))" for E :: "'a engine" and s c
    using ends_execute [of "Some s" d E c] runnable_sub [OF that t(4)] d by linarith
  have limit: "ends (applyLogSizeLimitIfExceeded E a c)" for E :: "'a engine" and a c
    unfolding applyLogSizeLimitIfExceeded_def by (auto intro!: ends_rules)
  have whole: "ends (executeFromTrigger d E b (opVersion op) c)" for E :: "'a engine" and b c
    unfolding executeFromTrigger_def report_def t(1) [symmetric]
    by (rule ends_ebind) (auto intro!: ends_rules limit walk simp: first_in_plan [OF t(3,1)])
  have main: "ends (executeSingleStepOrWorkflow d E S op inp)" for E inp
    unfolding executeSingleStepOrWorkflow_def Let_def report_def
    by (auto intro!: ends_ebind [OF sample] ends_ebind [OF resolved] ends_rules whole steps
        tested_step_in_plan [OF _ t(2)] simp: t(1) [symmetric] split: option.split)
  have fetch: "ends (resolveExecuteWorkflowOperation S op kind)"
    unfolding resolveExecuteWorkflowOperation_def resolveJobPayload_def fetchExecutionStateFromLogs_def
    by (auto intro!: ends_ebind ends_rules split: operation_kind.split option.split JobPayload.split)
  show ?thesis
    unfolding execute_operation_def reportFailedTriggerRun_def Let_def report_def [abs_def]
    by (intro ends_ebind ends_ecatch fetch)
       (auto intro!: ends_ebind [OF ends_ecatch [OF main]] report ends_rules simp: report_def split: sum.split)
qed

end
