(* ===== verification/Resume_Laws.thy ===== *)
theory Resume_Laws
  imports Operation_Laws
begin

text \<open>
  What a resumed run starts with. The journal of the earlier run is kept at the positions that can be
  restored: the step and every loop around it succeeded or paused, or failed when the run resumes at a
  waitpoint. Statuses are compared position by position, as in \<open>Journal_Refinement\<close>; inputs may have been
  shortened and outputs moved to files once more.
\<close>

definition status_at :: "journal \<Rightarrow> journal_path \<Rightarrow> string \<Rightarrow> StepOutputStatus option" where
  "status_at j q m = map_option (\<lambda>out. status (output_base out)) (cells_of j q m)"

fun restorable_at :: "bool \<Rightarrow> journal \<Rightarrow> journal_path \<Rightarrow> string \<Rightarrow> bool" where
  "restorable_at wp j [] m = (\<exists>st. status_at j [] m = Some st \<and> isStepRestorable wp st)"
| "restorable_at wp j ((n, i) # q) m \<longleftrightarrow> restorable_at wp j [] n \<and>
     (\<exists>it. Option.bind (map_of j n) (\<lambda>out. array_at (loop_iterations out) i) = Some it \<and> restorable_at wp it q m)"

definition top_name :: "journal_path \<Rightarrow> string \<Rightarrow> string" where
  "top_name q m = (case q of [] \<Rightarrow> m | x # _ \<Rightarrow> fst x)"

lemma base_shell [simp]: "output_base (shell out) = output_base out"
  by (cases out) auto

lemma status_at_Nil [simp]: "status_at j [] m = map_option (\<lambda>out. status (output_base out)) (map_of j m)"
  by (simp add: status_at_def option.map_comp o_def)

lemma status_at_Cons: "status_at j ((n, i) # q) m =
   (case Option.bind (map_of j n) (\<lambda>out. array_at (loop_iterations out) i) of Some it \<Rightarrow> status_at it q m | None \<Rightarrow> None)"
proof (cases "map_of j n")
  case (Some out)
  then show ?thesis
    by (cases out) (simp_all add: status_at_def cells_of_Cons loop_iterations_def array_at_def split: option.split)
qed (simp add: status_at_def cells_of_Cons)

lemma status_at_cong:
  "map_of j (top_name q m) = map_of j' (top_name q m) \<Longrightarrow> status_at j q m = status_at j' q m"
  by (cases q) (auto simp: top_name_def status_at_Cons)

lemma restorable_status: "restorable_at wp j q m \<Longrightarrow> \<exists>st. status_at j q m = Some st \<and> isStepRestorable wp st"
  by (induction wp j q m rule: restorable_at.induct) (auto simp: status_at_Cons)

subsection \<open>Restoring a journal\<close>

lemma restorable_iterations_map: "restorable_iterations wp its = map (restorable_steps wp) its"
  by (induction its) auto

lemma insert_output:
  "insertSuccessStepsOrPausedRecursively wp out = (if isStepRestorable wp (status (output_base out))
     then Some (case out of ActionOutput _ _ _ \<Rightarrow> out
       | LoopOutput _ _ \<Rightarrow> setIterations (map (restorable_steps wp) (loop_iterations out)) (loop_object out)) else None)"
proof (cases out)
  case (LoopOutput b r)
  then show ?thesis
    by (cases r; (cases "the r")?) (auto simp: restorable_iterations_map loop_iterations_def)
qed simp

lemma map_of_restorable:
  assumes "distinct (map fst j)"
  shows "map_of (restorable_steps wp j) n = Option.bind (map_of j n) (insertSuccessStepsOrPausedRecursively wp)"
  using assms
proof (induction j)
  case (Cons x j)
  obtain k out where x: "x = (k, out)" by (cases x)
  have "map_of j k = None" using Cons.prems x by (simp add: map_of_eq_None_keys)
  then show ?case using Cons x by (auto split: option.split)
qed simp

lemma base_set_iterations [simp]: "output_base (setIterations its out) = output_base out"
  "output_base (loop_object out) = output_base out"
  by (simp_all add: setIterations_def loop_object_def)

lemma status_restorable:
  "wf_journal j \<Longrightarrow> status_at (restorable_steps wp j) q m = (if restorable_at wp j q m then status_at j q m else None)"
proof (induction q arbitrary: j)
  case Nil
  then have "distinct (map fst j)" by (subst (asm) wf_journal_conv) simp
  then show ?case
    by (cases "map_of j m") (auto simp: map_of_restorable insert_output split: StepOutput.split)
next
  case (Cons x q)
  obtain n i where x: "x = (n, i)" by (cases x)
  have d: "distinct (map fst j)" using Cons.prems by (subst (asm) wf_journal_conv) simp
  show ?case
  proof (cases "map_of j n")
    case None
    then show ?thesis by (simp add: x status_at_Cons map_of_restorable [OF d])
  next
    case (Some out)
    then have "wf_output out" using Cons.prems map_of_SomeD by (subst (asm) wf_journal_conv) fastforce
    then have it: "wf_journal it" if "array_at (loop_iterations out) i = Some it" for it
      using that by (auto simp: wf_output_conv wf_iterations_conv array_at_def split: if_splits)
    show ?thesis
    proof (cases "isStepRestorable wp (status (output_base out))")
      case False
      then show ?thesis by (simp add: x status_at_Cons map_of_restorable [OF d] insert_output Some)
    next
      case True
      have new: "array_at (loop_iterations (case out of ActionOutput _ _ _ \<Rightarrow> out
          | LoopOutput _ _ \<Rightarrow> setIterations (map (restorable_steps wp) (loop_iterations out)) (loop_object out))) i
        = map_option (restorable_steps wp) (array_at (loop_iterations out) i)"
        by (cases out) (simp_all add: array_at_def, simp_all add: loop_iterations_def)
      show ?thesis
        using True Cons.IH [OF it]
        by (cases "array_at (loop_iterations out) i") (simp_all add: x status_at_Cons map_of_restorable [OF d] insert_output Some new)
    qed
  qed
qed

subsection \<open>Writing it back\<close>

lemma status_update:
  "status_at (AList.update n out j) q m = (if top_name q m = n then status_at [(n, out)] q m else status_at j q m)"
  by (auto intro: status_at_cong simp: update_conv')

text \<open>What the context writes has the status of what it was given, at every depth.\<close>

lemma loop_iterations_truncated [simp]: "loop_iterations (withTruncatedInput L env out) = loop_iterations out"
  by (cases out) (simp_all add: withTruncatedInput_def loop_iterations_def)

lemma status_single:
  assumes "status (output_base fin) = status (output_base out)" and "loop_iterations fin = loop_iterations out"
  shows "status_at [(n, fin)] q m = status_at [(n, out)] q m"
  using assms by (cases q) (auto simp: status_at_Cons)

lemma sat_finalize:
  "sat (finalize_output L env T c out) (\<lambda>fin. status (output_base fin) = status (output_base out) \<and>
    loop_iterations fin = loop_iterations out)"
proof -
  have "status (output_base (withTruncatedInput L env out)) = status (output_base out)"
    by (cases out) (simp_all add: withTruncatedInput_def)
  moreover have "loop_iterations (withTruncatedInput L env out) = loop_iterations out" by simp
  ultimately show ?thesis
    unfolding finalize_output_def
    by (cases "withTruncatedInput L env out")
      (auto intro!: sat_eret sat_ebind_any split: option.splits simp: loop_iterations_def)
qed

lemma sat_upsert_top:
  assumes "currentPath c = []"
  shows "sat (ctx_upsertStep L env T name out c) (\<lambda>c'. currentPath c' = [] \<and> tags c' = tags c \<and> verdict c' = verdict c \<and>
    (\<forall>q m. status_at (steps c') q m = (if top_name q m = name then status_at [(name, out)] q m else status_at (steps c) q m)))"
proof -
  have "sat (elift (store_output L name fin c)) (\<lambda>c'. currentPath c' = [] \<and> tags c' = tags c \<and> verdict c' = verdict c \<and>
    (\<forall>q m. status_at (steps c') q m = (if top_name q m = name then status_at [(name, out)] q m else status_at (steps c) q m)))"
    if "status (output_base fin) = status (output_base out) \<and> loop_iterations fin = loop_iterations out" for fin
  proof (rule sat_elift)
    fix c'
    assume "store_output L name fin c = Inr c'"
    then obtain z where c': "c' = c\<lparr>steps := AList.update name fin (steps c), logSizeBytes := z\<rparr>"
      by (auto simp: store_output_def rbind_eq_Inr assms)
    have "status_at [(name, fin)] q m = status_at [(name, out)] q m" for q m
      by (rule status_single) (use that in auto)
    then show "currentPath c' = [] \<and> tags c' = tags c \<and> verdict c' = verdict c \<and>
        (\<forall>q m. status_at (steps c') q m = (if top_name q m = name then status_at [(name, out)] q m else status_at (steps c) q m))"
      by (simp add: c' status_update assms)
  qed
  then show ?thesis unfolding ctx_upsertStep_def by (rule sat_ebind [OF sat_finalize])
qed

lemma sat_restore:
  assumes "distinct (map fst j)" and "currentPath c = []"
  shows "sat (efold (\<lambda>c (name, out).
      if isStepRestorable wp (status (output_base out))
      then (case insertSuccessStepsOrPausedRecursively wp out of None \<Rightarrow> eret c | Some out' \<Rightarrow> upsert_in E name out' c)
      else eret c) c j)
    (\<lambda>c'. currentPath c' = [] \<and> tags c' = tags c \<and> verdict c' = verdict c \<and> (\<forall>q m. status_at (steps c') q m =
      (if map_of (restorable_steps wp j) (top_name q m) = None then status_at (steps c) q m
       else status_at (restorable_steps wp j) q m)))"
  using assms
proof (induction j arbitrary: c)
  case Nil
  then show ?case by (simp add: sat_eret)
next
  case (Cons x j)
  obtain n out where x: "x = (n, out)" by (cases x)
  have d: "distinct (map fst j)" "map_of j n = None" using Cons.prems(1) by (simp_all add: x map_of_eq_None_keys)
  have absent: "map_of (restorable_steps wp j) n = None" using d by (simp add: map_of_restorable)
  show ?case
  proof (cases "isStepRestorable wp (status (output_base out))")
    case False
    then have "restorable_steps wp (x # j) = restorable_steps wp j" by (simp add: x insert_output)
    then show ?thesis using Cons.IH [OF d(1) Cons.prems(2)] False
      unfolding x by (simp only: efold.simps prod.case if_False ebind_simps)
  next
    case True
    then obtain out' where out': "insertSuccessStepsOrPausedRecursively wp out = Some out'" by (simp add: insert_output)
    have later: "status_at ((n, out') # restorable_steps wp j) q m =
        (if top_name q m = n then status_at [(n, out')] q m else status_at (restorable_steps wp j) q m)" for q m
      by (auto intro: status_at_cong)
    show ?thesis
      using True absent unfolding x efold.simps prod.case out' option.case if_True restorable_steps.simps
      by (auto intro!: sat_ebind [OF sat_upsert_top [OF Cons.prems(2)]] sat_weaken [OF Cons.IH [OF d(1)]]
          simp: out' later split: if_splits)
  qed
qed

lemma resume_state:
  assumes "wf_journal (stateSteps st)"
    and "getWorkflowExecutionState E S wv (ResolvedRESUME payload rsn st) (emptyContext True True) w = Some (Inr c, w')"
  shows "status_at (steps c) q m =
      (if restorable_at (rsn = ResumeWAITPOINT) (stateSteps st) q m then status_at (stateSteps st) q m else None)"
    and "set (tags c) = set (stateTags st)" and "verdict c = VerdictRunning" and "currentPath c = []"
proof -
  let ?wp = "rsn = ResumeWAITPOINT" and ?c = "addTags (stateTags st) (emptyContext True True)"
  have d: "distinct (map fst (stateSteps st))" using assms(1) by (subst (asm) wf_journal_conv) simp
  have start: "currentPath ?c = []" "steps ?c = []" "set (tags ?c) = set (stateTags st)" "verdict ?c = VerdictRunning"
    by (auto simp: addTags_def emptyContext_def)
  note run = assms(2) [unfolded getWorkflowExecutionState_def resolved_kind.case]
  have c: "currentPath c = []" "tags c = tags ?c" "verdict c = VerdictRunning" "status_at (steps c) q m =
      (if map_of (restorable_steps ?wp (stateSteps st)) (top_name q m) = None then status_at [] q m
       else status_at (restorable_steps ?wp (stateSteps st)) q m)" for q m
    using sat_restore [OF d start(1), of ?wp E, unfolded sat_def, rule_format, OF run] start(2,4) by simp_all
  show "set (tags c) = set (stateTags st)" "verdict c = VerdictRunning" "currentPath c = []"
    using c(1-3) by (simp_all add: addTags_def emptyContext_def)
  have none: "status_at [] q m = None" for q m by (cases q) (auto simp: status_at_Cons)
  have "status_at (restorable_steps ?wp (stateSteps st)) q m = None"
    if "map_of (restorable_steps ?wp (stateSteps st)) (top_name q m) = None"
    using that by (cases q) (auto simp: top_name_def status_at_Cons)
  then show "status_at (steps c) q m =
      (if restorable_at ?wp (stateSteps st) q m then status_at (stateSteps st) q m else None)"
    using c(4) [of q m] none status_restorable [OF assms(1), of ?wp q m] by auto
qed

end
