(* ===== verification/Operation_Properties.thy ===== *)
theory Operation_Properties
  imports Resume_Laws
begin

text \<open>What the operation of a worker promises, whatever the outside world answers.\<close>


text \<open>C22: Every operation ends, for a begun and a resumed run and for the test of one step: with steps that have
  names of their own it returns or throws, and the bound of the model is not reached.\<close>

theorem operation_ends:
  assumes "t = trigger (opVersion op)" and "isTrigger (type_of t)" and "well_named t" and "runnable (nextAction t)"
    and "length (plan_steps (nextAction t)) < d"
  shows "\<exists>r w'. execute_operation d B S op kind w = Some (r, w')"
  using ends_operation [OF assms, of B S kind] unfolding ends_def by auto

text \<open>C20: A resumed run starts with exactly the results that can be restored: a position of the stored journal is
  kept, with its status, when the step and every loop around it succeeded or paused, or failed and the run
  resumes at a waitpoint. So a retried run takes the steps that succeeded for done, and no other.\<close>

theorem resume_restores_exactly:
  assumes "wf_journal (stateSteps st)"
    and "getWorkflowExecutionState E S wv (ResolvedRESUME payload rsn st) (emptyContext True True) w = Some (Inr c, w')"
  shows "(\<forall>q m. status_at (steps c) q m =
      (if restorable_at (rsn = ResumeWAITPOINT) (stateSteps st) q m then status_at (stateSteps st) q m else None)) \<and>
    (\<forall>m. isCompleted m c = Inr (status_at (stateSteps st) [] m = Some StepSUCCEEDED \<or>
      rsn = ResumeWAITPOINT \<and> status_at (stateSteps st) [] m = Some StepFAILED)) \<and>
    set (tags c) = set (stateTags st) \<and> is_running c"
proof -
  note state = resume_state [OF assms]
  have "isCompleted m c = Inr (status_at (stateSteps st) [] m = Some StepSUCCEEDED \<or>
      rsn = ResumeWAITPOINT \<and> status_at (stateSteps st) [] m = Some StepFAILED)" for m
    using state(1) [of "[]" m]
    by (cases "map_of (steps c) m"; cases "map_of (stateSteps st) m")
       (auto simp: isCompleted_def getStateAtPath_def state(4) isStepRestorable_def split: if_splits)
  with state show ?thesis by simp
qed

end
