(* ===== verification/Operation_Witnesses.thy ===== *)
theory Operation_Witnesses
  imports Engine_Witnesses Operation_Properties
begin

text \<open>An operation on the sample engine whose log file is gone, one that is resumed, and the instances of the properties of
  operations at them.\<close>

definition demo_operation :: workflow_operation where
  "demo_operation = \<lparr>opVersion = demo_flow, opExecution = ''e'', opPublicUrl = ''x/api/'', opInternalUrl = ''x'',
     opEnvironment = ''PRODUCTION'', opHandler = None, opRequest = None, opStepToTest = None, opSampleData = None,
     opLogsFile = Some ''f''\<rparr>"

definition demo_file_services :: "unit operation_services" where
  "demo_file_services = \<lparr>downloadFile = (\<lambda>_ w. (Inl (UserError ''EngineFileNotFoundError'' ''gone''), w)),
     downloadLogs = (\<lambda>_ w. (Inr None, w)), runTrigger = (\<lambda>_ _ w. (Inr [], w)),
     resolveLoopSettings = (\<lambda>_ _ w. (Inr None, w)), settingsJson = (\<lambda>_. JNull), backupRun = (\<lambda>w. (Inr (), w)),
     bindServices = (\<lambda>_ _. demo_services)\<rparr>"

lemma demo_resume_throws:
  "execute_operation 2 (demo_engine None) demo_file_services demo_operation (OpRESUME None ResumeRETRY) () =
    Some (Inl (EngineGenericError ''ExecutionStateMissing'' ''executionState is missing in logs file''), ())"
  by (simp add: execute_operation_def resolveExecuteWorkflowOperation_def fetchExecutionStateFromLogs_def demo_operation_def
      demo_file_services_def effect_defs)


text \<open>The missing payload of a begun run is a failure of the user, so the operation reports a failed run.\<close>

theorem operation_ends_witness:
  "\<exists>r w'. execute_operation 2 (demo_engine None) demo_file_services demo_operation (OpBEGIN (Some (RefPayload ''p'')) False) ()
    = Some (r, w')"
proof (rule operation_ends)
  show "isTrigger (type_of (trigger (opVersion demo_operation)))" by (simp add: demo_operation_def demo_flow_def isTrigger_def)
  show "well_named (trigger (opVersion demo_operation))"
    by (simp add: demo_operation_def demo_flow_def well_named_def demo_parallel_def demo_base_def object_prototype_keys_def)
  show "runnable (nextAction (trigger (opVersion demo_operation)))"
    "length (plan_steps (nextAction (trigger (opVersion demo_operation)))) < 2"
    using demo_runnable by (simp_all add: demo_operation_def demo_flow_def)
qed simp

definition demo_stored :: ExecutionState where
  "demo_stored = \<lparr>stateSteps =
     [(''step_1'', ActionOutput CODE (new_base StepSUCCEEDED (Some (JObj []))) None),
      (''step_2'', LoopOutput (new_base StepSUCCEEDED (Some (JObj []))) (Some (LoopStepResult None 1
         [[(''step_3'', ActionOutput CODE (new_base StepFAILED (Some (JObj []))) None)]])))], stateTags = [''t'']\<rparr>"

theorem resume_restores_exactly_witness:
  "\<exists>c. getWorkflowExecutionState (demo_engine None) demo_file_services demo_flow (ResolvedRESUME None ResumeRETRY demo_stored)
      (emptyContext True True) () = Some (Inr c, ()) \<and>
    isCompleted ''step_1'' c = Inr True \<and> status_at (steps c) [(''step_2'', 0)] ''step_3'' = None"
proof -
  have "\<exists>c. getWorkflowExecutionState (demo_engine None) demo_file_services demo_flow (ResolvedRESUME None ResumeRETRY demo_stored)
      (emptyContext True True) () = Some (Inr c, ())"
    by (simp add: getWorkflowExecutionState_def demo_stored_def isStepRestorable_def new_base_def ctx_upsertStep_def finalize_output_def
        withTruncatedInput_def maybeTruncateInput_def maybeSliceOutput_def effect_defs addTags_def emptyContext_def store_top
        loop_object_def setIterations_def)
  then obtain c where run: "getWorkflowExecutionState (demo_engine None) demo_file_services demo_flow
      (ResolvedRESUME None ResumeRETRY demo_stored) (emptyContext True True) () = Some (Inr c, ())" by blast
  have "wf_journal (stateSteps demo_stored)" by (simp add: demo_stored_def)
  from resume_restores_exactly [OF this run] run show ?thesis
    by (simp add: demo_stored_def new_base_def isStepRestorable_def loop_iterations_def array_at_def)
qed

end
