(* ===== verification/Run_Store.thy ===== *)
theory Run_Store
  imports Async_Programs Engine_Operation
begin

text \<open>
  What the server keeps about runs, and the calls on it: rows of executions and waitpoints in the database,
  one-time system jobs, the hashes of pending metadata with the queue of metadata jobs in Redis, and the queue
  of run jobs. Rows and hashes are records of JSON values, as the code treats them.

  \<open>run_perform\<close> answers one call. A row lock of a transaction is a lock of \<open>Async_Programs\<close>. Queue libraries
  enter with what they document: a job whose identifier the system queue holds is not added again, and neither
  is a metadata job whose deduplication key is set. \<open>run_services\<close> holds what lies outside: generated
  identifiers, tenants, privacy, files.

  Three fields of the world are a history of the calls and are not read by them: \<open>merges\<close> (what was merged, in
  order), \<open>adding\<close> (runs whose metadata was merged and whose job was not yet added) and \<open>unread\<close> (runs of metadata
  jobs taken from the queue that have not read their hash yet).
\<close>

subsection \<open>Rows\<close>

type_synonym row = "json js_record"

text \<open>\<open>isNil(row[k])\<close> holds when \<open>own row k = None\<close>.\<close>

definition own :: "row \<Rightarrow> string \<Rightarrow> json option" where
  "own r k = (case map_of r k of Some JNull \<Rightarrow> None | v \<Rightarrow> v)"

definition text_in :: "row \<Rightarrow> string \<Rightarrow> string option" where
  "text_in r k = (case own r k of Some (JStr s) \<Rightarrow> Some s | _ \<Rightarrow> None)"

definition text_or_empty :: "row \<Rightarrow> string \<Rightarrow> string" where
  "text_or_empty r k = (case text_in r k of Some s \<Rightarrow> s | None \<Rightarrow> [])"

fun show_status :: "ExecutionStatus \<Rightarrow> string" where
  "show_status RunFAILED = ''FAILED''"
| "show_status RunINTERNAL_ERROR = ''INTERNAL_ERROR''"
| "show_status RunPAUSED = ''PAUSED''"
| "show_status RunQUEUED = ''QUEUED''"
| "show_status RunRUNNING = ''RUNNING''"
| "show_status RunSUCCEEDED = ''SUCCEEDED''"
| "show_status RunMEMORY_LIMIT_EXCEEDED = ''MEMORY_LIMIT_EXCEEDED''"
| "show_status RunTIMEOUT = ''TIMEOUT''"
| "show_status RunCANCELED = ''CANCELED''"
| "show_status RunLOG_SIZE_EXCEEDED = ''LOG_SIZE_EXCEEDED''"

definition all_statuses :: "ExecutionStatus list" where
  "all_statuses = [RunFAILED, RunINTERNAL_ERROR, RunPAUSED, RunQUEUED, RunRUNNING, RunSUCCEEDED,
     RunMEMORY_LIMIT_EXCEEDED, RunTIMEOUT, RunCANCELED, RunLOG_SIZE_EXCEEDED]"

definition status_in :: "row \<Rightarrow> ExecutionStatus option" where
  "status_in r = find (\<lambda>st. own r ''status'' = Some (JStr (show_status st))) all_statuses"

definition terminal_in :: "row \<Rightarrow> bool \<Rightarrow> bool" where
  "terminal_in r ignoreInternalError = (case status_in r of
     None \<Rightarrow> False | Some st \<Rightarrow> isExecutionStateTerminal st ignoreInternalError)"

lemma status_in_iff: "status_in r = Some st \<longleftrightarrow> own r ''status'' = Some (JStr (show_status st))"
  by (cases st) (auto simp: status_in_def all_statuses_def)

definition assign_fields :: "row \<Rightarrow> row \<Rightarrow> row" where
  "assign_fields r fs = foldl (\<lambda>r (k, v). AList.update k v r) r fs"

lemma map_of_assign_fields: "map_of (assign_fields r fs) k = (case map_of (rev fs) k of None \<Rightarrow> map_of r k | Some v \<Rightarrow> Some v)"
  unfolding assign_fields_def
proof (induction fs arbitrary: r)
  case (Cons p fs)
  obtain k' v where "p = (k', v)" by fastforce
  then show ?case using Cons [of "AList.update k' v r"]
    by (auto simp: update_conv' map_add_def split: option.split)
qed simp

subsection \<open>Waitpoints\<close>

datatype WaitpointStatus = PENDING | COMPLETED

datatype WaitpointVersion = V0 | V1

datatype PauseType = PauseDELAY | PauseWEBHOOK

record waitpoint =
  wpId :: string
  wpExecution :: string
  wpProject :: string
  wpType :: PauseType
  wpVersion :: WaitpointVersion
  wpStatus :: WaitpointStatus
  wpStep :: string
  wpResumeAt :: "string option"
  wpResponse :: "json option"
  wpHandler :: "string option"
  wpRequest :: "string option"
  wpPayload :: "json option"

record CreateForPauseParams =
  cpExecution :: string
  cpProject :: string
  cpStep :: string
  cpType :: PauseType
  cpVersion :: WaitpointVersion
  cpResumeAt :: "string option"
  cpResponse :: "json option"
  cpHandler :: "string option"
  cpRequest :: "string option"

text \<open>The condition of a query: the columns it names and their values.\<close>

record waitpoint_query =
  whereId :: "string option"
  whereExecution :: "string option"
  whereStep :: "string option"
  whereStatus :: "WaitpointStatus option"
  whereVersion :: "WaitpointVersion option"

definition any_waitpoint :: waitpoint_query where
  "any_waitpoint = \<lparr>whereId = None, whereExecution = None, whereStep = None, whereStatus = None, whereVersion = None\<rparr>"

definition agrees :: "'a option \<Rightarrow> 'a \<Rightarrow> bool" where
  "agrees wanted x = (case wanted of None \<Rightarrow> True | Some y \<Rightarrow> x = y)"

definition meets :: "waitpoint_query \<Rightarrow> waitpoint \<Rightarrow> bool" where
  "meets q w \<longleftrightarrow> agrees (whereId q) (wpId w) \<and> agrees (whereExecution q) (wpExecution w) \<and> agrees (whereStep q) (wpStep w) \<and>
     agrees (whereStatus q) (wpStatus w) \<and> agrees (whereVersion q) (wpVersion w)"

lemma agrees_simps [simp]: "agrees None x" "agrees (Some y) x \<longleftrightarrow> x = y"
  by (simp_all add: agrees_def)

subsection \<open>Jobs\<close>

datatype StreamStepProgress = StreamWEBSOCKET | StreamNONE

datatype run_kind = JobBEGIN bool | JobRESUME ResumeReason

record run_job =
  jobIdent :: string
  jobRun :: string
  jobProject :: string
  jobTenant :: string
  jobEnvironment :: "json option"
  jobWorkflow :: "json option"
  jobVersion :: "json option"
  jobPayload :: JobPayload
  jobHandler :: "string option"
  jobRequest :: "string option"
  jobStream :: StreamStepProgress
  jobStepToTest :: "json option"
  jobSampleData :: "json option"
  jobLogsFile :: string
  jobPrivacy :: json
  jobConcurrency :: "json option"
  jobKind :: run_kind
  jobRetained :: bool

record delay_job =
  delayExecution :: string
  delayProject :: string
  delayWaitpoint :: string
  delayUntil :: string
  delayFailed :: bool

datatype run_event = EventRESUMED row | EventFINISHED row | HooksFINISHED row | SearchINDEXED row

subsection \<open>Calls\<close>

datatype run_call =
    Find_Execution string
  | Find_Execution_Of string string            \<comment> \<open>id, project\<close>
  | Update_Execution string string row
  | Save_Execution row
  | Workflow_Exists string
  | Find_Waitpoint waitpoint_query
  | Insert_Waitpoint waitpoint                 \<comment> \<open>\<open>orIgnore\<close>\<close>
  | Save_Waitpoint waitpoint
  | Delete_Waitpoint string
  | Delete_Waitpoints_Of string
  | Generate_Id
  | Tenant_Of string
  | Sensitive_Steps string
  | Privacy_For string string "string list"
  | Mask_Text string string
  | Public_Url string
  | Store_Payload string json                  \<comment> \<open>\<open>fileService.save\<close>\<close>
  | Read_Logs string
  | Register_Ticket string "json option"
  | Add_Run_Job run_job
  | Remove_Run_Jobs string                     \<comment> \<open>\<open>removeAllExecutionJobs\<close>\<close>
  | Get_Delay_Job string
  | Delay_Job_Failed string
  | Retry_Delay_Job string
  | Add_Delay_Job string delay_job
  | Merge_Hash string row                      \<comment> \<open>\<open>HSET\<close>\<close>
  | Get_Hash string                            \<comment> \<open>\<open>HGETALL\<close>\<close>
  | Delete_Hash_If string string json          \<comment> \<open>the script of \<open>deleteKeyIfFieldValueMatches\<close>\<close>
  | Add_Metadata_Job string string
  | Take_Metadata_Job
  | Remove_Dedup_Key string
  | Record_Event run_event
  | Await_Response string

datatype run_reply =
    Done
  | A_Row "row option"
  | A_Waitpoint "waitpoint option"
  | A_Text string
  | Texts "string list"
  | A_Json json
  | A_Flag bool
  | A_Delay_Job "delay_job option"
  | A_Metadata_Job "(string \<times> string) option"

type_synonym 'a run_async = "(run_call, run_reply, 'a) async"

record run_world =
  executions :: "row list"
  waitpoints :: "waitpoint list"
  runJobs :: "run_job list"
  delayJobs :: "(string \<times> delay_job) list"
  payloadFiles :: "(string \<times> json) list"
  hashes :: "string \<Rightarrow> row option"
  metadataJobs :: "(string \<times> string) list"
  dedupKeys :: "string set"
  events :: "run_event list"
  drawn :: nat
  merges :: "(string \<times> row) list"
  adding :: "string list"
  unread :: "string list"

record run_services =
  idOf :: "nat \<Rightarrow> string"                                       \<comment> \<open>\<open>generateId()\<close>\<close>
  tenantOf :: "string \<Rightarrow> string result"
  workflowExists :: "string \<Rightarrow> bool"
  sensitiveSteps :: "string \<Rightarrow> string list"
  privacyFor :: "string \<Rightarrow> string \<Rightarrow> string list \<Rightarrow> json"
  maskText :: "string \<Rightarrow> string \<Rightarrow> string"
  publicUrl :: "string \<Rightarrow> string"
  payloadBytes :: "json \<Rightarrow> nat"                                 \<comment> \<open>\<open>getPayloadSizeInBytes\<close>\<close>
  inlineThresholdKb :: nat
  timeOf :: "string \<Rightarrow> int"                                     \<comment> \<open>\<open>new Date(text).getTime()\<close>\<close>
  responseTo :: "string \<Rightarrow> json"

definition redisMetadataKey :: "string \<Rightarrow> string" where
  "redisMetadataKey runId = ''runs_metadata:'' @ runId"

definition has_id :: "string \<Rightarrow> row \<Rightarrow> bool" where
  "has_id e r \<longleftrightarrow> text_in r ''id'' = Some e"

definition in_project :: "string \<Rightarrow> row \<Rightarrow> bool" where
  "in_project p r \<longleftrightarrow> text_in r ''projectId'' = Some p"

definition same_place :: "waitpoint \<Rightarrow> waitpoint \<Rightarrow> bool" where
  "same_place v w \<longleftrightarrow> wpExecution v = wpExecution w \<and> wpStep v = wpStep w"

fun run_perform :: "run_services \<Rightarrow> run_call \<Rightarrow> run_world \<Rightarrow> run_reply result \<times> run_world" where
  "run_perform P (Find_Execution e) w = (Inr (A_Row (find (has_id e) (executions w))), w)"
| "run_perform P (Find_Execution_Of e p) w = (Inr (A_Row (find (\<lambda>r. has_id e r \<and> in_project p r) (executions w))), w)"
| "run_perform P (Update_Execution e p fs) w = (Inr Done, w\<lparr>executions :=
     map (\<lambda>r. if has_id e r \<and> in_project p r then assign_fields r fs else r) (executions w)\<rparr>)"
| "run_perform P (Save_Execution r) w = (Inr (A_Row (Some r)), w\<lparr>executions := executions w @ [r]\<rparr>)"
| "run_perform P (Workflow_Exists f) w = (Inr (A_Flag (workflowExists P f)), w)"
| "run_perform P (Find_Waitpoint q) w = (Inr (A_Waitpoint (find (meets q) (waitpoints w))), w)"
| "run_perform P (Insert_Waitpoint v) w = (Inr Done,
     if \<exists>u \<in> set (waitpoints w). same_place u v then w else w\<lparr>waitpoints := waitpoints w @ [v]\<rparr>)"
| "run_perform P (Save_Waitpoint v) w = (Inr Done,
     w\<lparr>waitpoints := map (\<lambda>u. if wpId u = wpId v then v else u) (waitpoints w)\<rparr>)"
| "run_perform P (Delete_Waitpoint i) w = (Inr Done, w\<lparr>waitpoints := filter (\<lambda>u. wpId u \<noteq> i) (waitpoints w)\<rparr>)"
| "run_perform P (Delete_Waitpoints_Of e) w =
     (Inr Done, w\<lparr>waitpoints := filter (\<lambda>u. wpExecution u \<noteq> e) (waitpoints w)\<rparr>)"
| "run_perform P Generate_Id w = (Inr (A_Text (idOf P (drawn w))), w\<lparr>drawn := Suc (drawn w)\<rparr>)"
| "run_perform P (Tenant_Of p) w = (map_sum id A_Text (tenantOf P p), w)"
| "run_perform P (Sensitive_Steps v) w = (Inr (Texts (sensitiveSteps P v)), w)"
| "run_perform P (Privacy_For t f ns) w = (Inr (A_Json (privacyFor P t f ns)), w)"
| "run_perform P (Mask_Text t m) w = (Inr (A_Text (maskText P t m)), w)"
| "run_perform P (Public_Url p) w = (Inr (A_Text (publicUrl P p)), w)"
| "run_perform P (Store_Payload f x) w = (Inr Done, w\<lparr>payloadFiles := AList.update f x (payloadFiles w)\<rparr>)"
| "run_perform P (Read_Logs f) w = (Inr Done, w)"
| "run_perform P (Register_Ticket j t) w = (Inr Done, w)"
| "run_perform P (Add_Run_Job j) w = (Inr Done, w\<lparr>runJobs := runJobs w @ [j]\<rparr>)"
| "run_perform P (Remove_Run_Jobs e) w = (Inr Done, w)"
| "run_perform P (Get_Delay_Job j) w = (Inr (A_Delay_Job (map_of (delayJobs w) j)), w)"
| "run_perform P (Delay_Job_Failed j) w =
     (Inr (A_Flag (case map_of (delayJobs w) j of None \<Rightarrow> False | Some d \<Rightarrow> delayFailed d)), w)"
| "run_perform P (Retry_Delay_Job j) w = (Inr Done, w\<lparr>delayJobs := map (\<lambda>(k, d).
     (k, if k = j then d\<lparr>delayFailed := False\<rparr> else d)) (delayJobs w)\<rparr>)"
| "run_perform P (Add_Delay_Job j d) w = (Inr Done,
     if map_of (delayJobs w) j = None then w\<lparr>delayJobs := delayJobs w @ [(j, d)]\<rparr> else w)"
| "run_perform P (Merge_Hash k fs) w = (Inr Done, w\<lparr>
     hashes := (hashes w)(k \<mapsto> assign_fields (case hashes w k of None \<Rightarrow> [] | Some h \<Rightarrow> h) fs),
     merges := merges w @ [(k, fs)], adding := k # adding w\<rparr>)"
| "run_perform P (Get_Hash k) w = (Inr (A_Row (hashes w k)), w\<lparr>unread := remove1 k (unread w)\<rparr>)"
| "run_perform P (Delete_Hash_If k f v) w = (Inr Done,
     case hashes w k of None \<Rightarrow> w
     | Some h \<Rightarrow> if map_of h f = Some v then w\<lparr>hashes := (hashes w)(k := None)\<rparr> else w)"
| "run_perform P (Add_Metadata_Job r p) w = (Inr Done,
     (if r \<in> dedupKeys w then w
      else w\<lparr>metadataJobs := metadataJobs w @ [(r, p)], dedupKeys := insert r (dedupKeys w)\<rparr>)
     \<lparr>adding := remove1 (redisMetadataKey r) (adding w)\<rparr>)"
| "run_perform P Take_Metadata_Job w = (case metadataJobs w of
     [] \<Rightarrow> (Inr (A_Metadata_Job None), w)
   | (r, p) # js \<Rightarrow> (Inr (A_Metadata_Job (Some (r, p))), w\<lparr>metadataJobs := js, unread := redisMetadataKey r # unread w\<rparr>))"
| "run_perform P (Remove_Dedup_Key r) w = (Inr Done, w\<lparr>dedupKeys := dedupKeys w - {r}\<rparr>)"
| "run_perform P (Record_Event ev) w = (Inr Done, w\<lparr>events := events w @ [ev]\<rparr>)"
| "run_perform P (Await_Response c) w = (Inr (A_Json (responseTo P c)), w)"

fun as_row :: "run_reply \<Rightarrow> row option" where
  "as_row (A_Row r) = r"
| "as_row _ = None"

fun as_waitpoint :: "run_reply \<Rightarrow> waitpoint option" where
  "as_waitpoint (A_Waitpoint v) = v"
| "as_waitpoint _ = None"

fun as_text :: "run_reply \<Rightarrow> string" where
  "as_text (A_Text t) = t"
| "as_text _ = []"

fun as_texts :: "run_reply \<Rightarrow> string list" where
  "as_texts (Texts ts) = ts"
| "as_texts _ = []"

fun as_json :: "run_reply \<Rightarrow> json" where
  "as_json (A_Json v) = v"
| "as_json _ = JNull"

fun as_flag :: "run_reply \<Rightarrow> bool" where
  "as_flag (A_Flag b) = b"
| "as_flag _ = False"

fun as_delay_job :: "run_reply \<Rightarrow> delay_job option" where
  "as_delay_job (A_Delay_Job d) = d"
| "as_delay_job _ = None"

fun as_metadata_job :: "run_reply \<Rightarrow> (string \<times> string) option" where
  "as_metadata_job (A_Metadata_Job j) = j"
| "as_metadata_job _ = None"

abbreviation do_call :: "run_call \<Rightarrow> unit run_async" where
  "do_call op \<equiv> acall op (\<lambda>_. ())"

end
