(* ===== verification/Waitpoints.thy ===== *)
theory Waitpoints
  imports Run_Store
begin

text \<open>
  Waitpoints (\<open>workflows/execution/waitpoint\<close>): a step that pauses leaves a row with an identifier; a callback, an
  approval, a timer or a failed child answers it, and the run is put back into the queue with the payload of the
  answer. An answer to a run that has not been stored as paused yet marks the row completed; the worker that
  stores the pause then resumes the run. Answers and the worker exclude one another by a lock of the run.

  The file also has \<open>addToQueue\<close> of \<open>execution-service.ts\<close>, the timers of \<open>system-job.ts\<close> and the handler of
  delays in \<open>execution-module.ts\<close>.
\<close>

subsection \<open>The queue of runs\<close>

definition findExecutionOrThrow :: "string \<Rightarrow> row run_async" where
  "findExecutionOrThrow e = abind (acall (Find_Execution e) as_row) (\<lambda>r. case r of
     None \<Rightarrow> athrow (EntityNotFound e ''execution'') | Some x \<Rightarrow> aret x)"

text \<open>The two parts of \<open>payload-offloader.ts\<close>.\<close>

definition offloadPayload :: "json \<Rightarrow> JobPayload run_async" where
  "offloadPayload payload = abind (acall Generate_Id as_text) (\<lambda>fileId.
     athen (do_call (Store_Payload fileId payload)) (aret (RefPayload fileId)))"

definition maybeOffloadPayload :: "run_services \<Rightarrow> json \<Rightarrow> JobPayload run_async" where
  "maybeOffloadPayload P payload =
     (if payloadBytes P payload \<le> inlineThresholdKb P * 1024 then aret (InlinePayload (Some payload)) else offloadPayload payload)"

record AddToQueueParams =
  apExecution :: row
  apTenant :: string
  apPayload :: "json option"
  apPayloadFile :: "string option"
  apHandler :: "string option"
  apRequest :: "string option"
  apStream :: StreamStepProgress
  apKind :: run_kind
  apJobId :: "string option"
  apSampleData :: "json option"
  apConcurrency :: "json option"
  apRetain :: bool

definition not_nil :: "json option \<Rightarrow> json option" where
  "not_nil v = (case v of Some JNull \<Rightarrow> None | _ \<Rightarrow> v)"

definition id_or_new :: "string option \<Rightarrow> string run_async" where
  "id_or_new v = (case v of Some x \<Rightarrow> aret x | None \<Rightarrow> acall Generate_Id as_text)"

definition payload_for :: "run_services \<Rightarrow> AddToQueueParams \<Rightarrow> JobPayload run_async" where
  "payload_for P a = (case apPayloadFile a of
     Some f \<Rightarrow> aret (RefPayload f)
   | None \<Rightarrow> (case not_nil (apPayload a) of
       None \<Rightarrow> aret (InlinePayload None)
     | Some x \<Rightarrow> if apHandler a = None then offloadPayload x else maybeOffloadPayload P x))"

definition addRunToQueue :: "run_services \<Rightarrow> AddToQueueParams \<Rightarrow> row run_async" where
  "addRunToQueue P a = (let e = apExecution a in
     abind (id_or_new (text_in e ''logsFileId'')) (\<lambda>logsFileId.
     abind (acall (Sensitive_Steps (text_or_empty e ''workflowVersionId'')) as_texts) (\<lambda>names.
     abind (id_or_new (text_in e ''displayLogsFileId'')) (\<lambda>displayId.
     abind (acall (Privacy_For (apTenant a) displayId names) as_json) (\<lambda>logPrivacy.
     abind (payload_for P a) (\<lambda>payload.
     let jobId = (case apJobId a of Some j \<Rightarrow> j | None \<Rightarrow> text_or_empty e ''id'') in
     athen (do_call (Register_Ticket jobId (apConcurrency a)))
     (athen (do_call (Add_Run_Job \<lparr>jobIdent = jobId, jobRun = text_or_empty e ''id'', jobProject = text_or_empty e ''projectId'',
        jobTenant = apTenant a, jobEnvironment = own e ''environment'', jobWorkflow = own e ''workflowId'',
        jobVersion = own e ''workflowVersionId'', jobPayload = payload, jobHandler = apHandler a, jobRequest = apRequest a,
        jobStream = apStream a, jobStepToTest = own e ''stepNameToTest'', jobSampleData = apSampleData a,
        jobLogsFile = logsFileId, jobPrivacy = logPrivacy, jobConcurrency = apConcurrency a, jobKind = apKind a,
        jobRetained = apRetain a\<rparr>))
     (aret e))))))))"

subsection \<open>One-time system jobs\<close>

definition upsertJob :: "string \<Rightarrow> delay_job \<Rightarrow> unit run_async" where
  "upsertJob jobId d = abind (acall (Get_Delay_Job jobId) as_delay_job) (\<lambda>existing. case existing of
     Some _ \<Rightarrow> abind (acall (Delay_Job_Failed jobId) as_flag) (\<lambda>failed.
        if failed then do_call (Retry_Delay_Job jobId) else aret ())
   | None \<Rightarrow> do_call (Add_Delay_Job jobId d))"

subsection \<open>The waitpoint service\<close>

definition delay_job_id :: "string \<Rightarrow> string" where
  "delay_job_id e = ''resume-delay-'' @ e"

definition new_waitpoint :: "string \<Rightarrow> CreateForPauseParams \<Rightarrow> waitpoint" where
  "new_waitpoint i p = \<lparr>wpId = i, wpExecution = cpExecution p, wpProject = cpProject p, wpType = cpType p, wpVersion = cpVersion p,
     wpStatus = PENDING, wpStep = cpStep p, wpResumeAt = cpResumeAt p, wpResponse = cpResponse p, wpHandler = cpHandler p,
     wpRequest = cpRequest p, wpPayload = None\<rparr>"

definition createForPause :: "CreateForPauseParams \<Rightarrow> (bool \<times> waitpoint) run_async" where
  "createForPause p = (let at_step = any_waitpoint\<lparr>whereExecution := Some (cpExecution p), whereStep := Some (cpStep p)\<rparr> in
     abind (acall (Find_Waitpoint (at_step\<lparr>whereStatus := Some COMPLETED\<rparr>)) as_waitpoint) (\<lambda>preCompleted. case preCompleted of
       Some v \<Rightarrow> aret (False, v)
     | None \<Rightarrow>
         abind (acall Generate_Id as_text) (\<lambda>i.
         athen (do_call (Insert_Waitpoint (new_waitpoint i p)))
         (abind (acall (Find_Waitpoint at_step) as_waitpoint) (\<lambda>found. case found of
            None \<Rightarrow> athrow (EntityNotFound (cpExecution p) ''waitpoint'')
          | Some v \<Rightarrow>
              athen (case cpResumeAt p of
                  None \<Rightarrow> aret ()
                | Some d \<Rightarrow> upsertJob (delay_job_id (cpExecution p)) \<lparr>delayExecution = cpExecution p,
                    delayProject = cpProject p, delayWaitpoint = wpId v, delayUntil = d, delayFailed = False\<rparr>)
              (aret (wpId v = i, v)))))))"

text \<open>A transaction that reads a row with \<open>pessimistic_write\<close> and writes it last.\<close>

definition row_lock :: "string \<Rightarrow> string" where
  "row_lock i = ''row:waitpoint:'' @ i"

definition complete :: "string \<Rightarrow> string \<Rightarrow> json option \<Rightarrow> string option \<Rightarrow> (bool \<times> waitpoint option) run_async" where
  "complete e i payload handler = runExclusive (row_lock i)
     (abind (acall (Find_Waitpoint (any_waitpoint\<lparr>whereId := Some i, whereExecution := Some e, whereStatus := Some PENDING\<rparr>)) as_waitpoint)
       (\<lambda>pending. case pending of
          None \<Rightarrow> aret (False, None)
        | Some v \<Rightarrow> (let updated = v\<lparr>wpStatus := COMPLETED, wpPayload := payload,
               wpHandler := (case handler of Some h \<Rightarrow> Some h | None \<Rightarrow> wpHandler v)\<rparr> in
            athen (do_call (Save_Waitpoint updated)) (aret (True, Some updated)))))"

definition handleResumeSignal :: "string \<Rightarrow> string \<Rightarrow> ExecutionStatus option \<Rightarrow> json option \<Rightarrow> string option
    \<Rightarrow> (waitpoint \<Rightarrow> unit run_async) \<Rightarrow> bool run_async" where
  "handleResumeSignal e i st payload handler onReady =
     (if st = Some RunPAUSED then runExclusive (row_lock i)
        (abind (acall (Find_Waitpoint (any_waitpoint\<lparr>whereId := Some i, whereExecution := Some e\<rparr>)) as_waitpoint) (\<lambda>found. case found of
           None \<Rightarrow> aret False
         | Some v \<Rightarrow> athen (onReady v) (athen (do_call (Delete_Waitpoint (wpId v))) (aret True))))
      else if st = Some RunRUNNING \<or> st = Some RunQUEUED then
        abind (complete e i payload handler) (\<lambda>(completedExisting, _). aret completedExisting)
      else aret False)"

definition findPendingByVersion :: "string \<Rightarrow> WaitpointVersion \<Rightarrow> waitpoint option run_async" where
  "findPendingByVersion e v =
     acall (Find_Waitpoint (any_waitpoint\<lparr>whereExecution := Some e, whereStatus := Some PENDING, whereVersion := Some v\<rparr>)) as_waitpoint"

definition findByIdAndExecutionId :: "string \<Rightarrow> string \<Rightarrow> waitpoint option run_async" where
  "findByIdAndExecutionId i e = acall (Find_Waitpoint (any_waitpoint\<lparr>whereId := Some i, whereExecution := Some e\<rparr>)) as_waitpoint"

definition getByExecutionId :: "string \<Rightarrow> waitpoint option run_async" where
  "getByExecutionId e = abind
     (acall (Find_Waitpoint (any_waitpoint\<lparr>whereExecution := Some e, whereStatus := Some COMPLETED\<rparr>)) as_waitpoint)
     (\<lambda>completed. case completed of
        Some v \<Rightarrow> aret (Some v)
      | None \<Rightarrow> acall (Find_Waitpoint (any_waitpoint\<lparr>whereExecution := Some e\<rparr>)) as_waitpoint)"

definition deleteWaitpoint :: "string \<Rightarrow> unit run_async" where
  "deleteWaitpoint i = do_call (Delete_Waitpoint i)"

definition deleteByExecutionId :: "string \<Rightarrow> unit run_async" where
  "deleteByExecutionId e = do_call (Delete_Waitpoints_Of e)"

subsection \<open>The resume service\<close>

definition resume_job_id :: "string \<Rightarrow> string \<Rightarrow> string" where
  "resume_job_id e i = e @ ''-resume-'' @ i"

text \<open>\<open>a ?? b\<close> on values that may be missing.\<close>

definition nil_or :: "'a option \<Rightarrow> 'a option \<Rightarrow> 'a option" where
  "nil_or a b = (case a of None \<Rightarrow> b | Some _ \<Rightarrow> a)"

definition onResume :: "row \<Rightarrow> unit run_async" where
  "onResume e = do_call (Record_Event (EventRESUMED e))"

definition enqueueResume ::
  "run_services \<Rightarrow> row \<Rightarrow> waitpoint option \<Rightarrow> json option \<Rightarrow> string option \<Rightarrow> string option \<Rightarrow> unit run_async" where
  "enqueueResume P e v payload handler request =
     abind (acall (Tenant_Of (text_or_empty e ''projectId'')) as_text) (\<lambda>tenant.
     abind (id_or_new (nil_or request (Option.bind v wpRequest))) (\<lambda>req.
     athen (addRunToQueue P \<lparr>apExecution = e, apTenant = tenant, apPayload = payload, apPayloadFile = None,
        apHandler = nil_or handler (Option.bind v wpHandler), apRequest = Some req,
        apStream = (if own e ''environment'' = Some (JStr ''TESTING'') then StreamWEBSOCKET else StreamNONE),
        apKind = JobRESUME ResumeWAITPOINT,
        apJobId = Some (resume_job_id (text_or_empty e ''id'') (case v of Some x \<Rightarrow> wpId x | None \<Rightarrow> ''legacy'')),
        apSampleData = None, apConcurrency = None, apRetain = False\<rparr>)
     (onResume e)))"

definition metadata_lock :: "string \<Rightarrow> string" where
  "metadata_lock e = ''runs_metadata_'' @ e"

text \<open>After a processed signal: the waitpoint that is completed although the run is stored as paused.\<close>

definition consume_completed :: "run_services \<Rightarrow> string \<Rightarrow> json option \<Rightarrow> string option \<Rightarrow> string option \<Rightarrow> unit run_async" where
  "consume_completed P e payload handler request =
     abind (findExecutionOrThrow e) (\<lambda>current.
     if status_in current \<noteq> Some RunPAUSED then aret ()
     else abind (getByExecutionId e) (\<lambda>latest. case latest of
         None \<Rightarrow> aret ()
       | Some v \<Rightarrow> if wpStatus v \<noteq> COMPLETED then aret ()
           else athen (deleteWaitpoint (wpId v)) (enqueueResume P current (Some v) payload handler request)))"

definition resumeFromWaitpointWithoutLock ::
  "run_services \<Rightarrow> string \<Rightarrow> string \<Rightarrow> json option \<Rightarrow> string option \<Rightarrow> string option \<Rightarrow> (row \<times> bool) run_async" where
  "resumeFromWaitpointWithoutLock P e i payload handler request =
     abind (findExecutionOrThrow e) (\<lambda>execution.
     abind (handleResumeSignal e i (status_in execution) payload handler
         (\<lambda>v. enqueueResume P execution (Some v) payload handler request)) (\<lambda>processed.
     athen (if processed then consume_completed P e payload handler request else aret ())
     (aret (execution, \<not> processed))))"

definition resumeFromWaitpoint ::
  "run_services \<Rightarrow> string \<Rightarrow> string \<Rightarrow> json option \<Rightarrow> string option \<Rightarrow> string option \<Rightarrow> (row \<times> bool) run_async" where
  "resumeFromWaitpoint P e i payload handler request =
     runExclusive (metadata_lock e) (resumeFromWaitpointWithoutLock P e i payload handler request)"

definition legacyResume :: "run_services \<Rightarrow> string \<Rightarrow> json option \<Rightarrow> string option \<Rightarrow> (row \<times> bool) run_async" where
  "legacyResume P e payload handler = abind (findExecutionOrThrow e) (\<lambda>execution.
     if status_in execution \<noteq> Some RunPAUSED then aret (execution, True)
     else athen (enqueueResume P execution None payload handler None) (aret (execution, False)))"

datatype http_reply = Conflict "ExecutionStatus option" | Gone | Response json

definition handleSyncResumeWorkflow ::
  "run_services \<Rightarrow> string \<Rightarrow> string \<Rightarrow> string \<Rightarrow> json option \<Rightarrow> string \<Rightarrow> http_reply run_async" where
  "handleSyncResumeWorkflow P serverId e i payload correlationId =
     abind (findExecutionOrThrow e) (\<lambda>execution.
     athen (case text_in execution ''logsFileId'' of None \<Rightarrow> aret () | Some f \<Rightarrow> do_call (Read_Logs f))
     (if terminal_in execution False then aret (Conflict (status_in execution))
      else abind (resumeFromWaitpoint P e i payload (Some serverId) (Some correlationId)) (\<lambda>(_, stale).
        if stale then aret Gone else abind (acall (Await_Response correlationId) as_json) (\<lambda>r. aret (Response r)))))"

definition legacySyncResume :: "run_services \<Rightarrow> string \<Rightarrow> string \<Rightarrow> json option \<Rightarrow> string \<Rightarrow> http_reply run_async" where
  "legacySyncResume P serverId e payload correlationId =
     abind (findExecutionOrThrow e) (\<lambda>execution.
     if status_in execution \<noteq> Some RunPAUSED then aret (Conflict (status_in execution))
     else athen (enqueueResume P execution None payload (Some serverId) (Some correlationId))
       (abind (acall (Await_Response correlationId) as_json) (\<lambda>r. aret (Response r))))"

subsection \<open>Routes and timers\<close>

text \<open>\<open>/:id/requests/:requestId\<close>: the waitpoint of an old connector is looked up by its version. The reply says
  whether the link had expired.\<close>

definition resume_legacy_route :: "run_services \<Rightarrow> string \<Rightarrow> json option \<Rightarrow> bool run_async" where
  "resume_legacy_route P e payload = abind (findPendingByVersion e V0) (\<lambda>found. case found of
     Some v \<Rightarrow> abind (resumeFromWaitpoint P e (wpId v) payload None None) (\<lambda>(_, stale). aret stale)
   | None \<Rightarrow> abind (legacyResume P e payload None) (\<lambda>(_, stale). aret stale))"

definition resume_legacy_sync_route :: "run_services \<Rightarrow> string \<Rightarrow> string \<Rightarrow> string \<Rightarrow> json option \<Rightarrow> http_reply run_async" where
  "resume_legacy_sync_route P serverId e requestId payload = abind (findPendingByVersion e V0) (\<lambda>found. case found of
     Some v \<Rightarrow> handleSyncResumeWorkflow P serverId e (wpId v) payload (case wpHandler v of Some h \<Rightarrow> h | None \<Rightarrow> wpId v)
   | None \<Rightarrow> legacySyncResume P serverId e payload requestId)"

text \<open>The test of the confirmation page, which must not resume.\<close>

definition confirmation_open :: "string \<Rightarrow> string \<Rightarrow> bool run_async" where
  "confirmation_open e i = abind (findExecutionOrThrow e) (\<lambda>execution.
     abind (findByIdAndExecutionId i e) (\<lambda>found. aret (case found of
       None \<Rightarrow> False | Some v \<Rightarrow> wpStatus v = PENDING \<and> status_in execution = Some RunPAUSED)))"

text \<open>The route of the engine that creates waitpoints, with the check of ownership.\<close>

definition assertNotOwnedByAnotherProject :: "string \<Rightarrow> string \<Rightarrow> unit run_async" where
  "assertNotOwnedByAnotherProject e projectId = abind (acall (Find_Execution e) as_row) (\<lambda>existing. case existing of
     Some r \<Rightarrow> if in_project projectId r then aret () else athrow (PlainError ''AUTHORIZATION'')
   | None \<Rightarrow> aret ())"

definition create_waitpoint_route :: "string \<Rightarrow> CreateForPauseParams \<Rightarrow> (string \<times> string) run_async" where
  "create_waitpoint_route projectId p =
     athen (assertNotOwnedByAnotherProject (cpExecution p) projectId)
     (abind (createForPause (p\<lparr>cpProject := projectId\<rparr>)) (\<lambda>(_, v).
      abind (acall (Public_Url (''v1/executions/'' @ cpExecution p @ ''/waitpoints/'' @ wpId v)) as_text) (\<lambda>url.
      aret (wpId v, url))))"

text \<open>The handler of \<open>RESUME_DELAY_WAITPOINT\<close>.\<close>

definition resume_delay_handler :: "run_services \<Rightarrow> delay_job \<Rightarrow> unit run_async" where
  "resume_delay_handler P d = abind (acall (Find_Execution_Of (delayExecution d) (delayProject d)) as_row) (\<lambda>execution. case execution of
     None \<Rightarrow> aret ()
   | Some r \<Rightarrow> if status_in r \<noteq> Some RunPAUSED then aret ()
       else athen (resumeFromWaitpoint P (delayExecution d) (delayWaitpoint d) None None None) (aret ()))"

end
