(* ===== verification/Run_Metadata.thy ===== *)
theory Run_Metadata
  imports Waitpoints Action_Cloning
begin

text \<open>
  How the state of a run reaches its row (\<open>workers/job/runs-metadata-queue-factory.ts\<close>,
  \<open>workflows/execution/executions-queue.ts\<close>, \<open>run-timeline.ts\<close>, \<open>execution-side-effects.ts\<close>, \<open>cancelSingleRun\<close>).
  An update is merged into a hash of the run and a job is added unless one is waiting. The job takes the lock of
  the run, forgets its deduplication key, reads the hash, writes the row, deletes the hash if nothing was merged in
  between, and then acts on the new status: a failed child answers its parent, a finished run is cleaned up, a run
  that is now paused is resumed when its answer has come already.
\<close>

subsection \<open>Adding metadata\<close>

definition RUNS_METADATA_UPSERT_KEYS :: "string list" where
  "RUNS_METADATA_UPSERT_KEYS = [''id'', ''projectId'', ''created'', ''workflowId'', ''workflowVersionId'', ''environment'',
     ''triggeredBy'', ''startTime'', ''finishTime'', ''status'', ''tags'', ''failedStep'', ''stepNameToTest'', ''parentRunId'',
     ''failParentOnFailure'', ''logsFileId'', ''displayLogsFileId'', ''updated'', ''stepsCount'', ''requestId'', ''provisionMs'',
     ''bootMs'', ''runMs'', ''rerunOfExecutionId'', ''businessKey'']"

definition stripToRunsMetadataUpsertData :: "row \<Rightarrow> row" where
  "stripToRunsMetadataUpsertData params =
     concat (map (\<lambda>k. case map_of params k of None \<Rightarrow> [] | Some v \<Rightarrow> [(k, v)]) RUNS_METADATA_UPSERT_KEYS)"

text \<open>The fields \<open>merge\<close> hands to \<open>HSET\<close>: those that are not nil.\<close>

definition merge_fields :: "row \<Rightarrow> row" where
  "merge_fields value = filter (\<lambda>(k, v). v \<noteq> JNull) value"

definition add_metadata :: "row \<Rightarrow> unit run_async" where
  "add_metadata params = (let cleaned = stripToRunsMetadataUpsertData params; r = text_or_empty cleaned ''id'' in
     abind (acall Generate_Id as_text) (\<lambda>requestId.
     athen (do_call (Merge_Hash (redisMetadataKey r) (merge_fields (assign_fields cleaned [(''requestId'', JStr requestId)]))))
     (do_call (Add_Metadata_Job r (text_or_empty cleaned ''projectId'')))))"

subsection \<open>The timeline of a run\<close>

definition number_in :: "row \<Rightarrow> string \<Rightarrow> rat option" where
  "number_in r k = (case own r k of Some (JNum x) \<Rightarrow> Some x | _ \<Rightarrow> None)"

definition timeline_leg :: "string \<Rightarrow> rat \<Rightarrow> json" where
  "timeline_leg name ms = JObj [(''name'', JStr name), (''durationMs'', JNum ms)]"

definition buildRunTimeline :: "run_services \<Rightarrow> json option \<Rightarrow> string option \<Rightarrow> string option \<Rightarrow> string option
    \<Rightarrow> rat option \<Rightarrow> rat option \<Rightarrow> rat option \<Rightarrow> json option" where
  "buildRunTimeline P existing created_at start finish provision boot run_ms =
     (case (existing, provision, boot, run_ms, created_at, start) of
        (None, Some provisionMs, Some bootMs, Some runMs, Some c, Some s) \<Rightarrow>
          (let startupMs = rat_of_int (timeOf P s - timeOf P c);
               queueMs = max 0 (startupMs - provisionMs - bootMs);
               runDurationMs = (case finish of None \<Rightarrow> runMs | Some f \<Rightarrow> max 0 (rat_of_int (timeOf P f - timeOf P s))) in
           Some (JObj [(''legs'', JArr [JArr [timeline_leg ''QUEUE'' queueMs, timeline_leg ''PROVISION'' provisionMs,
             timeline_leg ''BOOT'' bootMs, timeline_leg ''RUN'' runDurationMs]])]))
      | _ \<Rightarrow> None)"

definition buildTimeline :: "run_services \<Rightarrow> row \<Rightarrow> row \<Rightarrow> json option" where
  "buildTimeline P existing md = buildRunTimeline P (own existing ''timeline'') (text_in existing ''created'')
     (nil_or (text_in md ''startTime'') (text_in existing ''startTime''))
     (nil_or (text_in md ''finishTime'') (text_in existing ''finishTime''))
     (number_in md ''provisionMs'') (number_in md ''bootMs'') (number_in md ''runMs'')"

subsection \<open>Writing the row\<close>

definition sanitizeObjectForPostgresql :: "row \<Rightarrow> row" where
  "sanitizeObjectForPostgresql r = apply_to_object (filter (\<lambda>c. c \<noteq> CHR 0x00)) r"

definition withMaskedFailedStep :: "row \<Rightarrow> row run_async" where
  "withMaskedFailedStep md = (case own md ''failedStep'' of
     Some (JObj f) \<Rightarrow> (case text_in f ''message'' of
         None \<Rightarrow> aret md
       | Some m \<Rightarrow> if m = [] then aret md
           else abind (acall (Tenant_Of (text_or_empty md ''projectId'')) as_text) (\<lambda>tenant.
             abind (acall (Mask_Text tenant m) as_text) (\<lambda>masked.
             aret (AList.update ''failedStep'' (JObj (AList.update ''message'' (JStr masked) f)) md))))
   | _ \<Rightarrow> aret md)"

definition spreadIfDefined :: "string \<Rightarrow> json option \<Rightarrow> row" where
  "spreadIfDefined k v = (case v of None \<Rightarrow> [] | Some x \<Rightarrow> [(k, x)])"

definition spread :: "row \<Rightarrow> string list \<Rightarrow> row" where
  "spread md ks = concat (map (\<lambda>k. spreadIfDefined k (own md k)) ks)"

definition failedStepUpdate :: "row \<Rightarrow> row" where
  "failedStepUpdate md = (if status_in md = Some RunSUCCEEDED then [(''failedStep'', JNull)]
     else spreadIfDefined ''failedStep'' (own md ''failedStep''))"

definition row_update :: "run_services \<Rightarrow> row \<Rightarrow> row \<Rightarrow> row" where
  "row_update P existing md = spreadIfDefined ''timeline'' (buildTimeline P existing md)
     @ spread md [''projectId'', ''workflowId'', ''workflowVersionId'', ''environment'', ''startTime'', ''finishTime'', ''status'', ''tags'']
     @ failedStepUpdate md
     @ spread md [''stepNameToTest'', ''parentRunId'', ''failParentOnFailure'', ''logsFileId'', ''displayLogsFileId'', ''updated'', ''stepsCount'']"

text \<open>The row that is saved, or nothing when the run or its workflow is gone.\<close>

definition save_row :: "run_services \<Rightarrow> string \<Rightarrow> row \<Rightarrow> row option \<Rightarrow> row option run_async" where
  "save_row P r md existing = (case existing of
     Some x \<Rightarrow> athen (do_call (Update_Execution r (text_or_empty md ''projectId'') (row_update P x md)))
        (acall (Find_Execution_Of r (text_or_empty md ''projectId'')) as_row)
   | None \<Rightarrow> abind (case text_in md ''workflowId'' of None \<Rightarrow> aret False | Some f \<Rightarrow> acall (Workflow_Exists f) as_flag) (\<lambda>ok.
       if ok then acall (Save_Execution md) as_row else aret None))"

subsection \<open>What follows\<close>

definition onFinish :: "row \<Rightarrow> unit run_async" where
  "onFinish e = (if \<not> terminal_in e True then aret ()
     else athen (deleteByExecutionId (text_or_empty e ''id''))
       (athen (do_call (Record_Event (HooksFINISHED e))) (do_call (Record_Event (EventFINISHED e)))))"

definition failed_child_payload :: "string \<Rightarrow> json" where
  "failed_child_payload link = JObj [(''body'', JObj [(''status'', JStr ''error''), (''data'', JObj
     [(''message'', JStr ''Subflow execution failed''), (''link'', JStr link)])]), (''headers'', JObj []), (''queryParams'', JObj [])]"

definition markParentRunAsFailed :: "run_services \<Rightarrow> string \<Rightarrow> string \<Rightarrow> string \<Rightarrow> unit run_async" where
  "markParentRunAsFailed P parent child project = abind (acall (Find_Execution_Of parent project) as_row) (\<lambda>execution. case execution of
     None \<Rightarrow> aret ()
   | Some e \<Rightarrow> if terminal_in e False then aret ()
     else abind (acall (Public_Url (''/projects/'' @ project @ ''/runs/'' @ child)) as_text) (\<lambda>url.
       abind (getByExecutionId parent) (\<lambda>existing.
       abind (id_or_new (map_option wpId existing)) (\<lambda>i.
       abind (complete parent i (Some (failed_child_payload url)) None) (\<lambda>(done, v). case (done, v) of
          (True, Some x) \<Rightarrow> athen (resumeFromWaitpoint P parent (wpId x) (wpPayload x) None None) (aret ())
        | _ \<Rightarrow> aret ())))))"

definition mark_parent :: "run_services \<Rightarrow> row \<Rightarrow> unit run_async" where
  "mark_parent P saved = (case (own saved ''failParentOnFailure'', text_in saved ''parentRunId'') of
     (Some (JBool True), Some parent) \<Rightarrow>
       if status_in saved \<in> {Some RunSUCCEEDED, Some RunRUNNING, Some RunPAUSED, Some RunQUEUED} then aret ()
       else markParentRunAsFailed P parent (text_or_empty saved ''id'') (text_or_empty saved ''projectId'')
   | _ \<Rightarrow> aret ())"

definition newly_terminal :: "row option \<Rightarrow> row \<Rightarrow> bool" where
  "newly_terminal existing saved \<longleftrightarrow> terminal_in saved True \<and> (case existing of
     None \<Rightarrow> True | Some x \<Rightarrow> own x ''finishTime'' = None \<or> \<not> terminal_in x True)"

definition finish_run :: "row option \<Rightarrow> row \<Rightarrow> row \<Rightarrow> unit run_async" where
  "finish_run existing md saved = (if own md ''finishTime'' = None then aret ()
     else athen (acall (Tenant_Of (text_or_empty saved ''projectId'')) as_text)
       (athen (if newly_terminal existing saved then onFinish saved else aret ())
       (athen (atry (do_call (Record_Event (SearchINDEXED saved)))) (aret ()))))"

text \<open>A run that is now stored as paused and whose answer came before.\<close>

definition resume_early :: "run_services \<Rightarrow> row \<Rightarrow> unit run_async" where
  "resume_early P saved = (if status_in saved \<noteq> Some RunPAUSED then aret ()
     else abind (getByExecutionId (text_or_empty saved ''id'')) (\<lambda>latest. case latest of
         None \<Rightarrow> aret ()
       | Some v \<Rightarrow> if wpStatus v \<noteq> COMPLETED then aret ()
           else athen (resumeFromWaitpointWithoutLock P (text_or_empty saved ''id'') (wpId v) (wpPayload v) None None) (aret ())))"

subsection \<open>The worker\<close>

definition save_run_metadata :: "run_services \<Rightarrow> string \<Rightarrow> unit run_async" where
  "save_run_metadata P r = runExclusive (metadata_lock r)
     (athen (do_call (Remove_Dedup_Key r))
     (abind (acall (Get_Hash (redisMetadataKey r)) as_row) (\<lambda>raw. case raw of
        None \<Rightarrow> aret ()
      | Some h \<Rightarrow> if h = [] then aret ()
        else abind (withMaskedFailedStep (sanitizeObjectForPostgresql h)) (\<lambda>md.
          abind (acall (Find_Execution_Of r (text_or_empty md ''projectId'')) as_row) (\<lambda>existing.
          abind (save_row P r md existing) (\<lambda>saved. case saved of
             None \<Rightarrow> aret ()
           | Some s \<Rightarrow>
               athen (mark_parent P s)
               (athen (case own md ''requestId'' of None \<Rightarrow> aret () | Some q \<Rightarrow> do_call (Delete_Hash_If (redisMetadataKey r) ''requestId'' q))
               (athen (finish_run existing md s)
               (resume_early P s)))))))))"

definition metadata_worker :: "run_services \<Rightarrow> unit run_async" where
  "metadata_worker P = abind (acall Take_Metadata_Job as_metadata_job) (\<lambda>job. case job of
     None \<Rightarrow> aret () | Some (r, _) \<Rightarrow> save_run_metadata P r)"

definition cancelSingleRun :: "row \<Rightarrow> unit run_async" where
  "cancelSingleRun e = (let r = text_or_empty e ''id'' in runExclusive (metadata_lock r)
     (athen (do_call (Remove_Run_Jobs r))
     (athen (deleteByExecutionId r)
     (add_metadata [(''id'', JStr r), (''projectId'', JStr (text_or_empty e ''projectId'')), (''status'', JStr ''CANCELED'')]))))"

end
