(* ===== verification/Waitpoint_Laws.thy ===== *)
theory Waitpoint_Laws
  imports Run_Metadata
begin

text \<open>
  The waitpoint operations run alone. The view of a run (\<open>answers_of\<close>, \<open>resumes_of\<close>) is what matters to it: its
  waitpoints with their status and payload, and the resume jobs added for it with the payloads they carry,
  whether in the job or in a file. \<open>signal_spec\<close> says on views what an answer does, \<open>pause_spec\<close> what storing a
  pause does, and the code does the same.
\<close>

abbreviation alone :: "run_services \<Rightarrow> (run_call, run_reply, 'a) prog \<Rightarrow> run_world \<Rightarrow> 'a \<times> run_world" where
  "alone P \<equiv> run (run_perform P)"

subsection \<open>Adding a job\<close>

definition payload_at :: "(string \<times> json) list \<Rightarrow> run_job \<Rightarrow> json option" where
  "payload_at files j = (case jobPayload j of InlinePayload v \<Rightarrow> v | RefPayload f \<Rightarrow> map_of files f)"

text \<open>Files of payloads have identifiers that were drawn.\<close>

definition sound :: "run_services \<Rightarrow> run_world \<Rightarrow> bool" where
  "sound P w \<longleftrightarrow> inj (idOf P) \<and> (\<forall>j \<in> set (runJobs w). \<forall>f. jobPayload j = RefPayload f \<longrightarrow> (\<exists>k < drawn w. f = idOf P k))"

lemma alone_id_or_new: "\<exists>x n. drawn w \<le> n \<and> alone P (id_or_new v) w = (Inr x, w\<lparr>drawn := n\<rparr>)"
proof (cases v)
  case None
  show ?thesis
    by (rule exI [of _ "idOf P (drawn w)"], rule exI [of _ "Suc (drawn w)"]) (simp add: None id_or_new_def run_simps)
next
  case (Some x)
  then show ?thesis by (intro exI [of _ x] exI [of _ "drawn w"]) (simp add: id_or_new_def)
qed

lemma alone_offload:
  "alone P (offloadPayload x) w =
     (Inr (RefPayload (idOf P (drawn w))), w\<lparr>payloadFiles := AList.update (idOf P (drawn w)) x (payloadFiles w), drawn := Suc (drawn w)\<rparr>)"
  by (simp add: offloadPayload_def run_simps)

lemma alone_payload_for:
  assumes "apPayloadFile a = None"
  shows "\<exists>jp fs n. alone P (payload_for P a) w = (Inr jp, w\<lparr>payloadFiles := fs, drawn := n\<rparr>) \<and> drawn w \<le> n \<and>
     (case jp of InlinePayload v \<Rightarrow> v | RefPayload f \<Rightarrow> map_of fs f) = not_nil (apPayload a) \<and>
     (\<forall>f. jp = RefPayload f \<longrightarrow> (\<exists>k < n. f = idOf P k)) \<and>
     (\<forall>f. map_of fs f \<noteq> map_of (payloadFiles w) f \<longrightarrow> (\<exists>k. drawn w \<le> k \<and> k < n \<and> f = idOf P k))"
proof -
  have inline: ?thesis if "alone P (payload_for P a) w = (Inr (InlinePayload v), w)" "v = not_nil (apPayload a)" for v
    using that by (intro exI [of _ "InlinePayload v"] exI [of _ "payloadFiles w"] exI [of _ "drawn w"]) simp
  have stored: ?thesis if "alone P (payload_for P a) w = (Inr (RefPayload (idOf P (drawn w))),
      w\<lparr>payloadFiles := AList.update (idOf P (drawn w)) x (payloadFiles w), drawn := Suc (drawn w)\<rparr>)" "not_nil (apPayload a) = Some x" for x
    using that by (intro exI [of _ "RefPayload (idOf P (drawn w))"] exI [of _ "AList.update (idOf P (drawn w)) x (payloadFiles w)"]
        exI [of _ "Suc (drawn w)"]) (auto simp: update_conv' split: if_splits)
  show ?thesis
  proof (cases "not_nil (apPayload a)")
    case None
    then have "alone P (payload_for P a) w = (Inr (InlinePayload None), w)" by (simp add: payload_for_def assms)
    then show ?thesis using None by (intro inline) simp_all
  next
    case (Some x)
    show ?thesis
    proof (cases "apHandler a \<noteq> None \<and> payloadBytes P x \<le> inlineThresholdKb P * 1024")
      case True
      then have "alone P (payload_for P a) w = (Inr (InlinePayload (Some x)), w)"
        by (auto simp: payload_for_def maybeOffloadPayload_def assms Some)
      then show ?thesis using Some by (intro inline) simp_all
    next
      case False
      then have "alone P (payload_for P a) w = (Inr (RefPayload (idOf P (drawn w))),
          w\<lparr>payloadFiles := AList.update (idOf P (drawn w)) x (payloadFiles w), drawn := Suc (drawn w)\<rparr>)"
        by (cases "apHandler a") (simp_all add: payload_for_def maybeOffloadPayload_def alone_offload assms Some)
      then show ?thesis using Some by (rule stored)
    qed
  qed
qed

text \<open>What an operation may add to the world when it puts the run back into the queue.\<close>

definition enqueues :: "run_services \<Rightarrow> string \<Rightarrow> string \<Rightarrow> json option \<Rightarrow> run_world \<Rightarrow> run_world \<Rightarrow> bool" where
  "enqueues P e ident payload w w' \<longleftrightarrow> (\<exists>j fs n evs. w' = w\<lparr>runJobs := runJobs w @ [j], payloadFiles := fs, drawn := n, events := evs\<rparr> \<and>
     jobIdent j = ident \<and> jobRun j = e \<and> jobKind j = JobRESUME ResumeWAITPOINT \<and> payload_at fs j = not_nil payload \<and> drawn w \<le> n \<and>
     (\<forall>f. jobPayload j = RefPayload f \<longrightarrow> (\<exists>k < n. f = idOf P k)) \<and>
     (\<forall>f. map_of fs f \<noteq> map_of (payloadFiles w) f \<longrightarrow> (\<exists>k. drawn w \<le> k \<and> k < n \<and> f = idOf P k)))"

lemma alone_addRunToQueue:
  assumes "apPayloadFile a = None"
  obtains j fs n where
    "alone P (addRunToQueue P a) w = (Inr (apExecution a), w\<lparr>runJobs := runJobs w @ [j], payloadFiles := fs, drawn := n\<rparr>)"
    "jobIdent j = (case apJobId a of Some i \<Rightarrow> i | None \<Rightarrow> text_or_empty (apExecution a) ''id'')"
    "jobRun j = text_or_empty (apExecution a) ''id''" "jobKind j = apKind a" "payload_at fs j = not_nil (apPayload a)" "drawn w \<le> n"
    "\<forall>f. jobPayload j = RefPayload f \<longrightarrow> (\<exists>k < n. f = idOf P k)"
    "\<forall>f. map_of fs f \<noteq> map_of (payloadFiles w) f \<longrightarrow> (\<exists>k. drawn w \<le> k \<and> k < n \<and> f = idOf P k)"
proof -
  obtain x n1 where 1: "drawn w \<le> n1" "alone P (id_or_new (text_in (apExecution a) ''logsFileId'')) w = (Inr x, w\<lparr>drawn := n1\<rparr>)"
    using alone_id_or_new by blast
  obtain y n2 where 2: "n1 \<le> n2"
    "alone P (id_or_new (text_in (apExecution a) ''displayLogsFileId'')) (w\<lparr>drawn := n1\<rparr>) = (Inr y, w\<lparr>drawn := n2\<rparr>)"
    using alone_id_or_new [of "w\<lparr>drawn := n1\<rparr>" P "text_in (apExecution a) ''displayLogsFileId''"] by auto
  obtain jp fs n where 3: "alone P (payload_for P a) (w\<lparr>drawn := n2\<rparr>) = (Inr jp, w\<lparr>payloadFiles := fs, drawn := n\<rparr>)" "n2 \<le> n"
    "(case jp of InlinePayload v \<Rightarrow> v | RefPayload f \<Rightarrow> map_of fs f) = not_nil (apPayload a)"
    "\<forall>f. jp = RefPayload f \<longrightarrow> (\<exists>k < n. f = idOf P k)"
    "\<forall>f. map_of fs f \<noteq> map_of (payloadFiles w) f \<longrightarrow> (\<exists>k. n2 \<le> k \<and> k < n \<and> f = idOf P k)"
    using alone_payload_for [OF assms, of P "w\<lparr>drawn := n2\<rparr>"] by auto
  have new: "\<forall>f. map_of fs f \<noteq> map_of (payloadFiles w) f \<longrightarrow> (\<exists>k. drawn w \<le> k \<and> k < n \<and> f = idOf P k)"
    using 3(5) 1(1) 2(1) by (meson le_trans)
  define jobId where "jobId = (case apJobId a of Some i \<Rightarrow> i | None \<Rightarrow> text_or_empty (apExecution a) ''id'')"
  define j where "j = \<lparr>jobIdent = jobId, jobRun = text_or_empty (apExecution a) ''id'', jobProject = text_or_empty (apExecution a) ''projectId'',
        jobTenant = apTenant a, jobEnvironment = own (apExecution a) ''environment'', jobWorkflow = own (apExecution a) ''workflowId'',
        jobVersion = own (apExecution a) ''workflowVersionId'', jobPayload = jp, jobHandler = apHandler a, jobRequest = apRequest a,
        jobStream = apStream a, jobStepToTest = own (apExecution a) ''stepNameToTest'', jobSampleData = apSampleData a,
        jobLogsFile = x, jobPrivacy = privacyFor P (apTenant a) y (sensitiveSteps P (text_or_empty (apExecution a) ''workflowVersionId'')),
        jobConcurrency = apConcurrency a, jobKind = apKind a, jobRetained = apRetain a\<rparr>"
  have "alone P (addRunToQueue P a) w = (Inr (apExecution a), w\<lparr>runJobs := runJobs w @ [j], payloadFiles := fs, drawn := n\<rparr>)"
    by (simp add: addRunToQueue_def Let_def run_simps 1(2) 2(2) 3(1) j_def jobId_def)
  then show ?thesis
    by (rule that) (use 1(1) 2(1) 3 new in \<open>simp_all add: payload_at_def j_def jobId_def\<close>)
qed

lemma alone_enqueueResume:
  assumes "tenantOf P (text_or_empty r ''projectId'') = Inr t"
  shows "\<exists>w'. alone P (enqueueResume P r v payload handler request) w = (Inr (), w') \<and>
    enqueues P (text_or_empty r ''id'')
      (resume_job_id (text_or_empty r ''id'') (case v of Some x \<Rightarrow> wpId x | None \<Rightarrow> ''legacy'')) payload w w'"
proof -
  obtain q n0 where q: "drawn w \<le> n0" "alone P (id_or_new (nil_or request (Option.bind v wpRequest))) w = (Inr q, w\<lparr>drawn := n0\<rparr>)"
    using alone_id_or_new by blast
  define a where "a = \<lparr>apExecution = r, apTenant = t, apPayload = payload, apPayloadFile = None,
        apHandler = nil_or handler (Option.bind v wpHandler), apRequest = Some q,
        apStream = (if own r ''environment'' = Some (JStr ''TESTING'') then StreamWEBSOCKET else StreamNONE),
        apKind = JobRESUME ResumeWAITPOINT,
        apJobId = Some (resume_job_id (text_or_empty r ''id'') (case v of Some x \<Rightarrow> wpId x | None \<Rightarrow> ''legacy'')),
        apSampleData = None, apConcurrency = None, apRetain = False\<rparr>"
  define w0 where "w0 = w\<lparr>drawn := n0\<rparr>"
  have "apPayloadFile a = None" by (simp add: a_def)
  then obtain j fs n where add:
    "alone P (addRunToQueue P a) w0 = (Inr (apExecution a), w0\<lparr>runJobs := runJobs w0 @ [j], payloadFiles := fs, drawn := n\<rparr>)"
    "jobIdent j = (case apJobId a of Some i \<Rightarrow> i | None \<Rightarrow> text_or_empty (apExecution a) ''id'')"
    "jobRun j = text_or_empty (apExecution a) ''id''" "jobKind j = apKind a" "payload_at fs j = not_nil (apPayload a)" "drawn w0 \<le> n"
    "\<forall>f. jobPayload j = RefPayload f \<longrightarrow> (\<exists>k < n. f = idOf P k)"
    "\<forall>f. map_of fs f \<noteq> map_of (payloadFiles w0) f \<longrightarrow> (\<exists>k. drawn w0 \<le> k \<and> k < n \<and> f = idOf P k)"
    by (rule alone_addRunToQueue)
  note add = add [unfolded w0_def, simplified]
  have "\<forall>f. map_of fs f \<noteq> map_of (payloadFiles w) f \<longrightarrow> (\<exists>k. drawn w \<le> k \<and> k < n \<and> f = idOf P k)"
    using add(8) q(1) by (meson le_trans)
  then have "enqueues P (text_or_empty r ''id'')
      (resume_job_id (text_or_empty r ''id'') (case v of Some x \<Rightarrow> wpId x | None \<Rightarrow> ''legacy'')) payload w
      (w\<lparr>runJobs := runJobs w @ [j], payloadFiles := fs, drawn := n, events := events w @ [EventRESUMED r]\<rparr>)"
    unfolding enqueues_def using add(2-7) q(1) by (intro exI [of _ j] exI [of _ fs] exI [of _ n] exI conjI refl) (simp_all add: a_def)
  moreover have "alone P (enqueueResume P r v payload handler request) w =
      (Inr (), w\<lparr>runJobs := runJobs w @ [j], payloadFiles := fs, drawn := n, events := events w @ [EventRESUMED r]\<rparr>)"
    using add(1) by (simp add: enqueueResume_def onResume_def run_simps assms q(2) a_def)
  ultimately show ?thesis by blast
qed

subsection \<open>The view of a run\<close>

type_synonym answers = "(string \<times> WaitpointStatus \<times> json option) list"

type_synonym resumes = "(string \<times> json option) list"

definition answer_view :: "waitpoint \<Rightarrow> string \<times> WaitpointStatus \<times> json option" where
  "answer_view v = (wpId v, wpStatus v, not_nil (wpPayload v))"

definition answers_of :: "string \<Rightarrow> run_world \<Rightarrow> answers" where
  "answers_of e w = map answer_view (filter (\<lambda>v. wpExecution v = e) (waitpoints w))"

definition resumes_of :: "string \<Rightarrow> run_world \<Rightarrow> resumes" where
  "resumes_of e w = map (\<lambda>j. (jobIdent j, payload_at (payloadFiles w) j)) (filter (\<lambda>j. jobRun j = e) (runJobs w))"

text \<open>What stays the same when an answer comes in.\<close>

definition keeps_rest :: "run_services \<Rightarrow> run_world \<Rightarrow> run_world \<Rightarrow> bool" where
  "keeps_rest P w w' \<longleftrightarrow> executions w' = executions w \<and> hashes w' = hashes w \<and> metadataJobs w' = metadataJobs w \<and>
     dedupKeys w' = dedupKeys w \<and> drawn w \<le> drawn w' \<and> (sound P w \<longrightarrow> sound P w') \<and>
     (distinct (map wpId (waitpoints w)) \<longrightarrow> distinct (map wpId (waitpoints w')))"

lemma keeps_rest_refl [simp]: "keeps_rest P w w"
  by (simp add: keeps_rest_def)

lemma keeps_rest_trans: "keeps_rest P w w' \<Longrightarrow> keeps_rest P w' w'' \<Longrightarrow> keeps_rest P w w''"
  unfolding keeps_rest_def by auto

lemma find_conj_filter: "find (\<lambda>x. P x \<and> Q x) xs = find Q (filter P xs)"
  by (induction xs) auto

lemma find_map: "find Q (map f xs) = map_option f (find (Q \<circ> f) xs)"
  by (induction xs) auto

lemma find_id_None: "find (\<lambda>a. fst a = i) as = None \<longleftrightarrow> i \<notin> fst ` set as"
  by (force simp: find_None_iff)

lemma find_by_view:
  assumes "\<And>v. wpExecution v = e \<Longrightarrow> meets q v \<longleftrightarrow> Q (answer_view v)" and "\<And>v. meets q v \<Longrightarrow> wpExecution v = e"
  shows "map_option answer_view (find (meets q) (waitpoints w)) = find Q (answers_of e w)"
proof -
  have "meets q = (\<lambda>v. wpExecution v = e \<and> Q (answer_view v))" using assms by blast
  then show ?thesis by (simp add: find_conj_filter answers_of_def find_map comp_def)
qed

lemma enqueues_view:
  assumes "enqueues P e ident payload w w'" and "sound P w"
  shows "answers_of e w' = answers_of e w" "resumes_of e w' = resumes_of e w @ [(ident, not_nil payload)]"
    "waitpoints w' = waitpoints w" "keeps_rest P w w'"
proof -
  from assms(1) obtain j fs n evs where w': "w' = w\<lparr>runJobs := runJobs w @ [j], payloadFiles := fs, drawn := n, events := evs\<rparr>"
    and j: "jobIdent j = ident" "jobRun j = e" "payload_at fs j = not_nil payload" "drawn w \<le> n"
      "\<forall>f. jobPayload j = RefPayload f \<longrightarrow> (\<exists>k < n. f = idOf P k)"
    and files: "\<forall>f. map_of fs f \<noteq> map_of (payloadFiles w) f \<longrightarrow> (\<exists>k. drawn w \<le> k \<and> k < n \<and> f = idOf P k)"
    unfolding enqueues_def by blast
  have old: "payload_at fs i = payload_at (payloadFiles w) i" if old_job: "i \<in> set (runJobs w)" for i
  proof (cases "jobPayload i")
    case (RefPayload f)
    then obtain k where "k < drawn w" "f = idOf P k" using assms(2) old_job unfolding sound_def by blast
    then have "map_of fs f = map_of (payloadFiles w) f"
      using files assms(2) unfolding sound_def inj_def by (metis leD)
    then show ?thesis by (simp add: payload_at_def RefPayload)
  qed (simp add: payload_at_def)
  show "answers_of e w' = answers_of e w" "waitpoints w' = waitpoints w" by (simp_all add: w' answers_of_def)
  show "resumes_of e w' = resumes_of e w @ [(ident, not_nil payload)]"
    using old j by (simp add: w' resumes_of_def)
  have "sound P w'" using assms(2) j(4,5) unfolding sound_def w' by (simp add: ball_Un) (meson less_le_trans)
  then show "keeps_rest P w w'" using j(4) by (simp add: keeps_rest_def w')
qed

subsection \<open>Specifications\<close>

definition completed :: "string \<times> WaitpointStatus \<times> json option \<Rightarrow> bool" where
  "completed a \<longleftrightarrow> fst (snd a) = COMPLETED"

text \<open>An answer with a payload to the waitpoint \<open>i\<close>: whether it was stale, the waitpoints and the resume jobs then.\<close>

definition signal_spec :: "ExecutionStatus option \<Rightarrow> string \<Rightarrow> string \<Rightarrow> json option \<Rightarrow> answers \<times> resumes \<Rightarrow> bool \<times> answers \<times> resumes" where
  "signal_spec st e i payload ar = (case ar of (as, rs) \<Rightarrow>
     if st = Some RunPAUSED then
       if i \<notin> fst ` set as then (True, as, rs)
       else let as' = filter (\<lambda>a. fst a \<noteq> i) as; rs' = rs @ [(resume_job_id e i, payload)] in
         (case find completed as' of
            None \<Rightarrow> (False, as', rs')
          | Some a \<Rightarrow> (False, filter (\<lambda>b. fst b \<noteq> fst a) as', rs' @ [(resume_job_id e (fst a), payload)]))
     else if st = Some RunRUNNING \<or> st = Some RunQUEUED then
       if \<exists>q. (i, PENDING, q) \<in> set as
       then (False, map (\<lambda>a. if fst a = i then (i, COMPLETED, payload) else a) as, rs)
       else (True, as, rs)
     else (True, as, rs))"

text \<open>The pause of a run is stored.\<close>

definition pause_spec :: "string \<Rightarrow> answers \<times> resumes \<Rightarrow> answers \<times> resumes" where
  "pause_spec e ar = (case find completed (fst ar) of
     None \<Rightarrow> ar
   | Some (i, _, payload) \<Rightarrow> snd (signal_spec (Some RunPAUSED) e i payload ar))"

subsection \<open>The code meets them\<close>

lemma alone_Find_Execution:
  "find (has_id e) (executions w) = Some r \<Longrightarrow> alone P (findExecutionOrThrow e) w = (Inr r, w)"
  by (simp add: findExecutionOrThrow_def run_simps)

lemma has_id_found: "find (has_id e) rs = Some r \<Longrightarrow> text_or_empty r ''id'' = e"
  by (auto simp: find_Some_iff has_id_def text_or_empty_def)

lemma answers_filter: "answers_of e (w\<lparr>waitpoints := filter (\<lambda>u. wpId u \<noteq> i) (waitpoints w)\<rparr>) = filter (\<lambda>a. fst a \<noteq> i) (answers_of e w)"
  by (simp add: answers_of_def filter_map comp_def answer_view_def conj_commute)

lemma alone_getByExecutionId:
  "\<exists>v. alone P (getByExecutionId e) w = (Inr v, w) \<and>
     (case find completed (answers_of e w) of
        None \<Rightarrow> (\<forall>x. v = Some x \<longrightarrow> wpStatus x \<noteq> COMPLETED)
      | Some a \<Rightarrow> (\<exists>x. v = Some x \<and> wpStatus x = COMPLETED \<and> answer_view x = a))"
proof -
  let ?q = "any_waitpoint\<lparr>whereExecution := Some e, whereStatus := Some COMPLETED\<rparr>"
  let ?q' = "any_waitpoint\<lparr>whereExecution := Some e\<rparr>"
  have view: "map_option answer_view (find (meets ?q) (waitpoints w)) = find completed (answers_of e w)"
    by (rule find_by_view) (auto simp: meets_def any_waitpoint_def completed_def answer_view_def)
  show ?thesis
  proof (cases "find (meets ?q) (waitpoints w)")
    case None
    then have none: "\<forall>x \<in> set (waitpoints w). \<not> meets ?q x" by (auto simp: find_None_iff)
    have "wpStatus x \<noteq> COMPLETED" if "find (meets ?q') (waitpoints w) = Some x" for x
    proof -
      from that have "x \<in> set (waitpoints w)" "meets ?q' x" by (auto simp: find_Some_iff in_set_conv_nth)
      then show ?thesis using none by (fastforce simp: meets_def any_waitpoint_def)
    qed
    with None view show ?thesis by (auto simp: getByExecutionId_def run_simps)
  next
    case (Some x)
    then have "meets ?q x" by (auto simp: find_Some_iff)
    then have "wpStatus x = COMPLETED" by (simp add: meets_def any_waitpoint_def)
    with Some view show ?thesis by (auto simp: getByExecutionId_def run_simps simp flip: view)
  qed
qed

lemma keeps_rest_filter: "keeps_rest P w (w\<lparr>waitpoints := filter Q (waitpoints w)\<rparr>)"
  by (auto simp: keeps_rest_def sound_def intro: distinct_map_filter)

lemma alone_consume:
  assumes r: "find (has_id e) (executions w) = Some r" and t: "tenantOf P (text_or_empty r ''projectId'') = Inr t"
    and "sound P w" and st: "status_in r = Some RunPAUSED"
  shows "\<exists>w'. alone P (consume_completed P e payload handler request) w = (Inr (), w') \<and> keeps_rest P w w' \<and>
    (answers_of e w', resumes_of e w') = (case find completed (answers_of e w) of
        None \<Rightarrow> (answers_of e w, resumes_of e w)
      | Some a \<Rightarrow> (filter (\<lambda>b. fst b \<noteq> fst a) (answers_of e w), resumes_of e w @ [(resume_job_id e (fst a), not_nil payload)]))"
proof -
  obtain v where v: "alone P (getByExecutionId e) w = (Inr v, w)"
    "case find completed (answers_of e w) of None \<Rightarrow> (\<forall>x. v = Some x \<longrightarrow> wpStatus x \<noteq> COMPLETED)
      | Some a \<Rightarrow> (\<exists>x. v = Some x \<and> wpStatus x = COMPLETED \<and> answer_view x = a)"
    using alone_getByExecutionId by blast
  show ?thesis
  proof (cases "find completed (answers_of e w)")
    case None
    then have "alone P (consume_completed P e payload handler request) w = (Inr (), w)"
      using v st by (auto simp: consume_completed_def run_simps alone_Find_Execution [OF r] split: option.split)
    then show ?thesis using None by auto
  next
    case (Some a)
    then obtain x where x: "v = Some x" "wpStatus x = COMPLETED" "fst a = wpId x"
      using v(2) by (auto simp: answer_view_def)
    let ?w = "w\<lparr>waitpoints := filter (\<lambda>u. wpId u \<noteq> wpId x) (waitpoints w)\<rparr>"
    have "sound P ?w" using assms(3) by (simp add: sound_def)
    obtain w' where w': "alone P (enqueueResume P r (Some x) payload handler request) ?w = (Inr (), w')"
      "enqueues P e (resume_job_id e (wpId x)) payload ?w w'"
      using alone_enqueueResume [OF t, of "Some x" payload handler request ?w] has_id_found [OF r] by auto
    note view = enqueues_view [OF w'(2) \<open>sound P ?w\<close>]
    have "alone P (consume_completed P e payload handler request) w = (Inr (), w')"
      using st by (simp add: consume_completed_def run_simps alone_Find_Execution [OF r] v(1) x(1,2) deleteWaitpoint_def w'(1))
    moreover have "resumes_of e ?w = resumes_of e w" by (simp add: resumes_of_def)
    moreover have "keeps_rest P w w'" using keeps_rest_trans [OF keeps_rest_filter view(4)] by simp
    ultimately show ?thesis using view(1,2) x(3) Some by (auto simp: answers_filter)
  qed
qed

lemma alone_complete:
  assumes "distinct (map wpId (waitpoints w))"
  shows "\<exists>v w'. alone P (complete e i payload handler) w = (Inr (\<exists>q. (i, PENDING, q) \<in> set (answers_of e w), v), w') \<and> keeps_rest P w w' \<and>
    resumes_of e' w' = resumes_of e' w \<and> runJobs w' = runJobs w \<and> answers_of e w' = (if \<exists>q. (i, PENDING, q) \<in> set (answers_of e w)
      then map (\<lambda>a. if fst a = i then (i, COMPLETED, not_nil payload) else a) (answers_of e w) else answers_of e w) \<and>
    (\<forall>x. v = Some x \<longrightarrow> wpId x = i \<and> wpPayload x = payload)"
proof -
  let ?q = "any_waitpoint\<lparr>whereId := Some i, whereExecution := Some e, whereStatus := Some PENDING\<rparr>"
  have view: "map_option answer_view (find (meets ?q) (waitpoints w)) = find (\<lambda>(j, s, _). j = i \<and> s = PENDING) (answers_of e w)"
    by (rule find_by_view) (auto simp: meets_def any_waitpoint_def answer_view_def)
  show ?thesis
  proof (cases "find (meets ?q) (waitpoints w)")
    case None
    then have "find (\<lambda>(j, s, _). j = i \<and> s = PENDING) (answers_of e w) = None" using view by simp
    then have none: "\<not> (\<exists>q. (i, PENDING, q) \<in> set (answers_of e w))" by (fastforce simp: find_None_iff)
    then show ?thesis using None
      by (intro exI [of _ None] exI [of _ w]) (simp add: complete_def run_simps)
  next
    case (Some v)
    then have v: "v \<in> set (waitpoints w)" "wpId v = i" "wpExecution v = e" "wpStatus v = PENDING"
      by (auto simp: find_Some_iff meets_def any_waitpoint_def)
    then have pending: "\<exists>q. (i, PENDING, q) \<in> set (answers_of e w)"
      by (force simp: answers_of_def answer_view_def)
    define v' where "v' = v\<lparr>wpStatus := COMPLETED, wpPayload := payload,
               wpHandler := (case handler of Some h \<Rightarrow> Some h | None \<Rightarrow> wpHandler v)\<rparr>"
    let ?w = "w\<lparr>waitpoints := map (\<lambda>u. if wpId u = wpId v' then v' else u) (waitpoints w)\<rparr>"
    have run: "alone P (complete e i payload handler) w = (Inr (True, Some v'), ?w)"
      using Some unfolding v'_def by (simp add: complete_def run_simps Let_def)
    have same: "u = v" if "u \<in> set (waitpoints w)" "wpId u = i" for u
      using that v(1,2) assms by (metis distinct_map inj_onD)
    have ids: "map (wpId \<circ> (\<lambda>u. if wpId u = wpId v' then v' else u)) us = map wpId us" for us
      by (auto simp: v'_def)
    have kept: "keeps_rest P w ?w" by (simp add: keeps_rest_def sound_def ids)
    have "answers_of e ?w = map (\<lambda>a. if fst a = i then (i, COMPLETED, not_nil payload) else a) (answers_of e w)"
    proof -
      have "map answer_view (filter (\<lambda>v. wpExecution v = e) (map (\<lambda>u. if wpId u = wpId v' then v' else u) us)) =
          map (\<lambda>a. if fst a = i then (i, COMPLETED, not_nil payload) else a) (map answer_view (filter (\<lambda>v. wpExecution v = e) us))"
        if "set us \<subseteq> set (waitpoints w)" for us
        using that
      proof (induction us)
        case (Cons u us)
        then have "wpId u = i \<Longrightarrow> wpExecution u = e" using same v(3) by auto
        with Cons v show ?case by (auto simp: v'_def answer_view_def)
      qed simp
      then show ?thesis by (simp add: answers_of_def)
    qed
    with run kept pending show ?thesis
      by (intro exI [of _ "Some v'"] exI [of _ ?w]) (simp add: resumes_of_def v'_def v)
  qed
qed

lemma alone_paused_signal:
  assumes r: "find (has_id e) (executions w) = Some r" and t: "tenantOf P (text_or_empty r ''projectId'') = Inr t" and "sound P w"
  shows "\<exists>w'. alone P (handleResumeSignal e i (Some RunPAUSED) payload handler
        (\<lambda>v. enqueueResume P r (Some v) payload handler request)) w = (Inr (i \<in> fst ` set (answers_of e w)), w') \<and> keeps_rest P w w' \<and>
      (answers_of e w', resumes_of e w') = (if i \<notin> fst ` set (answers_of e w) then (answers_of e w, resumes_of e w)
        else (filter (\<lambda>a. fst a \<noteq> i) (answers_of e w), resumes_of e w @ [(resume_job_id e i, not_nil payload)]))"
proof -
  let ?q = "any_waitpoint\<lparr>whereId := Some i, whereExecution := Some e\<rparr>"
  have view: "map_option answer_view (find (meets ?q) (waitpoints w)) = find (\<lambda>a. fst a = i) (answers_of e w)"
    by (rule find_by_view) (auto simp: meets_def any_waitpoint_def answer_view_def)
  show ?thesis
  proof (cases "find (meets ?q) (waitpoints w)")
    case None
    with view have "find (\<lambda>a. fst a = i) (answers_of e w) = None" by simp
    then have "i \<notin> fst ` set (answers_of e w)" by (simp add: find_id_None)
    with None show ?thesis by (intro exI [of _ w]) (simp add: handleResumeSignal_def run_simps)
  next
    case (Some v)
    then have "find (\<lambda>a. fst a = i) (answers_of e w) = Some (answer_view v)" using view by simp
    then have "i \<in> fst ` set (answers_of e w)" by (metis find_id_None option.distinct(1))
    moreover have id: "wpId v = i" using Some by (auto simp: find_Some_iff meets_def any_waitpoint_def)
    moreover obtain w1 where w1: "alone P (enqueueResume P r (Some v) payload handler request) w = (Inr (), w1)"
      "enqueues P e (resume_job_id e i) payload w w1"
      using alone_enqueueResume [OF t, of "Some v" payload handler request w] has_id_found [OF r] id by auto
    note added = enqueues_view [OF w1(2) assms(3)]
    let ?w = "w1\<lparr>waitpoints := filter (\<lambda>u. wpId u \<noteq> i) (waitpoints w1)\<rparr>"
    have "keeps_rest P w ?w" using keeps_rest_trans [OF added(4) keeps_rest_filter] .
    moreover have "resumes_of e ?w = resumes_of e w1" by (simp add: resumes_of_def)
    moreover have "alone P (handleResumeSignal e i (Some RunPAUSED) payload handler
        (\<lambda>v. enqueueResume P r (Some v) payload handler request)) w = (Inr True, ?w)"
      using Some by (simp add: handleResumeSignal_def run_simps w1(1) id)
    ultimately show ?thesis by (auto simp: answers_filter added(1,2))
  qed
qed

lemma signal_refines:
  assumes r: "find (has_id e) (executions w) = Some r" and t: "tenantOf P (text_or_empty r ''projectId'') = Inr t"
    and "sound P w" and "distinct (map wpId (waitpoints w))"
  shows "\<exists>stale w'. alone P (resumeFromWaitpointWithoutLock P e i payload handler request) w = (Inr (r, stale), w') \<and> keeps_rest P w w' \<and>
    (stale, answers_of e w', resumes_of e w') = signal_spec (status_in r) e i (not_nil payload) (answers_of e w, resumes_of e w)"
proof -
  note found = alone_Find_Execution [OF r]
  consider (paused) "status_in r = Some RunPAUSED" | (active) "status_in r = Some RunRUNNING \<or> status_in r = Some RunQUEUED"
    | (other) "status_in r \<noteq> Some RunPAUSED" "status_in r \<noteq> Some RunRUNNING" "status_in r \<noteq> Some RunQUEUED" by blast
  then show ?thesis
  proof cases
    case paused
    obtain w1 where w1: "alone P (handleResumeSignal e i (Some RunPAUSED) payload handler
        (\<lambda>v. enqueueResume P r (Some v) payload handler request)) w = (Inr (i \<in> fst ` set (answers_of e w)), w1)" "keeps_rest P w w1"
      "(answers_of e w1, resumes_of e w1) = (if i \<notin> fst ` set (answers_of e w) then (answers_of e w, resumes_of e w)
        else (filter (\<lambda>a. fst a \<noteq> i) (answers_of e w), resumes_of e w @ [(resume_job_id e i, not_nil payload)]))"
      using alone_paused_signal [OF r t assms(3)] by blast
    show ?thesis
    proof (cases "i \<in> fst ` set (answers_of e w)")
      case True
      have "find (has_id e) (executions w1) = Some r" "sound P w1" using w1(2) r assms(3) by (simp_all add: keeps_rest_def)
      from alone_consume [OF this(1) t this(2) paused] obtain w2 where
        w2: "alone P (consume_completed P e payload handler request) w1 = (Inr (), w2)" "keeps_rest P w1 w2"
          "(answers_of e w2, resumes_of e w2) = (case find completed (answers_of e w1) of
            None \<Rightarrow> (answers_of e w1, resumes_of e w1)
          | Some a \<Rightarrow> (filter (\<lambda>b. fst b \<noteq> fst a) (answers_of e w1), resumes_of e w1 @ [(resume_job_id e (fst a), not_nil payload)]))"
        by blast
      have "alone P (resumeFromWaitpointWithoutLock P e i payload handler request) w = (Inr (r, False), w2)"
        using True by (simp add: resumeFromWaitpointWithoutLock_def run_simps found paused w1(1) w2(1))
      moreover have "keeps_rest P w w2" by (rule keeps_rest_trans [OF w1(2) w2(2)])
      ultimately show ?thesis using True w1(3) w2(3) paused
        by (intro exI [of _ False] exI [of _ w2]) (auto simp: signal_spec_def Let_def split: option.split)
    next
      case False
      then have "alone P (resumeFromWaitpointWithoutLock P e i payload handler request) w = (Inr (r, True), w1)"
        by (simp add: resumeFromWaitpointWithoutLock_def run_simps found paused w1(1))
      then show ?thesis using False w1(2,3) paused by (auto simp: signal_spec_def)
    qed
  next
    case active
    then have not_paused: "status_in r \<noteq> Some RunPAUSED" by auto
    obtain v w1 where w1: "alone P (complete e i payload handler) w = (Inr (\<exists>q. (i, PENDING, q) \<in> set (answers_of e w), v), w1)"
      "keeps_rest P w w1" "resumes_of e w1 = resumes_of e w"
      "answers_of e w1 = (if \<exists>q. (i, PENDING, q) \<in> set (answers_of e w)
        then map (\<lambda>a. if fst a = i then (i, COMPLETED, not_nil payload) else a) (answers_of e w) else answers_of e w)"
      using alone_complete [OF assms(4), of P e i payload handler e] by blast
    have "find (has_id e) (executions w1) = Some r" using w1(2) r by (simp add: keeps_rest_def)
    then have "alone P (consume_completed P e payload handler request) w1 = (Inr (), w1)"
      using not_paused by (simp add: consume_completed_def run_simps alone_Find_Execution)
    then have "alone P (resumeFromWaitpointWithoutLock P e i payload handler request) w =
        (Inr (r, \<not> (\<exists>q. (i, PENDING, q) \<in> set (answers_of e w))), w1)"
      using active not_paused by (auto simp: resumeFromWaitpointWithoutLock_def handleResumeSignal_def run_simps found w1(1))
    then show ?thesis using active w1(2-4) by (auto simp: signal_spec_def)
  next
    case other
    then have "alone P (resumeFromWaitpointWithoutLock P e i payload handler request) w = (Inr (r, True), w)"
      by (simp add: resumeFromWaitpointWithoutLock_def handleResumeSignal_def run_simps found)
    then show ?thesis using other by (auto simp: signal_spec_def)
  qed
qed

lemma answers_ids: "distinct (map wpId (waitpoints w)) \<Longrightarrow> distinct (map fst (answers_of e w))"
  by (auto simp: answers_of_def comp_def answer_view_def intro: distinct_map_filter)

subsection \<open>A pause is stored\<close>

lemma alone_resume_early:
  assumes r: "find (has_id e) (executions w) = Some r" and t: "tenantOf P (text_or_empty r ''projectId'') = Inr t"
    and "sound P w" and "distinct (map wpId (waitpoints w))" and st: "status_in r = Some RunPAUSED"
  shows "\<exists>w'. alone P (resume_early P r) w = (Inr (), w') \<and> keeps_rest P w w' \<and>
    (answers_of e w', resumes_of e w') = pause_spec e (answers_of e w, resumes_of e w)"
proof -
  note id = has_id_found [OF r]
  obtain v where v: "alone P (getByExecutionId e) w = (Inr v, w)"
    "case find completed (answers_of e w) of None \<Rightarrow> (\<forall>x. v = Some x \<longrightarrow> wpStatus x \<noteq> COMPLETED)
      | Some a \<Rightarrow> (\<exists>x. v = Some x \<and> wpStatus x = COMPLETED \<and> answer_view x = a)"
    using alone_getByExecutionId by blast
  show ?thesis
  proof (cases "find completed (answers_of e w)")
    case None
    then have "alone P (resume_early P r) w = (Inr (), w)"
      using v st by (auto simp: resume_early_def run_simps id split: option.split)
    then show ?thesis using None by (auto simp: pause_spec_def)
  next
    case (Some a)
    then obtain x where x: "v = Some x" "wpStatus x = COMPLETED" "answer_view x = a" using v(2) by auto
    obtain stale w' where w': "alone P (resumeFromWaitpointWithoutLock P e (wpId x) (wpPayload x) None None) w = (Inr (r, stale), w')"
      "keeps_rest P w w'"
      "(stale, answers_of e w', resumes_of e w') =
         signal_spec (status_in r) e (wpId x) (not_nil (wpPayload x)) (answers_of e w, resumes_of e w)"
      using signal_refines [OF r t assms(3,4)] by blast
    have "alone P (resume_early P r) w = (Inr (), w')"
      using st by (simp add: resume_early_def run_simps id v(1) x(1,2) w'(1))
    moreover have "pause_spec e (answers_of e w, resumes_of e w) =
        snd (signal_spec (status_in r) e (wpId x) (not_nil (wpPayload x)) (answers_of e w, resumes_of e w))"
      using x Some st by (auto simp: pause_spec_def answer_view_def)
    ultimately show ?thesis using w'(2,3) by (metis snd_conv)
  qed
qed

end
