(* ===== verification/Pause_Laws.thy ===== *)
theory Pause_Laws
  imports Waitpoint_Laws
begin

text \<open>The worker that stores a pause, run alone: the row it writes and what it does with answers that came before.\<close>

subsection \<open>The row after its update\<close>

lemma map_of_spread: "map_of (rev (spread md ks)) k = (if k \<in> set ks then own md k else None)"
  by (induction ks) (auto simp: spread_def spreadIfDefined_def map_add_def split: option.split)

definition updated_columns :: "string list" where
  "updated_columns = [''projectId'', ''workflowId'', ''workflowVersionId'', ''environment'', ''startTime'', ''finishTime'', ''status'', ''tags'']
     @ [''stepNameToTest'', ''parentRunId'', ''failParentOnFailure'', ''logsFileId'', ''displayLogsFileId'', ''updated'', ''stepsCount'']"

lemma map_of_two_spreads:
  assumes "map_of (rev as) k = None" and "map_of (rev bs) k = None"
  shows "map_of (rev (as @ spread md ks @ bs @ spread md ls)) k = (if k \<in> set (ks @ ls) then own md k else None)"
  unfolding rev_append map_of_append map_add_def map_of_spread using assms by (auto split: option.split)

lemma map_of_update:
  assumes "k \<noteq> ''timeline''" and "k \<noteq> ''failedStep''"
  shows "map_of (rev (row_update P x md)) k = (if k \<in> set updated_columns then own md k else None)"
  unfolding row_update_def updated_columns_def
proof (rule map_of_two_spreads)
  show "map_of (rev (spreadIfDefined ''timeline'' (buildTimeline P x md))) k = None" "map_of (rev (failedStepUpdate md)) k = None"
    using assms by (auto simp: spreadIfDefined_def failedStepUpdate_def split: option.split)
qed

lemma own_not_null: "own r k \<noteq> Some JNull"
  by (auto simp: own_def split: option.splits json.splits)

lemma own_update:
  assumes "k \<noteq> ''timeline''" and "k \<noteq> ''failedStep''"
  shows "own (assign_fields x (row_update P x md)) k = (if k \<in> set updated_columns \<and> own md k \<noteq> None then own md k else own x k)"
proof (cases "k \<in> set updated_columns \<and> own md k \<noteq> None")
  case True
  then obtain v where "own md k = Some v" by blast
  then show ?thesis using True own_not_null [of md k]
    by (cases v) (simp_all add: own_def [of "assign_fields _ _"] map_of_assign_fields map_of_update [OF assms])
next
  case False
  then have "map_of (rev (row_update P x md)) k = None" by (simp add: map_of_update [OF assms])
  then have "own (assign_fields x (row_update P x md)) k = own x k" by (simp add: own_def map_of_assign_fields)
  then show ?thesis using False by auto
qed

lemma updated_id [simp]: "''id'' \<notin> set updated_columns"
  "''projectId'' \<in> set updated_columns" "''status'' \<in> set updated_columns"
  by (simp_all add: updated_columns_def)

definition pausing :: "run_world \<Rightarrow> string \<Rightarrow> string \<Rightarrow> bool" where
  "pausing w e p \<longleftrightarrow> (\<exists>h md. hashes w (redisMetadataKey e) = Some h \<and> md = sanitizeObjectForPostgresql h \<and> h \<noteq> [] \<and>
     text_in md ''projectId'' = Some p \<and> status_in md = Some RunPAUSED \<and> own md ''finishTime'' = None \<and> own md ''failedStep'' = None)"

lemma find_map_preserved: "(\<And>x. Q (f x) = Q x) \<Longrightarrow> find Q (map f xs) = map_option f (find Q xs)"
  by (induction xs) auto

lemma find_stronger: "find Q xs = Some x \<Longrightarrow> R x \<Longrightarrow> find (\<lambda>y. Q y \<and> R y) xs = Some x"
  by (induction xs) (auto split: if_splits)

lemma alone_save_paused:
  assumes "pausing w e p" and r: "find (has_id e) (executions w) = Some r" and "in_project p r"
    and t: "tenantOf P p = Inr t" and "sound P w" and "distinct (map wpId (waitpoints w))"
  shows "\<exists>w' r'. alone P (save_run_metadata P e) w = (Inr (), w') \<and> sound P w' \<and> distinct (map wpId (waitpoints w')) \<and>
    find (has_id e) (executions w') = Some r' \<and> status_in r' = Some RunPAUSED \<and> text_or_empty r' ''projectId'' = p \<and>
    (answers_of e w', resumes_of e w') = pause_spec e (answers_of e w, resumes_of e w)"
proof -
  obtain h md where h: "hashes w (redisMetadataKey e) = Some h" "md = sanitizeObjectForPostgresql h" "h \<noteq> []"
    "text_in md ''projectId'' = Some p" "status_in md = Some RunPAUSED" "own md ''finishTime'' = None" "own md ''failedStep'' = None"
    using assms(1) unfolding pausing_def by blast
  define r' where "r' = assign_fields r (row_update P r md)"
  have own': "own r' ''id'' = own r ''id''" "own r' ''projectId'' = own md ''projectId''" "own r' ''status'' = own md ''status''"
    using h(4,5) by (simp_all add: r'_def own_update text_in_def status_in_iff split: option.splits)
  have id_kept: "has_id e (if has_id e x \<and> in_project p x then assign_fields x (row_update P r md) else x) = has_id e x" for x
    by (simp add: has_id_def text_in_def own_def map_of_assign_fields map_of_update)
  have p_kept: "in_project p (if has_id e x \<and> in_project p x then assign_fields x (row_update P r md) else x) = in_project p x" for x
    using h(4) by (auto simp: in_project_def text_in_def own_def map_of_assign_fields map_of_update split: option.splits json.splits)
  define w1 where "w1 = w\<lparr>dedupKeys := dedupKeys w - {e}, unread := remove1 (redisMetadataKey e) (unread w),
    executions := map (\<lambda>x. if has_id e x \<and> in_project p x then assign_fields x (row_update P r md) else x) (executions w)\<rparr>"
  have r1: "find (has_id e) (executions w1) = Some r'"
    using r assms(3) unfolding w1_def by (auto simp: find_map_preserved id_kept r'_def find_Some_iff)
  have project: "text_or_empty md ''projectId'' = p" using h(4) by (simp add: text_or_empty_def)
  have found: "find (\<lambda>x. has_id e x \<and> in_project p x) (executions w) = Some r"
    using r assms(3) by (rule find_stronger)
  have "in_project p r'" using own'(2) h(4) by (simp add: in_project_def text_in_def)
  with r1 have found1: "find (\<lambda>x. has_id e x \<and> in_project p x) (executions w1) = Some r'"
    by (rule find_stronger)
  have st: "status_in r' = Some RunPAUSED" using own'(3) h(5) by (simp add: status_in_iff)
  have p': "text_or_empty r' ''projectId'' = p" using own'(2) h(4) by (simp add: text_or_empty_def text_in_def)
  obtain w2 where w2: "alone P (case own md ''requestId'' of None \<Rightarrow> aret () | Some q \<Rightarrow>
      do_call (Delete_Hash_If (redisMetadataKey e) ''requestId'' q)) w1 = (Inr (), w2)" "\<exists>hs. w2 = w1\<lparr>hashes := hs\<rparr>"
  proof (cases "own md ''requestId''")
    case None
    moreover have "w1 = w1\<lparr>hashes := hashes w1\<rparr>" by simp
    ultimately show ?thesis using that [of w1] by (metis option.simps(4) run_aret)
  next
    case (Some q)
    have "\<exists>hs. snd (run_perform P (Delete_Hash_If (redisMetadataKey e) ''requestId'' q) w1) = w1\<lparr>hashes := hs\<rparr>"
      by (auto split: option.split intro: exI [of _ "hashes w1"] exI [of _ "(hashes w1)(redisMetadataKey e := None)"])
    then show ?thesis using that [of "snd (run_perform P (Delete_Hash_If (redisMetadataKey e) ''requestId'' q) w1)"] Some
      by (simp add: run_simps)
  qed
  have r2: "find (has_id e) (executions w2) = Some r'" "sound P w2" "distinct (map wpId (waitpoints w2))"
    "answers_of e w2 = answers_of e w" "resumes_of e w2 = resumes_of e w"
    using w2(2) r1 assms(5,6) by (auto simp: w1_def sound_def answers_of_def resumes_of_def)
  have "tenantOf P (text_or_empty r' ''projectId'') = Inr t" using p' t by simp
  from alone_resume_early [OF r2(1) this r2(2,3) st] obtain w3 where w3: "alone P (resume_early P r') w2 = (Inr (), w3)"
    "keeps_rest P w2 w3" "(answers_of e w3, resumes_of e w3) = pause_spec e (answers_of e w, resumes_of e w)"
    using r2(4,5) by auto
  have "alone P (mark_parent P r') w1 = (Inr (), w1)"
    by (auto simp: mark_parent_def st split: option.split json.split bool.split)
  moreover have "alone P (finish_run (Some r) md r') w2 = (Inr (), w2)" by (simp add: finish_run_def h(6))
  moreover have "alone P (withMaskedFailedStep md) x = (Inr md, x)" for x by (simp add: withMaskedFailedStep_def h(7))
  moreover have "alone P (save_row P e md (Some r)) (w\<lparr>dedupKeys := dedupKeys w - {e}, unread := remove1 (redisMetadataKey e) (unread w)\<rparr>) =
      (Inr (Some r'), w1)"
    using found1 by (simp add: save_row_def run_simps project w1_def)
  ultimately have "alone P (save_run_metadata P e) w = (Inr (), w3)"
    using h(1,3) found w2(1) w3(1)
    by (simp add: save_run_metadata_def run_simps project flip: h(2))
  then show ?thesis using w3 r2 st p' by (intro exI [of _ w3] exI [of _ r']) (auto simp: keeps_rest_def)
qed

end
