(* ===== verification/Run_Properties.thy ===== *)
theory Run_Properties
  imports Pause_Laws
begin

text \<open>Paused runs: what an answer does, that none is lost or used twice, and where early answers and timers go wrong.\<close>

text \<open>C25: An answer to a waitpoint does what its specification says, on every state of the run: it resumes a paused
  run with its payload and uses the waitpoint up, is kept for a run whose pause is not stored yet, and is stale
  otherwise; no other waitpoint and no row changes, but for a waitpoint that was completed before.\<close>

theorem answer_exact:
  assumes "find (has_id e) (executions w) = Some r" and "tenantOf P (text_or_empty r ''projectId'') = Inr t"
    and "sound P w" and "distinct (map wpId (waitpoints w))"
  shows "\<exists>stale w'. alone P (resumeFromWaitpoint P e i payload handler request) w = (Inr (r, stale), w') \<and> executions w' = executions w \<and>
    (stale, answers_of e w', resumes_of e w') = signal_spec (status_in r) e i (not_nil payload) (answers_of e w, resumes_of e w)"
  using signal_refines [OF assms] by (fastforce simp: resumeFromWaitpoint_def keeps_rest_def)

lemma find_single:
  assumes "distinct (map fst as)" and "(i, PENDING, q) \<in> set as" and "find completed as = None"
  shows "find completed (map (\<lambda>a. if fst a = i then (i, COMPLETED, x) else a) as) = Some (i, COMPLETED, x)"
  using assms by (induction as) (auto simp: completed_def split: if_splits)

lemma filter_single: "filter (\<lambda>a. fst a \<noteq> i) (map (\<lambda>a. if fst a = i then (i, c) else a) as) = filter (\<lambda>a. fst a \<noteq> i) as"
  by (induction as) auto

lemma pause_after_answer:
  assumes "distinct (map fst as)" and "(i, PENDING, q) \<in> set as" and "find completed as = None"
  shows "pause_spec e (map (\<lambda>a. if fst a = i then (i, COMPLETED, x) else a) as, rs) =
    (filter (\<lambda>a. fst a \<noteq> i) as, rs @ [(resume_job_id e i, x)])"
proof -
  have "find completed (filter (\<lambda>a. fst a \<noteq> i) as) = None" using assms(3) by (auto simp: find_None_iff)
  moreover have "i \<in> fst ` set (map (\<lambda>a. if fst a = i then (i, COMPLETED, x) else a) as)"
    using assms(2) by (induction as) auto
  ultimately show ?thesis
    by (simp add: pause_spec_def find_single [OF assms] signal_spec_def Let_def filter_single del: set_map)
qed

text \<open>C24: An answer and the storing of the pause commute: whichever comes first, the run is put back into the queue
  exactly once, by a job named after the waitpoint that carries the payload of the answer, and the waitpoint is
  gone. So an answer that arrives before the pause is stored is not lost, and none is used twice.\<close>

theorem answer_and_pause_commute:
  assumes "pausing w e p" and r: "find (has_id e) (executions w) = Some r" "in_project p r"
    and st: "status_in r = Some RunRUNNING \<or> status_in r = Some RunQUEUED"
    and t: "tenantOf P p = Inr t" and ok: "sound P w" "distinct (map wpId (waitpoints w))"
    and i: "(i, PENDING, q) \<in> set (answers_of e w)" "find completed (answers_of e w) = None"
  shows "(\<exists>w1 w2. alone P (resumeFromWaitpoint P e i payload handler request) w = (Inr (r, False), w1) \<and>
      alone P (save_run_metadata P e) w1 = (Inr (), w2) \<and>
      answers_of e w2 = filter (\<lambda>a. fst a \<noteq> i) (answers_of e w) \<and>
      resumes_of e w2 = resumes_of e w @ [(resume_job_id e i, not_nil payload)]) \<and>
    (\<exists>w1 w2 r'. alone P (save_run_metadata P e) w = (Inr (), w1) \<and>
      alone P (resumeFromWaitpoint P e i payload handler request) w1 = (Inr (r', False), w2) \<and>
      answers_of e w2 = filter (\<lambda>a. fst a \<noteq> i) (answers_of e w) \<and>
      resumes_of e w2 = resumes_of e w @ [(resume_job_id e i, not_nil payload)])"
proof
  have p: "text_or_empty r ''projectId'' = p" using r(2) by (simp add: in_project_def text_or_empty_def)
  obtain stale w1 where w1: "alone P (resumeFromWaitpointWithoutLock P e i payload handler request) w = (Inr (r, stale), w1)"
    "keeps_rest P w w1"
    "(stale, answers_of e w1, resumes_of e w1) = signal_spec (status_in r) e i (not_nil payload) (answers_of e w, resumes_of e w)"
    using signal_refines [OF r(1) _ ok] p t by blast
  then have v1: "\<not> stale" "answers_of e w1 = map (\<lambda>a. if fst a = i then (i, COMPLETED, not_nil payload) else a) (answers_of e w)"
    "resumes_of e w1 = resumes_of e w" using st i(1) by (auto simp: signal_spec_def split: if_splits)
  have "pausing w1 e p" using assms(1) w1(2) by (simp add: pausing_def keeps_rest_def)
  moreover have "find (has_id e) (executions w1) = Some r" "sound P w1" "distinct (map wpId (waitpoints w1))"
    using w1(2) r ok by (simp_all add: keeps_rest_def)
  ultimately obtain w2 where w2: "alone P (save_run_metadata P e) w1 = (Inr (), w2)"
    "(answers_of e w2, resumes_of e w2) = pause_spec e (answers_of e w1, resumes_of e w1)"
    using alone_save_paused [OF _ _ r(2) t] by metis
  have "(answers_of e w2, resumes_of e w2) = (filter (\<lambda>a. fst a \<noteq> i) (answers_of e w), resumes_of e w @ [(resume_job_id e i, not_nil payload)])"
    using w2(2) by (simp add: v1(2,3) pause_after_answer [OF answers_ids [OF ok(2)] i])
  with w1(1) v1(1) w2(1) show "\<exists>w1 w2. alone P (resumeFromWaitpoint P e i payload handler request) w = (Inr (r, False), w1) \<and>
      alone P (save_run_metadata P e) w1 = (Inr (), w2) \<and> answers_of e w2 = filter (\<lambda>a. fst a \<noteq> i) (answers_of e w) \<and>
      resumes_of e w2 = resumes_of e w @ [(resume_job_id e i, not_nil payload)]"
    by (auto simp: resumeFromWaitpoint_def)
next
  from alone_save_paused [OF assms(1) r t ok] obtain w1 r' where w1: "alone P (save_run_metadata P e) w = (Inr (), w1)"
    "sound P w1" "distinct (map wpId (waitpoints w1))" "find (has_id e) (executions w1) = Some r'" "status_in r' = Some RunPAUSED"
    "text_or_empty r' ''projectId'' = p" "(answers_of e w1, resumes_of e w1) = pause_spec e (answers_of e w, resumes_of e w)" by blast
  then have v1: "answers_of e w1 = answers_of e w" "resumes_of e w1 = resumes_of e w" using i(2) by (simp_all add: pause_spec_def)
  obtain stale w2 where w2: "alone P (resumeFromWaitpointWithoutLock P e i payload handler request) w1 = (Inr (r', stale), w2)"
    "(stale, answers_of e w2, resumes_of e w2) = signal_spec (Some RunPAUSED) e i (not_nil payload) (answers_of e w, resumes_of e w)"
    using signal_refines [OF w1(4) _ w1(2,3)] w1(5,6) t v1 by metis
  moreover have "find completed (filter (\<lambda>a. fst a \<noteq> i) (answers_of e w)) = None" using i(2) by (auto simp: find_None_iff)
  moreover have "i \<in> fst ` set (answers_of e w)" using i(1) by force
  ultimately have "\<not> stale \<and> answers_of e w2 = filter (\<lambda>a. fst a \<noteq> i) (answers_of e w) \<and>
      resumes_of e w2 = resumes_of e w @ [(resume_job_id e i, not_nil payload)]" by (simp add: signal_spec_def Let_def)
  with w1(1) w2(1) show "\<exists>w1 w2 r'. alone P (save_run_metadata P e) w = (Inr (), w1) \<and>
      alone P (resumeFromWaitpoint P e i payload handler request) w1 = (Inr (r', False), w2) \<and>
      answers_of e w2 = filter (\<lambda>a. fst a \<noteq> i) (answers_of e w) \<and>
      resumes_of e w2 = resumes_of e w @ [(resume_job_id e i, not_nil payload)]"
    by (auto simp: resumeFromWaitpoint_def)
qed

lemma find_hd_filter: "find Q xs = (case filter Q xs of [] \<Rightarrow> None | x # _ \<Rightarrow> Some x)"
  by (induction xs) auto

text \<open>C26: When several waitpoints of a run are answered before its pause is stored, storing it resumes the run with the
  first payload, consumes the second answer with a job that carries the payload of the first, and leaves every
  further answer unused.\<close>

theorem early_answers_lose_payloads:
  assumes "pausing w e p" and "find (has_id e) (executions w) = Some r" "in_project p r" and "tenantOf P p = Inr t"
    and ok: "sound P w" "distinct (map wpId (waitpoints w))"
    and as: "filter completed (answers_of e w) = (i, si, x) # (j, sj, y) # rest"
  shows "\<exists>w'. alone P (save_run_metadata P e) w = (Inr (), w') \<and> filter completed (answers_of e w') = rest \<and>
    resumes_of e w' = resumes_of e w @ [(resume_job_id e i, x), (resume_job_id e j, x)]"
proof -
  have ids: "distinct (map fst (filter completed (answers_of e w)))" by (rule distinct_map_filter [OF answers_ids [OF ok(2)]])
  have mem: "i \<in> fst ` set (answers_of e w)"   proof -
    have "(i, si, x) \<in> set (filter completed (answers_of e w))" by (simp add: as)
    then show ?thesis by force
  qed
  have swap: "filter completed (filter (\<lambda>a. fst a \<noteq> k) bs) = filter (\<lambda>a. fst a \<noteq> k) (filter completed bs)" for k bs
    by (simp add: conj_commute)
  have out: "filter (\<lambda>a. fst a \<noteq> k) bs = bs" if "k \<notin> fst ` set bs" for k and bs :: answers
    using that by (auto simp: filter_id_conv)
  have "filter completed (filter (\<lambda>a. fst a \<noteq> i) (answers_of e w)) = (j, sj, y) # rest"
    using ids as by (simp only: swap as) (auto simp: out)
  moreover from this have "filter completed (filter (\<lambda>b. fst b \<noteq> j) (filter (\<lambda>a. fst a \<noteq> i) (answers_of e w))) = rest"
    using ids as by (simp only: swap) (auto simp: out)
  ultimately have spec: "(case pause_spec e (answers_of e w, resumes_of e w) of (as', rs') \<Rightarrow> filter completed as' = rest \<and>
      rs' = resumes_of e w @ [(resume_job_id e i, x), (resume_job_id e j, x)])"
    using mem by (simp add: pause_spec_def signal_spec_def find_hd_filter as Let_def)
  obtain w' where w': "alone P (save_run_metadata P e) w = (Inr (), w')"
    and view: "(answers_of e w', resumes_of e w') = pause_spec e (answers_of e w, resumes_of e w)"
    using alone_save_paused [OF assms(1-6)] by blast
  show ?thesis using w' spec unfolding view [symmetric] by (intro exI [of _ w']) simp
qed

text \<open>C27: The timer of a delay that fires before the pause is stored does nothing, and the pause then stored leaves the
  waitpoint pending with no resume job: the run waits without end.\<close>

theorem early_timer_lost:
  assumes "pausing w (delayExecution d) (delayProject d)"
    and r: "find (has_id (delayExecution d)) (executions w) = Some r" "in_project (delayProject d) r" "status_in r \<noteq> Some RunPAUSED"
    and "tenantOf P (delayProject d) = Inr t" and "sound P w" "distinct (map wpId (waitpoints w))"
    and "find completed (answers_of (delayExecution d) w) = None"
  shows "\<exists>w'. alone P (resume_delay_handler P d) w = (Inr (), w) \<and> alone P (save_run_metadata P (delayExecution d)) w = (Inr (), w') \<and>
    answers_of (delayExecution d) w' = answers_of (delayExecution d) w \<and> resumes_of (delayExecution d) w' = resumes_of (delayExecution d) w"
proof -
  have "alone P (resume_delay_handler P d) w = (Inr (), w)"
  proof -
    from r(1,2) have "find (\<lambda>x. has_id (delayExecution d) x \<and> in_project (delayProject d) x) (executions w) = Some r"
      by (rule find_stronger)
    then show ?thesis using r(3) by (simp add: resume_delay_handler_def run_simps)
  qed
  moreover obtain w' where "alone P (save_run_metadata P (delayExecution d)) w = (Inr (), w')"
    "(answers_of (delayExecution d) w', resumes_of (delayExecution d) w') =
       pause_spec (delayExecution d) (answers_of (delayExecution d) w, resumes_of (delayExecution d) w)"
    using alone_save_paused [OF assms(1) r(1,2) assms(5-7)] by blast
  ultimately show ?thesis using assms(8) by (auto simp: pause_spec_def)
qed

text \<open>While a timer of the run waits, a further delay of the run is not scheduled.\<close>

lemma second_delay_unscheduled:
  assumes "map_of (delayJobs w) (delay_job_id e) = Some d" and "\<not> delayFailed d"
  shows "alone P (upsertJob (delay_job_id e) d') w = (Inr (), w)"
  using assms by (simp add: upsertJob_def run_simps)

end
