(* ===== verification/Run_Interleavings.thy ===== *)
theory Run_Interleavings
  imports Pause_Laws
begin

text \<open>
  Answers, pauses, timers, cancellations and metadata jobs of any number of runs at once. Every program carries its
  number into its calls (\<open>tag\<close>), and a history beside the world notes which program drew an identifier and which
  run a waitpoint with that identifier was first stored for. A call may fail, before or after its effect, with
  three exceptions: deleting waitpoints and publishing an event succeed, and a job that could not be added was not.

  The invariant \<open>orderly\<close>: no waitpoint that could still be answered has a resume job, except while the lock of its run is
  held. \<open>others_may\<close> and \<open>may_do\<close> are the rely and the guarantee of a program.
\<close>

subsection \<open>Numbered programs\<close>

primrec tag :: "nat \<Rightarrow> ('o, 'v, 'a) prog \<Rightarrow> (nat \<times> 'o, 'v, 'a) prog" where
  "tag i (Ret x) = Ret x"
| "tag i (Call op k) = Call (i, op) (\<lambda>v. tag i (k v))"
| "tag i (Lock l k) = Lock l (\<lambda>v. tag i (k v))"
| "tag i (Unlock l p) = Unlock l (tag i p)"

lemma obeys_tag: "obeys H i R G Q (tag i p) c = obeys (\<lambda>op. H (i, op)) i R G Q p c"
  by (induction p arbitrary: c) simp_all

record id_history =
  drawnBy :: "string \<Rightarrow> nat option"
  home :: "string \<Rightarrow> string option"

type_synonym run_state = "run_world \<times> id_history"

definition note_ids :: "run_services \<Rightarrow> nat \<Rightarrow> run_world \<Rightarrow> run_world \<Rightarrow> id_history \<Rightarrow> id_history" where
  "note_ids P i w w' h = \<lparr>drawnBy = (if drawn w' = drawn w then drawnBy h else (drawnBy h)(idOf P (drawn w) \<mapsto> i)),
     home = (\<lambda>x. case home h x of Some e \<Rightarrow> Some e | None \<Rightarrow> map_of (map (\<lambda>v. (wpId v, wpExecution v)) (waitpoints w')) x)\<rparr>"

fun never_fails :: "run_call \<Rightarrow> bool" where
  "never_fails (Delete_Waitpoint i) = True"
| "never_fails (Delete_Waitpoints_Of e) = True"
| "never_fails (Record_Event ev) = True"
| "never_fails _ = False"

definition finds :: "waitpoint_query \<Rightarrow> waitpoint list \<Rightarrow> waitpoint option \<Rightarrow> bool" where
  "finds q vs x = (case x of None \<Rightarrow> \<forall>u \<in> set vs. \<not> meets q u | Some u \<Rightarrow> u \<in> set vs \<and> meets q u)"

definition run_answer :: "run_services \<Rightarrow> run_call \<Rightarrow> run_world \<Rightarrow> run_reply result \<Rightarrow> run_world \<Rightarrow> bool" where
  "run_answer P op w v w' \<longleftrightarrow>
     (case op of Find_Waitpoint q \<Rightarrow> w' = w \<and> (\<exists>x. v = Inr (A_Waitpoint x) \<and> finds q (waitpoints w) x)
      | _ \<Rightarrow> (v, w') = run_perform P op w) \<or>
     \<not> never_fails op \<and> (\<exists>e. v = Inl e \<and> (w' = w \<or> (\<forall>j. op \<noteq> Add_Run_Job j) \<and> w' = snd (run_perform P op w)))"

definition answer_by :: "run_services \<Rightarrow> nat \<times> run_call \<Rightarrow> run_state \<Rightarrow> run_reply result \<Rightarrow> run_state \<Rightarrow> bool" where
  "answer_by P io s v s' \<longleftrightarrow> run_answer P (snd io) (fst s) v (fst s') \<and>
     snd s' = note_ids P (fst io) (fst s) (fst s') (snd s)"

subsection \<open>The invariant\<close>

definition job_key :: "run_job \<Rightarrow> string \<times> string" where
  "job_key j = (jobRun j, jobIdent j)"

definition job_keys :: "run_world \<Rightarrow> (string \<times> string) set" where
  "job_keys w = job_key ` set (runJobs w)"

definition wp_ids :: "run_world \<Rightarrow> string set" where
  "wp_ids w = wpId ` set (waitpoints w)"

definition clean :: "string \<Rightarrow> string set \<Rightarrow> run_world \<Rightarrow> bool" where
  "clean e X w \<longleftrightarrow> (\<forall>v \<in> set (waitpoints w). wpExecution v = e \<longrightarrow> wpId v \<notin> X \<longrightarrow> (e, resume_job_id e (wpId v)) \<notin> job_keys w)"

definition own_hash :: "string \<Rightarrow> row \<Rightarrow> bool" where
  "own_hash k h \<longleftrightarrow> (\<exists>r. k = redisMetadataKey r \<and> map_of h ''id'' = Some (JStr r) \<and> CHR 0x00 \<notin> set r)"

definition orderly :: "run_services \<Rightarrow> run_state shared \<Rightarrow> bool" where
  "orderly P c \<longleftrightarrow> (case c of (ow, w, h) \<Rightarrow>
     distinct (map wpId (waitpoints w)) \<and> (\<forall>v \<in> set (waitpoints w). home h (wpId v) = Some (wpExecution v)) \<and>
     (\<forall>x. home h x \<noteq> None \<or> drawnBy h x \<noteq> None \<longrightarrow> (\<exists>k < drawn w. x = idOf P k)) \<and>
     (\<forall>key \<in> job_keys w. \<exists>x. snd key = resume_job_id (fst key) x \<and> home h x \<noteq> None) \<and>
     distinct (map job_key (runJobs w)) \<and>
     (\<forall>k h'. hashes w k = Some h' \<longrightarrow> own_hash k h') \<and>
     (\<forall>e. ow (metadata_lock e) = None \<longrightarrow> clean e {} w))"

text \<open>A change by the others that the program \<open>i\<close> relies on.\<close>

definition leaves :: "run_services \<Rightarrow> nat \<Rightarrow> run_state shared \<Rightarrow> run_state shared \<Rightarrow> bool" where
  "leaves P i a b \<longleftrightarrow> (case (a, b) of ((ow, w, h), (ow', w', h')) \<Rightarrow>
     (\<forall>l. ow l = Some i \<longleftrightarrow> ow' l = Some i) \<and>
     (\<forall>x e. home h x = Some e \<longrightarrow> home h' x = Some e) \<and>
     (\<forall>x. home h x \<noteq> None \<longrightarrow> x \<notin> wp_ids w \<longrightarrow> x \<notin> wp_ids w') \<and>
     (\<forall>x. drawnBy h x = Some i \<longrightarrow> drawnBy h' x = Some i \<and> (home h x = None \<longrightarrow> home h' x = None)) \<and>
     (\<forall>key. ow (metadata_lock (fst key)) = Some i \<longrightarrow> key \<in> job_keys w' \<longleftrightarrow> key \<in> job_keys w))"

definition others_may :: "run_services \<Rightarrow> nat \<Rightarrow> run_state shared \<Rightarrow> run_state shared \<Rightarrow> bool" where
  "others_may P i a b \<longleftrightarrow> (orderly P a \<longrightarrow> orderly P b \<and> leaves P i a b)"

definition may_do :: "run_services \<Rightarrow> nat \<Rightarrow> run_state shared \<Rightarrow> run_state shared \<Rightarrow> bool" where
  "may_do P i a b \<longleftrightarrow> (orderly P a \<longrightarrow> orderly P b \<and> (\<forall>k. k \<noteq> i \<longrightarrow> leaves P k a b))"

lemma leaves_refl [simp]: "leaves P i a a"
  by (auto simp: leaves_def)

lemma leaves_trans: "leaves P i a b \<Longrightarrow> leaves P i b c \<Longrightarrow> leaves P i a c"
  unfolding leaves_def by (cases a; cases b; cases c) (auto; metis option.distinct(1))

lemma others_may_refl: "others_may P i a a"
  by (simp add: others_may_def)

lemma others_may_trans: "others_may P i a b \<Longrightarrow> others_may P i b c \<Longrightarrow> others_may P i a c"
  unfolding others_may_def using leaves_trans by blast

lemma may_do_refl: "may_do P i a a"
  by (simp add: may_do_def)

lemma may_do_others: "i \<noteq> j \<Longrightarrow> may_do P i a b \<Longrightarrow> others_may P j a b"
  by (auto simp: may_do_def others_may_def)

lemma metadata_lock_inj [simp]: "metadata_lock e = metadata_lock f \<longleftrightarrow> e = f"
  by (simp add: metadata_lock_def)

lemma row_lock_apart [simp]: "metadata_lock e \<noteq> row_lock i" "row_lock i \<noteq> metadata_lock e"
  by (simp_all add: metadata_lock_def row_lock_def)

lemma resume_job_id_inj [simp]: "resume_job_id e i = resume_job_id e j \<longleftrightarrow> i = j"
  by (simp add: resume_job_id_def)

lemma clean_stable:
  assumes "clean e X w" and "orderly P (ow, w, h)" and "orderly P (ow', w', h')" and "leaves P i (ow, w, h) (ow', w', h')"
    and "ow (metadata_lock e) = Some i"
  shows "clean e X w'"
  unfolding clean_def
proof (intro ballI impI notI)
  fix v
  assume v: "v \<in> set (waitpoints w')" "wpExecution v = e" "wpId v \<notin> X" "(e, resume_job_id e (wpId v)) \<in> job_keys w'"
  then have key: "(e, resume_job_id e (wpId v)) \<in> job_keys w" using assms(4,5) by (auto simp: leaves_def)
  then have known: "home h (wpId v) \<noteq> None" using assms(2) by (force simp: orderly_def)
  then have "wpId v \<in> wp_ids w" using v(1) assms(4) by (auto simp: leaves_def wp_ids_def)
  then obtain u where u: "u \<in> set (waitpoints w)" "wpId u = wpId v" by (auto simp: wp_ids_def)
  have "home h (wpId v) = Some (wpExecution u)" using u assms(2) by (auto simp: orderly_def)
  moreover have "home h' (wpId v) = Some e" using v(1,2) assms(3) by (auto simp: orderly_def)
  ultimately have "wpExecution u = e" using assms(4) by (auto simp: leaves_def)
  then show False using assms(1) u v(3) key by (auto simp: clean_def)
qed

subsection \<open>Calls that harm nobody\<close>

fun harmless :: "run_call \<Rightarrow> bool" where
  "harmless (Insert_Waitpoint v) = False"
| "harmless (Save_Waitpoint v) = False"
| "harmless (Add_Run_Job j) = False"
| "harmless (Merge_Hash k fs) = own_hash k (rev fs)"
| "harmless _ = True"

lemma own_hash_assign: "own_hash k (rev fs) \<Longrightarrow> own_hash k (assign_fields h fs)"
  by (auto simp: own_hash_def map_of_assign_fields)

lemma harmless_effect:
  assumes "harmless op" and "run_answer P op w v w'"
  shows "(\<exists>Q. waitpoints w' = filter Q (waitpoints w)) \<and> runJobs w' = runJobs w \<and> (drawn w' = drawn w \<or> drawn w' = Suc (drawn w)) \<and>
    (\<forall>k h. hashes w' k = Some h \<longrightarrow> hashes w k = Some h \<or> own_hash k h)"
proof -
  have same: "\<exists>Q. waitpoints w = filter Q (waitpoints w)" by (rule exI [of _ "\<lambda>_. True"]) simp
  consider "w' = w" | "w' = snd (run_perform P op w)"
    using assms(2) unfolding run_answer_def by (cases op) (auto, metis snd_conv)+
  then show ?thesis
  proof cases
    case 1
    then show ?thesis using same by simp
  next
    case 2
    then show ?thesis using assms(1) same
      by (cases op) (auto simp: own_hash_assign split: option.splits list.splits if_splits)
  qed
qed

lemma notes_of:
  assumes "orderly P (ow, w, h)" and "set (waitpoints w') \<subseteq> set (waitpoints w)"
  shows "home (note_ids P i w w' h) = home h"
proof
  fix x
  show "home (note_ids P i w w' h) x = home h x"
  proof (cases "home h x")
    case None
    then have "x \<notin> wpId ` set (waitpoints w')" using assms by (auto simp: orderly_def)
    then show ?thesis using None by (auto simp: note_ids_def map_of_eq_None_iff image_image)
  qed (simp add: note_ids_def)
qed

lemma harmless_step:
  assumes "inj (idOf P)" and "harmless op" and o: "orderly P (ow, w, h)" and "run_answer P op w v w'"
  shows "orderly P (ow, w', note_ids P i w w' h) \<and> leaves P k (ow, w, h) (ow, w', note_ids P i w w' h)"
proof -
  obtain Q where e: "waitpoints w' = filter Q (waitpoints w)" "runJobs w' = runJobs w" "drawn w' = drawn w \<or> drawn w' = Suc (drawn w)"
    "\<forall>k h. hashes w' k = Some h \<longrightarrow> hashes w k = Some h \<or> own_hash k h"
    using harmless_effect [OF assms(2,4)] by blast
  have home: "home (note_ids P i w w' h) = home h" by (rule notes_of [OF o]) (auto simp: e)
  have keys: "job_keys w' = job_keys w" by (simp add: job_keys_def e)
  have clean: "clean f X w \<Longrightarrow> clean f X w'" for f X by (auto simp: clean_def e keys)
  have new: "drawnBy h (idOf P (drawn w)) = None"
  proof (rule ccontr)
    assume "drawnBy h (idOf P (drawn w)) \<noteq> None"
    then obtain k where "k < drawn w" "idOf P (drawn w) = idOf P k" using o unfolding orderly_def by auto
    then show False using assms(1) by (auto dest: injD)
  qed
  have drawn: "drawnBy (note_ids P i w w' h) x = drawnBy h x \<or> x = idOf P (drawn w) \<and> drawn w' = Suc (drawn w)" for x
    using e(3) by (auto simp: note_ids_def)
  have mono: "drawnBy (note_ids P i w w' h) x = Some k" if "drawnBy h x = Some k" for x
    using that new by (auto simp: note_ids_def)
  have ids: "\<exists>k < drawn w'. x = idOf P k" if "home h x \<noteq> None \<or> drawnBy (note_ids P i w w' h) x \<noteq> None" for x
    using that drawn [of x] o e(3) unfolding orderly_def by (auto intro: less_SucI) (metis less_SucI)+
  have "\<forall>k h'. hashes w k = Some h' \<longrightarrow> own_hash k h'" using o by (simp add: orderly_def)
  then have hashes: "\<forall>k h'. hashes w' k = Some h' \<longrightarrow> own_hash k h'" using e(4) by blast
  have "orderly P (ow, w', note_ids P i w w' h)"
    using o ids clean e(1-3) hashes by (auto simp: orderly_def home keys distinct_map_filter)
  moreover have "leaves P k (ow, w, h) (ow, w', note_ids P i w w' h)"
    using mono by (auto simp: leaves_def home keys wp_ids_def e)
  ultimately show ?thesis ..
qed

subsection \<open>Assertions of a program\<close>

text \<open>An assertion is steady when the others cannot make it false.\<close>

definition steady :: "run_services \<Rightarrow> nat \<Rightarrow> (run_state shared \<Rightarrow> bool) \<Rightarrow> bool" where
  "steady P i J \<longleftrightarrow> (\<forall>a b. orderly P a \<longrightarrow> orderly P b \<longrightarrow> leaves P i a b \<longrightarrow> J a \<longrightarrow> J b)"

definition held :: "nat \<Rightarrow> string \<Rightarrow> string set \<Rightarrow> run_state shared \<Rightarrow> bool" where
  "held i e X c \<longleftrightarrow> (case c of (ow, w, h) \<Rightarrow> ow (metadata_lock e) = Some i \<and> clean e X w)"

definition all_held :: "nat \<Rightarrow> string set \<Rightarrow> run_state shared \<Rightarrow> bool" where
  "all_held i S c \<longleftrightarrow> (\<forall>e \<in> S. held i e {} c)"

definition at_home :: "string \<Rightarrow> string \<Rightarrow> run_state shared \<Rightarrow> bool" where
  "at_home e x c \<longleftrightarrow> home (snd (snd c)) x = Some e"

definition unqueued :: "nat \<Rightarrow> string \<Rightarrow> string \<Rightarrow> run_state shared \<Rightarrow> bool" where
  "unqueued i e x c \<longleftrightarrow> (case c of (ow, w, h) \<Rightarrow> ow (metadata_lock e) = Some i \<and> (e, resume_job_id e x) \<notin> job_keys w)"

definition gone :: "string \<Rightarrow> run_state shared \<Rightarrow> bool" where
  "gone x c \<longleftrightarrow> (case c of (ow, w, h) \<Rightarrow> home h x \<noteq> None \<and> x \<notin> wp_ids w)"

definition drawn_by :: "nat \<Rightarrow> string \<Rightarrow> run_state shared \<Rightarrow> bool" where
  "drawn_by i x c \<longleftrightarrow> (case c of (ow, w, h) \<Rightarrow> drawnBy h x = Some i \<and> home h x = None)"

named_theorems steady_rules \<open>assertions the others respect\<close>

lemma steady_basic [steady_rules]:
  "steady P i (\<lambda>_. b)" "steady P i (held i e X)" "steady P i (at_home e x)" "steady P i (unqueued i e x)"
  "steady P i (gone x)" "steady P i (drawn_by i x)"
proof -
  show "steady P i (held i e X)"
    unfolding steady_def held_def by (auto intro: clean_stable) (auto simp: leaves_def)
qed (auto simp: steady_def at_home_def unqueued_def gone_def drawn_by_def leaves_def)

lemma steady_conj [steady_rules]: "steady P i J \<Longrightarrow> steady P i K \<Longrightarrow> steady P i (\<lambda>c. J c \<and> K c)"
  unfolding steady_def by blast

lemma steady_imp [steady_rules]: "(b \<Longrightarrow> steady P i J) \<Longrightarrow> steady P i (\<lambda>c. b \<longrightarrow> J c)"
  unfolding steady_def by blast

lemma steady_all_held [steady_rules]: "steady P i (all_held i S)"
  using steady_basic(2) unfolding steady_def all_held_def by metis

text \<open>A program that starts with \<open>J\<close> stays within its guarantee and ends with \<open>K\<close>.\<close>

definition keeps :: "run_services \<Rightarrow> nat \<Rightarrow> (run_state shared \<Rightarrow> bool) \<Rightarrow> (run_call, run_reply, 'a) prog
    \<Rightarrow> ('a \<Rightarrow> run_state shared \<Rightarrow> bool) \<Rightarrow> bool" where
  "keeps P i J p K \<longleftrightarrow> (\<forall>c. orderly P c \<longrightarrow> J c \<longrightarrow>
     obeys (\<lambda>op. answer_by P (i, op)) i (others_may P i) (may_do P i) (\<lambda>x c. orderly P c \<and> K x c) p c)"

lemma keeps_weaken:
  "keeps P i J p K \<Longrightarrow> (\<And>c. orderly P c \<Longrightarrow> J' c \<Longrightarrow> J c) \<Longrightarrow> (\<And>x c. orderly P c \<Longrightarrow> K x c \<Longrightarrow> K' x c) \<Longrightarrow> keeps P i J' p K'"
  unfolding keeps_def by (blast intro: obeys_weaken)

lemma keeps_Ret:
  assumes "steady P i (K x)" and "\<And>c. orderly P c \<Longrightarrow> J c \<Longrightarrow> K x c"
  shows "keeps P i J (Ret x) K"
  using assms unfolding keeps_def steady_def others_may_def by auto

lemma keeps_pbind:
  assumes "keeps P i J p K" and "\<And>x. keeps P i (K x) (f x) L"
  shows "keeps P i J (pbind p f) L"
  unfolding keeps_def
proof (intro allI impI)
  fix c
  assume "orderly P c" "J c"
  with assms(1) have "obeys (\<lambda>op. answer_by P (i, op)) i (others_may P i) (may_do P i) (\<lambda>x c. orderly P c \<and> K x c) p c"
    unfolding keeps_def by blast
  then show "obeys (\<lambda>op. answer_by P (i, op)) i (others_may P i) (may_do P i) (\<lambda>x c. orderly P c \<and> L x c) (pbind p f) c"
    by (rule obeys_pbind) (use assms(2) in \<open>auto simp: keeps_def others_may_refl\<close>)
qed

lemma keeps_abind:
  assumes "keeps P i J p K" and "\<And>x. keeps P i (K (Inr x)) (f x) L"
    and "\<And>e. steady P i (L (Inl e))" and "\<And>e c. orderly P c \<Longrightarrow> K (Inl e) c \<Longrightarrow> L (Inl e) c"
  shows "keeps P i J (abind p f) L"
  unfolding abind_def
proof (rule keeps_pbind [OF assms(1)])
  fix r
  show "keeps P i (K r) (case r of Inl e \<Rightarrow> Ret (Inl e) | Inr x \<Rightarrow> f x) L"
    by (cases r) (auto intro!: keeps_Ret assms(2-4))
qed

lemma keeps_athen:
  assumes "keeps P i J p K" and "\<And>x. keeps P i (K (Inr x)) q L"
    and "\<And>e. steady P i (L (Inl e))" and "\<And>e c. orderly P c \<Longrightarrow> K (Inl e) c \<Longrightarrow> L (Inl e) c"
  shows "keeps P i J (athen p q) L"
  unfolding athen_def by (rule keeps_abind [OF assms])

lemma obeys_acall:
  assumes "\<And>ow s v s'. R c (ow, s) \<Longrightarrow> H op s v s' \<Longrightarrow> G (ow, s) (ow, s') \<and> (\<forall>d. R (ow, s') d \<longrightarrow> Q (map_sum id f v) d)"
  shows "obeys H i R G Q (acall op f) c"
  using assms by (auto simp: acall_def)

text \<open>A call: its step is within the guarantee and leads to the assertion that follows.\<close>

lemma keeps_acall:
  assumes "steady P i J" and "\<And>x. steady P i (K x)"
    and step: "\<And>ow w h v w'. orderly P (ow, w, h) \<Longrightarrow> J (ow, w, h) \<Longrightarrow> run_answer P op w v w' \<Longrightarrow>
      orderly P (ow, w', note_ids P i w w' h) \<and> (\<forall>k. k \<noteq> i \<longrightarrow> leaves P k (ow, w, h) (ow, w', note_ids P i w w' h)) \<and>
      K (map_sum id f v) (ow, w', note_ids P i w w' h)"
  shows "keeps P i J (acall op f) K"
  unfolding keeps_def
proof (intro allI impI)
  fix c
  assume c: "orderly P c" "J c"
  show "obeys (\<lambda>op. answer_by P (i, op)) i (others_may P i) (may_do P i) (\<lambda>x c. orderly P c \<and> K x c) (acall op f) c"
  proof (rule obeys_acall)
    fix ow s v s'
    assume r: "others_may P i c (ow, s)" "answer_by P (i, op) s v s'"
    obtain w h where s: "s = (w, h)" by fastforce
    obtain w' where s': "s' = (w', note_ids P i w w' h)" "run_answer P op w v w'"
      using r(2) by (cases s') (auto simp: answer_by_def s)
    have o: "orderly P (ow, w, h)" using c(1) r(1) by (auto simp: others_may_def s)
    have j: "J (ow, w, h)" using assms(1) c r(1) unfolding steady_def others_may_def s by blast
    have next_state: "orderly P (ow, s')" "\<forall>k. k \<noteq> i \<longrightarrow> leaves P k (ow, w, h) (ow, s')" "K (map_sum id f v) (ow, s')"
      using step [OF o j s'(2)] by (simp_all add: s'(1))
    have "may_do P i (ow, s) (ow, s')" using o next_state by (auto simp: may_do_def s)
    moreover have "orderly P d \<and> K (map_sum id f v) d" if "others_may P i (ow, s') d" for d
      using that next_state assms(2) unfolding others_may_def steady_def by blast
    ultimately show "may_do P i (ow, s) (ow, s') \<and>
        (\<forall>d. others_may P i (ow, s') d \<longrightarrow> orderly P d \<and> K (map_sum id f v) d)" by blast
  qed
qed

lemma keeps_harmless_call:
  assumes "inj (idOf P)" and "harmless op" and "steady P i J"
  shows "keeps P i J (acall op f) (\<lambda>_. J)"
proof (rule keeps_acall [OF assms(3) assms(3)])
  fix ow w h v w'
  assume a: "orderly P (ow, w, h)" "J (ow, w, h)" "run_answer P op w v w'"
  note step = harmless_step [OF assms(1,2) a(1,3), of i]
  then have "J (ow, w', note_ids P i w w' h)" using assms(3) a(1,2) unfolding steady_def by blast
  with step show "orderly P (ow, w', note_ids P i w w' h) \<and>
      (\<forall>k. k \<noteq> i \<longrightarrow> leaves P k (ow, w, h) (ow, w', note_ids P i w w' h)) \<and> J (ow, w', note_ids P i w w' h)" by blast
qed

lemma keeps_harmless:
  assumes "inj (idOf P)" and "steady P i J" and "all_calls harmless (\<lambda>_. False) p"
  shows "keeps P i J p (\<lambda>_. J)"
  using assms(3)
proof (induction p)
  case (Ret x)
  show ?case by (rule keeps_Ret) (rule assms(2))
next
  case (Call op k)
  have "keeps P i J (pbind (acall op id) (case_sum (\<lambda>e. k (Inl e)) (\<lambda>v. k (Inr v)))) (\<lambda>_. J)"
  proof (rule keeps_pbind [OF keeps_harmless_call [OF assms(1) _ assms(2)]])
    show "harmless op" using Call.prems by simp
    show "keeps P i J (case r of Inl e \<Rightarrow> k (Inl e) | Inr v \<Rightarrow> k (Inr v)) (\<lambda>_. J)" for r
      using Call by (cases r) auto
  qed
  moreover have "pbind (acall op id) (case_sum (\<lambda>e. k (Inl e)) (\<lambda>v. k (Inr v))) = Call op k"
    by (auto simp: acall_def sum.map_id split: sum.split)
  ultimately show ?case by simp
qed simp_all

end
