(* ===== verification/Run_Interleaving_Laws.thy ===== *)
theory Run_Interleaving_Laws
  imports Run_Interleavings
begin

text \<open>Every operation on runs stays within its guarantee, whatever the others do within theirs.\<close>

subsection \<open>Locks\<close>

lemma leaves_lock: "k \<noteq> i \<Longrightarrow> ow l = None \<Longrightarrow> leaves P k (ow, s) (ow(l \<mapsto> i), s)"
  by (cases s) (auto simp: leaves_def)

lemma leaves_unlock: "k \<noteq> i \<Longrightarrow> leaves P k (ow, s) (released i l ow, s)"
  by (cases s) (auto simp: leaves_def released_def)

lemma keeps_runExclusive:
  assumes "steady P i J"
    and acquire: "\<And>ow s. orderly P (ow, s) \<Longrightarrow> J (ow, s) \<Longrightarrow> ow l = None \<Longrightarrow> orderly P (ow(l \<mapsto> i), s) \<and> J' (ow(l \<mapsto> i), s)"
    and body: "keeps P i J' p K'" and steady: "\<And>x. steady P i (K' x)" "\<And>x. steady P i (K x)"
    and release: "\<And>x ow s. orderly P (ow, s) \<Longrightarrow> K' x (ow, s) \<Longrightarrow> orderly P (released i l ow, s) \<and> K x (released i l ow, s)"
    and fails: "\<And>e c. orderly P c \<Longrightarrow> J c \<Longrightarrow> K (Inl e) c"
  shows "keeps P i J (runExclusive l p) K"
proof -
  let ?H = "\<lambda>op. answer_by P (i, op)"
  have unlock: "keeps P i (K' x) (Unlock l (Ret x)) K" for x
    unfolding keeps_def obeys.simps
  proof (intro allI impI conjI)
    fix c ow s d
    assume c: "orderly P c" "K' x c" "others_may P i c (ow, s)"
    then have o: "orderly P (ow, s)" "K' x (ow, s)" using steady(1) unfolding others_may_def steady_def by blast+
    then have r: "orderly P (released i l ow, s)" "K x (released i l ow, s)" using release by blast+
    then show "may_do P i (ow, s) (released i l ow, s)" using leaves_unlock by (auto simp: may_do_def)
    assume "others_may P i (released i l ow, s) d"
    then show "orderly P d" "K x d" using r steady(2) unfolding others_may_def steady_def by blast+
  qed
  have inside: "keeps P i J' (pbind p (\<lambda>r. Unlock l (Ret r))) K" by (rule keeps_pbind [OF body unlock])
  show ?thesis
    unfolding keeps_def runExclusive_def obeys.simps
  proof (intro allI impI conjI)
    fix c ow s
    assume c: "orderly P c" "J c" "others_may P i c (ow, s)"
    then have o: "orderly P (ow, s)" "J (ow, s)" using assms(1) unfolding others_may_def steady_def by blast+
    {
      assume free: "ow l = None"
      then have a: "orderly P (ow(l \<mapsto> i), s)" "J' (ow(l \<mapsto> i), s)" using acquire o by blast+
      then show "may_do P i (ow, s) (ow(l \<mapsto> i), s)" using leaves_lock free by (auto simp: may_do_def)
      show "obeys ?H i (others_may P i) (may_do P i) (\<lambda>x c. orderly P c \<and> K x c)
          (case Inr () of Inl e \<Rightarrow> Ret (Inl e) | Inr _ \<Rightarrow> pbind p (\<lambda>r. Unlock l (Ret r))) (ow(l \<mapsto> i), s)"
        using inside a unfolding keeps_def sum.case by blast
    }
    fix e
    have "keeps P i J (Ret (Inl e)) K" by (rule keeps_Ret) (use steady(2) fails in auto)
    then show "obeys ?H i (others_may P i) (may_do P i) (\<lambda>x c. orderly P c \<and> K x c)
        (case Inl e of Inl e \<Rightarrow> Ret (Inl e) | Inr _ \<Rightarrow> pbind p (\<lambda>r. Unlock l (Ret r))) (ow, s)"
      using o unfolding keeps_def sum.case by blast
  qed
qed

lemma orderly_row: "orderly P (ow(row_lock x := y), s) \<longleftrightarrow> orderly P (ow, s)"
  by (cases s) (simp add: orderly_def)

lemma released_row: "released i (row_lock x) ow (metadata_lock e) = ow (metadata_lock e)"
  by (simp add: released_def)

lemma orderly_released_row: "orderly P (released i (row_lock x) ow, s) \<longleftrightarrow> orderly P (ow, s)"
  by (cases s) (simp add: orderly_def released_row)

lemma all_held_row: "all_held i S (ow(row_lock x := y), s) \<longleftrightarrow> all_held i S (ow, s)"
  "all_held i S (released i (row_lock x) ow, s) \<longleftrightarrow> all_held i S (ow, s)"
  by (cases s; simp add: all_held_def held_def released_row)+

lemma keeps_row_lock:
  assumes "keeps P i (all_held i S) p (\<lambda>_. all_held i S)"
  shows "keeps P i (all_held i S) (runExclusive (row_lock x) p) (\<lambda>_. all_held i S)"
  by (rule keeps_runExclusive [OF _ _ assms])
    (auto intro: steady_rules simp: orderly_row orderly_released_row all_held_row)

lemma keeps_const: "keeps P i J p K \<Longrightarrow> keeps P i (\<lambda>c. b \<and> J c) p (\<lambda>x c. b \<and> K x c)"
  by (cases b) (auto simp: keeps_def)

lemma keeps_metadata_lock:
  assumes "keeps P i (all_held i (insert e S)) p (\<lambda>_. all_held i (insert e S))"
  shows "keeps P i (all_held i S) (runExclusive (metadata_lock e) p) (\<lambda>_. all_held i S)"
proof (rule keeps_runExclusive [OF _ _ keeps_const [OF assms, of "e \<notin> S"]])
  fix ow s
  assume o: "orderly P (ow, s)" "all_held i S (ow, s)" "ow (metadata_lock e) = None"
  obtain w h where s: "s = (w, h)" by fastforce
  have "e \<notin> S" using o(2,3) by (auto simp: all_held_def held_def s)
  moreover have "clean e {} w" using o(1,3) by (auto simp: orderly_def s)
  ultimately show "orderly P (ow(metadata_lock e \<mapsto> i), s) \<and> e \<notin> S \<and> all_held i (insert e S) (ow(metadata_lock e \<mapsto> i), s)"
    using o by (auto simp: orderly_def all_held_def held_def s)
next
  fix x ow s
  assume o: "orderly P (ow, s)" "e \<notin> S \<and> all_held i (insert e S) (ow, s)"
  then show "orderly P (released i (metadata_lock e) ow, s) \<and> all_held i S (released i (metadata_lock e) ow, s)"
    by (cases s) (auto simp: orderly_def all_held_def held_def released_def)
qed (auto intro: steady_rules)

subsection \<open>Calls with an effect on waitpoints and jobs\<close>

lemma keeps_call_fact:
  assumes "inj (idOf P)" and "harmless op" and "steady P i J"
    and "\<And>ow w h v w'. orderly P (ow, w, h) \<Longrightarrow> run_answer P op w v w' \<Longrightarrow> \<phi> (map_sum id f v)"
  shows "keeps P i J (acall op f) (\<lambda>r c. J c \<and> \<phi> r)"
proof (rule keeps_acall [OF assms(3)])
  show "steady P i (\<lambda>c. J c \<and> \<phi> r)" for r by (intro steady_rules assms(3))
  fix ow w h v w'
  assume a: "orderly P (ow, w, h)" "J (ow, w, h)" "run_answer P op w v w'"
  note step = harmless_step [OF assms(1,2) a(1,3), of i]
  then have "J (ow, w', note_ids P i w w' h)" using assms(3) a(1,2) unfolding steady_def by blast
  with step show "orderly P (ow, w', note_ids P i w w' h) \<and>
      (\<forall>k. k \<noteq> i \<longrightarrow> leaves P k (ow, w, h) (ow, w', note_ids P i w w' h)) \<and>
      J (ow, w', note_ids P i w w' h) \<and> \<phi> (map_sum id f v)" using assms(4) [OF a(1,3)] by blast
qed

lemma notes_same: "orderly P (ow, w, h) \<Longrightarrow> waitpoints w' = waitpoints w \<Longrightarrow> drawn w' = drawn w \<Longrightarrow> note_ids P i w w' h = h"
  using notes_of [of P ow w h w' i] by (simp add: note_ids_def)

lemma keeps_add_job:
  assumes "job_key j = (e, resume_job_id e x)" and "e \<in> S"
  shows "keeps P i (\<lambda>c. all_held i S c \<and> unqueued i e x c \<and> at_home e x c \<and> (b \<longrightarrow> gone x c)) (do_call (Add_Run_Job j))
    (\<lambda>r c. case r of Inl _ \<Rightarrow> all_held i S c | Inr _ \<Rightarrow> all_held i (S - {e}) c \<and> held i e (if b then {} else {x}) c)"
proof (rule keeps_acall)
  show "steady P i (\<lambda>c. case r of Inl _ \<Rightarrow> all_held i S c | Inr _ \<Rightarrow> all_held i (S - {e}) c \<and> held i e (if b then {} else {x}) c)"
    for r by (cases r) (auto intro: steady_rules)
  fix ow w h v w'
  assume o: "orderly P (ow, w, h)" and pre: "all_held i S (ow, w, h) \<and> unqueued i e x (ow, w, h) \<and> at_home e x (ow, w, h) \<and> (b \<longrightarrow> gone x (ow, w, h))"
    and answer: "run_answer P (Add_Run_Job j) w v w'"
  then consider (added) "v = Inr Done" "w' = w\<lparr>runJobs := runJobs w @ [j]\<rparr>" | (failed) er where "v = Inl er" "w' = w"
    by (auto simp: run_answer_def)
  then show "orderly P (ow, w', note_ids P i w w' h) \<and>
      (\<forall>k. k \<noteq> i \<longrightarrow> leaves P k (ow, w, h) (ow, w', note_ids P i w w' h)) \<and>
      (case map_sum id (\<lambda>_. ()) v of Inl _ \<Rightarrow> all_held i S (ow, w', note_ids P i w w' h)
       | Inr _ \<Rightarrow> all_held i (S - {e}) (ow, w', note_ids P i w w' h) \<and> held i e (if b then {} else {x}) (ow, w', note_ids P i w w' h))"
  proof cases
    case added
    have h': "note_ids P i w w' h = h" by (rule notes_same [OF o]) (simp_all add: added)
    have keys: "job_keys w' = insert (e, resume_job_id e x) (job_keys w)" by (simp add: job_keys_def added assms(1))
    have mine: "ow (metadata_lock e) = Some i" "clean e {} w" "(e, resume_job_id e x) \<notin> job_keys w" "home h x = Some e"
      using pre assms(2) by (auto simp: all_held_def held_def unqueued_def at_home_def)
    have clean: "clean f {} w' = clean f {} w" if "f \<noteq> e" for f unfolding clean_def keys using that by (simp add: added)
    have wps: "waitpoints w' = waitpoints w" by (simp add: added)
    have "orderly P (ow, w', h)"
    proof -
      have "distinct (map job_key (runJobs w'))"
        using o mine(3) by (auto simp: orderly_def added assms(1) job_keys_def)
      moreover have "\<forall>f. ow (metadata_lock f) = None \<longrightarrow> clean f {} w'"
      proof (intro allI impI)
        fix f
        assume free: "ow (metadata_lock f) = None"
        then have "clean f {} w" using o by (simp add: orderly_def)
        then show "clean f {} w'" using clean [of f] free mine(1) by (cases "f = e") auto
      qed
      ultimately show ?thesis using o mine(4) unfolding orderly_def by (auto simp: keys) (auto simp: added)
    qed
    moreover have "leaves P k (ow, w, h) (ow, w', h)" if "k \<noteq> i" for k
    proof -
      have "wp_ids w' = wp_ids w" by (simp add: wp_ids_def added)
      then show ?thesis using that mine(1) by (auto simp: leaves_def keys)
    qed
    moreover have "all_held i (S - {e}) (ow, w', h)" using pre clean by (auto simp: all_held_def held_def)
    moreover have "clean e {x} w'" using mine(2) by (auto simp: clean_def keys wps)
    moreover have "clean e {} w'" if b using mine(2) that pre by (auto simp: clean_def keys wps gone_def wp_ids_def)
    ultimately show ?thesis using mine(1) by (simp add: h' added(1) held_def)
  next
    case failed
    have "note_ids P i w w h = h" by (rule notes_same [OF o]) simp_all
    then show ?thesis using o pre failed by simp
  qed
qed (intro steady_rules)

lemma keeps_save:
  assumes "wpId v = x" and "wpExecution v = e"
  shows "keeps P i (\<lambda>c. all_held i S c \<and> at_home e x c) (do_call (Save_Waitpoint v)) (\<lambda>_. all_held i S)"
proof (rule keeps_acall)
  fix ow w h r w'
  assume o: "orderly P (ow, w, h)" and pre: "all_held i S (ow, w, h) \<and> at_home e x (ow, w, h)"
    and answer: "run_answer P (Save_Waitpoint v) w r w'"
  define us where "us = map (\<lambda>u. if wpId u = wpId v then v else u) (waitpoints w)"
  from answer have w': "w' = w \<or> w' = w\<lparr>waitpoints := us\<rparr>" by (auto simp: run_answer_def us_def)
  have ids: "map wpId us = map wpId (waitpoints w)" by (auto simp: us_def)
  have places: "\<exists>u' \<in> set (waitpoints w). wpId u' = wpId u \<and> wpExecution u' = wpExecution u" if "u \<in> set us" for u
  proof -
    from that obtain u' where u': "u' \<in> set (waitpoints w)" "u = (if wpId u' = wpId v then v else u')" by (auto simp: us_def)
    moreover have "wpExecution u' = e" if "wpId u' = x"
      using that u'(1) o pre by (auto simp: orderly_def at_home_def)
    ultimately show ?thesis using assms by auto
  qed
  have new: "distinct (map wpId (waitpoints w'))" "job_keys w' = job_keys w" "wp_ids w' = wp_ids w" "drawn w' = drawn w"
    "hashes w' = hashes w" "runJobs w' = runJobs w"
    "\<And>u. u \<in> set (waitpoints w') \<Longrightarrow> \<exists>u' \<in> set (waitpoints w). wpId u' = wpId u \<and> wpExecution u' = wpExecution u"
    using w' o ids places by (auto simp: job_keys_def wp_ids_def orderly_def simp flip: set_map)
  have "home (note_ids P i w w' h) = home h"
  proof
    fix y
    have "map_of (map (\<lambda>v. (wpId v, wpExecution v)) (waitpoints w')) y = None" if "home h y = None"
      using that o new(3) by (force simp: map_of_eq_None_iff orderly_def wp_ids_def image_image)
    then show "home (note_ids P i w w' h) y = home h y" by (simp add: note_ids_def split: option.split)
  qed
  then have h': "note_ids P i w w' h = h" using new(4) by (simp add: note_ids_def)
  have clean: "clean f X w \<Longrightarrow> clean f X w'" for f X unfolding clean_def new(2) using new(7) by metis
  have "orderly P (ow, w', h)" using o clean new unfolding orderly_def by (simp; metis)
  moreover have "leaves P k (ow, w, h) (ow, w', h)" for k by (auto simp: leaves_def new)
  moreover have "all_held i S (ow, w', h)" using pre clean by (auto simp: all_held_def held_def)
  ultimately show "orderly P (ow, w', note_ids P i w w' h) \<and>
      (\<forall>k. k \<noteq> i \<longrightarrow> leaves P k (ow, w, h) (ow, w', note_ids P i w w' h)) \<and> all_held i S (ow, w', note_ids P i w w' h)"
    by (simp add: h')
qed (auto intro: steady_rules)

subsection \<open>Operations\<close>

lemma steady_result [steady_rules]:
  "(\<And>e. steady P i (J e)) \<Longrightarrow> (\<And>y. steady P i (K y)) \<Longrightarrow> steady P i (\<lambda>c. case r of Inl e \<Rightarrow> J e c | Inr y \<Rightarrow> K y c)"
  by (cases r) auto

lemma steady_option [steady_rules]:
  "steady P i J \<Longrightarrow> (\<And>y. steady P i (K y)) \<Longrightarrow> steady P i (\<lambda>c. case r of None \<Rightarrow> J c | Some y \<Rightarrow> K y c)"
  by (cases r) auto

definition keeps_held :: "run_services \<Rightarrow> nat \<Rightarrow> string set \<Rightarrow> 'a run_async \<Rightarrow> bool" where
  "keeps_held P i S p \<longleftrightarrow> keeps P i (all_held i S) p (\<lambda>_. all_held i S)"

named_theorems held_rules \<open>operations that leave the waitpoints of locked runs in order\<close>

lemma held_basic [held_rules]: "keeps_held P i S (aret x)" "keeps_held P i S (athrow e)"
  unfolding keeps_held_def aret_def athrow_def by (rule keeps_Ret; auto intro: steady_rules)+

lemma held_abind [held_rules]:
  "keeps_held P i S p \<Longrightarrow> (\<And>x. keeps_held P i S (f x)) \<Longrightarrow> keeps_held P i S (abind p f)"
  unfolding keeps_held_def by (rule keeps_abind) (auto intro: steady_rules)

lemma held_athen [held_rules]: "keeps_held P i S p \<Longrightarrow> keeps_held P i S q \<Longrightarrow> keeps_held P i S (athen p q)"
  unfolding keeps_held_def by (rule keeps_athen) (auto intro: steady_rules)

lemma held_atry [held_rules]: "keeps_held P i S p \<Longrightarrow> keeps_held P i S (atry p)"
  unfolding keeps_held_def atry_def by (rule keeps_pbind) (auto intro!: keeps_Ret steady_rules)

lemma held_acall [held_rules]: "inj (idOf P) \<Longrightarrow> harmless op \<Longrightarrow> keeps_held P i S (acall op f)"
  unfolding keeps_held_def by (rule keeps_harmless_call) (auto intro: steady_rules)

lemma held_row_lock [held_rules]: "keeps_held P i S p \<Longrightarrow> keeps_held P i S (runExclusive (row_lock x) p)"
  unfolding keeps_held_def by (rule keeps_row_lock)

lemma held_metadata_lock: "keeps_held P i (insert e S) p \<Longrightarrow> keeps_held P i S (runExclusive (metadata_lock e) p)"
  unfolding keeps_held_def by (rule keeps_metadata_lock)

lemma held_fact:
  assumes "keeps P i (all_held i S) p (\<lambda>r c. all_held i S c \<and> (\<forall>x. r = Inr x \<longrightarrow> \<phi> x))"
    and "\<And>x. \<phi> x \<Longrightarrow> keeps_held P i S (f x)"
  shows "keeps_held P i S (abind p f)"
  unfolding keeps_held_def
proof (rule keeps_abind [OF assms(1)])
  fix x
  show "keeps P i (\<lambda>c. all_held i S c \<and> (\<forall>y. Inr x = Inr y \<longrightarrow> \<phi> y)) (f x) (\<lambda>_. all_held i S)"
    by (cases "\<phi> x") (use assms(2) [of x] in \<open>auto simp: keeps_held_def keeps_def\<close>)
qed (auto intro: steady_rules)

lemma id_or_new_harmless [calls_rules]: "all_calls harmless L (id_or_new v)"
  by (auto simp: id_or_new_def intro: calls_rules split: option.split)

lemma payload_harmless [calls_rules]: "all_calls harmless L (payload_for P a)"
  unfolding payload_for_def maybeOffloadPayload_def offloadPayload_def
  by (auto intro!: calls_rules split: option.split)

lemma find_fact:
  assumes "inj (idOf P)" and "steady P i J"
  shows "keeps P i J (findExecutionOrThrow e) (\<lambda>r c. J c \<and> (\<forall>x. r = Inr x \<longrightarrow> has_id e x))"
  unfolding findExecutionOrThrow_def
proof (rule keeps_abind)
  show "keeps P i J (acall (Find_Execution e) as_row) (\<lambda>r c. J c \<and> (\<forall>x. r = Inr (Some x) \<longrightarrow> has_id e x))"
    by (rule keeps_call_fact [OF assms(1) _ assms(2)])
      (auto simp: run_answer_def find_Some_iff)
next
  fix x
  show "keeps P i (\<lambda>c. J c \<and> (\<forall>y. Inr x = Inr (Some y) \<longrightarrow> has_id e y))
      (case x of None \<Rightarrow> athrow (EntityNotFound e ''execution'') | Some x \<Rightarrow> aret x) (\<lambda>r c. J c \<and> (\<forall>y. r = Inr y \<longrightarrow> has_id e y))"
    by (cases x) (auto simp: athrow_def aret_def intro!: keeps_Ret steady_rules assms(2))
qed (auto intro!: steady_rules assms(2))

text \<open>Before and after a job is added for the waitpoint \<open>x\<close>; with \<open>b\<close> its row is gone already.\<close>

definition ready :: "nat \<Rightarrow> string \<Rightarrow> string set \<Rightarrow> bool \<Rightarrow> string \<Rightarrow> run_state shared \<Rightarrow> bool" where
  "ready i e S b x c \<longleftrightarrow> all_held i S c \<and> unqueued i e x c \<and> at_home e x c \<and> (b \<longrightarrow> gone x c)"

definition queued :: "nat \<Rightarrow> string \<Rightarrow> string set \<Rightarrow> bool \<Rightarrow> string \<Rightarrow> 'a result \<Rightarrow> run_state shared \<Rightarrow> bool" where
  "queued i e S b x q c \<longleftrightarrow> (case q of Inl _ \<Rightarrow> all_held i S c
     | Inr _ \<Rightarrow> all_held i (S - {e}) c \<and> held i e (if b then {} else {x}) c)"

lemma steady_ready [steady_rules]: "steady P i (ready i e S b x)"
  unfolding ready_def by (intro steady_rules)

lemma steady_queued [steady_rules]: "steady P i (queued i e S b x q)"
  unfolding queued_def by (intro steady_rules)

lemma queued_fails: "ready i e S b x c \<Longrightarrow> queued i e S b x (Inl er) c"
  by (simp add: ready_def queued_def)

lemma ready_abind:
  assumes "inj (idOf P)" and "all_calls harmless (\<lambda>_. False) p"
    and "\<And>y. keeps P i (ready i e S b x) (f y) (queued i e S b x)"
  shows "keeps P i (ready i e S b x) (abind p f) (queued i e S b x)"
  by (rule keeps_abind [OF keeps_harmless [OF assms(1) steady_ready assms(2)] assms(3)])
    (auto intro: steady_rules queued_fails)

lemma ready_athen:
  assumes "inj (idOf P)" and "all_calls harmless (\<lambda>_. False) p"
    and "keeps P i (ready i e S b x) q (queued i e S b x)"
  shows "keeps P i (ready i e S b x) (athen p q) (queued i e S b x)"
  unfolding athen_def by (rule ready_abind [OF assms])

lemma queued_athen:
  assumes "keeps P i J (p :: 'a run_async) (queued i e S b x)"
    and "\<And>y :: 'a. keeps P i (queued i e S b x (Inr y)) q (queued i e S b x)"
  shows "keeps P i J (athen p q) (queued i e S b x)"
  by (rule keeps_athen [OF assms]) (auto intro: steady_rules simp: queued_def)

lemma queued_aret: "keeps P i (queued i e S b x (Inr y)) (aret z) (queued i e S b x)"
  unfolding aret_def by (rule keeps_Ret) (auto intro: steady_rules simp: queued_def)

lemma queued_call:
  assumes "inj (idOf P)" and "never_fails op" and "harmless op"
  shows "keeps P i (queued i e S b x (Inr y)) (acall op f) (queued i e S b x)"
proof -
  have fact: "\<exists>z. map_sum id f q = Inr z" if "run_answer P op w q w'" for w q w'
    using that assms(2) by (cases op) (auto simp: run_answer_def)
  have "keeps P i (queued i e S b x (Inr y)) (acall op f) (\<lambda>r c. queued i e S b x (Inr y) c \<and> (\<exists>z. r = Inr z))"
    by (rule keeps_call_fact [OF assms(1,3) steady_queued]) (rule fact)
  then show ?thesis by (rule keeps_weaken) (auto simp: queued_def)
qed

lemma queued_add:
  assumes "job_key j = (e, resume_job_id e x)" and "e \<in> S"
  shows "keeps P i (ready i e S b x) (do_call (Add_Run_Job j)) (queued i e S b x)"
  using keeps_add_job [OF assms, of P i b] unfolding ready_def queued_def .

lemma keeps_enqueue:
  assumes "inj (idOf P)" and "e \<in> S" and "text_or_empty r ''id'' = e" and "wpId v = x"
  shows "keeps P i (ready i e S b x) (enqueueResume P r (Some v) payload handler request) (queued i e S b x)"
  unfolding enqueueResume_def addRunToQueue_def Let_def onResume_def
  by (intro ready_abind queued_athen queued_aret queued_add queued_call ready_athen assms(1,2))
    (auto intro!: calls_rules simp: job_key_def assms)

end
