(* ===== verification/Run_Guarantees.thy ===== *)
theory Run_Guarantees
  imports Run_Interleaving_Laws
begin

text \<open>The operations of \<open>Waitpoints\<close> and \<open>Run_Metadata\<close> stay within the guarantee of \<open>Run_Interleavings\<close>: looking
  waitpoints up, deleting and creating them, answers, pauses, and the worker of the metadata queue.\<close>

subsection \<open>Waitpoints that are found, deleted and created\<close>

definition found_at :: "nat \<Rightarrow> string set \<Rightarrow> waitpoint \<Rightarrow> run_state shared \<Rightarrow> bool" where
  "found_at i S v c \<longleftrightarrow> all_held i S c \<and> at_home (wpExecution v) (wpId v) c \<and>
     (wpExecution v \<in> S \<longrightarrow> unqueued i (wpExecution v) (wpId v) c)"

lemma steady_found_at [steady_rules]: "steady P i (found_at i S v)"
  unfolding found_at_def by (intro steady_rules)

lemma found_at_held: "found_at i S v c \<Longrightarrow> all_held i S c"
  by (simp add: found_at_def)

lemma found_at_ready: "found_at i S v c \<Longrightarrow> wpExecution v = e \<Longrightarrow> e \<in> S \<Longrightarrow> ready i e S False (wpId v) c"
  by (simp add: found_at_def ready_def)

lemma keeps_find_waitpoint:
  assumes "inj (idOf P)"
  shows "keeps P i (all_held i S) (acall (Find_Waitpoint q) as_waitpoint)
    (\<lambda>r c. all_held i S c \<and> (\<forall>v. r = Inr (Some v) \<longrightarrow> meets q v \<and> found_at i S v c))"
proof (rule keeps_acall [OF steady_all_held])
  show "steady P i (\<lambda>c. all_held i S c \<and> (\<forall>v. r = Inr (Some v) \<longrightarrow> meets q v \<and> found_at i S v c))" for r
  proof (cases "\<exists>v. r = Inr (Some v)")
    case True
    then obtain v where "r = Inr (Some v)" by blast
    then show ?thesis by (simp, intro steady_rules)
  next
    case False
    then have "(\<lambda>c. all_held i S c \<and> (\<forall>v. r = Inr (Some v) \<longrightarrow> meets q v \<and> found_at i S v c)) = all_held i S" by auto
    then show ?thesis by (simp only: steady_all_held)
  qed
  fix ow w h a w'
  assume o: "orderly P (ow, w, h)" and pre: "all_held i S (ow, w, h)" and answer: "run_answer P (Find_Waitpoint q) w a w'"
  then consider x where "w' = w" "a = Inr (A_Waitpoint x)" "finds q (waitpoints w) x" | er where "w' = w" "a = Inl er"
    by (auto simp: run_answer_def)
  moreover have "note_ids P i w w h = h" by (rule notes_same [OF o]) simp_all
  moreover have "found_at i S v (ow, w, h)" if "v \<in> set (waitpoints w)" for v
    using that o pre by (auto simp: found_at_def at_home_def orderly_def unqueued_def all_held_def held_def clean_def)
  ultimately show "orderly P (ow, w', note_ids P i w w' h) \<and>
      (\<forall>k. k \<noteq> i \<longrightarrow> leaves P k (ow, w, h) (ow, w', note_ids P i w w' h)) \<and>
      all_held i S (ow, w', note_ids P i w w' h) \<and>
      (\<forall>v. map_sum id as_waitpoint a = Inr (Some v) \<longrightarrow> meets q v \<and> found_at i S v (ow, w', note_ids P i w w' h))"
    by cases (use o pre in \<open>auto simp: finds_def split: option.splits\<close>)
qed

text \<open>How an operation that looks a waitpoint up is shown to leave locked runs in order.\<close>

lemma keeps_looked_up:
  assumes "inj (idOf P)" and "keeps_held P i S (f None)"
    and "\<And>v. meets q v \<Longrightarrow> keeps P i (found_at i S v) (f (Some v)) (\<lambda>_. all_held i S)"
  shows "keeps_held P i S (abind (acall (Find_Waitpoint q) as_waitpoint) f)"
  unfolding keeps_held_def
proof (rule keeps_abind [OF keeps_find_waitpoint [OF assms(1)]])
  fix x
  show "keeps P i (\<lambda>c. all_held i S c \<and> (\<forall>v. Inr x = Inr (Some v) \<longrightarrow> meets q v \<and> found_at i S v c)) (f x) (\<lambda>_. all_held i S)"
  proof (cases x)
    case None
    then show ?thesis using assms(2) by (simp add: keeps_held_def)
  next
    case (Some v)
    show ?thesis
      unfolding Some keeps_def using assms(3) [of v] by (auto simp: keeps_def)
  qed
qed (auto intro: steady_rules)

lemma keeps_held_from: "keeps_held P i S p \<Longrightarrow> (\<And>c. J c \<Longrightarrow> all_held i S c) \<Longrightarrow> keeps P i J p (\<lambda>_. all_held i S)"
  unfolding keeps_held_def by (erule keeps_weaken) auto

lemma delete_works: "run_answer P (Delete_Waitpoint x) w v w' \<Longrightarrow>
    v = Inr Done \<and> w' = w\<lparr>waitpoints := filter (\<lambda>u. wpId u \<noteq> x) (waitpoints w)\<rparr>"
  by (auto simp: run_answer_def)

lemma keeps_delete_after:
  assumes "inj (idOf P)" and "e \<in> S"
  shows "keeps P i (queued i e S False x (Inr y)) (do_call (Delete_Waitpoint x)) (\<lambda>_. all_held i S)"
proof (rule keeps_acall [OF steady_queued])
  fix ow w h v w'
  assume o: "orderly P (ow, w, h)" and pre: "queued i e S False x (Inr y) (ow, w, h)"
    and answer: "run_answer P (Delete_Waitpoint x) w v w'"
  note step = harmless_step [OF assms(1) _ o answer, of i]
  have w': "job_keys w' = job_keys w" "waitpoints w' = filter (\<lambda>u. wpId u \<noteq> x) (waitpoints w)"
    using delete_works [OF answer] by (simp_all add: job_keys_def)
  have "clean e {} w'" using pre by (auto simp: queued_def held_def clean_def w')
  moreover have "clean f {} w \<Longrightarrow> clean f {} w'" for f by (auto simp: clean_def w')
  ultimately have "all_held i S (ow, w', note_ids P i w w' h)" using pre by (auto simp: queued_def all_held_def held_def)
  then show "orderly P (ow, w', note_ids P i w w' h) \<and>
      (\<forall>k. k \<noteq> i \<longrightarrow> leaves P k (ow, w, h) (ow, w', note_ids P i w w' h)) \<and> all_held i S (ow, w', note_ids P i w w' h)"
    using step by simp
qed (auto intro: steady_rules)

lemma keeps_delete_before:
  assumes "inj (idOf P)"
  shows "keeps P i (ready i e S False x) (do_call (Delete_Waitpoint x)) (\<lambda>_. ready i e S True x)"
proof (rule keeps_acall [OF steady_ready steady_ready])
  fix ow w h v w'
  assume o: "orderly P (ow, w, h)" and pre: "ready i e S False x (ow, w, h)"
    and answer: "run_answer P (Delete_Waitpoint x) w v w'"
  note step = harmless_step [OF assms(1) _ o answer, of i]
  have "ready i e S False x (ow, w', note_ids P i w w' h)"
    using step pre o steady_ready [of P i e S False x] unfolding steady_def by (simp; blast)
  moreover have "gone x (ow, w', note_ids P i w w' h)"
    using calculation delete_works [OF answer] by (auto simp: gone_def ready_def at_home_def wp_ids_def)
  ultimately show "orderly P (ow, w', note_ids P i w w' h) \<and>
      (\<forall>k. k \<noteq> i \<longrightarrow> leaves P k (ow, w, h) (ow, w', note_ids P i w w' h)) \<and> ready i e S True x (ow, w', note_ids P i w w' h)"
    using step by (simp add: ready_def)
qed

lemma queued_held: "e \<in> S \<Longrightarrow> queued i e S True x q c \<Longrightarrow> all_held i S c"
  by (cases q) (auto simp: queued_def all_held_def)

subsection \<open>Answers\<close>

lemma held_complete [held_rules]:
  assumes "inj (idOf P)"
  shows "keeps_held P i S (complete e x payload handler)"
  unfolding complete_def
proof (intro held_row_lock keeps_looked_up [OF assms])
  fix v
  assume v: "meets (any_waitpoint\<lparr>whereId := Some x, whereExecution := Some e, whereStatus := Some PENDING\<rparr>) v"
  let ?u = "v\<lparr>wpStatus := COMPLETED, wpPayload := payload, wpHandler := case handler of Some h \<Rightarrow> Some h | None \<Rightarrow> wpHandler v\<rparr>"
  have "keeps P i (found_at i S v) (athen (do_call (Save_Waitpoint ?u)) (aret (True, Some ?u))) (\<lambda>_. all_held i S)"
  proof (rule keeps_athen [where K = "\<lambda>_. all_held i S"])
    show "keeps P i (found_at i S v) (do_call (Save_Waitpoint ?u)) (\<lambda>_. all_held i S)"
      by (rule keeps_weaken [OF keeps_save [of _ "wpId v" "wpExecution v"]]) (auto simp: found_at_def)
    show "keeps P i (all_held i S) (aret (True, Some ?u)) (\<lambda>_. all_held i S)" for u
      using held_basic(1) unfolding keeps_held_def .
  qed (auto intro: steady_rules)
  then show "keeps P i (found_at i S v) (case Some v of None \<Rightarrow> aret (False, None)
      | Some v \<Rightarrow> let updated = v\<lparr>wpStatus := COMPLETED, wpPayload := payload,
             wpHandler := case handler of Some h \<Rightarrow> Some h | None \<Rightarrow> wpHandler v\<rparr>
          in athen (do_call (Save_Waitpoint updated)) (aret (True, Some updated))) (\<lambda>_. all_held i S)"
    by (simp add: Let_def)
qed (auto intro: held_rules)

lemma held_resume_paused:
  assumes "inj (idOf P)" and "e \<in> S" and "has_id e r" and "wpExecution v = e"
  shows "keeps P i (found_at i S v) (athen (enqueueResume P r (Some v) payload handler request)
    (athen (do_call (Delete_Waitpoint (wpId v))) (aret True))) (\<lambda>_. all_held i S)"
proof (rule keeps_athen [where K = "queued i e S False (wpId v)"])
  have "text_or_empty r ''id'' = e" using assms(3) by (simp add: has_id_def text_or_empty_def)
  then show "keeps P i (found_at i S v) (enqueueResume P r (Some v) payload handler request) (queued i e S False (wpId v))"
    by (rule keeps_weaken [OF keeps_enqueue [OF assms(1,2) _ refl]]) (rule found_at_ready [OF _ assms(4,2)])
  show "keeps P i (queued i e S False (wpId v) (Inr y)) (athen (do_call (Delete_Waitpoint (wpId v))) (aret True)) (\<lambda>_. all_held i S)"
    for y :: unit
    by (rule keeps_athen [OF keeps_delete_after [OF assms(1,2)]])
      (auto intro: steady_rules held_basic(1) [unfolded keeps_held_def])
qed (auto intro: steady_rules simp: queued_def)

lemma held_handleResumeSignal:
  assumes "inj (idOf P)" and "e \<in> S" and "has_id e r"
  shows "keeps_held P i S (handleResumeSignal e x st payload handler (\<lambda>v. enqueueResume P r (Some v) payload handler request))"
proof (cases "st = Some RunPAUSED")
  case True
  have "keeps_held P i S (runExclusive (row_lock x) (abind (acall (Find_Waitpoint (any_waitpoint\<lparr>whereId := Some x, whereExecution := Some e\<rparr>)) as_waitpoint)
      (\<lambda>found. case found of None \<Rightarrow> aret False
         | Some v \<Rightarrow> athen (enqueueResume P r (Some v) payload handler request) (athen (do_call (Delete_Waitpoint (wpId v))) (aret True)))))"
  proof (intro held_row_lock keeps_looked_up assms(1))
    fix v
    assume "meets (any_waitpoint\<lparr>whereId := Some x, whereExecution := Some e\<rparr>) v"
    then have "wpExecution v = e" by (simp add: meets_def any_waitpoint_def)
    from held_resume_paused [OF assms this] show "keeps P i (found_at i S v) (case Some v of None \<Rightarrow> aret False
        | Some v \<Rightarrow> athen (enqueueResume P r (Some v) payload handler request) (athen (do_call (Delete_Waitpoint (wpId v))) (aret True)))
        (\<lambda>_. all_held i S)" by simp
  qed (simp add: held_basic)
  then show ?thesis by (simp add: handleResumeSignal_def True)
next
  case False
  then show ?thesis by (auto intro!: held_rules assms simp: handleResumeSignal_def)
qed

lemma held_getByExecutionId_then:
  assumes "inj (idOf P)" and "keeps_held P i S (f None)"
    and "\<And>v. wpExecution v = e \<Longrightarrow> keeps P i (found_at i S v) (f (Some v)) (\<lambda>_. all_held i S)"
  shows "keeps_held P i S (abind (getByExecutionId e) f)"
proof -
  have assoc: "abind (abind p g) f = abind p (\<lambda>x. abind (g x) f)" for p and g :: "waitpoint option \<Rightarrow> waitpoint option run_async"
    by (simp add: abind_def pbind_assoc) (rule arg_cong [of _ _ "pbind p"], rule ext, auto split: sum.split)
  show ?thesis
    unfolding getByExecutionId_def assoc
    by (auto intro!: keeps_looked_up assms simp: meets_def any_waitpoint_def)
qed

lemma held_find_execution:
  assumes "inj (idOf P)" and "\<And>r. has_id e r \<Longrightarrow> keeps_held P i S (f r)"
  shows "keeps_held P i S (abind (findExecutionOrThrow e) f)"
  by (rule held_fact [OF find_fact [OF assms(1) steady_all_held] assms(2)])

lemma held_consume_completed:
  assumes "inj (idOf P)" and "e \<in> S"
  shows "keeps_held P i S (consume_completed P e payload handler request)"
  unfolding consume_completed_def
proof (rule held_find_execution [OF assms(1)])
  fix r
  assume r: "has_id e r"
  have "keeps_held P i S (abind (getByExecutionId e) (\<lambda>latest. case latest of None \<Rightarrow> aret ()
      | Some v \<Rightarrow> if wpStatus v \<noteq> COMPLETED then aret ()
          else athen (deleteWaitpoint (wpId v)) (enqueueResume P r (Some v) payload handler request)))"
  proof (rule held_getByExecutionId_then [OF assms(1)])
    fix v :: waitpoint
    assume v: "wpExecution v = e"
    have idle: "keeps P i (found_at i S v) (aret ()) (\<lambda>_. all_held i S)"
      by (rule keeps_held_from [OF held_basic(1)]) (rule found_at_held)
    have "text_or_empty r ''id'' = e" using r by (simp add: has_id_def text_or_empty_def)
    then have "keeps P i (ready i e S True (wpId v)) (enqueueResume P r (Some v) payload handler request) (\<lambda>_. all_held i S)"
      by (rule keeps_weaken [OF keeps_enqueue [OF assms _ refl]]) (auto intro: queued_held [OF assms(2)])
    then have "keeps P i (found_at i S v) (athen (deleteWaitpoint (wpId v)) (enqueueResume P r (Some v) payload handler request)) (\<lambda>_. all_held i S)"
      unfolding deleteWaitpoint_def
    proof (intro keeps_athen [where K = "\<lambda>_. ready i e S True (wpId v)"])
      show "keeps P i (found_at i S v) (do_call (Delete_Waitpoint (wpId v))) (\<lambda>_. ready i e S True (wpId v))"
        by (rule keeps_weaken [OF keeps_delete_before [OF assms(1)]]) (rule found_at_ready [OF _ v assms(2)])
    qed (auto intro: steady_rules simp: ready_def)
    with idle show "keeps P i (found_at i S v) (case Some v of None \<Rightarrow> aret ()
      | Some v \<Rightarrow> if wpStatus v \<noteq> COMPLETED then aret ()
          else athen (deleteWaitpoint (wpId v)) (enqueueResume P r (Some v) payload handler request)) (\<lambda>_. all_held i S)" by simp
  qed (simp add: held_basic)
  then show "keeps_held P i S (if status_in r \<noteq> Some RunPAUSED then aret () else
      abind (getByExecutionId e) (\<lambda>latest. case latest of None \<Rightarrow> aret ()
      | Some v \<Rightarrow> if wpStatus v \<noteq> COMPLETED then aret ()
          else athen (deleteWaitpoint (wpId v)) (enqueueResume P r (Some v) payload handler request)))"
    by (simp add: held_basic)
qed

lemma held_resume_without_lock:
  assumes "inj (idOf P)" and "e \<in> S"
  shows "keeps_held P i S (resumeFromWaitpointWithoutLock P e x payload handler request)"
  unfolding resumeFromWaitpointWithoutLock_def
  by (rule held_find_execution [OF assms(1)])
    (auto intro!: held_rules held_handleResumeSignal held_consume_completed assms)

lemma held_resumeFromWaitpoint [held_rules]:
  "inj (idOf P) \<Longrightarrow> keeps_held P i S (resumeFromWaitpoint P e x payload handler request)"
  unfolding resumeFromWaitpoint_def by (rule held_metadata_lock [OF held_resume_without_lock]) simp_all

lemma held_handleSync [held_rules]:
  "inj (idOf P) \<Longrightarrow> keeps_held P i S (handleSyncResumeWorkflow P serverId e x payload cid)"
  unfolding handleSyncResumeWorkflow_def findExecutionOrThrow_def
  by (auto intro!: held_rules split: option.split)

lemma held_timer [held_rules]: "inj (idOf P) \<Longrightarrow> keeps_held P i S (resume_delay_handler P d)"
  unfolding resume_delay_handler_def by (auto intro!: held_rules split: option.split)

subsection \<open>Pauses\<close>

lemma new_id: "inj (idOf P) \<Longrightarrow> orderly P (ow, w, h) \<Longrightarrow> home h (idOf P (drawn w)) = None"
  by (rule ccontr) (auto simp: orderly_def dest: injD)

lemma keeps_generate:
  assumes "inj (idOf P)" and "steady P i J"
  shows "keeps P i J (acall Generate_Id as_text) (\<lambda>r c. J c \<and> (\<forall>x. r = Inr x \<longrightarrow> drawn_by i x c))"
proof (rule keeps_acall [OF assms(2)])
  have "(\<lambda>c. \<forall>x. r = Inr x \<longrightarrow> drawn_by i x c) = (case r of Inl _ \<Rightarrow> \<lambda>_. True | Inr x \<Rightarrow> drawn_by i x)" for r
    by (cases r) auto
  then show "steady P i (\<lambda>c. J c \<and> (\<forall>x. r = Inr x \<longrightarrow> drawn_by i x c))" for r
    by (intro steady_conj assms(2)) (cases r; auto intro: steady_rules)
  fix ow w h v w'
  assume a: "orderly P (ow, w, h)" "J (ow, w, h)" "run_answer P Generate_Id w v w'"
  note step = harmless_step [OF assms(1) _ a(1,3), of i]
  then have J: "J (ow, w', note_ids P i w w' h)" using assms(2) a(1,2) unfolding steady_def by simp
  have "drawn_by i x (ow, w', note_ids P i w w' h)" if "map_sum id as_text v = Inr x" for x
  proof -
    have w': "w' = w\<lparr>drawn := Suc (drawn w)\<rparr>" "x = idOf P (drawn w)" using a(3) that by (auto simp: run_answer_def)
    then have "home (note_ids P i w w' h) = home h" using notes_of [OF a(1), of w' i] by simp
    then show ?thesis using new_id [OF assms(1) a(1)] w' by (simp add: drawn_by_def note_ids_def)
  qed
  with step J show "orderly P (ow, w', note_ids P i w w' h) \<and>
      (\<forall>k. k \<noteq> i \<longrightarrow> leaves P k (ow, w, h) (ow, w', note_ids P i w w' h)) \<and>
      J (ow, w', note_ids P i w w' h) \<and> (\<forall>x. map_sum id as_text v = Inr x \<longrightarrow> drawn_by i x (ow, w', note_ids P i w w' h))" by simp
qed

lemma keeps_insert:
  assumes "wpId v = x"
  shows "keeps P i (\<lambda>c. all_held i S c \<and> drawn_by i x c) (do_call (Insert_Waitpoint v)) (\<lambda>_. all_held i S)"
proof (rule keeps_acall)
  fix ow w h r w'
  assume o: "orderly P (ow, w, h)" and pre: "all_held i S (ow, w, h) \<and> drawn_by i x (ow, w, h)"
    and answer: "run_answer P (Insert_Waitpoint v) w r w'"
  from answer consider "w' = w" | "w' = w\<lparr>waitpoints := waitpoints w @ [v]\<rparr>"
    by (auto simp: run_answer_def split: if_splits)
  then show "orderly P (ow, w', note_ids P i w w' h) \<and>
      (\<forall>k. k \<noteq> i \<longrightarrow> leaves P k (ow, w, h) (ow, w', note_ids P i w w' h)) \<and> all_held i S (ow, w', note_ids P i w w' h)"
  proof cases
    case 1
    have "note_ids P i w w h = h" by (rule notes_same [OF o]) simp_all
    then show ?thesis using o pre 1 by simp
  next
    case 2
    then have w': "waitpoints w' = waitpoints w @ [v]" "drawn w' = drawn w" "runJobs w' = runJobs w" "hashes w' = hashes w"
      by simp_all
    have x: "drawnBy h x = Some i" "home h x = None" using pre by (simp_all add: drawn_by_def)
    have fresh: "x \<notin> wpId ` set (waitpoints w)" using o x(2) by (auto simp: orderly_def)
    have "home (note_ids P i w w' h) y = ((home h)(x \<mapsto> wpExecution v)) y" for y
    proof (cases "home h y")
      case None
      then have "y \<notin> wpId ` set (waitpoints w)" using o by (auto simp: orderly_def)
      then have "map_of (map (\<lambda>v. (wpId v, wpExecution v)) (waitpoints w)) y = None" by (simp add: map_of_eq_None_iff image_image)
      then show ?thesis using None by (simp add: note_ids_def w' assms map_add_def)
    qed (use x(2) in \<open>auto simp: note_ids_def\<close>)
    then have h': "home (note_ids P i w w' h) = (home h)(x \<mapsto> wpExecution v)" "drawnBy (note_ids P i w w' h) = drawnBy h"
      by (auto simp: note_ids_def w')
    have keys: "job_keys w' = job_keys w" by (simp add: job_keys_def w')
    have unused: "(f, resume_job_id f x) \<notin> job_keys w" for f
      using o x(2) unfolding orderly_def by (auto; metis fst_conv option.distinct(1) resume_job_id_inj snd_conv)
    have clean: "clean f {} w \<Longrightarrow> clean f {} w'" for f
      using unused by (auto simp: clean_def keys) (auto simp: w' assms)
    have "orderly P (ow, w', note_ids P i w w' h)"
    proof -
      have "distinct (map wpId (waitpoints w'))" using o fresh by (auto simp: orderly_def w' assms)
      moreover have "\<forall>u \<in> set (waitpoints w'). home (note_ids P i w w' h) (wpId u) = Some (wpExecution u)"
        using o fresh by (auto simp: orderly_def w' h' assms)
      moreover have "\<forall>y. home (note_ids P i w w' h) y \<noteq> None \<or> drawnBy (note_ids P i w w' h) y \<noteq> None \<longrightarrow> (\<exists>k < drawn w'. y = idOf P k)"
      proof (intro allI impI)
        fix y
        assume "home (note_ids P i w w' h) y \<noteq> None \<or> drawnBy (note_ids P i w w' h) y \<noteq> None"
        then have "home h y \<noteq> None \<or> drawnBy h y \<noteq> None" using x(1) by (auto simp: h' split: if_splits)
        then show "\<exists>k < drawn w'. y = idOf P k" using o unfolding orderly_def w'(2) by auto
      qed
      moreover have "\<forall>key \<in> job_keys w'. \<exists>y. snd key = resume_job_id (fst key) y \<and> home (note_ids P i w w' h) y \<noteq> None"
        using o unfolding orderly_def by (fastforce simp: keys h')
      ultimately show ?thesis using o clean unfolding orderly_def by (simp add: w')
    qed
    moreover have "leaves P k (ow, w, h) (ow, w', note_ids P i w w' h)" if "k \<noteq> i" for k
      using that x by (auto simp: leaves_def h' keys) (auto simp: wp_ids_def w' assms)
    moreover have "all_held i S (ow, w', note_ids P i w w' h)" using pre clean by (auto simp: all_held_def held_def)
    ultimately show ?thesis by blast
  qed
qed (intro steady_rules)+

lemma upsert_harmless [calls_rules]: "all_calls harmless L (upsertJob j d)"
  unfolding upsertJob_def by (auto intro!: calls_rules split: option.split)

lemma held_harmless: "inj (idOf P) \<Longrightarrow> all_calls harmless (\<lambda>_. False) p \<Longrightarrow> keeps_held P i S p"
  unfolding keeps_held_def by (rule keeps_harmless [OF _ steady_all_held])

lemma held_createForPause [held_rules]:
  assumes "inj (idOf P)"
  shows "keeps_held P i S (createForPause p)"
proof -
  let ?at = "any_waitpoint\<lparr>whereExecution := Some (cpExecution p), whereStep := Some (cpStep p)\<rparr>"
  let ?rest = "\<lambda>x. abind (acall (Find_Waitpoint ?at) as_waitpoint) (\<lambda>found. case found of
            None \<Rightarrow> athrow (EntityNotFound (cpExecution p) ''waitpoint'')
          | Some v \<Rightarrow> athen (case cpResumeAt p of None \<Rightarrow> aret ()
                | Some d \<Rightarrow> upsertJob (delay_job_id (cpExecution p)) \<lparr>delayExecution = cpExecution p,
                    delayProject = cpProject p, delayWaitpoint = wpId v, delayUntil = d, delayFailed = False\<rparr>)
              (aret (wpId v = x, v)))"
  have rest: "keeps_held P i S (?rest x)" for x
    by (rule held_harmless [OF assms]) (auto intro!: calls_rules split: option.split)
  have "keeps P i (\<lambda>c. all_held i S c \<and> drawn_by i x c) (athen (do_call (Insert_Waitpoint (new_waitpoint x p))) (?rest x)) (\<lambda>_. all_held i S)" for x
    by (rule keeps_athen [OF keeps_insert]) (use rest in \<open>auto intro: steady_rules simp: keeps_held_def new_waitpoint_def\<close>)
  then have "keeps_held P i S (abind (acall Generate_Id as_text) (\<lambda>x. athen (do_call (Insert_Waitpoint (new_waitpoint x p))) (?rest x)))"
    unfolding keeps_held_def
    by (intro keeps_abind [OF keeps_generate [OF assms steady_all_held]]) (auto intro: steady_rules)
  then show ?thesis unfolding createForPause_def Let_def
    by (intro held_abind held_acall assms) (auto intro: held_basic split: option.split)
qed

lemma held_create_route [held_rules]: "inj (idOf P) \<Longrightarrow> keeps_held P i S (create_waitpoint_route project p)"
  unfolding create_waitpoint_route_def assertNotOwnedByAnotherProject_def
  by (auto intro!: held_rules split: option.split)

subsection \<open>Metadata\<close>

lemma map_of_strip: "map_of (stripToRunsMetadataUpsertData r) k = (if k \<in> set RUNS_METADATA_UPSERT_KEYS then map_of r k else None)"
proof -
  have "map_of (concat (map (\<lambda>k. case map_of r k of None \<Rightarrow> [] | Some v \<Rightarrow> [(k, v)]) ks)) k = (if k \<in> set ks then map_of r k else None)" for ks
    by (induction ks) (auto simp: map_add_def split: option.split)
  then show ?thesis by (simp add: stripToRunsMetadataUpsertData_def)
qed

lemma distinct_strip: "distinct (map fst (stripToRunsMetadataUpsertData r))"
proof -
  have "map fst (concat (map (\<lambda>k. case map_of r k of None \<Rightarrow> [] | Some v \<Rightarrow> [(k, v)]) ks)) = filter (\<lambda>k. map_of r k \<noteq> None) ks" for ks
    by (induction ks) (auto split: option.split)
  moreover have "distinct RUNS_METADATA_UPSERT_KEYS" by (simp add: RUNS_METADATA_UPSERT_KEYS_def)
  ultimately show ?thesis by (simp only: stripToRunsMetadataUpsertData_def distinct_filter)
qed

lemma add_metadata_harmless [calls_rules]:
  assumes "map_of params ''id'' = Some (JStr r)" and "CHR 0x00 \<notin> set r"
  shows "all_calls harmless L (add_metadata params)"
proof -
  let ?c = "stripToRunsMetadataUpsertData params"
  have id: "map_of ?c ''id'' = Some (JStr r)" by (simp add: map_of_strip assms(1) RUNS_METADATA_UPSERT_KEYS_def)
  have "own_hash (redisMetadataKey r) (rev (merge_fields (assign_fields ?c [(''requestId'', x)])))" for x
  proof -
    let ?u = "AList.update ''requestId'' x ?c"
    have d: "distinct (map fst (filter (\<lambda>(k, v). v \<noteq> JNull) ?u))"
      by (rule distinct_map_filter) (simp add: distinct_update distinct_strip)
    have "map_of ?u ''id'' = Some (JStr r)" by (simp add: update_conv' id)
    then have "(''id'', JStr r) \<in> set ?u" by (rule map_of_SomeD)
    then have "map_of (rev (filter (\<lambda>(k, v). v \<noteq> JNull) ?u)) ''id'' = Some (JStr r)"
      using d by (intro map_of_is_SomeI) (simp_all add: rev_map [symmetric])
    then show ?thesis using assms(2) by (auto simp: own_hash_def merge_fields_def assign_fields_def)
  qed
  moreover have "text_or_empty ?c ''id'' = r" by (simp add: text_or_empty_def text_in_def own_def id)
  ultimately show ?thesis unfolding add_metadata_def Let_def by (auto intro!: calls_rules)
qed

lemma held_cancel [held_rules]:
  assumes "inj (idOf P)" and "CHR 0x00 \<notin> set (text_or_empty e ''id'')"
  shows "keeps_held P i S (cancelSingleRun e)"
  unfolding cancelSingleRun_def Let_def deleteByExecutionId_def
  by (intro held_metadata_lock held_harmless assms(1) calls_rules add_metadata_harmless [OF _ assms(2)]) simp_all

text \<open>Operations whose value is known.\<close>

definition held_with :: "run_services \<Rightarrow> nat \<Rightarrow> string set \<Rightarrow> 'a run_async \<Rightarrow> ('a \<Rightarrow> bool) \<Rightarrow> bool" where
  "held_with P i S p \<phi> \<longleftrightarrow> keeps P i (all_held i S) p (\<lambda>r c. all_held i S c \<and> (\<forall>x. r = Inr x \<longrightarrow> \<phi> x))"

lemma held_with_abind: "held_with P i S p \<phi> \<Longrightarrow> (\<And>x. \<phi> x \<Longrightarrow> keeps_held P i S (f x)) \<Longrightarrow> keeps_held P i S (abind p f)"
  unfolding held_with_def by (rule held_fact)

lemma held_with_aret: "\<phi> x \<Longrightarrow> held_with P i S (aret x) \<phi>"
  unfolding held_with_def aret_def by (rule keeps_Ret) (auto intro!: steady_rules)

lemma held_with_after: "keeps_held P i S p \<Longrightarrow> (\<And>x. held_with P i S (f x) \<phi>) \<Longrightarrow> held_with P i S (abind p f) \<phi>"
  unfolding held_with_def keeps_held_def by (rule keeps_abind) (auto intro!: steady_rules)

lemma held_with_call:
  assumes "inj (idOf P)" and "harmless op"
    and "\<And>ow w h v w'. orderly P (ow, w, h) \<Longrightarrow> run_answer P op w (Inr v) w' \<Longrightarrow> \<phi> (f v)"
  shows "held_with P i S (acall op f) \<phi>"
  unfolding held_with_def
  by (rule keeps_call_fact [OF assms(1,2) steady_all_held]) (auto simp: map_sum_eq_Inr intro: assms(3))

lemma held_mark_parent [held_rules]: "inj (idOf P) \<Longrightarrow> keeps_held P i S (mark_parent P s)"
proof -
  assume inj: "inj (idOf P)"
  have find: "keeps_held P i S (getByExecutionId e)" for e
    by (rule held_harmless [OF inj]) (auto intro!: calls_rules simp: getByExecutionId_def split: option.split)
  have new: "keeps_held P i S (id_or_new v)" for v by (rule held_harmless [OF inj id_or_new_harmless])
  have "keeps_held P i S (markParentRunAsFailed P e c p)" for e c p
    unfolding markParentRunAsFailed_def by (auto intro!: held_rules find new inj split: option.split bool.split)
  then show ?thesis unfolding mark_parent_def by (auto intro!: held_rules split: option.split json.split bool.split)
qed

lemma finish_harmless [calls_rules]: "all_calls harmless L (finish_run x md s)"
  unfolding finish_run_def onFinish_def deleteByExecutionId_def by (auto intro!: calls_rules)

lemma masked_id:
  assumes "inj (idOf P)" and "map_of md ''id'' = Some x"
  shows "held_with P i S (withMaskedFailedStep md) (\<lambda>md'. map_of md' ''id'' = Some x)"
  unfolding withMaskedFailedStep_def
  by (auto intro!: held_with_aret held_with_after held_acall assms simp: update_conv' split: option.split json.split)

lemma saved_id:
  assumes "inj (idOf P)" and "map_of md ''id'' = Some (JStr r)"
  shows "held_with P i S (save_row P r md x) (\<lambda>s. \<forall>y. s = Some y \<longrightarrow> has_id r y)"
proof -
  have "has_id r md" using assms(2) by (simp add: has_id_def text_in_def own_def)
  moreover have "keeps_held P i S (do_call (Update_Execution r p fs))" for p fs by (auto intro: held_rules assms(1))
  ultimately show ?thesis unfolding save_row_def athen_def
    by (auto intro!: held_with_aret held_with_after held_with_call held_rules assms(1) simp: run_answer_def find_Some_iff
        split: option.split)
qed

lemma sanitized_id: "map_of h ''id'' = Some (JStr r) \<Longrightarrow> CHR 0x00 \<notin> set r \<Longrightarrow>
    map_of (sanitizeObjectForPostgresql h) ''id'' = Some (JStr r)"
proof -
  assume a: "map_of h ''id'' = Some (JStr r)" "CHR 0x00 \<notin> set r"
  then have "filter (\<lambda>c. c \<noteq> CHR 0x00) r = r" by (auto simp: filter_id_conv)
  with a(1) show ?thesis by (simp add: sanitizeObjectForPostgresql_def apply_to_object_def map_of_map)
qed

lemma held_save_metadata [held_rules]:
  assumes "inj (idOf P)"
  shows "keeps_held P i S (save_run_metadata P r)"
proof -
  have early: "keeps_held P i (insert r S) (resume_early P s)" if "has_id r s" for s
  proof -
    have "text_or_empty s ''id'' = r" using that by (simp add: has_id_def text_or_empty_def)
    moreover have "keeps_held P i (insert r S) (getByExecutionId r)"
      by (rule held_harmless [OF assms]) (auto intro!: calls_rules simp: getByExecutionId_def split: option.split)
    ultimately show ?thesis unfolding resume_early_def
      by (auto intro!: held_rules held_resume_without_lock assms split: option.split)
  qed
  have finish: "keeps_held P i (insert r S) (finish_run x md s)" for x md s by (rule held_harmless [OF assms finish_harmless])
  have read: "held_with P i (insert r S) (acall (Get_Hash (redisMetadataKey r)) as_row)
      (\<lambda>raw. \<forall>h. raw = Some h \<longrightarrow> map_of (sanitizeObjectForPostgresql h) ''id'' = Some (JStr r))"
  proof (rule held_with_call [OF assms])
    fix ow w h v w'
    assume o: "orderly P (ow, w, h)" and "run_answer P (Get_Hash (redisMetadataKey r)) w (Inr v) w'"
    then have v: "as_row v = hashes w (redisMetadataKey r)" by (auto simp: run_answer_def)
    show "\<forall>h. as_row v = Some h \<longrightarrow> map_of (sanitizeObjectForPostgresql h) ''id'' = Some (JStr r)"
      unfolding v
    proof (intro allI impI)
      fix g
      assume "hashes w (redisMetadataKey r) = Some g"
      then have "own_hash (redisMetadataKey r) g" using o unfolding orderly_def by simp
      then show "map_of (sanitizeObjectForPostgresql g) ''id'' = Some (JStr r)"
        by (auto simp: own_hash_def redisMetadataKey_def intro: sanitized_id)
    qed
  qed simp
  show ?thesis unfolding save_run_metadata_def
  proof (intro held_metadata_lock held_athen held_acall assms held_with_abind [OF read])
    fix raw :: "row option"
    assume raw: "\<forall>h. raw = Some h \<longrightarrow> map_of (sanitizeObjectForPostgresql h) ''id'' = Some (JStr r)"
    have "keeps_held P i (insert r S) (abind (withMaskedFailedStep md0) (\<lambda>md.
          abind (acall (Find_Execution_Of r (text_or_empty md ''projectId'')) as_row) (\<lambda>existing.
          abind (save_row P r md existing) (\<lambda>saved. case saved of
             None \<Rightarrow> aret ()
           | Some s \<Rightarrow>
               athen (mark_parent P s)
               (athen (case own md ''requestId'' of None \<Rightarrow> aret () | Some q \<Rightarrow> do_call (Delete_Hash_If (redisMetadataKey r) ''requestId'' q))
               (athen (finish_run existing md s)
               (resume_early P s)))))))" if "map_of md0 ''id'' = Some (JStr r)" for md0
    proof (rule held_with_abind [OF masked_id [OF assms that]], rule held_abind)
      fix md :: row and existing
      assume "map_of md ''id'' = Some (JStr r)"
      then show "keeps_held P i (insert r S) (abind (save_row P r md existing) (\<lambda>saved. case saved of
             None \<Rightarrow> aret ()
           | Some s \<Rightarrow>
               athen (mark_parent P s)
               (athen (case own md ''requestId'' of None \<Rightarrow> aret () | Some q \<Rightarrow> do_call (Delete_Hash_If (redisMetadataKey r) ''requestId'' q))
               (athen (finish_run existing md s)
               (resume_early P s)))))"
        by (intro held_with_abind [OF saved_id [OF assms]])
          (auto intro!: held_rules early finish assms split: option.split)
    qed (simp add: held_acall assms)
    with raw show "keeps_held P i (insert r S) (case raw of None \<Rightarrow> aret ()
      | Some h \<Rightarrow> if h = [] then aret ()
        else abind (withMaskedFailedStep (sanitizeObjectForPostgresql h)) (\<lambda>md.
          abind (acall (Find_Execution_Of r (text_or_empty md ''projectId'')) as_row) (\<lambda>existing.
          abind (save_row P r md existing) (\<lambda>saved. case saved of
             None \<Rightarrow> aret ()
           | Some s \<Rightarrow>
               athen (mark_parent P s)
               (athen (case own md ''requestId'' of None \<Rightarrow> aret () | Some q \<Rightarrow> do_call (Delete_Hash_If (redisMetadataKey r) ''requestId'' q))
               (athen (finish_run existing md s)
               (resume_early P s)))))))" by (auto intro: held_basic split: option.split)
  qed simp_all
qed

lemma held_worker [held_rules]: "inj (idOf P) \<Longrightarrow> keeps_held P i S (metadata_worker P)"
  unfolding metadata_worker_def by (auto intro!: held_rules split: option.split)

end
