(* ===== verification/Run_Tasks.thy ===== *)
theory Run_Tasks
  imports Run_Guarantees
begin

text \<open>The tasks of the server about runs, and what holds in every interleaving of them.\<close>

datatype run_task =
    Answer string string "json option" "string option" "string option"
  | Answer_And_Wait string string string "json option" string
  | Pause string CreateForPauseParams
  | Fire_Timer delay_job
  | Report row
  | Store_Metadata
  | Cancel row

primrec task_prog :: "run_services \<Rightarrow> run_task \<Rightarrow> unit run_async" where
  "task_prog P (Answer e i payload handler request) = athen (resumeFromWaitpoint P e i payload handler request) (aret ())"
| "task_prog P (Answer_And_Wait server e i payload cid) = athen (handleSyncResumeWorkflow P server e i payload cid) (aret ())"
| "task_prog P (Pause project p) = athen (create_waitpoint_route project p) (aret ())"
| "task_prog P (Fire_Timer d) = resume_delay_handler P d"
| "task_prog P (Report params) = add_metadata params"
| "task_prog P Store_Metadata = metadata_worker P"
| "task_prog P (Cancel r) = cancelSingleRun r"

text \<open>Reports name their run, and identifiers of runs hold no zero character.\<close>

primrec task_named :: "run_task \<Rightarrow> bool" where
  "task_named (Answer e i payload handler request) = True"
| "task_named (Answer_And_Wait server e i payload cid) = True"
| "task_named (Pause project p) = True"
| "task_named (Fire_Timer d) = True"
| "task_named (Report params) = (case map_of params ''id'' of Some (JStr r) \<Rightarrow> CHR 0x00 \<notin> set r | _ \<Rightarrow> False)"
| "task_named Store_Metadata = True"
| "task_named (Cancel r) = (CHR 0x00 \<notin> set (text_or_empty r ''id''))"

lemma held_task:
  assumes "inj (idOf P)" and "task_named t"
  shows "keeps_held P i S (task_prog P t)"
proof (cases t)
  case (Report params)
  then obtain r where "map_of params ''id'' = Some (JStr r)" "CHR 0x00 \<notin> set r"
    using assms(2) by (auto split: option.splits json.splits)
  then show ?thesis by (simp add: Report held_harmless assms(1) add_metadata_harmless)
qed (use assms in \<open>auto intro!: held_rules\<close>)

text \<open>The start: no resume job is queued, waitpoints have identifiers that were drawn, and the hash of a run names it.\<close>

definition fresh_start :: "run_services \<Rightarrow> run_world \<Rightarrow> id_history \<Rightarrow> bool" where
  "fresh_start P w h \<longleftrightarrow> runJobs w = [] \<and> (\<forall>k g. hashes w k = Some g \<longrightarrow> own_hash k g) \<and> distinct (map wpId (waitpoints w)) \<and>
     (\<forall>v \<in> set (waitpoints w). wpId v \<in> idOf P ` {..< drawn w}) \<and>
     drawnBy h = Map.empty \<and> home h = map_of (map (\<lambda>v. (wpId v, wpExecution v)) (waitpoints w))"

lemma fresh_orderly: "fresh_start P w h \<Longrightarrow> orderly P (Map.empty, w, h)"
proof -
  assume f: "fresh_start P w h"
  have "home h (wpId v) = Some (wpExecution v)" if "v \<in> set (waitpoints w)" for v
    using f that unfolding fresh_start_def by (auto intro!: map_of_is_SomeI simp: comp_def)
  moreover have "\<exists>k < drawn w. x = idOf P k" if "home h x \<noteq> None" for x
  proof -
    have "x \<in> wpId ` set (waitpoints w)" using f that
      by (auto simp: fresh_start_def map_of_eq_None_iff image_image simp flip: not_None_eq)
    then show ?thesis using f by (auto simp: fresh_start_def)
  qed
  ultimately show ?thesis using f by (auto simp: orderly_def fresh_start_def job_keys_def clean_def)
qed

lemma orderly_reached:
  assumes "inj (idOf P)" and "\<And>i. task_named (tasks i)" and "progs c = (\<lambda>i. tag i (task_prog P (tasks i)))"
    and "owner c = Map.empty" and "services c = (w, h)" and "fresh_start P w h" and "pool_runs (answer_by P) c c'"
  shows "orderly P (owner c', services c')"
proof (rule pool_invariant [OF assms(7), where I = "orderly P" and R = "others_may P" and G = "may_do P"])
  fix i
  have "keeps P i (all_held i {}) (task_prog P (tasks i)) (\<lambda>_. all_held i {})"
    using held_task [OF assms(1,2)] unfolding keeps_held_def .
  then show "obeys (answer_by P) i (others_may P i) (may_do P i) (\<lambda>x c. orderly P c \<and> all_held i {} c) (progs c i) (owner c, services c)"
    using fresh_orderly [OF assms(6)] unfolding keeps_def assms(3-5) obeys_tag by (simp add: all_held_def)
next
  show "orderly P (owner c, services c)" using fresh_orderly [OF assms(6)] by (simp add: assms(4,5))
qed (blast intro: others_may_refl may_do_refl others_may_trans may_do_others | simp add: may_do_def)+

subsection \<open>One task at a time\<close>

text \<open>A program that takes the locks in \<open>a\<close> to the locks in \<open>b\<close>.\<close>

primrec lock_path :: "string set \<Rightarrow> string set \<Rightarrow> ('o, 'v, 'a) prog \<Rightarrow> bool" where
  "lock_path a b (Ret x) = (a = b)"
| "lock_path a b (Call op k) = (\<forall>v. lock_path a b (k v))"
| "lock_path a b (Lock l k) = (l \<notin> a \<and> lock_path (insert l a) b (k (Inr ())) \<and> (\<forall>e. lock_path a b (k (Inl e))))"
| "lock_path a b (Unlock l p) = (l \<in> a \<and> lock_path (a - {l}) b p)"

lemma brackets_tag: "brackets a (tag i p) = lock_path a {} p"
  by (induction p arbitrary: a) simp_all

named_theorems path_rules \<open>programs that give back every lock they take\<close>

lemma path_pbind: "lock_path a b p \<Longrightarrow> (\<And>x. lock_path b c (f x)) \<Longrightarrow> lock_path a c (pbind p f)"
  by (induction p arbitrary: a) auto

lemma path_basic [path_rules]: "lock_path a a (aret x)" "lock_path a a (athrow e)" "lock_path a a (acall op f)"
  by (simp_all add: aret_def athrow_def acall_def)

lemma path_abind [path_rules]: "lock_path a a p \<Longrightarrow> (\<And>x. lock_path a a (f x)) \<Longrightarrow> lock_path a a (abind p f)"
  unfolding abind_def by (rule path_pbind) (auto split: sum.split)

lemma path_athen [path_rules]: "lock_path a a p \<Longrightarrow> lock_path a a q \<Longrightarrow> lock_path a a (athen p q)"
  unfolding athen_def by (rule path_abind)

lemma path_flat: "all_calls Q (\<lambda>_. False) p \<Longrightarrow> lock_path a a p"
  by (induction p) auto

lemma path_runExclusive [path_rules]: "l \<notin> a \<Longrightarrow> lock_path (insert l a) (insert l a) p \<Longrightarrow> lock_path a a (runExclusive l p)"
  unfolding runExclusive_def by (auto split: sum.split intro!: path_pbind)

lemma path_answer: "lock_path {} {} (resumeFromWaitpoint P e i payload handler request)"
proof -
  have flat: "all_calls (\<lambda>_. True) (\<lambda>_. False) (enqueueResume P r v y h q)"
    "all_calls (\<lambda>_. True) (\<lambda>_. False) (getByExecutionId e)" "all_calls (\<lambda>_. True) (\<lambda>_. False) (findExecutionOrThrow e)" for r v y h q
    unfolding enqueueResume_def addRunToQueue_def Let_def onResume_def getByExecutionId_def findExecutionOrThrow_def
    by (auto intro!: calls_rules all_calls_mono [OF payload_harmless] all_calls_mono [OF id_or_new_harmless] split: option.split)
  show ?thesis
    unfolding resumeFromWaitpoint_def resumeFromWaitpointWithoutLock_def handleResumeSignal_def complete_def consume_completed_def
      deleteWaitpoint_def Let_def
    by (auto intro!: path_rules flat [THEN path_flat] split: option.split)
qed

definition perform_noted :: "run_services \<Rightarrow> nat \<times> run_call \<Rightarrow> run_state \<Rightarrow> run_reply result \<times> run_state" where
  "perform_noted P io s = (case run_perform P (snd io) (fst s) of (v, w') \<Rightarrow> (v, w', note_ids P (fst io) (fst s) w' (snd s)))"

lemma run_noted: "\<exists>h'. run (perform_noted P) (tag i p) (w, h) = (fst (alone P p w), snd (alone P p w), h')"
  by (induction p arbitrary: w h) (auto simp: perform_noted_def split: prod.split)

lemma answers_noted: "answer_by P io s (fst (perform_noted P io s)) (snd (perform_noted P io s))"
proof -
  have "run_answer P op w (fst (run_perform P op w)) (snd (run_perform P op w))" for op w
    by (cases op) (auto simp: run_answer_def finds_def find_None_iff find_Some_iff split: option.split)
  then show ?thesis by (simp add: answer_by_def perform_noted_def split_beta)
qed

lemma pool_alone:
  assumes "progs c i = tag i p" and "lock_path {} {} p" and "alone P p w = (x, w')" and "owner c = Map.empty" and "services c = (w, h)"
  shows "\<exists>h'. pool_runs (answer_by P) c (c\<lparr>progs := (progs c)(i := Ret x), owner := Map.empty, services := (w', h')\<rparr>)"
proof -
  obtain h' where "run (perform_noted P) (progs c i) (services c) = (x, w', h')"
    using run_noted [of P i p w h] assms(1,3,5) by auto
  moreover have "brackets {} (progs c i)" using assms(1,2) by (simp add: brackets_tag)
  ultimately show ?thesis using solo_runs [where held = "{}" and h = "perform_noted P" and H = "answer_by P" and c = c and i = i] answers_noted assms(4)
    by fastforce
qed

subsection \<open>All interleavings\<close>


end
