(* ===== verification/Run_Witnesses.thy ===== *)
theory Run_Witnesses
  imports Run_Properties Run_Tasks
begin

text \<open>A run with a stored state, a pause on its way to the row, and waitpoints; one instance per property.\<close>

definition sample_services :: run_services where
  "sample_services = \<lparr>idOf = (\<lambda>n. ''id'' @ show_nat n), tenantOf = (\<lambda>_. Inr ''t''), workflowExists = (\<lambda>_. True),
     sensitiveSteps = (\<lambda>_. []), privacyFor = (\<lambda>_ _ _. JNull), maskText = (\<lambda>_ m. m), publicUrl = (\<lambda>p. p),
     payloadBytes = (\<lambda>_. 10), inlineThresholdKb = 1, timeOf = (\<lambda>_. 0), responseTo = (\<lambda>_. JNull)\<rparr>"

definition sample_row :: "string \<Rightarrow> row" where
  "sample_row st = [(''id'', JStr ''e''), (''projectId'', JStr ''p''), (''status'', JStr st)]"

definition sample_waitpoint :: "string \<Rightarrow> string \<Rightarrow> WaitpointStatus \<Rightarrow> json option \<Rightarrow> waitpoint" where
  "sample_waitpoint i s st payload = \<lparr>wpId = i, wpExecution = ''e'', wpProject = ''p'', wpType = PauseWEBHOOK, wpVersion = V1,
     wpStatus = st, wpStep = s, wpResumeAt = None, wpResponse = None, wpHandler = None, wpRequest = None, wpPayload = payload\<rparr>"

definition sample_world :: "waitpoint list \<Rightarrow> run_world" where
  "sample_world ws = \<lparr>executions = [sample_row ''RUNNING''], waitpoints = ws, runJobs = [], delayJobs = [], payloadFiles = [],
     hashes = [redisMetadataKey ''e'' \<mapsto> sample_row ''PAUSED'' @ [(''requestId'', JStr ''r'')]], metadataJobs = [], dedupKeys = {},
     events = [], drawn = 0, merges = [], adding = [], unread = []\<rparr>"

lemma sample_facts:
  "find (has_id ''e'') (executions (sample_world ws)) = Some (sample_row ''RUNNING'')"
  "in_project ''p'' (sample_row st)" "text_or_empty (sample_row st) ''projectId'' = ''p''"
  "status_in (sample_row ''RUNNING'') = Some RunRUNNING" "tenantOf sample_services x = Inr ''t''"
  "sound sample_services (sample_world ws)" "waitpoints (sample_world ws) = ws"
  by (auto simp: sample_world_def sample_row_def has_id_def in_project_def text_or_empty_def text_in_def own_def status_in_iff
      sample_services_def sound_def inj_def dest: show_nat_inj)

lemma sample_pausing: "pausing (sample_world ws) ''e'' ''p''"
  by (simp add: pausing_def sample_world_def sample_row_def sanitizeObjectForPostgresql_def apply_to_object_def text_in_def own_def
      status_in_iff)

lemma sample_answers: "answers_of ''e'' (sample_world ws) = map answer_view (filter (\<lambda>v. wpExecution v = ''e'') ws)"
  by (simp add: answers_of_def sample_facts)

lemma sample_resumes: "resumes_of e (sample_world ws) = []"
  by (simp add: resumes_of_def sample_world_def)

theorem answer_exact_witness:
  "\<exists>stale w'. alone sample_services (resumeFromWaitpoint sample_services ''e'' ''w'' (Some (JBool True)) None None)
      (sample_world [sample_waitpoint ''w'' ''s'' PENDING None]) = (Inr (sample_row ''RUNNING'', stale), w') \<and> \<not> stale \<and>
    answers_of ''e'' w' = [(''w'', COMPLETED, Some (JBool True))]"
proof -
  have "find (has_id ''e'') (executions (sample_world [sample_waitpoint ''w'' ''s'' PENDING None])) = Some (sample_row ''RUNNING'')"
    "tenantOf sample_services (text_or_empty (sample_row ''RUNNING'') ''projectId'') = Inr ''t''"
    "sound sample_services (sample_world [sample_waitpoint ''w'' ''s'' PENDING None])"
    "distinct (map wpId (waitpoints (sample_world [sample_waitpoint ''w'' ''s'' PENDING None])))"
    by (simp_all add: sample_facts)
  from answer_exact [OF this, of "''w''" "Some (JBool True)" None None] show ?thesis
    by (auto simp: sample_facts sample_answers signal_spec_def sample_waitpoint_def answer_view_def not_nil_def)
qed

theorem answer_and_pause_commute_witness:
  "\<exists>w1 w2. alone sample_services (resumeFromWaitpoint sample_services ''e'' ''w'' (Some (JBool True)) None None)
      (sample_world [sample_waitpoint ''w'' ''s'' PENDING None]) = (Inr (sample_row ''RUNNING'', False), w1) \<and>
    alone sample_services (save_run_metadata sample_services ''e'') w1 = (Inr (), w2) \<and> answers_of ''e'' w2 = [] \<and>
    resumes_of ''e'' w2 = [(''e-resume-w'', Some (JBool True))]"
proof -
  let ?w = "sample_world [sample_waitpoint ''w'' ''s'' PENDING None]"
  have ready: "find (has_id ''e'') (executions ?w) = Some (sample_row ''RUNNING'')" "in_project ''p'' (sample_row ''RUNNING'')"
    "status_in (sample_row ''RUNNING'') = Some RunRUNNING \<or> status_in (sample_row ''RUNNING'') = Some RunQUEUED"
    "tenantOf sample_services ''p'' = Inr ''t''" "sound sample_services ?w" "distinct (map wpId (waitpoints ?w))"
    by (simp_all add: sample_facts)
  have waits: "(''w'', PENDING, None) \<in> set (answers_of ''e'' ?w)" "find completed (answers_of ''e'' ?w) = None"
    by (simp_all add: sample_answers sample_waitpoint_def answer_view_def not_nil_def completed_def)
  have "filter (\<lambda>a. fst a \<noteq> ''w'') (answers_of ''e'' ?w) = []"
    by (simp add: sample_answers sample_waitpoint_def answer_view_def)
  with answer_and_pause_commute [OF sample_pausing ready waits, of "Some (JBool True)" None None] show ?thesis
    by (simp add: sample_resumes not_nil_def resume_job_id_def)
qed

theorem early_answers_lose_payloads_witness:
  "\<exists>w'. alone sample_services (save_run_metadata sample_services ''e'')
      (sample_world [sample_waitpoint ''u'' ''a'' COMPLETED (Some (JNum 1)), sample_waitpoint ''v'' ''b'' COMPLETED (Some (JNum 2)),
        sample_waitpoint ''w'' ''c'' COMPLETED (Some (JNum 3))]) = (Inr (), w') \<and>
    filter completed (answers_of ''e'' w') = [(''w'', COMPLETED, Some (JNum 3))] \<and>
    resumes_of ''e'' w' = [(''e-resume-u'', Some (JNum 1)), (''e-resume-v'', Some (JNum 1))]"
proof -
  let ?w = "sample_world [sample_waitpoint ''u'' ''a'' COMPLETED (Some (JNum 1)), sample_waitpoint ''v'' ''b'' COMPLETED (Some (JNum 2)),
        sample_waitpoint ''w'' ''c'' COMPLETED (Some (JNum 3))]"
  have ready: "find (has_id ''e'') (executions ?w) = Some (sample_row ''RUNNING'')" "in_project ''p'' (sample_row ''RUNNING'')"
    "tenantOf sample_services ''p'' = Inr ''t''" "sound sample_services ?w" "distinct (map wpId (waitpoints ?w))"
    by (simp_all add: sample_facts sample_waitpoint_def)
  have "filter completed (answers_of ''e'' ?w) = (''u'', COMPLETED, Some (JNum 1)) # (''v'', COMPLETED, Some (JNum 2))
      # [(''w'', COMPLETED, Some (JNum 3))]"
    by (simp add: sample_answers sample_waitpoint_def answer_view_def not_nil_def completed_def)
  from early_answers_lose_payloads [OF sample_pausing ready this] show ?thesis
    by (simp add: sample_resumes resume_job_id_def)
qed

theorem early_timer_lost_witness:
  "\<exists>w'. alone sample_services (resume_delay_handler sample_services \<lparr>delayExecution = ''e'', delayProject = ''p'', delayWaitpoint = ''w'',
        delayUntil = ''now'', delayFailed = False\<rparr>) (sample_world [sample_waitpoint ''w'' ''s'' PENDING None]) =
      (Inr (), sample_world [sample_waitpoint ''w'' ''s'' PENDING None]) \<and>
    alone sample_services (save_run_metadata sample_services ''e'') (sample_world [sample_waitpoint ''w'' ''s'' PENDING None]) = (Inr (), w') \<and>
    answers_of ''e'' w' = [(''w'', PENDING, None)] \<and> resumes_of ''e'' w' = []"
proof -
  let ?w = "sample_world [sample_waitpoint ''w'' ''s'' PENDING None]"
  let ?d = "\<lparr>delayExecution = ''e'', delayProject = ''p'', delayWaitpoint = ''w'', delayUntil = ''now'', delayFailed = False\<rparr>"
  have ready: "pausing ?w (delayExecution ?d) (delayProject ?d)"
    "find (has_id (delayExecution ?d)) (executions ?w) = Some (sample_row ''RUNNING'')"
    "in_project (delayProject ?d) (sample_row ''RUNNING'')" "status_in (sample_row ''RUNNING'') \<noteq> Some RunPAUSED"
    "tenantOf sample_services (delayProject ?d) = Inr ''t''" "sound sample_services ?w" "distinct (map wpId (waitpoints ?w))"
    using sample_pausing by (simp_all add: sample_facts)
  have "find completed (answers_of (delayExecution ?d) ?w) = None"
    by (simp add: sample_answers sample_waitpoint_def answer_view_def completed_def)
  from early_timer_lost [OF ready this] show ?thesis
    by (simp add: sample_resumes sample_answers) (simp add: sample_waitpoint_def answer_view_def not_nil_def)
qed

subsection \<open>Two answers to one waitpoint\<close>

definition paused_world :: run_world where
  "paused_world = (sample_world [sample_waitpoint ''id0'' ''s'' PENDING None])\<lparr>executions := [sample_row ''PAUSED''], drawn := 1\<rparr>"

definition sample_history :: id_history where
  "sample_history = \<lparr>drawnBy = Map.empty, home = [''id0'' \<mapsto> ''e'']\<rparr>"

definition two_answers :: "(nat \<times> run_call, run_reply, unit result, run_state) pool" where
  "two_answers = \<lparr>progs = (\<lambda>i. tag i (task_prog sample_services (Answer ''e'' ''id0'' (Some (JBool True)) None None))),
     owner = Map.empty, services = (paused_world, sample_history)\<rparr>"

lemma sample_start: "fresh_start sample_services paused_world sample_history"
proof -
  have "show_nat 0 = ''0''" by code_simp
  then show ?thesis
    by (auto simp: fresh_start_def paused_world_def sample_world_def sample_history_def sample_waitpoint_def sample_services_def
        own_hash_def sample_row_def)
qed

lemma answers_run: "\<exists>w' h'. pool_runs (answer_by sample_services) two_answers (two_answers\<lparr>progs := (progs two_answers)(0 := Ret (Inr ()), 1 := Ret (Inr ())),
    owner := Map.empty, services := (w', h')\<rparr>) \<and> resumes_of ''e'' w' = [(''e-resume-id0'', Some (JBool True))]"
proof -
  let ?go = "resumeFromWaitpointWithoutLock sample_services ''e'' ''id0'' (Some (JBool True)) None None"
  let ?task = "task_prog sample_services (Answer ''e'' ''id0'' (Some (JBool True)) None None)"
  have start: "find (has_id ''e'') (executions paused_world) = Some (sample_row ''PAUSED'')" "status_in (sample_row ''PAUSED'') = Some RunPAUSED"
    "sound sample_services paused_world" "distinct (map wpId (waitpoints paused_world))"
    "answers_of ''e'' paused_world = [(''id0'', PENDING, None)]" "resumes_of ''e'' paused_world = []"
    by (auto simp: paused_world_def sample_world_def sample_row_def has_id_def text_in_def own_def status_in_iff sound_def inj_def
        sample_services_def answers_of_def resumes_of_def sample_waitpoint_def answer_view_def not_nil_def dest: show_nat_inj)
  obtain s1 w1 where w1: "alone sample_services ?go paused_world = (Inr (sample_row ''PAUSED'', s1), w1)" "keeps_rest sample_services paused_world w1"
    "answers_of ''e'' w1 = []" "resumes_of ''e'' w1 = [(''e-resume-id0'', Some (JBool True))]"
    using signal_refines [OF start(1) _ start(3,4), of "''t''" "''id0''" "Some (JBool True)" None None]
    by (auto simp: start(2,5,6) sample_facts signal_spec_def resume_job_id_def not_nil_def)
  have next_start: "find (has_id ''e'') (executions w1) = Some (sample_row ''PAUSED'')" "sound sample_services w1" "distinct (map wpId (waitpoints w1))"
    using w1(2) start by (simp_all add: keeps_rest_def)
  obtain s2 w2 where w2: "alone sample_services ?go w1 = (Inr (sample_row ''PAUSED'', s2), w2)"
    "resumes_of ''e'' w2 = [(''e-resume-id0'', Some (JBool True))]"
    using signal_refines [OF next_start(1) _ next_start(2,3), of "''t''" "''id0''" "Some (JBool True)" None None]
    by (auto simp: start(2) w1(3,4) sample_facts signal_spec_def)
  have path: "lock_path {} {} ?task" by (auto intro: path_rules path_answer)
  have first: "alone sample_services ?task paused_world = (Inr (), w1)" by (simp add: run_simps resumeFromWaitpoint_def w1(1))
  have second: "alone sample_services ?task w1 = (Inr (), w2)" by (simp add: run_simps resumeFromWaitpoint_def w2(1))
  obtain h1 where h1: "pool_runs (answer_by sample_services) two_answers
      (two_answers\<lparr>progs := (progs two_answers)(0 := Ret (Inr ())), owner := Map.empty, services := (w1, h1)\<rparr>)"
    using pool_alone [OF _ path first, of two_answers 0 sample_history] by (auto simp: two_answers_def)
  obtain h2 where "pool_runs (answer_by sample_services) (two_answers\<lparr>progs := (progs two_answers)(0 := Ret (Inr ())), owner := Map.empty, services := (w1, h1)\<rparr>)
      (two_answers\<lparr>progs := (progs two_answers)(0 := Ret (Inr ()), 1 := Ret (Inr ())), owner := Map.empty, services := (w2, h2)\<rparr>)"
    using pool_alone [OF _ path second, of "two_answers\<lparr>progs := (progs two_answers)(0 := Ret (Inr ())), owner := Map.empty, services := (w1, h1)\<rparr>" 1 h1]
    by (auto simp: two_answers_def)
  with h1 w2(2) show ?thesis by (blast intro: pool_runs_trans)
qed


end
