(* ===== verification/Spec2Isabelle.thy ===== *)
theory Spec2Isabelle
  imports Engine_Witnesses Utility_Witnesses Server_Witnesses Operation_Witnesses
    Run_Witnesses
begin

text \<open>
  Verification of the workflow core of an integration platform: the editing model of workflows
  (\<open>packages/core/execution\<close>), the engine that runs them (\<open>packages/server/engine\<close>), and the parts of the server
  (\<open>packages/server/api\<close>) that decide when a run may start and what a poll of a trigger may lose. File names below
  are relative to \<open>core/execution/src/lib\<close>, to \<open>server/engine/src/lib\<close> where marked (engine), or to
  \<open>server/api/src/app\<close> where marked (server).

  \<^bold>\<open>The program.\<close> A workflow version is a tree of steps: a trigger, then actions linked by \<open>nextAction\<close>,
  with children inside loops, routers, parallel steps and the success and failure branches of code,
  component and connector steps. Editors change it by operations; each operation is checked, applied to
  the tree, and followed by renumbering and a new validity flag. To run a version the engine compiles it
  (or the subtree of a branch) to an execution plan, walks the plan, calls one executor per step, and
  records the results in a journal that mirrors the nesting of loop iterations. Failures pass through
  retry loops and error strategies; limits on steps, payloads and log size end a run early. Before that the
  server has taken the job from a queue and passed it through a chain of interceptors, which count the jobs of
  the tenant, the project, the instance and the workflow in sorted sets that all processes share.

  \<^bold>\<open>Library.\<close>
  \<^item> \<open>Prelude\<close>: errors as a sum type (\<open>result\<close>, \<open>rbind\<close>), JSON values, records as association lists with
    the inherited names of \<open>Object.prototype\<close> (\<open>js_has\<close>), array and text operations of the language.
  \<^item> \<open>JS_Number\<close>: \<open>Number(text)\<close> with its literals, infinities and \<open>NaN\<close>; decimal texts read back.
  \<^item> \<open>Effects\<close>: asynchronous engine code as computations on the outside world, with the judgements
    \<open>sat\<close> (every returned value satisfies a property) and \<open>ends\<close> (always returns or throws) and their
    rule collections \<open>sat_rules\<close> and \<open>ends_rules\<close>.

  \<^bold>\<open>Editing model.\<close>
  \<^item> \<open>Error_Handling\<close>: \<open>workflows/actions/error-handling.ts\<close>, \<open>execution/retry-safety.ts\<close>,
    \<open>execution/reliability.ts\<close>: strategies, rules, retry policies, retry decisions.
  \<^item> \<open>Workflow_Model\<close>: actions, triggers, versions, notes, join edges as data types.
  \<^item> \<open>Structure_Util\<close>, \<open>Structure_Lemmas\<close>: \<open>workflows/util/workflow-structure-util.ts\<close>: traversal
    (\<open>transferStep\<close> with the stack it needs), lookup, names; the uniform view of a step by its slots.
  \<^item> \<open>Step_Display_Number\<close>: \<open>workflows/util/step-display-number.ts\<close>.
  \<^item> \<open>Operation_Requests\<close>, \<open>Tree_Operations\<close>, \<open>Action_Cloning\<close>, \<open>Operations\<close>:
    \<open>workflows/operations\<close>: requests, the operations on the tree, copies with new names, the dispatcher
    and the composite operations (import, duplicate, move, copy, paste).
  \<^item> \<open>Local_Update\<close>, \<open>Tree_Correctness\<close>, \<open>Workflow_Invariant\<close>: an operation at one step changes the names of
    the tree by exactly what it changes there; every operation keeps names unique, the trigger at the root
    and the branches of routers and parallel steps in step with their children.
  \<^item> \<open>Component_Properties\<close>: functional behaviour, errors and termination of single components.

  \<^bold>\<open>Plans.\<close> \<open>Execution_Plan\<close> is \<open>workflows/execution-plan/compile-workflow.ts\<close> and the engine's
  \<open>handler/execution-plan-cursor.ts\<close>. \<open>Plan_Correctness\<close> shows that the compiled dependencies are the edges of the
  tree and the join edges, that the ancestor loop computes the transitive closure, and that the cycle
  check of the editor is exact.

  \<^bold>\<open>Journal.\<close> \<open>Execution_Journal\<close> is \<open>execution/state/execution-journal.ts\<close> and \<open>step-output.ts\<close>;
  \<open>Journal_Laws\<close> has the laws of reads and writes (also as the locale of a store, interpreted on the
  journal), \<open>Journal_Refinement\<close> the refinement to a flat map from positions to results.

  \<^bold>\<open>Engine.\<close>
  \<^item> \<open>Engine_Context\<close>: (engine) \<open>handler/context/workflow-execution-context.ts\<close>, \<open>step-execution-path.ts\<close>,
    \<open>helper/sizeof.ts\<close>, \<open>helper/logging-utils.ts\<close>. \<open>Engine_Log_Size\<close>: one write changes the kept size by what
    it changes in the journal.
  \<^item> \<open>Router_Conditions\<close>: the conditions of (engine) \<open>handler/router-executor.ts\<close>.
  \<^item> \<open>Step_Retry\<close>, \<open>Step_Retry_Laws\<close>: (engine) \<open>helper/run-limits.ts\<close> and \<open>helper/error-handling.ts\<close>; the retries
    end and stay within the policy of the step.
  \<^item> \<open>Engine\<close>: the executors of (engine) \<open>handler\<close>, one definition per \<open>handle\<close> and \<open>executeAction\<close>, and
    \<open>workflow-executor.ts\<close>.
  \<^item> \<open>Engine_Laws\<close>: the locales \<open>run_relation\<close> and \<open>executor_run\<close>: what every elementary update of the context respects,
    every run respects. \<open>Engine_Invariants\<close> interprets them for the size of the log, the counters and the recorded steps.
  \<^item> \<open>Engine_Termination\<close>: every run ends. \<open>Engine_Properties\<close>: routers, resumption, limits, joins.
  \<^item> \<open>Engine_Operation\<close>: (engine) \<open>operations/workflow.operation.ts\<close>, \<open>operations/utils/resolve-job-payload.ts\<close> and
    \<open>handler/context/test-execution-context.ts\<close>: from the job of a worker to a run, begun, resumed or a test of one step.
    \<open>Operation_Laws\<close>: which errors leave it and that it ends. \<open>Resume_Laws\<close>: what of a stored journal a resumed run starts
    with. \<open>Operation_Properties\<close>, \<open>Operation_Witnesses\<close>: its claims and their instances.
  \<^item> \<open>Witnesses\<close>, \<open>Engine_Witnesses\<close>: a sample workflow, a sample engine and a run of it, and one instance per property with
    hypotheses.

  \<^bold>\<open>Helper modules.\<close> File names are relative to \<open>core/utils/src/lib\<close> unless they say otherwise.
  \<^item> \<open>Canvas_Layout\<close>: \<open>workflows/util/workflow-canvas-util.ts\<close> of \<open>core/execution\<close>: boxes and positions of steps.
    \<open>Canvas_Correctness\<close>: no two steps overlap, none is left out; three composition rules for layouts carry the proof.
  \<^item> \<open>Ip_Classifier\<close>, \<open>Ssrf_Guard\<close>: \<open>ssrf-ip-classifier.ts\<close> and (engine) \<open>network\<close>: which addresses may be reached, and
    the wrappers around name lookup and connections. \<open>Ssrf_Safety\<close>: installation and removal as a step relation with its
    invariant, and the locale \<open>guarded_call\<close>, interpreted for the three wrapped functions.
  \<^item> \<open>Org_Tree_Plan\<close>: \<open>org-tree-plan.ts\<close>: the plan that brings departments of a target in line with a source; the walk ends on
    every input, cyclic ones included. \<open>Org_Tree_Correctness\<close>: parents come first, targets are different, nothing is forgotten;
    three interpretations of the locale \<open>walk_invariant\<close>.
  \<^item> \<open>Byte_Lru_Cache\<close>: \<open>byte-lru-cache.ts\<close>. \<open>Prop_Keys\<close>: (engine) \<open>helper/dynamic-prop-keys.ts\<close>.
    \<open>Message_Markers\<close>: \<open>fix-owner.ts\<close> and \<open>blocked-until.ts\<close>.
  \<^item> \<open>Utility_Witnesses\<close>: instances of their properties, and the examples behind the findings about them.

  \<^bold>\<open>Server.\<close> The functions of the server run concurrently, in several processes.
  \<^item> \<open>Async_Programs\<close>: an asynchronous function as the tree of its calls, run alone (\<open>run\<close>) or interleaved with any
    number of others (\<open>pool_step\<close>), with distributed locks; rely and guarantee (\<open>obeys\<close>, \<open>pool_invariant\<close>).
  \<^item> \<open>Job_Services\<close>: the calls on Redis, the database and the job queue; the locale \<open>sorted_sets\<close> has what Redis documents of
    sorted sets, \<open>list_sets\<close> is an instance; \<open>may_answer\<close> lets calls fail and keys expire.
  \<^item> \<open>Concurrency_Gate\<close>: (server) \<open>workers/job-queue/interceptors/workflow-concurrency-gate.ts\<close>, its interceptor and the distributed
    lock. \<open>Gate_Laws\<close>: the gate alone decides like its specification. \<open>Gate_Order\<close>: order keys.
  \<^item> \<open>Run_Admission\<close>: the other interceptors, the chain, and what \<open>job-broker.ts\<close> does with it. \<open>Admission_Laws\<close>: slots are
    given back. \<open>Admission_Limits\<close>: the limits hold in every interleaving.
  \<^item> \<open>Poll_Cursor_Guard\<close>, \<open>Poll_Cursor_Laws\<close>: (server) \<open>trigger/poll-cursor-guard.ts\<close>.
  \<^item> \<open>Server_Properties\<close>, \<open>Server_Witnesses\<close>: the claims and their instances.
  \<^item> \<open>Run_Store\<close>: rows of runs and waitpoints, pending metadata, timers and queues, and the calls on them.
    \<open>Waitpoints\<close>: (server) \<open>workflows/execution/waitpoint\<close>, \<open>addToQueue\<close> and the delay timers: how a paused run is answered and put
    back into the queue. \<open>Run_Metadata\<close>: (server) \<open>workflows/execution/executions-queue.ts\<close> and
    \<open>workers/job/runs-metadata-queue-factory.ts\<close>: how the state of a run reaches its row, and what follows from it.
  \<^item> \<open>Waitpoint_Laws\<close>, \<open>Pause_Laws\<close>: these operations refine \<open>signal_spec\<close> and \<open>pause_spec\<close> on the view of one run.
    \<open>Run_Interleavings\<close>: the invariant, the rely and the guarantee under which such operations run at once, each call failing
    as it may; \<open>Run_Interleaving_Laws\<close>, \<open>Run_Guarantees\<close>: every operation keeps to them, by one rule per way of composing
    programs; \<open>Run_Tasks\<close>: what holds in every interleaving. The invariant speaks of a history of identifiers (who drew
    one, which run it was first used for) that stands beside the world. Answers to a run without a waitpoint row
    (\<open>legacyResume\<close>) are not among the tasks: they name all jobs of a run alike.
    \<open>Run_Properties\<close>, \<open>Run_Witnesses\<close>: the other claims, and the instances.

  \<^bold>\<open>Bounds and fuel.\<close> The stack of \<open>transferStep\<close> is a parameter; it is enough when it exceeds the number of steps.
  The retry loops count down the retries they may still make and never reach zero (\<open>ends_backoff\<close>). \<open>execute\<close> is bounded in its
  nesting and in the length of a walk by one number; \<open>run_ends\<close> shows that any number above the count of
  steps is enough, so the model never stops where the program would not.

  \<^bold>\<open>Parameters.\<close> Code outside the model is an argument: the schema check \<open>safeParse\<close>, the clock, and for the engine the
  fields of \<open>language\<close> (number formatting, \<open>JSON.parse\<close>, dates), \<open>runtime\<close> (clocks, file store, progress reports) and
  \<open>services\<close> (resolver, sandbox, components, connectors, error classification). Nothing is assumed about their answers;
  each call is taken to answer. The network guard takes the package \<open>ipaddr.js\<close> (\<open>ipaddr\<close>) and the functions of the Node
  runtime (\<open>platform\<close>), the organisation plan the comparison of strings by locale, the marker of dates their conversion. The engine operation takes
  \<open>operation_services\<close> (files, stored logs, the connector of the trigger), the server the sorted sets (\<open>redis\<close>) under the laws of
  \<open>sorted_sets\<close> and the hash of gate keys, and \<open>run_services\<close> (generated identifiers, tenants, privacy, sizes).

  \<^bold>\<open>Simplifications.\<close> Text consists of code units below 256. The branches of a parallel step run one after the other. Numbers of
  the engine are exact rationals; step counts and delays are far below the range where this matters. A run does
  not consult the cache of downloaded slices. A distributed lock is not lost while it is held; a query that may return
  several rows returns the first; calls the server makes with \<open>Promise.all\<close> follow one another; the status of tenants is
  read, not cached in the process. Progress reports are calls whose failure the source ignores.

  \<^bold>\<open>Not modelled.\<close> The classification of error messages by regular expressions and the search for
  references in expressions; privacy masking and log redaction, which rest on the same kind of patterns; the formula language; the props resolver and the sandbox of the engine; connectors, the rest of the server, workers, the web
  application and the command line, which are bindings, queries, I/O or user interface.
\<close>

end
